(* ===== verification/Prelude.thy ===== *)
theory Prelude
  imports Main
begin

text \<open>
  What every component of the development shares: the collections the component proofs are
  driven by, the state-and-exception monad that stands for Python code that awaits, mutates
  and raises, and the relational table (a list of rows) that stands for a Postgres table
  seen through SQLAlchemy: \<open>SELECT ... WHERE\<close>, \<open>UPDATE ... WHERE ... RETURNING\<close>,
  \<open>INSERT\<close> and \<open>DELETE\<close>, with the lemmas on keys, frames and lookups that every
  service uses. The interface of a table whose rows carry an immutable key is the locale
  \<open>keyed_rows\<close>.
\<close>

named_theorems table_simps \<open>rewriting of table operations\<close>
named_theorems monad_simps \<open>rewriting of state-and-exception computations\<close>
named_theorems inv_intros \<open>preservation of a component's invariant by its operations\<close>

section \<open>State and exceptions\<close>

text \<open>
  A Python coroutine over a mutable state: it ends with an exception (\<open>Inl\<close>) or a
  value (\<open>Inr\<close>), and in both cases the state it has reached so far is kept, as the side
  effects of Python code that raises are.
\<close>

type_synonym ('s, 'e, 'a) comp = "'s \<Rightarrow> ('e + 'a) \<times> 's"

definition returnS :: "'a \<Rightarrow> ('s, 'e, 'a) comp" where
  "returnS a = (\<lambda>s. (Inr a, s))"

definition raiseS :: "'e \<Rightarrow> ('s, 'e, 'a) comp" where
  "raiseS e = (\<lambda>s. (Inl e, s))"

definition bindS :: "('s, 'e, 'a) comp \<Rightarrow> ('a \<Rightarrow> ('s, 'e, 'b) comp) \<Rightarrow> ('s, 'e, 'b) comp" where
  "bindS m f = (\<lambda>s. case m s of (Inl e, s') \<Rightarrow> (Inl e, s') | (Inr a, s') \<Rightarrow> f a s')"

definition catchS :: "('s, 'e, 'a) comp \<Rightarrow> ('e \<Rightarrow> ('s, 'e, 'a) comp) \<Rightarrow> ('s, 'e, 'a) comp" where
  "catchS m h = (\<lambda>s. case m s of (Inl e, s') \<Rightarrow> h e s' | (Inr a, s') \<Rightarrow> (Inr a, s'))"

lemma returnS_apply [simp, monad_simps]: "returnS a s = (Inr a, s)"
  by (simp add: returnS_def)

lemma raiseS_apply [simp, monad_simps]: "raiseS e s = (Inl e, s)"
  by (simp add: raiseS_def)

lemma bindS_apply [monad_simps]:
  "bindS m f s = (case m s of (Inl e, s') \<Rightarrow> (Inl e, s') | (Inr a, s') \<Rightarrow> f a s')"
  by (simp add: bindS_def)

lemma catchS_apply [monad_simps]:
  "catchS m h s = (case m s of (Inl e, s') \<Rightarrow> h e s' | (Inr a, s') \<Rightarrow> (Inr a, s'))"
  by (simp add: catchS_def)

lemma bindS_Inr:
  "m s = (Inr a, s') \<Longrightarrow> bindS m f s = f a s'"
  by (simp add: bindS_def)

lemma bindS_Inl:
  "m s = (Inl e, s') \<Longrightarrow> bindS m f s = (Inl e, s')"
  by (simp add: bindS_def)

lemma catchS_Inr:
  "m s = (Inr a, s') \<Longrightarrow> catchS m h s = (Inr a, s')"
  by (simp add: catchS_def)

lemma catchS_Inl:
  "m s = (Inl e, s') \<Longrightarrow> catchS m h s = h e s'"
  by (simp add: catchS_def)

lemmas comp_steps = bindS_Inr bindS_Inl catchS_Inr catchS_Inl

lemma bindS_eq_Inr_iff:
  "bindS m f s = (Inr b, t) \<longleftrightarrow> (\<exists>a s'. m s = (Inr a, s') \<and> f a s' = (Inr b, t))"
  by (auto simp: bindS_def split: prod.splits sum.splits)

text \<open>A pure step that may raise, and the sequencing and mapping of such steps.\<close>

definition liftS :: "'e + 'a \<Rightarrow> ('s, 'e, 'a) comp" where
  "liftS r = (\<lambda>s. (r, s))"

lemma liftS_apply [simp, monad_simps]: "liftS r s = (r, s)"
  by (simp add: liftS_def)

definition bindR :: "'e + 'a \<Rightarrow> ('a \<Rightarrow> 'e + 'b) \<Rightarrow> 'e + 'b" where
  "bindR r f = (case r of Inl e \<Rightarrow> Inl e | Inr a \<Rightarrow> f a)"

lemma bindR_simps [simp]: "bindR (Inl e) f = Inl e" "bindR (Inr a) f = f a"
  by (simp_all add: bindR_def)

lemma bindR_eq_Inr_iff: "bindR r f = Inr b \<longleftrightarrow> (\<exists>a. r = Inr a \<and> f a = Inr b)"
  by (cases r) auto

fun mapR :: "('a \<Rightarrow> 'e + 'b) \<Rightarrow> 'a list \<Rightarrow> 'e + 'b list" where
  "mapR f [] = Inr []"
| "mapR f (x # xs) = bindR (f x) (\<lambda>y. bindR (mapR f xs) (\<lambda>ys. Inr (y # ys)))"

lemma mapR_Inr_iff: "mapR f xs = Inr ys \<longleftrightarrow> list_all2 (\<lambda>x y. f x = Inr y) xs ys"
proof (induction xs arbitrary: ys)
  case (Cons x xs)
  then show ?case by (cases ys) (auto simp: bindR_eq_Inr_iff)
qed auto

lemma mapR_Inl: "x \<in> set xs \<Longrightarrow> f x = Inl e \<Longrightarrow> \<exists>e'. mapR f xs = Inl e'"
proof (induction xs)
  case (Cons y xs)
  show ?case
  proof (cases "f y")
    case (Inr b)
    with Cons.prems have "x \<in> set xs" by auto
    with Cons obtain e' where "mapR f xs = Inl e'" by blast
    with Inr show ?thesis by simp
  qed simp
qed simp

text \<open>
  A relation between start and end state that is reflexive and transitive is kept by a
  computation built from parts that keep it: the rule the frame lemmas of the stateful
  components use.
\<close>

definition keepsS :: "('s \<Rightarrow> 's \<Rightarrow> bool) \<Rightarrow> ('s, 'e, 'a) comp \<Rightarrow> bool" where
  "keepsS R m \<longleftrightarrow> (\<forall>s. R s (snd (m s)))"

lemma keepsSI: "(\<And>s. R s (snd (m s))) \<Longrightarrow> keepsS R m"
  by (simp add: keepsS_def)

lemma keepsSD: "keepsS R m \<Longrightarrow> m s = (r, t) \<Longrightarrow> R s t"
  by (metis keepsS_def snd_conv)

lemma keepsS_return: "reflp R \<Longrightarrow> keepsS R (returnS a)"
  by (simp add: keepsS_def reflp_def)

lemma keepsS_raise: "reflp R \<Longrightarrow> keepsS R (raiseS e)"
  by (simp add: keepsS_def reflp_def)

lemma keepsS_bind:
  assumes "transp R" and "keepsS R m" and "\<And>a. keepsS R (f a)"
  shows "keepsS R (bindS m f)"
proof (rule keepsSI)
  fix s
  obtain r s' where ms: "m s = (r, s')" by fastforce
  with assms(2) have "R s s'" by (rule keepsSD)
  show "R s (snd (bindS m f s))"
  proof (cases r)
    case (Inl e)
    with ms \<open>R s s'\<close> show ?thesis by (simp add: bindS_def)
  next
    case (Inr a)
    have "R s' (snd (f a s'))" using assms(3) by (simp add: keepsS_def)
    with assms(1) \<open>R s s'\<close> have "R s (snd (f a s'))" by (rule transpD)
    with Inr ms show ?thesis by (simp add: bindS_def)
  qed
qed

lemma keepsS_catch:
  assumes "transp R" and "keepsS R m" and "\<And>e. keepsS R (h e)"
  shows "keepsS R (catchS m h)"
proof (rule keepsSI)
  fix s
  obtain r s' where ms: "m s = (r, s')" by fastforce
  with assms(2) have "R s s'" by (rule keepsSD)
  show "R s (snd (catchS m h s))"
  proof (cases r)
    case (Inr a)
    with ms \<open>R s s'\<close> show ?thesis by (simp add: catchS_def)
  next
    case (Inl e)
    have "R s' (snd (h e s'))" using assms(3) by (simp add: keepsS_def)
    with assms(1) \<open>R s s'\<close> have "R s (snd (h e s'))" by (rule transpD)
    with Inl ms show ?thesis by (simp add: catchS_def)
  qed
qed

lemmas keepsS_intros = keepsS_return keepsS_raise keepsS_bind keepsS_catch

section \<open>Tables\<close>

text \<open>
  A table is the list of its rows in heap order. \<open>update_where P f\<close> is
  \<open>UPDATE ... SET f WHERE P RETURNING *\<close>: every matching row is rewritten in one atomic
  statement (the right-hand sides of \<open>SET\<close> read the old row), and the rewritten rows are
  returned.
\<close>

definition select_where :: "('r \<Rightarrow> bool) \<Rightarrow> 'r list \<Rightarrow> 'r list" where
  "select_where P tb = filter P tb"

definition update_rows :: "('r \<Rightarrow> bool) \<Rightarrow> ('r \<Rightarrow> 'r) \<Rightarrow> 'r list \<Rightarrow> 'r list" where
  "update_rows P f tb = map (\<lambda>r. if P r then f r else r) tb"

definition update_where :: "('r \<Rightarrow> bool) \<Rightarrow> ('r \<Rightarrow> 'r) \<Rightarrow> 'r list \<Rightarrow> 'r list \<times> 'r list" where
  "update_where P f tb = (map f (filter P tb), update_rows P f tb)"

definition delete_where :: "('r \<Rightarrow> bool) \<Rightarrow> 'r list \<Rightarrow> 'r list" where
  "delete_where P tb = filter (\<lambda>r. \<not> P r) tb"

definition insert_row :: "'r \<Rightarrow> 'r list \<Rightarrow> 'r list" where
  "insert_row r tb = tb @ [r]"

text \<open>\<open>session.get(Row, key)\<close>: the row with a primary key, if there is one.\<close>

definition get_row :: "('r \<Rightarrow> 'k) \<Rightarrow> 'k \<Rightarrow> 'r list \<Rightarrow> 'r option" where
  "get_row key k tb = find (\<lambda>r. key r = k) tb"

lemma set_select_where [simp, table_simps]:
  "set (select_where P tb) = {r \<in> set tb. P r}"
  by (simp add: select_where_def)

lemma length_update_rows [simp, table_simps]: "length (update_rows P f tb) = length tb"
  by (simp add: update_rows_def)

lemma update_rows_Nil [simp, table_simps]: "update_rows P f [] = []"
  by (simp add: update_rows_def)

lemma update_rows_Cons [simp, table_simps]:
  "update_rows P f (r # tb) = (if P r then f r else r) # update_rows P f tb"
  by (simp add: update_rows_def)

lemma fst_update_where [simp, table_simps]: "fst (update_where P f tb) = map f (filter P tb)"
  by (simp add: update_where_def)

lemma snd_update_where [simp, table_simps]: "snd (update_where P f tb) = update_rows P f tb"
  by (simp add: update_where_def)

lemma in_update_rows [table_simps]:
  "r' \<in> set (update_rows P f tb) \<longleftrightarrow>
     (\<exists>r \<in> set tb. (P r \<and> r' = f r) \<or> (\<not> P r \<and> r' = r))"
  by (auto simp: update_rows_def)

lemma update_rows_no_match:
  "(\<And>r. r \<in> set tb \<Longrightarrow> \<not> P r) \<Longrightarrow> update_rows P f tb = tb"
  by (induction tb) auto

lemma set_insert_row [simp, table_simps]: "set (insert_row r tb) = insert r (set tb)"
  by (simp add: insert_row_def)

lemma set_delete_where [simp, table_simps]: "set (delete_where P tb) = {r \<in> set tb. \<not> P r}"
  by (auto simp: delete_where_def)

lemma get_row_Some:
  "get_row key k tb = Some r \<Longrightarrow> r \<in> set tb \<and> key r = k"
  by (auto simp: get_row_def find_Some_iff)

lemma get_row_None [table_simps]:
  "get_row key k tb = None \<longleftrightarrow> k \<notin> key ` set tb"
  by (auto simp: get_row_def find_None_iff)

lemma get_row_Cons [simp]:
  "get_row key k (r # tb) = (if key r = k then Some r else get_row key k tb)"
  by (simp add: get_row_def)

lemma get_row_Nil [simp]: "get_row key k [] = None"
  by (simp add: get_row_def)

subsection \<open>Lookups by a unique key\<close>

lemma get_row_in:
  "distinct (map key tb) \<Longrightarrow> r \<in> set tb \<Longrightarrow> get_row key (key r) tb = Some r"
  by (induction tb) (force simp: get_row_def)+

lemma get_row_iff:
  assumes "distinct (map key tb)"
  shows "get_row key k tb = Some r \<longleftrightarrow> r \<in> set tb \<and> key r = k"
  by (auto dest: get_row_Some intro: get_row_in [OF assms])

lemma distinct_key_eq:
  assumes "distinct (map key tb)" and "r \<in> set tb" and "r' \<in> set tb" and "key r = key r'"
  shows "r = r'"
proof -
  have "Some r = get_row key (key r') tb"
    using get_row_in [OF assms(1,2)] unfolding assms(4) by (rule sym)
  also have "\<dots> = Some r'" by (rule get_row_in [OF assms(1,3)])
  finally show ?thesis by (rule option.inject [THEN iffD1])
qed

lemma filter_key_singleton:
  assumes "distinct (map key tb)" and "r \<in> set tb" and "P r"
    and "\<And>r'. r' \<in> set tb \<Longrightarrow> P r' \<Longrightarrow> key r' = key r"
  shows "filter P tb = [r]"
  using assms
proof (induction tb)
  case Nil
  then show ?case by simp
next
  case (Cons x tb)
  have x: "key x \<notin> key ` set tb" using Cons.prems(1) by simp
  show ?case
  proof (cases "x = r")
    case True
    have "\<not> P r'" if "r' \<in> set tb" for r'
      by (metis Cons.prems(4) True image_eqI list.set_intros(2) that x)
    with True Cons.prems(3) show ?thesis by (simp add: filter_empty_conv)
  next
    case False
    with Cons.prems(2) have r: "r \<in> set tb" by simp
    with x have "\<not> P x" by (metis Cons.prems(4) image_eqI list.set_intros(1))
    moreover have "filter P tb = [r]"
    proof (rule Cons.IH)
      show "distinct (map key tb)" using Cons.prems(1) by simp
      show "r \<in> set tb" by (rule r)
      show "P r" by (rule Cons.prems(3))
      show "key r' = key r" if "r' \<in> set tb" "P r'" for r'
        using that by (intro Cons.prems(4)) simp_all
    qed
    ultimately show ?thesis by simp
  qed
qed

lemma get_row_replace:
  assumes "key r = j"
  shows "get_row key k (update_rows (\<lambda>x. key x = j) (\<lambda>_. r) tb) =
    (if k = j then (if j \<in> key ` set tb then Some r else None) else get_row key k tb)"
  by (induction tb) (auto simp: assms)

lemma get_row_delete:
  "get_row key k (delete_where (\<lambda>x. key x = j) tb) = (if k = j then None else get_row key k tb)"
  by (induction tb) (auto simp: delete_where_def)

lemma get_row_insert:
  "key r \<notin> key ` set tb \<Longrightarrow>
     get_row key k (insert_row r tb) = (if k = key r then Some r else get_row key k tb)"
  by (induction tb) (auto simp: insert_row_def)

subsection \<open>The interface of a table with an immutable key\<close>

text \<open>
  What the service layers rely on: every row carries a key, and the rewriting an operation
  applies to a row keeps the key. The laws below then hold of any \<open>UPDATE\<close> with that
  rewriting.
\<close>

locale keyed_rows =
  fixes key :: "'r \<Rightarrow> 'k"
    and upd :: "'r \<Rightarrow> 'r"
  assumes key_upd: "key (upd r) = key r"
begin

lemma keys_update: "map key (update_rows P upd tb) = map key tb"
  by (simp add: update_rows_def key_upd)

lemma distinct_update: "distinct (map key (update_rows P upd tb)) = distinct (map key tb)"
  by (simp only: keys_update)

lemma get_row_update:
  "get_row key k (update_rows P upd tb) =
     map_option (\<lambda>r. if P r then upd r else r) (get_row key k tb)"
  by (induction tb) (auto simp: key_upd)

lemma get_row_update_other:
  "(\<And>r. get_row key k tb = Some r \<Longrightarrow> \<not> P r) \<Longrightarrow>
     get_row key k (update_rows P upd tb) = get_row key k tb"
  by (cases "get_row key k tb") (simp_all add: get_row_update)

lemma update_one:
  assumes "distinct (map key tb)" and "r \<in> set tb" and "P r"
    and "\<And>r'. P r' \<Longrightarrow> key r' = key r"
  shows "update_where P upd tb = ([upd r], update_rows P upd tb)"
proof -
  have "filter P tb = [r]"
    by (rule filter_key_singleton [where key = key, OF assms(1,2)]) (rule assms(3), rule assms(4))
  then show ?thesis by (simp add: update_where_def)
qed

end

end
