(* ===== verification/PyStr.thy ===== *)
theory PyStr
  imports Prelude "HOL-Library.Char_ord" "HOL-Library.List_Lexorder"
begin

text \<open>
  The part of Python's \<open>str\<close> the services use. A \<open>str\<close> is a list of code points; the
  development works with the code points 0 to 255, so that a \<open>str\<close> is an Isabelle
  \<open>string\<close> and every predicate below (\<open>isspace\<close>, \<open>isdigit\<close>, \<open>lower\<close>,
  \<open>splitlines\<close>, the \<open>\w\<close> and \<open>\d\<close> of \<open>re\<close>, \<open>repr\<close>, \<open>int\<close>) is Python's
  on that range. Strings compare by code point, as \<open>sorted\<close> does.
\<close>

section \<open>Characters\<close>

abbreviation ordc :: "char \<Rightarrow> nat" where
  "ordc c \<equiv> of_char c"

definition py_isspace :: "char \<Rightarrow> bool" where
  "py_isspace c \<longleftrightarrow>
     (9 \<le> ordc c \<and> ordc c \<le> 13) \<or> (28 \<le> ordc c \<and> ordc c \<le> 32) \<or> ordc c = 133 \<or> ordc c = 160"

definition ascii_digit :: "char \<Rightarrow> bool" where
  "ascii_digit c \<longleftrightarrow> 48 \<le> ordc c \<and> ordc c \<le> 57"

text \<open>\<open>str.isdigit\<close> also holds of the superscripts two, three and one.\<close>

definition py_isdigit :: "char \<Rightarrow> bool" where
  "py_isdigit c \<longleftrightarrow> ascii_digit c \<or> ordc c \<in> {178, 179, 185}"

definition ascii_letter :: "char \<Rightarrow> bool" where
  "ascii_letter c \<longleftrightarrow> (65 \<le> ordc c \<and> ordc c \<le> 90) \<or> (97 \<le> ordc c \<and> ordc c \<le> 122)"

text \<open>\<open>\w\<close> of \<open>re\<close> on \<open>str\<close>: letters, numeric characters and the underscore.\<close>

definition re_word :: "char \<Rightarrow> bool" where
  "re_word c \<longleftrightarrow>
     ascii_letter c \<or> ascii_digit c \<or> ordc c = 95 \<or>
     ordc c \<in> {170, 178, 179, 181, 185, 186, 188, 189, 190} \<or>
     (192 \<le> ordc c \<and> ordc c \<noteq> 215 \<and> ordc c \<noteq> 247)"

definition py_lower_char :: "char \<Rightarrow> char" where
  "py_lower_char c =
     (if (65 \<le> ordc c \<and> ordc c \<le> 90) \<or> (192 \<le> ordc c \<and> ordc c \<le> 222 \<and> ordc c \<noteq> 215)
      then char_of (ordc c + 32) else c)"

definition py_lower :: "string \<Rightarrow> string" where
  "py_lower s = map py_lower_char s"

definition py_upper_ascii :: "string \<Rightarrow> string" where
  "py_upper_ascii s = map (\<lambda>c. if 97 \<le> ordc c \<and> ordc c \<le> 122 then char_of (ordc c - 32) else c) s"

section \<open>Stripping, blank strings, joining\<close>

definition py_lstrip :: "string \<Rightarrow> string" where
  "py_lstrip s = dropWhile py_isspace s"

definition py_rstrip :: "string \<Rightarrow> string" where
  "py_rstrip s = rev (dropWhile py_isspace (rev s))"

definition py_strip :: "string \<Rightarrow> string" where
  "py_strip s = py_rstrip (py_lstrip s)"

text \<open>\<open>not value or not value.strip()\<close>, the emptiness test of the validators.\<close>

definition py_blank :: "string \<Rightarrow> bool" where
  "py_blank s \<longleftrightarrow> s = [] \<or> py_strip s = []"

fun py_join :: "string \<Rightarrow> string list \<Rightarrow> string" where
  "py_join sep [] = []"
| "py_join sep [x] = x"
| "py_join sep (x # y # xs) = x @ sep @ py_join sep (y # xs)"

lemma dropWhile_rev_Nil: "dropWhile P (rev s) = [] \<longleftrightarrow> (\<forall>c \<in> set s. P c)"
  by (simp add: dropWhile_eq_Nil_conv)

lemma dropWhile_twice: "dropWhile P (dropWhile P xs) = dropWhile P xs"
  by (induction xs) auto

lemma py_strip_Nil_iff: "py_strip s = [] \<longleftrightarrow> (\<forall>c \<in> set s. py_isspace c)"
proof
  assume "py_strip s = []"
  then have "\<forall>c \<in> set (py_lstrip s). py_isspace c"
    by (simp add: py_strip_def py_rstrip_def dropWhile_eq_Nil_conv)
  moreover have "\<forall>c \<in> set (takeWhile py_isspace s). py_isspace c"
    by (auto dest: set_takeWhileD)
  ultimately show "\<forall>c \<in> set s. py_isspace c"
    using takeWhile_dropWhile_id [of py_isspace s] unfolding py_lstrip_def
    by (metis Un_iff set_append)
next
  assume "\<forall>c \<in> set s. py_isspace c"
  then have "py_lstrip s = []" by (simp add: py_lstrip_def dropWhile_eq_Nil_conv)
  then show "py_strip s = []" by (simp add: py_strip_def py_rstrip_def)
qed

lemma py_blank_iff: "py_blank s \<longleftrightarrow> (\<forall>c \<in> set s. py_isspace c)"
  by (auto simp: py_blank_def py_strip_Nil_iff)

lemma py_strip_set: "set (py_strip s) \<subseteq> set s"
  unfolding py_strip_def py_rstrip_def py_lstrip_def
  by (metis set_dropWhileD set_rev subsetI)

lemma py_strip_idem [simp]: "py_strip (py_strip s) = py_strip s"
proof -
  let ?t = "dropWhile py_isspace s"
  have "py_lstrip (py_strip s) = py_strip s"
  proof (cases "py_strip s")
    case Nil
    then show ?thesis by (simp add: py_lstrip_def)
  next
    case (Cons c cs)
    then have "?t \<noteq> []" unfolding py_strip_def py_rstrip_def py_lstrip_def by (metis dropWhile.simps(1) list.distinct(1) rev.simps(1))
    then have hd: "\<not> py_isspace (hd ?t)" by (rule hd_dropWhile)
    obtain ys where "?t = py_strip s @ ys"
      using takeWhile_dropWhile_id [of py_isspace "rev ?t"] unfolding py_strip_def py_rstrip_def py_lstrip_def
      by (metis rev_append rev_rev_ident)
    with Cons have "hd ?t = c" by simp
    with hd Cons show ?thesis by (simp add: py_lstrip_def)
  qed
  moreover have "py_rstrip (py_strip s) = py_strip s"
    by (simp add: py_strip_def py_rstrip_def dropWhile_twice)
  ultimately show ?thesis by (simp add: py_strip_def)
qed

section \<open>Decimal numerals\<close>

definition digit_char :: "nat \<Rightarrow> char" where
  "digit_char d = char_of (48 + d)"

fun str_nat :: "nat \<Rightarrow> string" where
  "str_nat n = (if n < 10 then [digit_char n] else str_nat (n div 10) @ [digit_char (n mod 10)])"

declare str_nat.simps [simp del]

definition py_str_int :: "int \<Rightarrow> string" where
  "py_str_int i = (if i < 0 then ''-'' @ str_nat (nat (- i)) else str_nat (nat i))"

text \<open>
  \<open>int(s)\<close> on digits with single underscores between them, the part of the literal syntax
  after the surrounding white space and the sign. \<open>None\<close> is the \<open>ValueError\<close>.
\<close>

fun int_digits :: "nat \<Rightarrow> bool \<Rightarrow> string \<Rightarrow> nat option" where
  "int_digits acc after_digit [] = (if after_digit then Some acc else None)"
| "int_digits acc after_digit (c # cs) =
     (if ascii_digit c then int_digits (10 * acc + (ordc c - 48)) True cs
      else if c = CHR ''_'' \<and> after_digit then int_digits acc False cs
      else None)"

definition int_space :: "string \<Rightarrow> char \<Rightarrow> bool" where
  "int_space s c \<longleftrightarrow>
     (if \<forall>x \<in> set s. ordc x < 128 then (9 \<le> ordc c \<and> ordc c \<le> 13) \<or> ordc c = 32
      else py_isspace c)"

definition py_int :: "string \<Rightarrow> int option" where
  "py_int s =
     (let t = rev (dropWhile (int_space s) (rev (dropWhile (int_space s) s)))
      in case t of
           [] \<Rightarrow> None
         | c # cs \<Rightarrow>
             (if c = CHR ''-'' then map_option (\<lambda>n. - int n) (int_digits 0 False cs)
              else if c = CHR ''+'' then map_option int (int_digits 0 False cs)
              else map_option int (int_digits 0 False (c # cs))))"

lemma code_digit_char: "d < 10 \<Longrightarrow> ordc (digit_char d) = 48 + d"
  by (simp add: digit_char_def)

lemma ascii_digit_digit_char [simp]: "d < 10 \<Longrightarrow> ascii_digit (digit_char d)"
  by (simp add: ascii_digit_def code_digit_char)

lemma str_nat_digits: "\<forall>c \<in> set (str_nat n). ascii_digit c"
proof (induction n rule: str_nat.induct)
  case (1 n)
  then show ?case by (subst str_nat.simps) simp
qed

lemma str_nat_nonempty [simp]: "str_nat n \<noteq> []"
  by (subst str_nat.simps) simp

lemma int_digits_append:
  assumes "\<forall>c \<in> set xs. ascii_digit c" and "xs \<noteq> []"
  shows "int_digits acc b (xs @ ys) = int_digits (foldl (\<lambda>a c. 10 * a + (ordc c - 48)) acc xs) True ys"
  using assms
proof (induction xs arbitrary: acc b)
  case Nil
  then show ?case by simp
next
  case (Cons c xs)
  then show ?case by (cases "xs = []") auto
qed

lemma foldl_str_nat:
  "foldl (\<lambda>a c. 10 * a + (ordc c - 48)) 0 (str_nat n) = n"
proof (induction n rule: str_nat.induct)
  case (1 n)
  show ?case
  proof (cases "n < 10")
    case True
    then show ?thesis by (subst str_nat.simps) (simp add: code_digit_char)
  next
    case False
    then show ?thesis using 1 by (subst str_nat.simps) (simp add: code_digit_char)
  qed
qed

lemma int_digits_str_nat: "int_digits 0 False (str_nat n) = Some n"
  using int_digits_append [OF str_nat_digits str_nat_nonempty, of 0 False n "[]"]
  by (simp add: foldl_str_nat)

lemma digit_not_space: "ascii_digit c \<Longrightarrow> \<not> int_space s c"
  by (auto simp: ascii_digit_def int_space_def py_isspace_def)

lemma py_int_str_nat [simp]: "py_int (str_nat n) = Some (int n)"
proof -
  have no: "dropWhile (int_space s) xs = xs" if "\<forall>c \<in> set xs. ascii_digit c" for s xs
    using that by (cases xs) (auto simp: digit_not_space)
  have "dropWhile (int_space (str_nat n)) (str_nat n) = str_nat n"
    by (rule no) (rule str_nat_digits)
  moreover have "dropWhile (int_space (str_nat n)) (rev (str_nat n)) = rev (str_nat n)"
    by (rule no) (simp add: str_nat_digits)
  ultimately have t: "rev (dropWhile (int_space (str_nat n))
      (rev (dropWhile (int_space (str_nat n)) (str_nat n)))) = str_nat n"
    by simp
  obtain c cs where c: "str_nat n = c # cs" using str_nat_nonempty [of n] by (cases "str_nat n") auto
  have "ascii_digit c" using str_nat_digits [of n] c by simp
  then have "c \<noteq> CHR ''-''" "c \<noteq> CHR ''+''" by (auto simp: ascii_digit_def)
  with int_digits_str_nat [of n] show ?thesis
    unfolding py_int_def Let_def t by (simp add: c del: int_digits.simps)
qed

lemma str_nat_inject [simp]: "str_nat m = str_nat n \<longleftrightarrow> m = n"
  by (metis of_nat_eq_iff option.inject py_int_str_nat)

section \<open>Lines\<close>

definition line_break :: "char \<Rightarrow> bool" where
  "line_break c \<longleftrightarrow> (10 \<le> ordc c \<and> ordc c \<le> 13) \<or> (28 \<le> ordc c \<and> ordc c \<le> 30) \<or> ordc c = 133"

text \<open>\<open>str.splitlines()\<close>: a carriage return and a line feed after it are one boundary, and a
  final boundary opens no further line. The first argument is the reversed current line.\<close>

fun splitlines_aux :: "string \<Rightarrow> string \<Rightarrow> string list" where
  "splitlines_aux cur [] = (if cur = [] then [] else [rev cur])"
| "splitlines_aux cur (c # cs) =
     (if line_break c
      then rev cur #
        splitlines_aux []
          (if ordc c = 13 \<and> cs \<noteq> [] \<and> ordc (hd cs) = 10 then tl cs else cs)
      else splitlines_aux (c # cur) cs)"

definition py_splitlines :: "string \<Rightarrow> string list" where
  "py_splitlines s = splitlines_aux [] s"

section \<open>repr\<close>

definition hex_digit :: "nat \<Rightarrow> char" where
  "hex_digit d = (if d < 10 then char_of (48 + d) else char_of (87 + d))"

definition repr_char :: "char \<Rightarrow> char \<Rightarrow> string" where
  "repr_char q c =
     (if c = q \<or> ordc c = 92 then [char_of (92 :: nat), c]
      else if ordc c = 9 then [char_of (92 :: nat), CHR ''t'']
      else if ordc c = 10 then [char_of (92 :: nat), CHR ''n'']
      else if ordc c = 13 then [char_of (92 :: nat), CHR ''r'']
      else if ordc c < 32 \<or> (127 \<le> ordc c \<and> ordc c \<le> 160) \<or> ordc c = 173
      then [char_of (92 :: nat), CHR ''x'', hex_digit (ordc c div 16), hex_digit (ordc c mod 16)]
      else [c])"

abbreviation squote :: char where "squote \<equiv> char_of (39 :: nat)"
abbreviation dquote :: char where "dquote \<equiv> char_of (34 :: nat)"

definition py_repr :: "string \<Rightarrow> string" where
  "py_repr s =
     (let q = (if squote \<in> set s \<and> dquote \<notin> set s then dquote else squote)
      in [q] @ concat (map (repr_char q) s) @ [q])"

definition py_repr_list :: "string list \<Rightarrow> string" where
  "py_repr_list xs = ''['' @ py_join '', '' (map py_repr xs) @ '']''"

section \<open>Containment\<close>

text \<open>\<open>needle in haystack\<close> on strings.\<close>

fun py_contains :: "string \<Rightarrow> string \<Rightarrow> bool" where
  "py_contains needle [] = (needle = [])"
| "py_contains needle (c # cs) =
     (take (length needle) (c # cs) = needle \<or> py_contains needle cs)"

lemma py_contains_iff: "py_contains needle s \<longleftrightarrow> (\<exists>u v. s = u @ needle @ v)"
proof (induction s)
  case Nil
  then show ?case by simp
next
  case (Cons c cs)
  show ?case
  proof
    assume "py_contains needle (c # cs)"
    then consider "take (length needle) (c # cs) = needle" | "py_contains needle cs" by auto
    then show "\<exists>u v. c # cs = u @ needle @ v"
    proof cases
      case 1
      then have "c # cs = [] @ needle @ drop (length needle) (c # cs)"
        by (metis append_Nil append_take_drop_id)
      then show ?thesis by blast
    next
      case 2
      with Cons.IH obtain u v where "cs = u @ needle @ v" by blast
      then have "c # cs = (c # u) @ needle @ v" by simp
      then show ?thesis by blast
    qed
  next
    assume "\<exists>u v. c # cs = u @ needle @ v"
    then obtain u v where uv: "c # cs = u @ needle @ v" by blast
    show "py_contains needle (c # cs)"
    proof (cases u)
      case Nil
      with uv have "take (length needle) (c # cs) = needle" by simp
      then show ?thesis by (simp del: take_Suc_Cons)
    next
      case (Cons d u')
      with uv have "cs = u' @ needle @ v" by simp
      with Cons.IH show ?thesis by auto
    qed
  qed
qed

lemma py_contains_append [simp]: "py_contains needle (u @ needle @ v)"
  by (auto simp: py_contains_iff)

end
