(* ===== verification/Json.thy ===== *)
theory Json
  imports PyStr
begin

text \<open>
  JSON documents as Python's \<open>json\<close> module sees them: the values stored in the JSON
  columns of the tables, the arguments of tool calls and the planner's reply. A floating
  point literal is kept as its spelling. An object is the association list of its members in
  order; Python keeps the last of two members with one name.
\<close>

datatype json =
    JNull
  | JBool bool
  | JInt int
  | JFloat string
  | JStr string
  | JArr "json list"
  | JObj "(string \<times> json) list"

text \<open>\<open>d.get(key)\<close> on a dictionary built from the members: the last one wins.\<close>

definition obj_get :: "(string \<times> json) list \<Rightarrow> string \<Rightarrow> json option" where
  "obj_get ms k = map_of (rev ms) k"

text \<open>Truth of a value, as \<open>if x\<close> and \<open>x or y\<close> decide it.\<close>

definition zero_float :: "string \<Rightarrow> bool" where
  "zero_float s \<longleftrightarrow> (\<forall>c \<in> set (takeWhile (\<lambda>c. c \<noteq> CHR ''e'' \<and> c \<noteq> CHR ''E'') s).
      ascii_digit c \<longrightarrow> c = CHR ''0'') \<and> (\<exists>c \<in> set s. ascii_digit c)"

fun json_truthy :: "json \<Rightarrow> bool" where
  "json_truthy JNull = False"
| "json_truthy (JBool b) = b"
| "json_truthy (JInt i) = (i \<noteq> 0)"
| "json_truthy (JFloat s) = (\<not> zero_float s)"
| "json_truthy (JStr s) = (s \<noteq> [])"
| "json_truthy (JArr xs) = (xs \<noteq> [])"
| "json_truthy (JObj ms) = (ms \<noteq> [])"

lemma obj_get_Nil [simp]: "obj_get [] k = None"
  by (simp add: obj_get_def)

lemma obj_get_single [simp]: "obj_get [(k, v)] k' = (if k' = k then Some v else None)"
  by (simp add: obj_get_def)

end
