(* ===== verification/Job_Model.thy ===== *)
theory Job_Model
  imports Json
begin

text \<open>
  The data of \<open>job_svc\<close>: its exceptions (\<open>errors.py\<close>, \<open>runner.py\<close>), the row of the
  \<open>jobs\<close> table (\<open>models.py\<close>) with the runner's checkpoint in its \<open>progress\<close> column,
  the well-formedness invariant of the table, and the lifecycle graph of a job's status.
\<close>

section \<open>Exceptions\<close>

text \<open>
  The typed errors of the service, the runner's two, and every exception of a class the
  repository does not define (an \<open>IntegrityError\<close>, a lost connection, an
  \<open>AttributeError\<close>), which the code treats alike.
\<close>

datatype py_exception =
    NotFoundError string
  | ValidationError string
  | AuthenticationError string
  | ConflictError string
  | StateError string
  | DependencyError string
  | RunnerError string
  | ApprovalRequired
  | OtherException string

text \<open>\<open>str(exc)\<close>.\<close>

fun exc_str :: "py_exception \<Rightarrow> string" where
  "exc_str (NotFoundError m) = m"
| "exc_str (ValidationError m) = m"
| "exc_str (AuthenticationError m) = m"
| "exc_str (ConflictError m) = m"
| "exc_str (StateError m) = m"
| "exc_str (DependencyError m) = m"
| "exc_str (RunnerError m) = m"
| "exc_str ApprovalRequired = []"
| "exc_str (OtherException m) = m"

section \<open>Rows\<close>

text \<open>
  Times are microseconds. An operation reads the clock one or more times: its \<open>now\<close>
  argument gives the value of its first, second, ... call of \<open>now()\<close>.
\<close>

type_synonym time = int
type_synonym clock = "nat \<Rightarrow> time"

record job_step =
  st_prompt :: string
  st_output :: string
  st_finish_reason :: string
  st_agent :: string

record pending_approval =
  pa_step :: int
  pa_prompt :: string
  pa_detail :: string

text \<open>
  The runner's checkpoint. Each field is a key of the dictionary; \<open>None\<close> is a missing key.
  \<open>steps\<close> is itself a dictionary from the decimal step index to the step's record, in
  insertion order.
\<close>

record progress =
  pg_plan :: "string list option"
  pg_phase :: "string option"
  pg_steps :: "(string \<times> job_step) list option"
  pg_pending :: "pending_approval option"
  pg_result :: "string option"
  pg_error :: "string option"

definition empty_progress :: progress where
  "empty_progress = \<lparr>pg_plan = None, pg_phase = None, pg_steps = None, pg_pending = None,
     pg_result = None, pg_error = None\<rparr>"

record job_row =
  j_id :: string
  j_tenant_id :: string
  j_type :: string
  j_spec :: json
  j_status :: string
  j_attempts :: int
  j_max_attempts :: int
  j_retry_count :: int
  j_max_retries :: int
  j_progress :: progress
  j_locked_at :: "time option"
  j_locked_by :: "string option"
  j_created_at :: time
  j_updated_at :: time

type_synonym job_db = "job_row list"

definition default_max_attempts_const :: int where
  "default_max_attempts_const = 3"

definition default_max_retries_const :: int where
  "default_max_retries_const = 3"

section \<open>Status values and the lifecycle graph\<close>

definition job_statuses :: "string list" where
  "job_statuses = [''queued'', ''running'', ''succeeded'', ''failed'', ''dead'', ''cancelled'',
     ''waiting_approval'']"

text \<open>
  The contract of the state machine, independent of the operations: the moves a job's status
  may make. \<open>Job_Machine\<close> proves that every operation of the service refines it.
\<close>

definition job_edges :: "(string \<times> string) list" where
  "job_edges =
     [(''queued'', ''running''), (''queued'', ''cancelled''),
      (''running'', ''succeeded''), (''running'', ''failed''), (''running'', ''queued''),
      (''running'', ''dead''), (''running'', ''cancelled''), (''running'', ''waiting_approval''),
      (''waiting_approval'', ''queued''), (''waiting_approval'', ''cancelled''),
      (''failed'', ''queued''), (''failed'', ''dead''),
      (''dead'', ''queued''), (''cancelled'', ''queued'')]"

definition job_edge :: "string \<Rightarrow> string \<Rightarrow> bool" where
  "job_edge s t \<longleftrightarrow> (s, t) \<in> set job_edges"

section \<open>Well-formed rows\<close>

text \<open>
  What the operations keep true of a row. A lease is held exactly as the reaper needs it: a
  running job always has one (so no run can be stranded), and a job that waits (queued,
  failed, waiting for approval) has none. A job resting at \<open>failed\<close> has spent its
  automatic budget and still has manual budget.
\<close>

definition lease_ok :: "job_row \<Rightarrow> bool" where
  "lease_ok r \<longleftrightarrow>
     (j_status r = ''running'' \<longrightarrow> j_locked_at r \<noteq> None) \<and>
     (j_status r \<in> {''queued'', ''failed'', ''waiting_approval''} \<longrightarrow>
        j_locked_at r = None \<and> j_locked_by r = None)"

definition budget_ok :: "job_row \<Rightarrow> bool" where
  "budget_ok r \<longleftrightarrow>
     1 \<le> j_max_attempts r \<and> 0 \<le> j_attempts r \<and>
     0 \<le> j_retry_count r \<and> j_retry_count r \<le> j_max_retries r \<and>
     (j_status r = ''running'' \<longrightarrow> 1 \<le> j_attempts r) \<and>
     (j_status r = ''failed'' \<longrightarrow>
        j_max_attempts r \<le> j_attempts r \<and> j_retry_count r < j_max_retries r)"

definition job_row_ok :: "job_row \<Rightarrow> bool" where
  "job_row_ok r \<longleftrightarrow> j_status r \<in> set job_statuses \<and> lease_ok r \<and> budget_ok r"

definition job_db_ok :: "job_db \<Rightarrow> bool" where
  "job_db_ok db \<longleftrightarrow> distinct (map j_id db) \<and> (\<forall>r \<in> set db. job_row_ok r)"

lemma job_db_okI:
  "distinct (map j_id db) \<Longrightarrow> (\<And>r. r \<in> set db \<Longrightarrow> job_row_ok r) \<Longrightarrow> job_db_ok db"
  by (simp add: job_db_ok_def)

lemma job_db_ok_distinct [simp]: "job_db_ok db \<Longrightarrow> distinct (map j_id db)"
  by (simp add: job_db_ok_def)

lemma job_db_ok_row: "job_db_ok db \<Longrightarrow> r \<in> set db \<Longrightarrow> job_row_ok r"
  by (simp add: job_db_ok_def)

end
