(* ===== verification/Job_Service.thy ===== *)
theory Job_Service
  imports Job_Model
begin

text \<open>
  \<open>JobService\<close> of \<open>job_svc/services/jobs.py\<close>: every operation on the \<open>jobs\<close>
  table, as a computation over the table that raises or returns. Each operation is one atomic
  SQL statement in its own transaction, so an operation is one step of the table; the ids of
  rows locked by other transactions, the new identifier and the clock are arguments.
\<close>

record job_service =
  svc_default_max_attempts :: int
  svc_default_max_retries :: int

type_synonym 'a job_op = "(job_db, py_exception, 'a) comp"

section \<open>Transition tables\<close>

definition allowed_entry :: "string \<Rightarrow> string list option" where
  "allowed_entry status = map_of
     [(''succeeded'', [''running'']),
      (''cancelled'', [''queued'', ''running'', ''waiting_approval'']),
      (''queued'', [''failed'', ''dead'', ''cancelled'', ''waiting_approval'']),
      (''dead'', [''failed'', ''running'']),
      (''waiting_approval'', [''running''])] status"

definition next_status_after_failure :: "job_row \<Rightarrow> string" where
  "next_status_after_failure r =
     (if j_attempts r < j_max_attempts r then ''queued''
      else if j_retry_count r < j_max_retries r then ''failed''
      else ''dead'')"

section \<open>The guarded update\<close>

text \<open>\<open>scalar_one_or_none\<close>: more than one row is an exception.\<close>

fun scalar_one_or_none :: "'r list \<Rightarrow> py_exception + 'r option" where
  "scalar_one_or_none [] = Inr None"
| "scalar_one_or_none [r] = Inr (Some r)"
| "scalar_one_or_none (r # r' # rs) = Inl (OtherException ''Multiple rows were found when one or none was required'')"

definition job_matches :: "string \<Rightarrow> string \<Rightarrow> string list \<Rightarrow> job_row \<Rightarrow> bool" where
  "job_matches tenant jid allowed_from r \<longleftrightarrow>
     j_id r = jid \<and> j_tenant_id r = tenant \<and> j_status r \<in> set allowed_from"

definition guarded_update ::
    "string \<Rightarrow> string \<Rightarrow> string list \<Rightarrow> (job_row \<Rightarrow> job_row) \<Rightarrow> job_row job_op" where
  "guarded_update tenant jid allowed_from values = (\<lambda>db.
     let (rows, db') = update_where (job_matches tenant jid allowed_from) values db in
     case scalar_one_or_none rows of
       Inl e \<Rightarrow> (Inl e, db)
     | Inr (Some row) \<Rightarrow> (Inr row, db')
     | Inr None \<Rightarrow>
         (case get_row j_id jid db of
            None \<Rightarrow> (Inl (NotFoundError (''job '' @ jid @ '' not found'')), db)
          | Some existing \<Rightarrow>
              if j_tenant_id existing \<noteq> tenant
              then (Inl (NotFoundError (''job '' @ jid @ '' not found'')), db)
              else (Inl (StateError (''job '' @ jid @ '' is '' @ py_repr (j_status existing) @
                      ''; expected one of '' @ py_repr_list (sort allowed_from))), db)))"

section \<open>Operations of the RPC surface\<close>

definition job_create ::
    "job_service \<Rightarrow> string \<Rightarrow> clock \<Rightarrow> string \<Rightarrow> string \<Rightarrow> json \<Rightarrow> int option \<Rightarrow> int option \<Rightarrow>
     job_row job_op" where
  "job_create svc new_id now tenant typ spec max_attempts max_retries = (\<lambda>db.
     let row = \<lparr>j_id = new_id, j_tenant_id = tenant, j_type = typ, j_spec = spec,
                j_status = ''queued'', j_attempts = 0,
                j_max_attempts = (case max_attempts of Some n \<Rightarrow> n | None \<Rightarrow> svc_default_max_attempts svc),
                j_retry_count = 0,
                j_max_retries = (case max_retries of Some n \<Rightarrow> n | None \<Rightarrow> svc_default_max_retries svc),
                j_progress = empty_progress, j_locked_at = None, j_locked_by = None,
                j_created_at = now 0, j_updated_at = now 1\<rparr>
     in if new_id \<in> set (map j_id db)
        then (Inl (OtherException ''IntegrityError''), db)
        else (Inr row, insert_row row db))"

definition job_get :: "string \<Rightarrow> string list \<Rightarrow> string list \<Rightarrow> string list \<Rightarrow> job_db \<Rightarrow> job_row list" where
  "job_get tenant ids statuses types db =
     (let rows = select_where (\<lambda>r. j_tenant_id r = tenant) db;
          rows = (if ids \<noteq> [] then select_where (\<lambda>r. j_id r \<in> set ids) rows else rows);
          rows = (if statuses \<noteq> [] then select_where (\<lambda>r. j_status r \<in> set statuses) rows else rows)
      in if types \<noteq> [] then select_where (\<lambda>r. j_type r \<in> set types) rows else rows)"

definition start_values :: "clock \<Rightarrow> job_row \<Rightarrow> job_row" where
  "start_values now r = r\<lparr>j_status := ''running'', j_attempts := j_attempts r + 1,
     j_locked_at := Some (now 0), j_locked_by := None, j_updated_at := now 1\<rparr>"

definition job_start :: "clock \<Rightarrow> string \<Rightarrow> string \<Rightarrow> job_row job_op" where
  "job_start now tenant jid = guarded_update tenant jid [''queued''] (start_values now)"

definition fail_values :: "time \<Rightarrow> job_row \<Rightarrow> job_row" where
  "fail_values t r = r\<lparr>j_status := next_status_after_failure r, j_locked_at := None,
     j_locked_by := None, j_updated_at := t\<rparr>"

definition job_fail :: "clock \<Rightarrow> string \<Rightarrow> string \<Rightarrow> job_row job_op" where
  "job_fail now tenant jid = guarded_update tenant jid [''running''] (fail_values (now 0))"

definition overwrite_values :: "time \<Rightarrow> string \<Rightarrow> job_row \<Rightarrow> job_row" where
  "overwrite_values t status r =
     (let r' = r\<lparr>j_status := status, j_updated_at := t\<rparr>
      in if status \<in> {''queued'', ''waiting_approval''}
         then r'\<lparr>j_locked_at := None, j_locked_by := None\<rparr> else r')"

definition job_update :: "clock \<Rightarrow> string \<Rightarrow> string \<Rightarrow> string \<Rightarrow> job_row job_op" where
  "job_update now tenant jid status =
     (if status = ''running'' then job_start now tenant jid
      else if status = ''failed'' then job_fail now tenant jid
      else (case allowed_entry status of
              None \<Rightarrow> raiseS (ValidationError (''unknown target status '' @ py_repr status))
            | Some allowed_from \<Rightarrow>
                guarded_update tenant jid allowed_from (overwrite_values (now 0) status)))"

definition retry_values :: "time \<Rightarrow> job_row \<Rightarrow> job_row" where
  "retry_values t r = r\<lparr>j_status := ''queued'', j_attempts := 0,
     j_retry_count := j_retry_count r + 1, j_locked_at := None, j_locked_by := None,
     j_updated_at := t\<rparr>"

definition job_retry :: "clock \<Rightarrow> string \<Rightarrow> string \<Rightarrow> job_row job_op" where
  "job_retry now tenant jid = guarded_update tenant jid [''failed''] (retry_values (now 0))"

section \<open>Operations of the worker\<close>

definition list_queued :: "nat \<Rightarrow> job_db \<Rightarrow> job_row list" where
  "list_queued limit db =
     take limit (sort_key j_created_at (select_where (\<lambda>r. j_status r = ''queued'') db))"

text \<open>
  \<open>SELECT id ... FOR UPDATE SKIP LOCKED LIMIT n\<close>: the rows of \<open>skip\<close>, locked by other
  transactions, are passed over before the limit applies.
\<close>

definition claim_candidates :: "string list \<Rightarrow> nat \<Rightarrow> job_db \<Rightarrow> string list" where
  "claim_candidates skip limit db =
     map j_id (take limit (sort_key j_created_at
       (select_where (\<lambda>r. j_status r = ''queued'' \<and> j_id r \<notin> set skip) db)))"

definition claim_values :: "clock \<Rightarrow> string \<Rightarrow> job_row \<Rightarrow> job_row" where
  "claim_values now owner r = r\<lparr>j_status := ''running'', j_attempts := j_attempts r + 1,
     j_locked_at := Some (now 0), j_locked_by := Some owner, j_updated_at := now 1\<rparr>"

definition claim_batch :: "string list \<Rightarrow> clock \<Rightarrow> nat \<Rightarrow> string \<Rightarrow> job_row list job_op" where
  "claim_batch skip now limit owner = (\<lambda>db.
     let candidates = claim_candidates skip limit db;
         (rows, db') = update_where (\<lambda>r. j_id r \<in> set candidates) (claim_values now owner) db
     in (Inr rows, db'))"

definition lease_expired :: "time \<Rightarrow> job_row \<Rightarrow> bool" where
  "lease_expired cutoff r \<longleftrightarrow> j_status r = ''running'' \<and>
     (case j_locked_at r of None \<Rightarrow> False | Some t \<Rightarrow> t < cutoff)"

definition reap_expired :: "clock \<Rightarrow> time \<Rightarrow> job_row list job_op" where
  "reap_expired now lease = (\<lambda>db.
     let cutoff = now 0 - lease;
         (rows, db') = update_where (lease_expired cutoff) (fail_values (now 1)) db
     in (Inr rows, db'))"

text \<open>\<open>renew_lease\<close> does not name \<open>updated_at\<close>, whose column default is
  \<open>onupdate=now\<close>, so the statement sets it as well.\<close>

definition renew_values :: "clock \<Rightarrow> job_row \<Rightarrow> job_row" where
  "renew_values now r = r\<lparr>j_locked_at := Some (now 0), j_updated_at := now 1\<rparr>"

definition renew_lease :: "clock \<Rightarrow> string \<Rightarrow> bool job_op" where
  "renew_lease now jid = (\<lambda>db.
     let (rows, db') = update_where (\<lambda>r. j_id r = jid \<and> j_status r = ''running'') (renew_values now) db
     in case scalar_one_or_none rows of
          Inl e \<Rightarrow> (Inl e, db)
        | Inr found \<Rightarrow> (Inr (found \<noteq> None), db'))"

definition progress_values :: "time \<Rightarrow> progress \<Rightarrow> job_row \<Rightarrow> job_row" where
  "progress_values t p r = r\<lparr>j_progress := p, j_updated_at := t\<rparr>"

definition save_progress :: "clock \<Rightarrow> string \<Rightarrow> progress \<Rightarrow> unit job_op" where
  "save_progress now jid p = (\<lambda>db.
     let (rows, db') = update_where (\<lambda>r. j_id r = jid) (progress_values (now 0) p) db
     in case scalar_one_or_none rows of
          Inl e \<Rightarrow> (Inl e, db)
        | Inr None \<Rightarrow> (Inl (NotFoundError (''job '' @ jid @ '' not found'')), db)
        | Inr (Some r) \<Rightarrow> (Inr (), db'))"

end
