(* ===== verification/Job_Laws.thy ===== *)
theory Job_Laws
  imports Job_Service
begin

text \<open>
  The laws of the job store. The locale \<open>job_rewrite\<close> is the contract of a \<open>SET\<close>
  clause (the identity columns of a row never change); \<open>job_transition\<close> adds that, on the
  statuses an operation may start from, it keeps a row well formed and follows the lifecycle
  graph. Both are interpreted on every rewriting of \<open>Job_Service\<close>, and the lemmas proved
  in them give the functional specification of the guarded update and the preservation of the
  table invariant by each operation.
\<close>

section \<open>The contract of a rewriting\<close>

text \<open>The columns no operation writes.\<close>

definition job_identity :: "job_row \<Rightarrow> string \<times> string \<times> string \<times> json \<times> int \<times> int \<times> time" where
  "job_identity r = (j_id r, j_tenant_id r, j_type r, j_spec r, j_max_attempts r, j_max_retries r,
     j_created_at r)"

locale job_rewrite =
  fixes upd :: "job_row \<Rightarrow> job_row"
  assumes identity_upd: "job_identity (upd r) = job_identity r"
begin

sublocale keyed_rows j_id upd
  by unfold_locales (use identity_upd in \<open>simp add: job_identity_def\<close>)

lemma guarded_update_spec:
  assumes "distinct (map j_id db)"
  shows "guarded_update tenant jid allowed upd db =
     (case get_row j_id jid db of
        None \<Rightarrow> (Inl (NotFoundError (''job '' @ jid @ '' not found'')), db)
      | Some r \<Rightarrow>
          if j_tenant_id r \<noteq> tenant
          then (Inl (NotFoundError (''job '' @ jid @ '' not found'')), db)
          else if j_status r \<notin> set allowed
          then (Inl (StateError (''job '' @ jid @ '' is '' @ py_repr (j_status r) @
                  ''; expected one of '' @ py_repr_list (sort allowed))), db)
          else (Inr (upd r), update_rows (\<lambda>r. j_id r = jid) upd db))"
proof (cases "get_row j_id jid db")
  case None
  then have "filter (job_matches tenant jid allowed) db = []"
    by (auto simp: get_row_None filter_empty_conv job_matches_def)
  with None show ?thesis by (simp add: guarded_update_def update_where_def)
next
  case (Some r)
  then have r: "r \<in> set db" "j_id r = jid" by (auto dest: get_row_Some)
  have same: "r' = r" if "r' \<in> set db" "j_id r' = jid" for r'
    using distinct_key_eq [OF assms that(1) r(1)] that(2) r(2) by simp
  show ?thesis
  proof (cases "job_matches tenant jid allowed r")
    case True
    then have one: "update_where (job_matches tenant jid allowed) upd db
        = ([upd r], update_rows (job_matches tenant jid allowed) upd db)"
      by (intro update_one [OF assms r(1)]) (auto simp: job_matches_def r(2))
    have "update_rows (job_matches tenant jid allowed) upd db = update_rows (\<lambda>r. j_id r = jid) upd db"
      unfolding update_rows_def
    proof (rule map_cong [OF refl])
      fix r' assume "r' \<in> set db"
      with same True show "(if job_matches tenant jid allowed r' then upd r' else r') =
          (if j_id r' = jid then upd r' else r')"
        by (cases "j_id r' = jid") (auto simp: job_matches_def)
    qed
    with one True Some show ?thesis by (simp add: guarded_update_def job_matches_def)
  next
    case False
    with same have "filter (job_matches tenant jid allowed) db = []"
      by (auto simp: filter_empty_conv job_matches_def)
    with False Some r(2) show ?thesis
      by (auto simp: guarded_update_def update_where_def job_matches_def)
  qed
qed

text \<open>The row with a given id after a guarded update: rewritten exactly when the guard holds.\<close>

lemma get_row_guarded_update:
  assumes "distinct (map j_id db)"
  shows "get_row j_id k (snd (guarded_update tenant jid allowed upd db)) =
     map_option (\<lambda>r. if job_matches tenant jid allowed r then upd r else r) (get_row j_id k db)"
proof (cases "k = jid")
  case True
  then show ?thesis
    by (cases "get_row j_id jid db")
      (auto simp: guarded_update_spec [OF assms] get_row_update job_matches_def
        dest: get_row_Some)
next
  case False
  have no: "\<not> job_matches tenant jid allowed r" if "get_row j_id k db = Some r" for r
    using False that by (auto simp: job_matches_def dest: get_row_Some)
  have "get_row j_id k (update_rows (\<lambda>r. j_id r = jid) upd db) = get_row j_id k db"
    by (rule get_row_update_other) (use False in \<open>auto dest: get_row_Some\<close>)
  then have "get_row j_id k (snd (guarded_update tenant jid allowed upd db)) = get_row j_id k db"
    by (auto simp: guarded_update_spec [OF assms] split: option.splits)
  with no show ?thesis by (cases "get_row j_id k db") auto
qed

lemma identity_update_rows:
  "map job_identity (update_rows P upd db) = map job_identity db"
  by (simp add: update_rows_def identity_upd)

end

locale job_transition = job_rewrite upd
  for upd :: "job_row \<Rightarrow> job_row" +
  fixes allowed :: "string list"
  assumes row_ok_upd: "job_row_ok r \<Longrightarrow> j_status r \<in> set allowed \<Longrightarrow> job_row_ok (upd r)"
    and edge_upd: "job_row_ok r \<Longrightarrow> j_status r \<in> set allowed \<Longrightarrow>
      job_edge (j_status r) (j_status (upd r))"
begin

lemma update_rows_ok:
  assumes "job_db_ok db" and "\<And>r. r \<in> set db \<Longrightarrow> P r \<Longrightarrow> j_status r \<in> set allowed"
  shows "job_db_ok (update_rows P upd db)"
  using assms by (intro job_db_okI) (auto simp: keys_update in_update_rows job_db_ok_row row_ok_upd)

lemma guarded_update_ok:
  assumes "job_db_ok db"
  shows "job_db_ok (snd (guarded_update tenant jid allowed upd db))"
proof (cases "get_row j_id jid db")
  case None
  then show ?thesis using assms by (simp add: guarded_update_spec)
next
  case (Some r)
  have "job_db_ok (update_rows (\<lambda>r. j_id r = jid) upd db)" if allowed: "j_status r \<in> set allowed"
  proof (rule update_rows_ok [OF assms])
    fix r' assume r': "r' \<in> set db" "j_id r' = jid"
    from Some have "r \<in> set db" "j_id r = jid" by (auto dest: get_row_Some)
    with r' have "r' = r" by (intro distinct_key_eq [of j_id db]) (simp_all add: assms)
    with allowed show "j_status r' \<in> set allowed" by simp
  qed
  with Some assms show ?thesis by (simp add: guarded_update_spec)
qed

end

text \<open>What one step may do to a row: keep its identity and its status, or move it along an edge.\<close>

definition job_evolves :: "job_row \<Rightarrow> job_row \<Rightarrow> bool" where
  "job_evolves r r' \<longleftrightarrow> job_identity r' = job_identity r \<and>
     (j_status r' = j_status r \<or> job_edge (j_status r) (j_status r'))"

lemma job_evolves_refl [simp]: "job_evolves r r"
  by (simp add: job_evolves_def)

context job_transition
begin

lemma evolves_upd: "job_row_ok r \<Longrightarrow> j_status r \<in> set allowed \<Longrightarrow> job_evolves r (upd r)"
  by (simp add: job_evolves_def identity_upd edge_upd)

lemma evolves_guarded:
  assumes "job_db_ok db" and "get_row j_id k db = Some r"
  shows "\<exists>r'. get_row j_id k (snd (guarded_update tenant jid allowed upd db)) = Some r' \<and> job_evolves r r'"
  using assms
  by (auto simp: get_row_guarded_update job_matches_def dest!: get_row_Some
      intro!: evolves_upd job_db_ok_row)

lemma evolves_rows:
  assumes "job_db_ok db" and "get_row j_id k db = Some r" and "P r \<Longrightarrow> j_status r \<in> set allowed"
  shows "\<exists>r'. get_row j_id k (update_rows P upd db) = Some r' \<and> job_evolves r r'"
  using assms
  by (auto simp: get_row_update dest!: get_row_Some intro!: evolves_upd job_db_ok_row)

end

section \<open>The rewritings of the service\<close>

lemmas values_defs = start_values_def fail_values_def overwrite_values_def retry_values_def
  claim_values_def renew_values_def progress_values_def

lemma overwrite_values_simps [simp]:
  "j_status (overwrite_values t s r) = s"
  "j_attempts (overwrite_values t s r) = j_attempts r"
  "j_retry_count (overwrite_values t s r) = j_retry_count r"
  "j_progress (overwrite_values t s r) = j_progress r"
  "j_updated_at (overwrite_values t s r) = t"
  by (simp_all add: overwrite_values_def Let_def)

lemma next_status_cases:
  "next_status_after_failure r = ''queued'' \<and> j_attempts r < j_max_attempts r \<or>
   next_status_after_failure r = ''failed'' \<and> j_max_attempts r \<le> j_attempts r \<and>
     j_retry_count r < j_max_retries r \<or>
   next_status_after_failure r = ''dead'' \<and> j_max_attempts r \<le> j_attempts r \<and>
     j_max_retries r \<le> j_retry_count r"
  by (auto simp: next_status_after_failure_def)

lemmas row_ok_defs = job_row_ok_def lease_ok_def budget_ok_def job_statuses_def

interpretation start: job_transition "start_values now" "[''queued'']" for now
  by unfold_locales
    (auto simp: start_values_def job_identity_def row_ok_defs job_edge_def job_edges_def)

interpretation fail: job_transition "fail_values t" "[''running'']" for t
proof
  fix r
  show "job_identity (fail_values t r) = job_identity r"
    by (simp add: fail_values_def job_identity_def)
  assume "job_row_ok r" "j_status r \<in> set [''running'']"
  then show "job_row_ok (fail_values t r)"
      "job_edge (j_status r) (j_status (fail_values t r))"
    using next_status_cases [of r]
    by (auto simp: fail_values_def row_ok_defs job_edge_def job_edges_def)
qed

interpretation retry: job_transition "retry_values t" "[''failed'']" for t
  by unfold_locales
    (auto simp: retry_values_def job_identity_def row_ok_defs job_edge_def job_edges_def)

interpretation claim: job_transition "claim_values now owner" "[''queued'']" for now owner
  by unfold_locales
    (auto simp: claim_values_def job_identity_def row_ok_defs job_edge_def job_edges_def)

interpretation succeed: job_transition "overwrite_values t ''succeeded''" "[''running'']" for t
  by unfold_locales
    (auto simp: overwrite_values_def job_identity_def row_ok_defs job_edge_def job_edges_def)

interpretation cancel: job_transition "overwrite_values t ''cancelled''"
    "[''queued'', ''running'', ''waiting_approval'']" for t
  by unfold_locales
    (auto simp: overwrite_values_def job_identity_def row_ok_defs job_edge_def job_edges_def)

interpretation requeue: job_transition "overwrite_values t ''queued''"
    "[''failed'', ''dead'', ''cancelled'', ''waiting_approval'']" for t
  by unfold_locales
    (auto simp: overwrite_values_def job_identity_def row_ok_defs job_edge_def job_edges_def)

interpretation bury: job_transition "overwrite_values t ''dead''" "[''failed'', ''running'']" for t
  by unfold_locales
    (auto simp: overwrite_values_def job_identity_def row_ok_defs job_edge_def job_edges_def)

interpretation park: job_transition "overwrite_values t ''waiting_approval''" "[''running'']" for t
  by unfold_locales
    (auto simp: overwrite_values_def job_identity_def row_ok_defs job_edge_def job_edges_def)

interpretation renew: job_rewrite "renew_values now" for now
  by unfold_locales (simp add: renew_values_def job_identity_def)

interpretation checkpoint: job_rewrite "progress_values t p" for t p
  by unfold_locales (simp add: progress_values_def job_identity_def)

interpretation overwrite: job_rewrite "overwrite_values t s" for t s
  by unfold_locales (simp add: overwrite_values_def job_identity_def Let_def)

lemma job_rewrite_get_row_update:
  assumes "job_rewrite f"
  shows "get_row j_id k (update_rows P f db) = map_option (\<lambda>r. if P r then f r else r) (get_row j_id k db)"
  using assms job_rewrite.identity_upd
  by (intro keyed_rows.get_row_update keyed_rows.intro) (auto simp: job_identity_def)

end
