(* ===== verification/Grpc.thy ===== *)
theory Grpc
  imports Prelude
begin

text \<open>
  What the services use of gRPC: the status codes they abort with, the call metadata, and the
  result of a remote call, which is a status with details or a response.
\<close>

datatype grpc_status =
    CANCELLED | UNKNOWN | INVALID_ARGUMENT | DEADLINE_EXCEEDED | NOT_FOUND | ALREADY_EXISTS
  | PERMISSION_DENIED | RESOURCE_EXHAUSTED | FAILED_PRECONDITION | ABORTED | OUT_OF_RANGE
  | UNIMPLEMENTED | INTERNAL | UNAVAILABLE | DATA_LOSS | UNAUTHENTICATED

text \<open>\<open>code().name\<close>.\<close>

fun status_name :: "grpc_status \<Rightarrow> string" where
  "status_name CANCELLED = ''CANCELLED''"
| "status_name UNKNOWN = ''UNKNOWN''"
| "status_name INVALID_ARGUMENT = ''INVALID_ARGUMENT''"
| "status_name DEADLINE_EXCEEDED = ''DEADLINE_EXCEEDED''"
| "status_name NOT_FOUND = ''NOT_FOUND''"
| "status_name ALREADY_EXISTS = ''ALREADY_EXISTS''"
| "status_name PERMISSION_DENIED = ''PERMISSION_DENIED''"
| "status_name RESOURCE_EXHAUSTED = ''RESOURCE_EXHAUSTED''"
| "status_name FAILED_PRECONDITION = ''FAILED_PRECONDITION''"
| "status_name ABORTED = ''ABORTED''"
| "status_name OUT_OF_RANGE = ''OUT_OF_RANGE''"
| "status_name UNIMPLEMENTED = ''UNIMPLEMENTED''"
| "status_name INTERNAL = ''INTERNAL''"
| "status_name UNAVAILABLE = ''UNAVAILABLE''"
| "status_name DATA_LOSS = ''DATA_LOSS''"
| "status_name UNAUTHENTICATED = ''UNAUTHENTICATED''"

type_synonym metadata = "(string \<times> string) list"

type_synonym rpc_error = "grpc_status \<times> string"

text \<open>\<open>dict(metadata).get(key)\<close>: of two entries with one key the later is kept.\<close>

definition md_get :: "metadata \<Rightarrow> string \<Rightarrow> string option" where
  "md_get md k = map_of (rev md) k"

lemma md_get_single [simp]: "md_get [(k, v)] k' = (if k' = k then Some v else None)"
  by (simp add: md_get_def)

end
