(* ===== verification/Job_Proto.thy ===== *)
theory Job_Proto
  imports Job_Service Grpc Complex_Main
begin

text \<open>
  The protobuf surface of \<open>job_svc\<close>: the messages of \<open>aep.job.v1\<close> and the conversions of
  \<open>mappers.py\<close>. Enumerators are their numbers, since proto3 enums are open. The library
  conversions between a \<open>JobSpec\<close> message and the dictionary stored in the \<open>spec\<close> column
  (\<open>MessageToDict\<close>, \<open>ParseDict\<close>) are the fields of \<open>protobuf\<close>, arguments of the
  definitions that call them.
\<close>

section \<open>Messages\<close>

record agent_execution_spec =
  ae_name :: string
  ae_instructions :: string
  ae_llm_config :: "(string \<times> real) option"
  ae_tool_config :: "string list option"

datatype job_spec = Spec_Unset | Agent_Execution_Spec agent_execution_spec

record protobuf =
  message_to_dict :: "job_spec \<Rightarrow> json"
  parse_dict :: "json \<Rightarrow> py_exception + job_spec"

record proto_step =
  ps_index :: int
  ps_prompt :: string
  ps_output :: string
  ps_finish_reason :: int
  ps_agent :: string

record proto_progress =
  pp_phase :: int
  pp_plan :: "string list"
  pp_steps :: "proto_step list"
  pp_error :: string
  pp_result :: string

record proto_job =
  pj_id :: string
  pj_type :: int
  pj_spec :: job_spec
  pj_status :: int
  pj_attempts :: int
  pj_max_attempts :: int
  pj_retry_count :: int
  pj_max_retries :: int
  pj_created_at :: time
  pj_updated_at :: time
  pj_progress :: proto_progress
  pj_result :: "string option"

section \<open>Enumeration tables\<close>

definition status_to_proto :: "(string \<times> int) list" where
  "status_to_proto =
     [(''queued'', 1), (''running'', 2), (''succeeded'', 3), (''failed'', 4), (''dead'', 5),
      (''cancelled'', 6), (''waiting_approval'', 7)]"

definition status_from_proto :: "int \<Rightarrow> string option" where
  "status_from_proto v = map_of (rev (map prod.swap status_to_proto)) v"

definition type_to_proto :: "(string \<times> int) list" where
  "type_to_proto = [(''agent_execution'', 1)]"

definition type_from_proto :: "int \<Rightarrow> string option" where
  "type_from_proto v = map_of (rev (map prod.swap type_to_proto)) v"

definition phase_to_proto :: "string \<Rightarrow> int" where
  "phase_to_proto s =
     (case map_of [(''planning'', 1), (''executing'', 2), (''completed'', 3)] s of
        None \<Rightarrow> 0 | Some n \<Rightarrow> n)"

definition finish_reason_to_proto :: "string \<Rightarrow> int" where
  "finish_reason_to_proto s =
     (case map_of [(''stop'', 1), (''requires_approval'', 2)] s of None \<Rightarrow> 0 | Some n \<Rightarrow> n)"

section \<open>Rows to messages\<close>

text \<open>\<open>dict(steps).items()\<close> with \<open>int(key)\<close>: a key that is no integer is a \<open>ValueError\<close>.\<close>

fun int_keys :: "(string \<times> 'a) list \<Rightarrow> py_exception + (int \<times> 'a) list" where
  "int_keys [] = Inr []"
| "int_keys ((k, v) # kvs) =
     (case py_int k of
        None \<Rightarrow> Inl (OtherException (''invalid literal for int() with base 10: '' @ py_repr k))
      | Some i \<Rightarrow> (case int_keys kvs of Inl e \<Rightarrow> Inl e | Inr ivs \<Rightarrow> Inr ((i, v) # ivs)))"

definition step_to_proto :: "int \<times> job_step \<Rightarrow> proto_step" where
  "step_to_proto = (\<lambda>(i, st). \<lparr>ps_index = i, ps_prompt = st_prompt st, ps_output = st_output st,
     ps_finish_reason = finish_reason_to_proto (st_finish_reason st), ps_agent = st_agent st\<rparr>)"

definition opt_str :: "string option \<Rightarrow> string" where
  "opt_str x = (case x of None \<Rightarrow> [] | Some s \<Rightarrow> s)"

definition progress_to_proto :: "progress \<Rightarrow> py_exception + proto_progress" where
  "progress_to_proto p =
     (let steps_by_index = (case pg_steps p of None \<Rightarrow> [] | Some d \<Rightarrow> d) in
      case int_keys steps_by_index of
        Inl e \<Rightarrow> Inl e
      | Inr kvs \<Rightarrow> Inr
          \<lparr>pp_phase = phase_to_proto (opt_str (pg_phase p)),
           pp_plan = (case pg_plan p of None \<Rightarrow> [] | Some xs \<Rightarrow> xs),
           pp_steps = map step_to_proto (sort_key fst kvs),
           pp_error = opt_str (pg_error p),
           pp_result = opt_str (pg_result p)\<rparr>)"

definition result_to_proto :: "job_row \<Rightarrow> string option" where
  "result_to_proto row =
     (case pg_result (j_progress row) of
        None \<Rightarrow> None
      | Some output \<Rightarrow> if output = [] then None else Some output)"

definition job_to_proto :: "protobuf \<Rightarrow> job_row \<Rightarrow> py_exception + proto_job" where
  "job_to_proto pb row =
     (case map_of type_to_proto (j_type row) of
        None \<Rightarrow> Inl (OtherException (py_repr (j_type row)))
      | Some typ \<Rightarrow>
     (case parse_dict pb (j_spec row) of
        Inl e \<Rightarrow> Inl e
      | Inr spec \<Rightarrow>
     (case map_of status_to_proto (j_status row) of
        None \<Rightarrow> Inl (OtherException (py_repr (j_status row)))
      | Some status \<Rightarrow>
     (case progress_to_proto (j_progress row) of
        Inl e \<Rightarrow> Inl e
      | Inr progress \<Rightarrow> Inr
          \<lparr>pj_id = j_id row, pj_type = typ, pj_spec = spec, pj_status = status,
           pj_attempts = j_attempts row, pj_max_attempts = j_max_attempts row,
           pj_retry_count = j_retry_count row, pj_max_retries = j_max_retries row,
           pj_created_at = j_created_at row, pj_updated_at = j_updated_at row,
           pj_progress = progress, pj_result = result_to_proto row\<rparr>))))"

fun rows_to_proto :: "protobuf \<Rightarrow> job_row list \<Rightarrow> py_exception + proto_job list" where
  "rows_to_proto pb [] = Inr []"
| "rows_to_proto pb (r # rs) =
     (case job_to_proto pb r of
        Inl e \<Rightarrow> Inl e
      | Inr j \<Rightarrow> (case rows_to_proto pb rs of Inl e \<Rightarrow> Inl e | Inr js \<Rightarrow> Inr (j # js)))"

section \<open>Lemmas\<close>

lemma status_round_trip:
  "s \<in> set job_statuses \<Longrightarrow> \<exists>n. map_of status_to_proto s = Some n \<and> status_from_proto n = Some s"
  by (auto simp: job_statuses_def status_to_proto_def status_from_proto_def)

lemma status_from_proto_known: "status_from_proto n = Some s \<Longrightarrow> s \<in> set job_statuses"
  by (auto simp: status_from_proto_def status_to_proto_def job_statuses_def split: if_splits)

lemma type_from_proto_iff: "type_from_proto n = Some s \<longleftrightarrow> n = 1 \<and> s = ''agent_execution''"
  by (auto simp: type_from_proto_def type_to_proto_def)

text \<open>Keys written by the runner are the decimal spellings of indices.\<close>

lemma int_keys_str_nat:
  "int_keys (map (\<lambda>(i, v). (str_nat i, v)) ivs) = Inr (map (\<lambda>(i, v). (int i, v)) ivs)"
  by (induction ivs) auto

lemma int_keys_append:
  "int_keys xs = Inr a \<Longrightarrow> int_keys ys = Inr b \<Longrightarrow> int_keys (xs @ ys) = Inr (a @ b)"
  by (induction xs arbitrary: a) (auto split: option.splits sum.splits)

end
