(* ===== verification/Job_Rpc.thy ===== *)
theory Job_Rpc
  imports Job_Proto
begin

text \<open>
  The RPC edge of \<open>job_svc\<close>: tenant identity (\<open>auth.py\<close>), request validation
  (\<open>validators.py\<close>) and the four handlers of \<open>servicer.py\<close> with their error mapping. A
  handler is a computation over the \<open>jobs\<close> table that ends with a response or with the gRPC
  status it aborts the call with.
\<close>

section \<open>auth.py\<close>

definition tenant_id_from_metadata :: "metadata \<Rightarrow> py_exception + string" where
  "tenant_id_from_metadata md =
     (case md_get md ''x-tenant-id'' of
        None \<Rightarrow> Inl (AuthenticationError ''missing x-tenant-id metadata'')
      | Some tenant_id \<Rightarrow>
          if tenant_id = [] then Inl (AuthenticationError ''missing x-tenant-id metadata'')
          else Inr tenant_id)"

section \<open>validators.py\<close>

definition max_filter_ids :: nat where
  "max_filter_ids = 1000"

definition creatable_types :: "string list" where
  "creatable_types = [''agent_execution'']"

definition validate_type :: "int \<Rightarrow> py_exception + string" where
  "validate_type proto_type =
     (case type_from_proto proto_type of
        None \<Rightarrow> Inl (ValidationError ''type is required'')
      | Some job_type \<Rightarrow>
          if job_type \<notin> set creatable_types then Inl (ValidationError ''type is required'')
          else Inr job_type)"

definition validate_spec :: "string \<Rightarrow> job_spec \<Rightarrow> py_exception + unit" where
  "validate_spec job_type spec =
     (if job_type = ''agent_execution''
      then (case spec of
              Spec_Unset \<Rightarrow>
                Inl (ValidationError ''spec.agent_execution_spec is required for this job type'')
            | Agent_Execution_Spec s \<Rightarrow>
                if py_strip (ae_instructions s) = []
                then Inl (ValidationError ''spec.agent_execution_spec.instructions must not be empty'')
                else Inr ())
      else Inl (ValidationError (''no spec validation implemented for job type '' @ py_repr job_type)))"

definition validate_status :: "int \<Rightarrow> py_exception + string" where
  "validate_status proto_status =
     (case status_from_proto proto_status of
        None \<Rightarrow> Inl (ValidationError ''status is required'')
      | Some status \<Rightarrow> Inr status)"

definition validate_max_attempts :: "int option \<Rightarrow> py_exception + unit" where
  "validate_max_attempts m =
     (case m of
        Some n \<Rightarrow> if n < 1 then Inl (ValidationError ''max_attempts must be >= 1'') else Inr ()
      | None \<Rightarrow> Inr ())"

definition validate_max_retries :: "int option \<Rightarrow> py_exception + unit" where
  "validate_max_retries m =
     (case m of
        Some n \<Rightarrow> if n < 0 then Inl (ValidationError ''max_retries must be >= 0'') else Inr ()
      | None \<Rightarrow> Inr ())"

definition validate_job_id :: "string \<Rightarrow> py_exception + unit" where
  "validate_job_id value =
     (if py_blank value then Inl (ValidationError ''id must not be empty'') else Inr ())"

definition validate_filter_ids :: "string list \<Rightarrow> py_exception + unit" where
  "validate_filter_ids ids =
     (if length ids > max_filter_ids
      then Inl (ValidationError (''filter may contain at most '' @ str_nat max_filter_ids @ '' ids''))
      else if \<exists>job_id \<in> set ids. py_blank job_id
      then Inl (ValidationError ''filter ids must not be empty'')
      else Inr ())"

fun validate_filter_enums ::
    "int list \<Rightarrow> (int \<Rightarrow> string option) \<Rightarrow> string \<Rightarrow> py_exception + string list" where
  "validate_filter_enums [] mapping label = Inr []"
| "validate_filter_enums (v # vs) mapping label =
     (case mapping v of
        None \<Rightarrow> Inl (ValidationError (''invalid '' @ label @ '' filter value '' @ py_str_int v))
      | Some mapped \<Rightarrow>
          (case validate_filter_enums vs mapping label of
             Inl e \<Rightarrow> Inl e
           | Inr result \<Rightarrow> Inr (mapped # result)))"

section \<open>servicer.py\<close>

definition job_status_by_error :: "py_exception \<Rightarrow> grpc_status option" where
  "job_status_by_error e =
     (case e of
        NotFoundError _ \<Rightarrow> Some NOT_FOUND
      | ValidationError _ \<Rightarrow> Some INVALID_ARGUMENT
      | AuthenticationError _ \<Rightarrow> Some UNAUTHENTICATED
      | ConflictError _ \<Rightarrow> Some ALREADY_EXISTS
      | StateError _ \<Rightarrow> Some FAILED_PRECONDITION
      | _ \<Rightarrow> None)"

text \<open>The classes that derive from \<open>AppError\<close>.\<close>

definition is_app_error :: "py_exception \<Rightarrow> bool" where
  "is_app_error e \<longleftrightarrow>
     (case e of RunnerError _ \<Rightarrow> False | ApprovalRequired \<Rightarrow> False | OtherException _ \<Rightarrow> False | _ \<Rightarrow> True)"

definition job_abort :: "py_exception \<Rightarrow> rpc_error" where
  "job_abort e =
     (if is_app_error e
      then (case job_status_by_error e of None \<Rightarrow> INTERNAL | Some code \<Rightarrow> code, exc_str e)
      else (INTERNAL, ''internal error''))"

definition job_handle_errors :: "'a job_op \<Rightarrow> (job_db, rpc_error, 'a) comp" where
  "job_handle_errors fn = (\<lambda>db.
     case fn db of
       (Inl e, db') \<Rightarrow> (Inl (job_abort e), db')
     | (Inr a, db') \<Rightarrow> (Inr a, db'))"

record create_job_request =
  cj_type :: int
  cj_spec :: job_spec
  cj_max_attempts :: "int option"
  cj_max_retries :: "int option"

record get_job_request =
  gj_ids :: "string list"
  gj_statuses :: "int list"
  gj_types :: "int list"

definition CreateJob ::
    "protobuf \<Rightarrow> job_service \<Rightarrow> string \<Rightarrow> clock \<Rightarrow> metadata \<Rightarrow> create_job_request \<Rightarrow>
     (job_db, rpc_error, proto_job) comp" where
  "CreateJob pb svc new_id now md request = job_handle_errors (
     bindS (liftS (tenant_id_from_metadata md)) (\<lambda>tenant_id.
     bindS (liftS (validate_type (cj_type request))) (\<lambda>job_type.
     bindS (liftS (validate_spec job_type (cj_spec request))) (\<lambda>_.
     bindS (liftS (validate_max_attempts (cj_max_attempts request))) (\<lambda>_.
     bindS (liftS (validate_max_retries (cj_max_retries request))) (\<lambda>_.
     bindS (job_create svc new_id now tenant_id job_type (message_to_dict pb (cj_spec request))
              (cj_max_attempts request) (cj_max_retries request)) (\<lambda>row.
     liftS (job_to_proto pb row))))))))"

definition GetJob ::
    "protobuf \<Rightarrow> metadata \<Rightarrow> get_job_request \<Rightarrow> (job_db, rpc_error, proto_job list) comp" where
  "GetJob pb md request = job_handle_errors (
     bindS (liftS (tenant_id_from_metadata md)) (\<lambda>tenant_id.
     bindS (liftS (validate_filter_ids (gj_ids request))) (\<lambda>_.
     bindS (liftS (validate_filter_enums (gj_statuses request) status_from_proto ''status'')) (\<lambda>statuses.
     bindS (liftS (validate_filter_enums (gj_types request) type_from_proto ''type'')) (\<lambda>types.
     (\<lambda>db. (rows_to_proto pb (job_get tenant_id (gj_ids request) statuses types db), db)))))))"

definition UpdateJob ::
    "protobuf \<Rightarrow> clock \<Rightarrow> metadata \<Rightarrow> string \<Rightarrow> int \<Rightarrow> (job_db, rpc_error, proto_job) comp" where
  "UpdateJob pb now md request_id request_status = job_handle_errors (
     bindS (liftS (tenant_id_from_metadata md)) (\<lambda>tenant_id.
     bindS (liftS (validate_job_id request_id)) (\<lambda>_.
     bindS (liftS (validate_status request_status)) (\<lambda>status.
     bindS (job_update now tenant_id request_id status) (\<lambda>row.
     liftS (job_to_proto pb row))))))"

definition RetryJob ::
    "protobuf \<Rightarrow> clock \<Rightarrow> metadata \<Rightarrow> string \<Rightarrow> (job_db, rpc_error, proto_job) comp" where
  "RetryJob pb now md request_id = job_handle_errors (
     bindS (liftS (tenant_id_from_metadata md)) (\<lambda>tenant_id.
     bindS (liftS (validate_job_id request_id)) (\<lambda>_.
     bindS (job_retry now tenant_id request_id) (\<lambda>row.
     liftS (job_to_proto pb row)))))"

section \<open>Lemmas\<close>

lemma job_handle_errors_apply [monad_simps]:
  "job_handle_errors fn db = (case fn db of
     (Inl e, db') \<Rightarrow> (Inl (job_abort e), db') | (Inr a, db') \<Rightarrow> (Inr a, db'))"
  by (simp add: job_handle_errors_def)

lemma snd_job_handle_errors [simp]: "snd (job_handle_errors fn db) = snd (fn db)"
  by (simp add: job_handle_errors_def split: prod.splits sum.splits)

lemma validate_max_attempts_iff:
  "validate_max_attempts m = Inr () \<longleftrightarrow> (\<forall>n. m = Some n \<longrightarrow> 1 \<le> n)"
  by (auto simp: validate_max_attempts_def split: option.splits)

lemma validate_max_retries_iff:
  "validate_max_retries m = Inr () \<longleftrightarrow> (\<forall>n. m = Some n \<longrightarrow> 0 \<le> n)"
  by (auto simp: validate_max_retries_def split: option.splits)

lemma validate_type_iff: "validate_type n = Inr t \<longleftrightarrow> n = 1 \<and> t = ''agent_execution''"
  by (auto simp: validate_type_def type_from_proto_iff creatable_types_def split: option.splits)
    (auto simp: type_from_proto_def type_to_proto_def)

lemma validate_status_known: "validate_status n = Inr s \<Longrightarrow> s \<in> set job_statuses"
  by (auto simp: validate_status_def status_from_proto_known split: option.splits)

text \<open>A handler changes the table exactly as the service operation it reaches, or not at all.\<close>

lemma snd_bindS_liftS:
  "snd (bindS (liftS r) f s) = (case r of Inl e \<Rightarrow> s | Inr a \<Rightarrow> snd (f a s))"
  by (simp add: bindS_def split: sum.splits)

lemma snd_bindS_last:
  "snd (bindS m (\<lambda>a. liftS (g a)) s) = snd (m s)"
  by (simp add: bindS_def split: prod.splits sum.splits)

end
