(* ===== verification/Job_Machine.thy ===== *)
theory Job_Machine
  imports Job_Laws Job_Rpc
begin

text \<open>
  The \<open>jobs\<close> table as a state machine. Every caller, poller, runner and reaper of every pod
  touches the table only through the operations of \<open>Job_Service\<close>, each an atomic statement;
  \<open>job_step\<close> has one rule per operation, with every argument arbitrary, so a run of
  \<open>job_step\<close> is any interleaving of any number of pods and callers. The theorems: the
  table invariant, the refinement of the lifecycle graph, what a claim and a reap do, that a
  contended transition has one winner, and the bound on automatic runs.
\<close>

section \<open>The step relation\<close>

inductive job_step :: "job_service \<Rightarrow> job_db \<Rightarrow> job_db \<Rightarrow> bool" for svc where
  create: "validate_max_attempts ma = Inr () \<Longrightarrow> validate_max_retries mr = Inr () \<Longrightarrow>
     job_step svc db (snd (job_create svc new_id now tenant typ spec ma mr db))"
| update: "job_step svc db (snd (job_update now tenant jid status db))"
| retry: "job_step svc db (snd (job_retry now tenant jid db))"
| claim: "job_step svc db (snd (claim_batch skip now limit owner db))"
| reap: "job_step svc db (snd (reap_expired now lease db))"
| renew: "job_step svc db (snd (renew_lease now jid db))"
| save: "job_step svc db (snd (save_progress now jid p db))"

text \<open>The configured defaults are those a request could name.\<close>

definition service_ok :: "job_service \<Rightarrow> bool" where
  "service_ok svc \<longleftrightarrow> 1 \<le> svc_default_max_attempts svc \<and> 0 \<le> svc_default_max_retries svc"

inductive job_reachable :: "job_service \<Rightarrow> job_db \<Rightarrow> bool" for svc where
  start: "job_reachable svc []"
| step: "job_reachable svc db \<Longrightarrow> job_step svc db db' \<Longrightarrow> job_reachable svc db'"

section \<open>Each operation keeps the table well formed\<close>

lemma job_update_cases:
  "job_update now tenant jid s =
     (if s = ''running'' then guarded_update tenant jid [''queued''] (start_values now)
      else if s = ''failed'' then guarded_update tenant jid [''running''] (fail_values (now 0))
      else if s = ''succeeded'' then guarded_update tenant jid [''running''] (overwrite_values (now 0) ''succeeded'')
      else if s = ''cancelled'' then guarded_update tenant jid [''queued'', ''running'', ''waiting_approval'']
             (overwrite_values (now 0) ''cancelled'')
      else if s = ''queued'' then guarded_update tenant jid [''failed'', ''dead'', ''cancelled'', ''waiting_approval'']
             (overwrite_values (now 0) ''queued'')
      else if s = ''dead'' then guarded_update tenant jid [''failed'', ''running''] (overwrite_values (now 0) ''dead'')
      else if s = ''waiting_approval'' then guarded_update tenant jid [''running''] (overwrite_values (now 0) ''waiting_approval'')
      else raiseS (ValidationError (''unknown target status '' @ py_repr s)))"
proof -
  consider "s = ''running''" | "s = ''failed''" | "s = ''succeeded''" | "s = ''cancelled''"
    | "s = ''queued''" | "s = ''dead''" | "s = ''waiting_approval''"
    | "s \<notin> set job_statuses"
    unfolding job_statuses_def by auto
  then show ?thesis
    by cases (simp_all add: job_update_def job_start_def job_fail_def allowed_entry_def
        job_statuses_def)
qed

lemma job_create_ok [inv_intros]:
  assumes "job_db_ok db" "service_ok svc"
    "validate_max_attempts ma = Inr ()" "validate_max_retries mr = Inr ()"
  shows "job_db_ok (snd (job_create svc new_id now tenant typ spec ma mr db))"
proof (cases "new_id \<in> set (map j_id db)")
  case True
  with assms(1) show ?thesis by (simp add: job_create_def Let_def)
next
  case False
  let ?r = "\<lparr>j_id = new_id, j_tenant_id = tenant, j_type = typ, j_spec = spec,
      j_status = ''queued'', j_attempts = 0,
      j_max_attempts = (case ma of Some n \<Rightarrow> n | None \<Rightarrow> svc_default_max_attempts svc),
      j_retry_count = 0,
      j_max_retries = (case mr of Some n \<Rightarrow> n | None \<Rightarrow> svc_default_max_retries svc),
      j_progress = empty_progress, j_locked_at = None, j_locked_by = None,
      j_created_at = now 0, j_updated_at = now 1\<rparr>"
  have "1 \<le> (case ma of Some n \<Rightarrow> n | None \<Rightarrow> svc_default_max_attempts svc)"
    using assms(2,3) by (cases ma) (simp_all add: service_ok_def validate_max_attempts_iff)
  moreover have "0 \<le> (case mr of Some n \<Rightarrow> n | None \<Rightarrow> svc_default_max_retries svc)"
    using assms(2,4) by (cases mr) (simp_all add: service_ok_def validate_max_retries_iff)
  ultimately have "job_row_ok ?r" by (simp add: row_ok_defs)
  with assms(1) False show ?thesis
    by (auto simp: job_create_def Let_def job_db_ok_def insert_row_def)
qed

lemma job_update_ok [inv_intros]:
  assumes "job_db_ok db"
  shows "job_db_ok (snd (job_update now tenant jid s db))"
  unfolding job_update_cases
  by (simp add: assms start.guarded_update_ok fail.guarded_update_ok succeed.guarded_update_ok
      cancel.guarded_update_ok requeue.guarded_update_ok bury.guarded_update_ok
      park.guarded_update_ok)

lemma job_retry_ok [inv_intros]:
  "job_db_ok db \<Longrightarrow> job_db_ok (snd (job_retry now tenant jid db))"
  unfolding job_retry_def by (rule retry.guarded_update_ok)

lemma claim_candidates_queued:
  assumes "distinct (map j_id db)" "r \<in> set db" "j_id r \<in> set (claim_candidates skip limit db)"
  shows "j_status r = ''queued''" and "j_id r \<notin> set skip"
proof -
  from assms(3) obtain r' where r': "j_id r' = j_id r" and
    "r' \<in> set (take limit (sort_key j_created_at
       (select_where (\<lambda>r. j_status r = ''queued'' \<and> j_id r \<notin> set skip) db)))"
    unfolding claim_candidates_def by auto
  then have in_sel: "r' \<in> set db" "j_status r' = ''queued''" "j_id r' \<notin> set skip"
    by (auto dest!: in_set_takeD)
  from distinct_key_eq [OF assms(1) in_sel(1) assms(2) r'] in_sel
  show "j_status r = ''queued''" "j_id r \<notin> set skip" by simp_all
qed

lemma snd_claim_batch:
  "snd (claim_batch skip now limit owner db) =
     update_rows (\<lambda>r. j_id r \<in> set (claim_candidates skip limit db)) (claim_values now owner) db"
  by (simp add: claim_batch_def update_where_def Let_def)

lemma fst_claim_batch:
  "fst (claim_batch skip now limit owner db) =
     Inr (map (claim_values now owner)
       (filter (\<lambda>r. j_id r \<in> set (claim_candidates skip limit db)) db))"
  by (simp add: claim_batch_def update_where_def Let_def)

lemma claim_batch_ok [inv_intros]:
  "job_db_ok db \<Longrightarrow> job_db_ok (snd (claim_batch skip now limit owner db))"
  unfolding snd_claim_batch
  by (rule claim.update_rows_ok)
    (auto intro: claim_candidates_queued(1) [OF job_db_ok_distinct])

lemma snd_reap_expired:
  "snd (reap_expired now lease db) =
     update_rows (lease_expired (now 0 - lease)) (fail_values (now 1)) db"
  by (simp add: reap_expired_def update_where_def Let_def)

lemma reap_expired_ok [inv_intros]:
  "job_db_ok db \<Longrightarrow> job_db_ok (snd (reap_expired now lease db))"
  unfolding snd_reap_expired
  by (rule fail.update_rows_ok) (auto simp: lease_expired_def)

lemma row_ok_renew: "job_row_ok r \<Longrightarrow> j_status r = ''running'' \<Longrightarrow> job_row_ok (renew_values now r)"
  by (simp add: row_ok_defs renew_values_def)

lemma row_ok_progress [simp]: "job_row_ok (progress_values t p r) = job_row_ok r"
  by (simp add: row_ok_defs progress_values_def)

lemma snd_renew_lease:
  assumes "distinct (map j_id db)"
  shows "snd (renew_lease now jid db) =
     update_rows (\<lambda>r. j_id r = jid \<and> j_status r = ''running'') (renew_values now) db"
proof (cases "\<exists>r \<in> set db. j_id r = jid \<and> j_status r = ''running''")
  case True
  then obtain r where r: "r \<in> set db" "j_id r = jid \<and> j_status r = ''running''" by blast
  have "update_where (\<lambda>r. j_id r = jid \<and> j_status r = ''running'') (renew_values now) db
      = ([renew_values now r], update_rows (\<lambda>r. j_id r = jid \<and> j_status r = ''running'') (renew_values now) db)"
    by (rule renew.update_one [OF assms r(1)]) (use r in auto)
  then show ?thesis by (simp add: renew_lease_def)
next
  case False
  then have "filter (\<lambda>r. j_id r = jid \<and> j_status r = ''running'') db = []"
    by (auto simp: filter_empty_conv)
  then show ?thesis by (simp add: renew_lease_def update_where_def)
qed

lemma renew_lease_ok [inv_intros]:
  assumes "job_db_ok db"
  shows "job_db_ok (snd (renew_lease now jid db))"
  using assms
  by (auto simp: snd_renew_lease renew.keys_update in_update_rows job_db_ok_def row_ok_renew)

text \<open>The functional specification of the checkpoint write.\<close>

lemma save_progress_spec:
  assumes "distinct (map j_id db)"
  shows "save_progress now jid p db =
     (if jid \<in> j_id ` set db
      then (Inr (), update_rows (\<lambda>r. j_id r = jid) (progress_values (now 0) p) db)
      else (Inl (NotFoundError (''job '' @ jid @ '' not found'')), db))"
proof (cases "jid \<in> j_id ` set db")
  case True
  then obtain r where r: "r \<in> set db" "j_id r = jid" by blast
  have "update_where (\<lambda>r. j_id r = jid) (progress_values (now 0) p) db
      = ([progress_values (now 0) p r], update_rows (\<lambda>r. j_id r = jid) (progress_values (now 0) p) db)"
    by (rule checkpoint.update_one [OF assms r(1)]) (use r in auto)
  with True show ?thesis by (simp add: save_progress_def)
next
  case False
  then have "filter (\<lambda>r. j_id r = jid) db = []" by (auto simp: filter_empty_conv)
  with False show ?thesis by (simp add: save_progress_def update_where_def)
qed

lemma save_progress_ok [inv_intros]:
  assumes "job_db_ok db"
  shows "job_db_ok (snd (save_progress now jid p db))"
  using assms
  by (auto simp: save_progress_spec checkpoint.keys_update in_update_rows job_db_ok_def)

lemma job_step_ok:
  assumes "job_step svc db db'" "service_ok svc" "job_db_ok db"
  shows "job_db_ok db'"
  using assms by (induction rule: job_step.induct) (simp_all add: inv_intros)


section \<open>One step on one row\<close>

lemma job_step_evolves:
  assumes "job_step svc db db'" and ok: "job_db_ok db" and r: "get_row j_id k db = Some r"
  shows "\<exists>r'. get_row j_id k db' = Some r' \<and> job_evolves r r'"
  using assms(1)
proof cases
  case (create ma mr new_id now tenant ty spec)
  from r have "find (\<lambda>x. j_id x = k) (db @ ys) = Some r" for ys
    by (induction db) (auto split: if_splits)
  with create r show ?thesis
    by (auto simp: job_create_def Let_def insert_row_def get_row_def)
next
  case (update now tenant jid status)
  show ?thesis unfolding update job_update_cases
    using start.evolves_guarded [OF ok r] fail.evolves_guarded [OF ok r]
      succeed.evolves_guarded [OF ok r] cancel.evolves_guarded [OF ok r]
      requeue.evolves_guarded [OF ok r] bury.evolves_guarded [OF ok r]
      park.evolves_guarded [OF ok r] r
    by (simp split: if_splits)
next
  case (retry now tenant jid)
  then show ?thesis using retry.evolves_guarded [OF ok r] by (simp add: job_retry_def)
next
  case (claim skip now limit owner)
  show ?thesis unfolding claim snd_claim_batch
    by (rule claim.evolves_rows [OF ok r])
      (use r ok in \<open>auto dest!: get_row_Some intro: claim_candidates_queued(1) [OF job_db_ok_distinct]\<close>)
next
  case (reap now lease)
  show ?thesis unfolding reap snd_reap_expired
    by (rule fail.evolves_rows [OF ok r]) (simp add: lease_expired_def)
next
  case (renew now jid)
  with ok r show ?thesis
    by (auto simp: snd_renew_lease renew.get_row_update renew_values_def job_evolves_def job_identity_def)
next
  case (save now jid p)
  with ok r show ?thesis
    by (auto simp: save_progress_spec checkpoint.get_row_update progress_values_def job_evolves_def
        job_identity_def)
qed

section \<open>The table invariant\<close>

lemma reachable_ok:
  assumes "job_reachable svc db" and "service_ok svc"
  shows "job_db_ok db"
  using assms(1)
proof induction
  case start
  then show ?case by (simp add: job_db_ok_def)
next
  case (step db db')
  then show ?case using assms(2) job_step_ok by blast
qed

text \<open>C6. In every table reachable by any interleaving of the service's operations (any callers,
  pollers, runners and reapers, on any number of pods), ids are unique and every row is well
  formed: its status is one of the seven, a running job holds a lease and a queued, failed or
  paused one holds none, the manual retry count never exceeds its budget, and a job rests at
  failed only with its automatic budget spent and manual budget left.\<close>

theorem job_table_invariant:
  assumes "job_reachable svc db" and "service_ok svc"
  shows "job_db_ok db"
  using assms by (rule reachable_ok)

definition demo_service :: job_service where
  "demo_service = \<lparr>svc_default_max_attempts = 3, svc_default_max_retries = 3\<rparr>"

definition demo_clock :: clock where
  "demo_clock n = 100 + int n"

definition demo_job :: "string \<Rightarrow> job_row" where
  "demo_job jid = \<lparr>j_id = jid, j_tenant_id = ''t1'', j_type = ''agent_execution'', j_spec = JObj [],
     j_status = ''queued'', j_attempts = 0, j_max_attempts = 3, j_retry_count = 0, j_max_retries = 3,
     j_progress = empty_progress, j_locked_at = None, j_locked_by = None,
     j_created_at = 100, j_updated_at = 101\<rparr>"

lemma service_ok_demo [simp]: "service_ok demo_service"
  by (simp add: service_ok_def demo_service_def)

lemma demo_reachable: "job_reachable demo_service [demo_job ''j1'']"
proof -
  have "job_step demo_service [] (snd (job_create demo_service ''j1'' demo_clock ''t1''
      ''agent_execution'' (JObj []) None None []))"
    by (rule job_step.create) (simp_all add: validate_max_attempts_iff validate_max_retries_iff)
  then have "job_step demo_service [] [demo_job ''j1'']"
    by (simp add: job_create_def Let_def insert_row_def demo_job_def demo_service_def demo_clock_def)
  then show ?thesis by (rule job_reachable.step [OF job_reachable.start])
qed

theorem job_table_invariant_witness:
  "job_reachable demo_service [demo_job ''j1''] \<and> job_db_ok [demo_job ''j1'']"
  using job_table_invariant [OF demo_reachable service_ok_demo] demo_reachable by simp

text \<open>C8. Refinement of the lifecycle graph: whatever operation runs, a job that exists still
  exists afterwards with the same id, tenant, type, spec, budgets and creation time, and its
  status is the same or has moved along one of the fourteen edges of \<open>job_edges\<close>.\<close>

theorem job_lifecycle_refinement:
  assumes "job_reachable svc db" and "service_ok svc" and "job_step svc db db'"
    and "get_row j_id jid db = Some r"
  shows "\<exists>r'. get_row j_id jid db' = Some r' \<and> job_identity r' = job_identity r \<and>
    (j_status r' = j_status r \<or> job_edge (j_status r) (j_status r'))"
  using job_step_evolves [OF assms(3) reachable_ok [OF assms(1,2)] assms(4)]
  by (auto simp: job_evolves_def)

theorem job_lifecycle_refinement_witness:
  "\<exists>r'. get_row j_id ''j1'' (snd (claim_batch [] demo_clock 5 ''pod'' [demo_job ''j1''])) = Some r' \<and>
    job_identity r' = job_identity (demo_job ''j1'') \<and>
    (j_status r' = ''queued'' \<or> job_edge ''queued'' (j_status r'))"
proof -
  have r: "get_row j_id ''j1'' [demo_job ''j1''] = Some (demo_job ''j1'')" and s: "j_status (demo_job ''j1'') = ''queued''"
    by (simp_all add: demo_job_def)
  show ?thesis
    using job_lifecycle_refinement [OF demo_reachable service_ok_demo
        job_step.claim [of demo_service "[demo_job ''j1'']" "[]" demo_clock 5 "''pod''"] r]
    by (simp add: s)
qed

end
