(* ===== verification/Job_Queue.thy ===== *)
theory Job_Queue
  imports Job_Machine
begin

text \<open>
  The queue behaviour of the \<open>jobs\<close> table: what a claim takes and what concurrent claims
  share, what the reaper recovers, that a contended transition has exactly one winner, that
  success is final, and how many runs the automatic retry budget pays for.
\<close>

section \<open>Final success\<close>

lemma steps_evolve_final:
  assumes "(job_step svc)\<^sup>*\<^sup>* db db'" and "service_ok svc" and "job_db_ok db"
    and "get_row j_id jid db = Some r" and "j_status r = ''succeeded''"
  shows "job_db_ok db' \<and> (\<exists>r'. get_row j_id jid db' = Some r' \<and> j_status r' = ''succeeded'' \<and>
    job_identity r' = job_identity r)"
  using assms(1)
proof (induction rule: rtranclp_induct)
  case base
  then show ?case using assms by simp
next
  case (step db1 db2)
  then obtain r1 where r1: "job_db_ok db1" "get_row j_id jid db1 = Some r1"
    "j_status r1 = ''succeeded''" "job_identity r1 = job_identity r" by blast
  from job_step_evolves [OF step(2) r1(1,2)] r1(3)
  obtain r2 where "get_row j_id jid db2 = Some r2" "job_evolves r1 r2" by blast
  moreover from this r1(3) have "j_status r2 = ''succeeded''"
    by (auto simp: job_evolves_def job_edge_def job_edges_def)
  ultimately show ?case
    using job_step_ok [OF step(2) assms(2) r1(1)] r1(4) by (auto simp: job_evolves_def)
qed

text \<open>Success is final: once a job has succeeded, no sequence of operations, by any callers
  or workers, ever moves it to another status (it is never requeued, failed or cancelled), and
  it is never lost.\<close>

theorem succeeded_is_final:
  assumes "job_reachable svc db" and "service_ok svc"
    and "get_row j_id jid db = Some r" and "j_status r = ''succeeded''"
    and "(job_step svc)\<^sup>*\<^sup>* db db'"
  shows "\<exists>r'. get_row j_id jid db' = Some r' \<and> j_status r' = ''succeeded'' \<and>
    job_identity r' = job_identity r"
  using steps_evolve_final [OF assms(5,2) reachable_ok [OF assms(1,2)] assms(3,4)] by blast

definition demo_running :: "string \<Rightarrow> job_row" where
  "demo_running jid = claim_values demo_clock ''pod'' (demo_job jid)"

definition demo_succeeded :: "string \<Rightarrow> job_row" where
  "demo_succeeded jid = overwrite_values 100 ''succeeded'' (demo_running jid)"

lemma demo_running_reachable: "job_reachable demo_service [demo_running ''j1'']"
proof -
  have "snd (claim_batch [] demo_clock 5 ''pod'' [demo_job ''j1'']) = [demo_running ''j1'']"
    by (simp add: snd_claim_batch claim_candidates_def select_where_def demo_job_def demo_running_def)
  then show ?thesis
    by (metis job_reachable.step [OF demo_reachable job_step.claim])
qed

lemma demo_succeeded_reachable: "job_reachable demo_service [demo_succeeded ''j1'']"
proof -
  have "snd (job_update demo_clock ''t1'' ''j1'' ''succeeded'' [demo_running ''j1''])
      = [demo_succeeded ''j1'']"
    by (simp add: job_update_cases guarded_update_def update_where_def job_matches_def
        demo_succeeded_def demo_running_def claim_values_def demo_job_def demo_clock_def)
  then show ?thesis
    by (metis job_reachable.step [OF demo_running_reachable job_step.update])
qed

theorem succeeded_is_final_witness:
  "job_reachable demo_service [demo_succeeded ''j1''] \<and>
   job_step demo_service [demo_succeeded ''j1'']
     (snd (job_update demo_clock ''t1'' ''j1'' ''queued'' [demo_succeeded ''j1''])) \<and>
   (\<exists>r'. get_row j_id ''j1'' (snd (job_update demo_clock ''t1'' ''j1'' ''queued'' [demo_succeeded ''j1''])) = Some r' \<and>
     j_status r' = ''succeeded'')"
proof -
  have r: "get_row j_id ''j1'' [demo_succeeded ''j1''] = Some (demo_succeeded ''j1'')"
    by (simp add: demo_succeeded_def demo_running_def claim_values_def demo_job_def overwrite_values_def)
  have s: "j_status (demo_succeeded ''j1'') = ''succeeded''" by (simp add: demo_succeeded_def)
  have st: "job_step demo_service [demo_succeeded ''j1'']
     (snd (job_update demo_clock ''t1'' ''j1'' ''queued'' [demo_succeeded ''j1'']))"
    by (rule job_step.update)
  from succeeded_is_final [OF demo_succeeded_reachable service_ok_demo r s r_into_rtranclp [of "job_step demo_service", OF st]]
  show ?thesis using demo_succeeded_reachable st by blast
qed

section \<open>Claiming\<close>

lemma take_sort_key_oldest:
  assumes "r \<in> set (take n (sort_key f xs))" and "r' \<in> set xs"
    and "r' \<notin> set (take n (sort_key f xs))"
  shows "f r \<le> f r'"
proof -
  let ?s = "sort_key f xs"
  from assms(2) have "r' \<in> set ?s" by simp
  then have "r' \<in> set (take n ?s) \<union> set (drop n ?s)"
    by (simp only: set_append [symmetric] append_take_drop_id)
  with assms(3) have "r' \<in> set (drop n ?s)" by simp
  moreover have "sorted (map f (take n ?s) @ map f (drop n ?s))"
    by (simp only: map_append [symmetric] append_take_drop_id sorted_sort_key)
  ultimately show ?thesis using assms(1) by (auto simp: sorted_append)
qed

lemma length_claimed:
  assumes "distinct (map j_id db)"
  shows "length (filter (\<lambda>r. j_id r \<in> set (claim_candidates skip limit db)) db) =
    min limit (length (filter (\<lambda>r. j_status r = ''queued'' \<and> j_id r \<notin> set skip) db))"
proof -
  let ?q = "filter (\<lambda>r. j_status r = ''queued'' \<and> j_id r \<notin> set skip) db"
  let ?c = "claim_candidates skip limit db"
  have sub: "set ?c \<subseteq> j_id ` set db"
    by (auto simp: claim_candidates_def select_where_def dest!: in_set_takeD)
  have "distinct (map j_id (sort_key j_created_at ?q))"
    using distinct_map_filter [OF assms, of "\<lambda>r. j_status r = ''queued'' \<and> j_id r \<notin> set skip"]
    by (simp add: distinct_map)
  then have "distinct ?c"
    unfolding claim_candidates_def select_where_def by (simp add: take_map [symmetric] distinct_take)
  then have "length ?c = card (set ?c)" by (simp add: distinct_card)
  also have "set ?c = j_id ` set (filter (\<lambda>r. j_id r \<in> set ?c) db)"
    using sub by auto
  also have "card \<dots> = length (filter (\<lambda>r. j_id r \<in> set ?c) db)"
    using distinct_card [OF distinct_map_filter [OF assms, of "\<lambda>r. j_id r \<in> set ?c"]] by simp
  finally show ?thesis
    by (simp add: claim_candidates_def select_where_def min.commute)
qed

lemma claimed_oldest:
  assumes "distinct (map j_id db)" "r \<in> set db" "j_id r \<in> set (claim_candidates skip limit db)"
    "r' \<in> set db" "j_status r' = ''queued''" "j_id r' \<notin> set skip"
    "j_id r' \<notin> set (claim_candidates skip limit db)"
  shows "j_created_at r \<le> j_created_at r'"
proof -
  let ?q = "select_where (\<lambda>r. j_status r = ''queued'' \<and> j_id r \<notin> set skip) db"
  from assms(3) obtain x where x: "x \<in> set (take limit (sort_key j_created_at ?q))" "j_id x = j_id r"
    by (auto simp: claim_candidates_def)
  then have "x \<in> set db" by (auto dest!: in_set_takeD)
  with x(2) assms(1,2) have "x = r" by (metis distinct_key_eq)
  with x have "r \<in> set (take limit (sort_key j_created_at ?q))" by simp
  moreover have "r' \<in> set ?q" using assms(4-6) by simp
  moreover have "r' \<notin> set (take limit (sort_key j_created_at ?q))"
    using assms(7) by (auto simp: claim_candidates_def)
  ultimately show ?thesis by (rule take_sort_key_oldest)
qed

text \<open>C10. Functional behaviour of \<open>claim_batch\<close>: it never fails; it takes exactly as many of
  the queued rows no other transaction has locked as the limit allows; the rows it takes are
  the oldest of them; each comes back running, leased to the owner, with one attempt consumed;
  and every other row of the table is left as it was.\<close>

theorem claim_batch_spec:
  assumes "job_db_ok db"
  shows "\<exists>claimed.
    fst (claim_batch skip now limit owner db) = Inr (map (claim_values now owner) claimed) \<and>
    snd (claim_batch skip now limit owner db) =
      map (\<lambda>r. if r \<in> set claimed then claim_values now owner r else r) db \<and>
    set claimed \<subseteq> {r \<in> set db. j_status r = ''queued'' \<and> j_id r \<notin> set skip} \<and>
    length claimed = min limit (length [r \<leftarrow> db. j_status r = ''queued'' \<and> j_id r \<notin> set skip]) \<and>
    (\<forall>r \<in> set claimed. \<forall>r' \<in> set db. j_status r' = ''queued'' \<longrightarrow> j_id r' \<notin> set skip \<longrightarrow>
       r' \<notin> set claimed \<longrightarrow> j_created_at r \<le> j_created_at r') \<and>
    (\<forall>r \<in> set claimed. let r' = claim_values now owner r in
       j_status r' = ''running'' \<and> j_attempts r' = j_attempts r + 1 \<and>
       j_locked_by r' = Some owner \<and> j_locked_at r' = Some (now 0) \<and> job_identity r' = job_identity r)"
proof -
  let ?c = "filter (\<lambda>r. j_id r \<in> set (claim_candidates skip limit db)) db"
  have d: "distinct (map j_id db)" using assms by simp
  have 1: "snd (claim_batch skip now limit owner db) =
      map (\<lambda>r. if r \<in> set ?c then claim_values now owner r else r) db"
    unfolding snd_claim_batch update_rows_def by (rule map_cong) auto
  have 2: "set ?c \<subseteq> {r \<in> set db. j_status r = ''queued'' \<and> j_id r \<notin> set skip}"
    using claim_candidates_queued [OF d] by auto
  have 3: "j_created_at r \<le> j_created_at r'"
    if "r \<in> set ?c" "r' \<in> set db" "j_status r' = ''queued''" "j_id r' \<notin> set skip" "r' \<notin> set ?c" for r r'
    using that by (intro claimed_oldest [OF d]) auto
  have 4: "\<forall>r \<in> set ?c. let r' = claim_values now owner r in
       j_status r' = ''running'' \<and> j_attempts r' = j_attempts r + 1 \<and>
       j_locked_by r' = Some owner \<and> j_locked_at r' = Some (now 0) \<and> job_identity r' = job_identity r"
    by (simp add: claim_values_def job_identity_def)
  show ?thesis
    by (intro exI [of _ ?c] conjI fst_claim_batch 1 2 length_claimed [OF d] 4) (blast intro: 3)
qed

theorem claim_batch_spec_witness:
  "job_db_ok [demo_job ''j1'', demo_job ''j2''] \<and>
   (\<exists>claimed. fst (claim_batch [''j1''] demo_clock 5 ''pod'' [demo_job ''j1'', demo_job ''j2'']) =
      Inr (map (claim_values demo_clock ''pod'') claimed) \<and> length claimed = 1)"
proof -
  have ok: "job_db_ok [demo_job ''j1'', demo_job ''j2'']"
    by (simp add: job_db_ok_def demo_job_def row_ok_defs)
  have "length [r \<leftarrow> [demo_job ''j1'', demo_job ''j2'']. j_status r = ''queued'' \<and> j_id r \<notin> set [''j1'']] = 1"
    by (simp add: demo_job_def)
  with claim_batch_spec [OF ok, of "[''j1'']" demo_clock 5 "''pod''"] ok show ?thesis by fastforce
qed

text \<open>No job is claimed twice: the batches of two claims are disjoint, whether the second
  claim runs after the first or concurrently with it on the same snapshot, when the rows the
  first has selected are locked and skipped.\<close>

theorem claims_disjoint:
  assumes "job_db_ok db"
    and "db' = snd (claim_batch skip1 now1 limit1 owner1 db) \<or>
      db' = db \<and> set (claim_candidates skip1 limit1 db) \<subseteq> set skip2"
    and "fst (claim_batch skip1 now1 limit1 owner1 db) = Inr rows1"
    and "fst (claim_batch skip2 now2 limit2 owner2 db') = Inr rows2"
  shows "j_id ` set rows1 \<inter> j_id ` set rows2 = {}"
proof -
  have d: "distinct (map j_id db)" using assms(1) by simp
  have id: "j_id (claim_values n w r) = j_id r" for n w r by (simp add: claim_values_def)
  have r1: "j_id ` set rows1 \<subseteq> set (claim_candidates skip1 limit1 db)"
    using assms(3) by (auto simp: fst_claim_batch id)
  have "k \<notin> set (claim_candidates skip1 limit1 db)" if k: "k \<in> j_id ` set rows2" for k
  proof -
    from k obtain r where r: "r \<in> set db'" "j_id r = k" "k \<in> set (claim_candidates skip2 limit2 db')"
      using assms(4) by (auto simp: fst_claim_batch id)
    from assms(2) have d': "distinct (map j_id db')"
      using d by (auto simp: snd_claim_batch claim.keys_update)
    from claim_candidates_queued [OF d' r(1)] r
    have q: "j_status r = ''queued''" "k \<notin> set skip2" by auto
    from assms(2) show ?thesis
    proof
      assume "db' = snd (claim_batch skip1 now1 limit1 owner1 db)"
      with r(1,2) q(1) show ?thesis
        by (auto simp: snd_claim_batch in_update_rows claim_values_def)
    next
      assume "db' = db \<and> set (claim_candidates skip1 limit1 db) \<subseteq> set skip2"
      with q(2) show ?thesis by auto
    qed
  qed
  with r1 show ?thesis by blast
qed

theorem claims_disjoint_witness:
  "\<exists>db db' rows1 rows2. job_db_ok db \<and> rows1 \<noteq> [] \<and>
     fst (claim_batch [] demo_clock 1 ''a'' db) = Inr rows1 \<and>
     fst (claim_batch [] demo_clock 1 ''b'' db') = Inr rows2 \<and> rows2 \<noteq> [] \<and>
     j_id ` set rows1 \<inter> j_id ` set rows2 = {}"
proof -
  let ?db = "[demo_job ''j1'', demo_job ''j2'']"
  let ?db' = "snd (claim_batch [] demo_clock 1 ''a'' ?db)"
  have ok: "job_db_ok ?db" by (simp add: job_db_ok_def demo_job_def row_ok_defs)
  have 1: "fst (claim_batch [] demo_clock 1 ''a'' ?db) = Inr [claim_values demo_clock ''a'' (demo_job ''j1'')]"
    by (simp add: fst_claim_batch claim_candidates_def select_where_def demo_job_def)
  have 2: "fst (claim_batch [] demo_clock 1 ''b'' ?db') = Inr [claim_values demo_clock ''b'' (demo_job ''j2'')]"
    by (simp add: fst_claim_batch snd_claim_batch claim_candidates_def select_where_def demo_job_def
        claim_values_def)
  from claims_disjoint [OF ok disjI1 [OF refl] 1 2] ok 1 2 show ?thesis by blast
qed


section \<open>Reaping\<close>

lemma get_row_reap:
  "get_row j_id jid (snd (reap_expired now lease db)) =
     map_option (\<lambda>r. if lease_expired (now 0 - lease) r then fail_values (now 1) r else r)
       (get_row j_id jid db)"
  by (simp add: snd_reap_expired fail.get_row_update del: One_nat_def)

text \<open>C22. No run is stranded: every running job of a reachable table holds a lease, and once the
  lease is older than the configured duration one pass of any pod's reaper takes the job out of
  running with its lease released, its checkpoint and its attempt count kept: requeued while
  automatic budget remains, otherwise resting at failed while manual budget remains, otherwise
  dead. A job whose lease has not expired, or that is not running, is left untouched.\<close>

theorem reaper_recovers_stranded_jobs:
  assumes "job_reachable svc db" and "service_ok svc" and "get_row j_id jid db = Some r"
    and "j_status r = ''running''"
  shows "\<exists>t r'. j_locked_at r = Some t \<and>
    get_row j_id jid (snd (reap_expired now lease db)) = Some r' \<and>
    (if t < now 0 - lease
     then j_locked_at r' = None \<and> j_locked_by r' = None \<and> j_progress r' = j_progress r \<and>
       j_attempts r' = j_attempts r \<and> j_retry_count r' = j_retry_count r \<and>
       j_status r' =
         (if j_attempts r < j_max_attempts r then ''queued''
          else if j_retry_count r < j_max_retries r then ''failed'' else ''dead'')
     else r' = r)"
proof -
  have "job_row_ok r"
    using reachable_ok [OF assms(1,2)] assms(3) by (auto dest: get_row_Some job_db_ok_row)
  with assms(4) obtain t where t: "j_locked_at r = Some t"
    by (auto simp: job_row_ok_def lease_ok_def)
  with assms(3,4) show ?thesis
    by (auto simp: get_row_reap lease_expired_def fail_values_def next_status_after_failure_def)
qed

theorem reaper_recovers_stranded_jobs_witness:
  "\<exists>t r'. j_locked_at (demo_running ''j1'') = Some t \<and> t < 1000 - 300 \<and>
    get_row j_id ''j1'' (snd (reap_expired (\<lambda>_. 1000) 300 [demo_running ''j1''])) = Some r' \<and>
    j_status r' = ''queued''"
proof -
  have r: "get_row j_id ''j1'' [demo_running ''j1''] = Some (demo_running ''j1'')"
    by (simp add: demo_running_def claim_values_def demo_job_def)
  have s: "j_status (demo_running ''j1'') = ''running''"
    by (simp add: demo_running_def claim_values_def)
  have "j_locked_at (demo_running ''j1'') = Some 100" "j_attempts (demo_running ''j1'') = 1"
    "j_max_attempts (demo_running ''j1'') = 3"
    by (simp_all add: demo_running_def claim_values_def demo_clock_def demo_job_def)
  with reaper_recovers_stranded_jobs [OF demo_running_reachable service_ok_demo r s, of "\<lambda>_. 1000" 300]
  show ?thesis by auto
qed

section \<open>Contended transitions\<close>

text \<open>
  Concurrent statements on one row take effect in some serial order; \<open>run_serial\<close> runs
  them in that order and keeps every caller's result.
\<close>

fun run_serial :: "'a job_op list \<Rightarrow> job_db \<Rightarrow> (py_exception + 'a) list \<times> job_db" where
  "run_serial [] db = ([], db)"
| "run_serial (m # ms) db =
     (case m db of (r, db') \<Rightarrow> (case run_serial ms db' of (rs, db'') \<Rightarrow> (r # rs, db'')))"

definition is_state_error :: "py_exception + 'a \<Rightarrow> bool" where
  "is_state_error r \<longleftrightarrow> (case r of Inl (StateError _) \<Rightarrow> True | _ \<Rightarrow> False)"

context job_rewrite
begin

lemma guarded_update_Inr:
  assumes "distinct (map j_id db)" and "guarded_update tenant jid allowed upd db = (Inr row, db')"
  shows "\<exists>r. get_row j_id jid db = Some r \<and> j_tenant_id r = tenant \<and> j_status r \<in> set allowed \<and>
    row = upd r \<and> get_row j_id jid db' = Some (upd r) \<and> distinct (map j_id db')"
  using assms
  by (auto simp: guarded_update_spec get_row_update keys_update
      dest: get_row_Some split: option.splits if_splits)

end

lemma guarded_update_loses:
  assumes "job_rewrite f" and "distinct (map j_id db)" and "get_row j_id jid db = Some r" and "j_tenant_id r = tenant"
    and "j_status r \<notin> set allowed"
  shows "is_state_error (fst (guarded_update tenant jid allowed f db)) \<and>
    snd (guarded_update tenant jid allowed f db) = db"
  using assms(3-) job_rewrite.guarded_update_spec [OF assms(1,2)]
  by (simp add: is_state_error_def)


text \<open>The statuses from which each target may be entered, and where each update lands.\<close>

definition source_statuses :: "string \<Rightarrow> string list" where
  "source_statuses s =
     (if s = ''running'' then [''queued''] else if s = ''failed'' then [''running'']
      else (case allowed_entry s of None \<Rightarrow> [] | Some xs \<Rightarrow> xs))"

definition update_values :: "clock \<Rightarrow> string \<Rightarrow> job_row \<Rightarrow> job_row" where
  "update_values now s =
     (if s = ''running'' then start_values now else if s = ''failed'' then fail_values (now 0)
      else overwrite_values (now 0) s)"

lemma job_update_guarded:
  "source_statuses s \<noteq> [] \<Longrightarrow>
     job_update now tenant jid s = guarded_update tenant jid (source_statuses s) (update_values now s)"
  by (auto simp: job_update_def job_start_def job_fail_def source_statuses_def update_values_def
      split: option.splits)

lemma job_update_unknown:
  "source_statuses s = [] \<Longrightarrow> \<exists>m. job_update now tenant jid s = raiseS (ValidationError m)"
  by (auto simp: job_update_def source_statuses_def allowed_entry_def split: option.splits if_splits)

lemma job_rewrite_update_values: "job_rewrite (update_values now s)"
  unfolding update_values_def
  by (auto intro: start.job_rewrite_axioms fail.job_rewrite_axioms overwrite.job_rewrite_axioms)

lemma source_left:
  "j_status (update_values now s r) \<notin> set (source_statuses s)"
proof -
  have "''running'' \<noteq> next_status_after_failure r"
    by (simp add: next_status_after_failure_def)
  then show ?thesis
    by (auto simp: update_values_def source_statuses_def start_values_def fail_values_def
        allowed_entry_def split: option.splits if_splits)
qed

lemma losers:
  assumes "distinct (map j_id db)" and "get_row j_id jid db = Some r" and "j_tenant_id r = tenant"
    and "j_status r \<notin> set (source_statuses s)" and "source_statuses s \<noteq> []"
  shows "(\<forall>x \<in> set (fst (run_serial (map (\<lambda>now. job_update now tenant jid s) clocks) db)). is_state_error x) \<and>
    snd (run_serial (map (\<lambda>now. job_update now tenant jid s) clocks) db) = db \<and>
    length (fst (run_serial (map (\<lambda>now. job_update now tenant jid s) clocks) db)) = length clocks"
proof (induction clocks)
  case Nil
  then show ?case by simp
next
  case (Cons now clocks)
  have "is_state_error (fst (job_update now tenant jid s db))" "snd (job_update now tenant jid s db) = db"
    using guarded_update_loses [OF job_rewrite_update_values assms(1-4)] assms(5)
    by (simp_all add: job_update_guarded)
  with Cons show ?case by (auto simp: split_beta)
qed

text \<open>C23. A contended transition has exactly one winner: when any number of callers ask, in any
  order, for the same transition of one job (ten concurrent approvals, two workers starting it,
  ...), and the first to be serialised is accepted, every other one is refused with a
  \<open>StateError\<close> and changes nothing.\<close>

theorem one_winner:
  assumes "job_db_ok db" and "job_update now tenant jid s db = (Inr row, db1)"
  shows "\<exists>others. run_serial (map (\<lambda>now. job_update now tenant jid s) (now # clocks)) db = (Inr row # others, db1) \<and>
    length others = length clocks \<and> (\<forall>x \<in> set others. is_state_error x)"
proof -
  have s: "source_statuses s \<noteq> []"
    using assms(2) job_update_unknown [of s now tenant jid] by auto
  from assms(2) have "guarded_update tenant jid (source_statuses s) (update_values now s) db = (Inr row, db1)"
    by (simp add: job_update_guarded [OF s])
  from job_rewrite.guarded_update_Inr [OF job_rewrite_update_values _ this] assms(1)
  obtain r where r: "get_row j_id jid db = Some r" "j_tenant_id r = tenant"
    "get_row j_id jid db1 = Some (update_values now s r)" "distinct (map j_id db1)" by auto
  have "j_tenant_id (update_values now s r) = tenant"
    using r(2) job_rewrite.identity_upd [OF job_rewrite_update_values, of now s r]
    by (simp add: job_identity_def)
  from losers [OF r(4,3) this source_left s, of clocks] assms(2) show ?thesis
    by (auto simp: split_beta)
qed

theorem one_winner_witness:
  "job_db_ok [demo_running ''j1''] \<and>
   (\<exists>row db1 others. run_serial (map (\<lambda>now. job_update now ''t1'' ''j1'' ''cancelled'') [demo_clock, demo_clock, demo_clock])
      [demo_running ''j1''] = (Inr row # others, db1) \<and> length others = 2 \<and> (\<forall>x \<in> set others. is_state_error x))"
proof -
  have ok: "job_db_ok [demo_running ''j1'']"
    by (rule reachable_ok [OF demo_running_reachable service_ok_demo])
  have "job_update demo_clock ''t1'' ''j1'' ''cancelled'' [demo_running ''j1'']
      = (Inr (overwrite_values 100 ''cancelled'' (demo_running ''j1'')),
         [overwrite_values 100 ''cancelled'' (demo_running ''j1'')])"
    by (simp add: job_update_cases guarded_update_def update_where_def job_matches_def
        demo_running_def claim_values_def demo_job_def demo_clock_def)
  from one_winner [OF ok this, of "[demo_clock, demo_clock]"] ok show ?thesis by fastforce
qed

section \<open>The automatic retry budget\<close>

text \<open>
  The worker side alone: any run of claims, reaps, lease renewals, checkpoints and the status
  reports a runner makes (succeeded, waiting for approval, failed), with the number of times
  one job is claimed. No caller intervenes.
\<close>

inductive worker_run :: "string \<Rightarrow> nat \<Rightarrow> job_db \<Rightarrow> job_db \<Rightarrow> bool" for jid where
  idle: "worker_run jid 0 db db"
| claim: "worker_run jid n db db1 \<Longrightarrow>
     worker_run jid (if jid \<in> set (claim_candidates skip limit db1) then Suc n else n) db
       (snd (claim_batch skip now limit owner db1))"
| reap: "worker_run jid n db db1 \<Longrightarrow> worker_run jid n db (snd (reap_expired now lease db1))"
| renew: "worker_run jid n db db1 \<Longrightarrow> worker_run jid n db (snd (renew_lease now k db1))"
| save: "worker_run jid n db db1 \<Longrightarrow> worker_run jid n db (snd (save_progress now k p db1))"
| report: "worker_run jid n db db1 \<Longrightarrow> s \<in> {''succeeded'', ''waiting_approval'', ''failed''} \<Longrightarrow>
     worker_run jid n db (snd (job_update now tenant k s db1))"

definition runs_left :: "job_row \<Rightarrow> nat" where
  "runs_left r =
     (if j_status r = ''queued'' then nat (max 1 (j_max_attempts r - j_attempts r))
      else if j_status r = ''running'' then nat (j_max_attempts r - j_attempts r)
      else 0)"

lemma runs_left_claim:
  "j_status r = ''queued'' \<Longrightarrow> Suc (runs_left (claim_values now owner r)) = runs_left r"
  by (simp add: runs_left_def claim_values_def)

lemma runs_left_fail:
  "j_status r = ''running'' \<Longrightarrow> runs_left (fail_values t r) \<le> runs_left r"
  by (auto simp: runs_left_def fail_values_def next_status_after_failure_def)

lemma runs_left_report:
  assumes "j_status r = ''running''" and "s \<in> {''succeeded'', ''waiting_approval'', ''failed''}"
  shows "runs_left (update_values now s r) \<le> runs_left r"
proof (cases "s = ''failed''")
  case True
  with assms(1) show ?thesis by (simp add: update_values_def runs_left_fail)
next
  case False
  with assms(2) consider "s = ''succeeded''" | "s = ''waiting_approval''" by blast
  then have "update_values now s r = overwrite_values (now 0) s r \<and> s \<noteq> ''queued'' \<and> s \<noteq> ''running''"
    by cases (simp_all add: update_values_def)
  then show ?thesis by (simp add: runs_left_def)
qed

lemma runs_left_same [simp]:
  "runs_left (renew_values now r) = runs_left r"
  "runs_left (progress_values t p r) = runs_left r"
  by (simp_all add: runs_left_def renew_values_def progress_values_def)

lemma worker_run_bound:
  assumes "worker_run jid n db db'" and "job_db_ok db" and "get_row j_id jid db = Some r"
  shows "job_db_ok db' \<and> (\<exists>r'. get_row j_id jid db' = Some r' \<and> n + runs_left r' \<le> runs_left r)"
  using assms
proof (induction rule: worker_run.induct)
  case (idle db)
  then show ?case by simp
next
  case (claim n db db1 skip limit now owner)
  then obtain r1 where r1: "job_db_ok db1" "get_row j_id jid db1 = Some r1" "n + runs_left r1 \<le> runs_left r"
    by blast
  have q: "j_status r1 = ''queued''" if "jid \<in> set (claim_candidates skip limit db1)"
    using claim_candidates_queued(1) [of db1 r1 skip limit] r1(1,2) that by (auto dest: get_row_Some)
  have row: "get_row j_id jid (snd (claim_batch skip now limit owner db1)) =
      Some (if jid \<in> set (claim_candidates skip limit db1) then claim_values now owner r1 else r1)"
    using r1(2) by (auto simp: snd_claim_batch claim.get_row_update dest: get_row_Some)
  show ?case
    using claim_batch_ok [OF r1(1)] row r1(3) runs_left_claim [OF q, of now owner] by auto
next
  case (reap n db db1 now lease)
  then obtain r1 where r1: "job_db_ok db1" "get_row j_id jid db1 = Some r1" "n + runs_left r1 \<le> runs_left r"
    by blast
  have "runs_left (fail_values (now 1) r1) \<le> runs_left r1" if "lease_expired (now 0 - lease) r1"
    using that by (intro runs_left_fail) (simp add: lease_expired_def)
  then show ?case using reap_expired_ok [OF r1(1)] r1(2,3) by (auto simp: get_row_reap)
next
  case (renew n db db1 now k)
  then obtain r1 where r1: "job_db_ok db1" "get_row j_id jid db1 = Some r1" "n + runs_left r1 \<le> runs_left r"
    by blast
  have "get_row j_id jid (snd (renew_lease now k db1)) =
      Some (if j_id r1 = k \<and> j_status r1 = ''running'' then renew_values now r1 else r1)"
    using r1(1,2) by (simp add: snd_renew_lease renew.get_row_update)
  then show ?case using renew_lease_ok [OF r1(1)] r1(3) by auto
next
  case (save n db db1 now k p)
  then obtain r1 where r1: "job_db_ok db1" "get_row j_id jid db1 = Some r1" "n + runs_left r1 \<le> runs_left r"
    by blast
  have "get_row j_id jid (snd (save_progress now k p db1)) =
      Some (if j_id r1 = k then progress_values (now 0) p r1 else r1)"
    using r1(1,2) by (auto simp: save_progress_spec checkpoint.get_row_update dest: get_row_Some)
  then show ?case using save_progress_ok [OF r1(1)] r1(3) by auto
next
  case (report n db db1 s now tenant k)
  then obtain r1 where r1: "job_db_ok db1" "get_row j_id jid db1 = Some r1" "n + runs_left r1 \<le> runs_left r"
    by blast
  have src: "source_statuses s = [''running'']"
    using report(2) by (auto simp: source_statuses_def allowed_entry_def)
  have "get_row j_id jid (snd (job_update now tenant k s db1)) =
      Some (if job_matches tenant k [''running''] r1 then update_values now s r1 else r1)"
    using job_rewrite.get_row_guarded_update [OF job_rewrite_update_values, of db1] r1(1,2)
    by (simp add: job_update_guarded src)
  moreover have "runs_left (update_values now s r1) \<le> runs_left r1" if "job_matches tenant k [''running''] r1"
    using that report(2) by (intro runs_left_report) (auto simp: job_matches_def)
  ultimately show ?case using job_update_ok [OF r1(1)] r1(3) by auto
qed

text \<open>C25. The automatic retry budget is bounded: without a caller's intervention a queued job is
  claimed at most \<open>max 1 (max_attempts - attempts)\<close> times (and a running one at most
  \<open>max_attempts - attempts\<close> more times, any other job never), whatever the workers, reapers
  and heartbeats of any number of pods do and in whatever order.\<close>

theorem automatic_runs_bounded:
  assumes "job_reachable svc db" and "service_ok svc" and "get_row j_id jid db = Some r"
    and "worker_run jid n db db'"
  shows "n \<le> (if j_status r = ''queued'' then nat (max 1 (j_max_attempts r - j_attempts r))
     else if j_status r = ''running'' then nat (j_max_attempts r - j_attempts r) else 0)"
  using worker_run_bound [OF assms(4) reachable_ok [OF assms(1,2)] assms(3)]
  by (auto simp: runs_left_def)

theorem automatic_runs_bounded_witness:
  "\<exists>db'. worker_run ''j1'' 1 [demo_job ''j1''] db' \<and> (1::nat) \<le> nat (max 1 (3 - 0))"
proof -
  have c: "''j1'' \<in> set (claim_candidates [] 5 [demo_job ''j1''])"
    by (simp add: claim_candidates_def select_where_def demo_job_def)
  have w: "worker_run ''j1'' 1 [demo_job ''j1''] (snd (claim_batch [] demo_clock 5 ''pod'' [demo_job ''j1'']))"
    using worker_run.claim [OF worker_run.idle, of "''j1''" "[]" 5 "[demo_job ''j1'']" demo_clock "''pod''"] c
    by simp
  have r: "get_row j_id ''j1'' [demo_job ''j1''] = Some (demo_job ''j1'')"
    by (simp add: demo_job_def)
  from automatic_runs_bounded [OF demo_reachable service_ok_demo r w] w show ?thesis
    by (auto simp: demo_job_def)
qed

section \<open>Requeueing past the budgets\<close>

text \<open>A plain \<open>UpdateJob(queued)\<close> is not bounded by either retry budget: it requeues a
  dead-lettered (or failed, cancelled or paused) job with both counters kept, so that the next
  claim runs it again beyond \<open>max_attempts\<close>. Dead is therefore not terminal for a caller of
  \<open>UpdateJob\<close>, although \<open>RetryJob\<close> refuses it.\<close>

theorem update_queued_bypasses_budgets:
  assumes "job_reachable svc db" and "service_ok svc" and "get_row j_id jid db = Some r"
    and "j_tenant_id r = tenant" and "j_status r \<in> {''failed'', ''dead'', ''cancelled'', ''waiting_approval''}"
  shows "\<exists>r'. fst (job_update now tenant jid ''queued'' db) = Inr r' \<and>
    get_row j_id jid (snd (job_update now tenant jid ''queued'' db)) = Some r' \<and>
    j_status r' = ''queued'' \<and> j_attempts r' = j_attempts r \<and> j_retry_count r' = j_retry_count r \<and>
    j_locked_at r' = None \<and> j_locked_by r' = None \<and> j_progress r' = j_progress r \<and>
    j_attempts (claim_values now owner r') = j_attempts r + 1"
proof -
  have d: "distinct (map j_id db)" using reachable_ok [OF assms(1,2)] by simp
  have "get_row j_id jid (snd (job_update now tenant jid ''queued'' db))
      = Some (overwrite_values (now 0) ''queued'' r)"
    using assms(3-5) by (auto simp: job_update_cases requeue.get_row_guarded_update [OF d] job_matches_def
        dest: get_row_Some)
  moreover have "fst (job_update now tenant jid ''queued'' db) = Inr (overwrite_values (now 0) ''queued'' r)"
    using assms(3-5) by (auto simp: job_update_cases requeue.guarded_update_spec [OF d])
  ultimately show ?thesis by (auto simp: overwrite_values_def claim_values_def)
qed

definition demo_cancelled :: "string \<Rightarrow> job_row" where
  "demo_cancelled jid = overwrite_values 100 ''cancelled'' (demo_running jid)"

lemma demo_cancelled_reachable: "job_reachable demo_service [demo_cancelled ''j1'']"
proof -
  have "snd (job_update demo_clock ''t1'' ''j1'' ''cancelled'' [demo_running ''j1''])
      = [demo_cancelled ''j1'']"
    by (simp add: job_update_cases guarded_update_def update_where_def job_matches_def
        demo_cancelled_def demo_running_def claim_values_def demo_job_def demo_clock_def)
  then show ?thesis
    by (metis job_reachable.step [OF demo_running_reachable job_step.update])
qed

theorem update_queued_bypasses_budgets_witness:
  "j_status (demo_cancelled ''j1'') = ''cancelled'' \<and>
   (\<exists>r'. fst (job_update demo_clock ''t1'' ''j1'' ''queued'' [demo_cancelled ''j1'']) = Inr r' \<and>
      j_status r' = ''queued'' \<and> j_attempts r' = 1)"
proof -
  have d: "get_row j_id ''j1'' [demo_cancelled ''j1''] = Some (demo_cancelled ''j1'')"
    "j_tenant_id (demo_cancelled ''j1'') = ''t1''" "j_status (demo_cancelled ''j1'') = ''cancelled''"
    "j_attempts (demo_cancelled ''j1'') = 1"
    by (simp_all add: demo_cancelled_def demo_running_def claim_values_def demo_job_def overwrite_values_def)
  have s: "j_status (demo_cancelled ''j1'') \<in> {''failed'', ''dead'', ''cancelled'', ''waiting_approval''}"
    using d(3) by simp
  from update_queued_bypasses_budgets [OF demo_cancelled_reachable service_ok_demo d(1,2) s, of demo_clock] d(3,4)
  show ?thesis by auto
qed

end
