(* ===== verification/Job_Edge.thy ===== *)
theory Job_Edge
  imports Job_Queue
begin

text \<open>
  The properties of \<open>job_svc\<close> as a caller sees it through its handlers: tenants cannot
  observe or affect each other, every outcome of a handler is the status code the service
  documents for it, and the progress checkpoint reaches the wire in execution order.
\<close>

section \<open>Tenants\<close>

text \<open>What one tenant owns of the table.\<close>

definition tenant_view :: "string \<Rightarrow> job_db \<Rightarrow> job_db" where
  "tenant_view t db = select_where (\<lambda>r. j_tenant_id r = t) db"

text \<open>
  An operation that acts for tenant \<open>t\<close> is local when its result and its effect on \<open>t\<close>'s rows
  are those it has on a table holding only \<open>t\<close>'s rows, and no other tenant's rows change.
\<close>

definition tenant_local :: "string \<Rightarrow> (job_db, 'e, 'a) comp \<Rightarrow> job_db \<Rightarrow> bool" where
  "tenant_local t m db \<longleftrightarrow> fst (m db) = fst (m (tenant_view t db)) \<and>
     tenant_view t (snd (m db)) = snd (m (tenant_view t db)) \<and>
     (\<forall>u. u \<noteq> t \<longrightarrow> tenant_view u (snd (m db)) = tenant_view u db)"

lemma tenant_view_idem [simp]: "tenant_view t (tenant_view t db) = tenant_view t db"
  by (simp add: tenant_view_def select_where_def)

lemma tenant_local_pure: "tenant_local t (\<lambda>db. (r, db)) db"
  by (simp add: tenant_local_def)

lemma tenant_local_liftS_bind:
  "(\<And>a. r = Inr a \<Longrightarrow> tenant_local t (f a) db) \<Longrightarrow> tenant_local t (bindS (liftS r) f) db"
  by (cases r) (simp_all add: tenant_local_def bindS_def)

lemma tenant_local_bind_pure:
  assumes "tenant_local t m db"
  shows "tenant_local t (bindS m (\<lambda>a. liftS (g a))) db"
  using assms unfolding tenant_local_def bindS_def
  by (auto split: prod.splits sum.splits)

lemma tenant_local_handle:
  assumes "tenant_local t m db"
  shows "tenant_local t (job_handle_errors m) db"
  using assms unfolding tenant_local_def job_handle_errors_def
  by (auto split: prod.splits sum.splits)

lemma filter_tenant_update:
  assumes "\<And>r. j_tenant_id (f r) = j_tenant_id r" and "\<And>r. r \<in> set db \<Longrightarrow> P r \<Longrightarrow> j_tenant_id r = t"
  shows "tenant_view u (update_rows P f db) =
    (if u = t then update_rows P f (tenant_view t db) else tenant_view u db)"
  using assms by (induction db) (auto simp: tenant_view_def select_where_def)

lemma get_row_tenant_view:
  assumes "distinct (map j_id db)"
  shows "get_row j_id k (tenant_view t db) =
    (case get_row j_id k db of None \<Rightarrow> None | Some r \<Rightarrow> if j_tenant_id r = t then Some r else None)"
  using assms
proof (induction db)
  case (Cons x xs)
  have "get_row j_id (j_id x) (tenant_view t xs) = None"
    using Cons.prems by (auto simp: get_row_None tenant_view_def)
  with Cons show ?case by (auto simp: tenant_view_def select_where_def)
qed (simp add: tenant_view_def select_where_def)

context job_rewrite
begin

lemma tenant_local_guarded_update:
  assumes d: "distinct (map j_id db)"
  shows "tenant_local t (guarded_update t jid allowed upd) db"
proof -
  have up: "tenant_view u (update_rows (\<lambda>r. j_id r = jid) upd db) =
    (if u = t then update_rows (\<lambda>r. j_id r = jid) upd (tenant_view t db) else tenant_view u db)"
    if "get_row j_id jid db = Some r" "j_tenant_id r = t" for u r
    using identity_upd that get_row_in [OF d]
    by (intro filter_tenant_update) (force simp: job_identity_def)+
  have dv: "distinct (map j_id (tenant_view t db))"
    using d by (simp add: tenant_view_def select_where_def distinct_map_filter)
  show ?thesis
    unfolding tenant_local_def guarded_update_spec [OF d] guarded_update_spec [OF dv] get_row_tenant_view [OF d]
    by (auto simp: up split: option.splits)
qed

end

lemma tenant_local_job_update:
  assumes "distinct (map j_id db)"
  shows "tenant_local t (job_update now t jid s) db"
proof (cases "source_statuses s = []")
  case True
  from job_update_unknown [OF this, of now t jid] show ?thesis
    by (auto simp: raiseS_def tenant_local_pure)
next
  case False
  then show ?thesis
    by (simp add: job_update_guarded
        job_rewrite.tenant_local_guarded_update [OF job_rewrite_update_values assms])
qed

lemma tenant_local_job_retry:
  "distinct (map j_id db) \<Longrightarrow> tenant_local t (job_retry now t jid) db"
  by (simp add: job_retry_def retry.tenant_local_guarded_update)

lemma tenant_local_job_create:
  "new_id \<notin> set (map j_id db) \<Longrightarrow>
     tenant_local t (job_create svc new_id now t typ spec ma mr) db"
  by (auto simp: tenant_local_def job_create_def Let_def tenant_view_def select_where_def insert_row_def)

lemma tenant_local_job_get:
  "tenant_local t (\<lambda>db. (rows_to_proto pb (job_get t ids ss ts db), db)) db"
  by (simp add: tenant_local_def job_get_def tenant_view_def select_where_def)

text \<open>The four handlers are local to the authenticated tenant.\<close>

lemma job_handlers_local:
  assumes "job_db_ok db" and "tenant_id_from_metadata md = Inr t" and "new_id \<notin> set (map j_id db)"
  shows "tenant_local t (CreateJob pb svc new_id now md creq) db \<and>
    tenant_local t (GetJob pb md greq) db \<and>
    tenant_local t (UpdateJob pb now md jid st) db \<and>
    tenant_local t (RetryJob pb now md jid) db"
proof (intro conjI)
  have d: "distinct (map j_id db)" using assms(1) by simp
  note rules = tenant_local_handle tenant_local_liftS_bind tenant_local_bind_pure
  show "tenant_local t (CreateJob pb svc new_id now md creq) db"
    unfolding CreateJob_def assms(2)
    by (intro rules) (use assms(3) in \<open>auto intro: tenant_local_job_create\<close>)
  show "tenant_local t (GetJob pb md greq) db"
    unfolding GetJob_def assms(2)
    by (intro rules) (auto intro: tenant_local_job_get)
  show "tenant_local t (UpdateJob pb now md jid st) db"
    unfolding UpdateJob_def assms(2)
    by (intro rules) (use d in \<open>auto intro: tenant_local_job_update\<close>)
  show "tenant_local t (RetryJob pb now md jid) db"
    unfolding RetryJob_def assms(2)
    by (intro rules) (use d in \<open>auto intro: tenant_local_job_retry\<close>)
qed

text \<open>C17. Tenants do not interfere: for a call authenticated as tenant \<open>t\<close>, each of the four
  handlers answers exactly as it would if the table held only \<open>t\<close>'s jobs (so another tenant's
  job is indistinguishable from a missing one), changes \<open>t\<close>'s rows exactly as it would there,
  and leaves every row of every other tenant untouched.\<close>

theorem tenants_do_not_interfere:
  assumes "job_db_ok db" and "tenant_id_from_metadata md = Inr t" and "new_id \<notin> set (map j_id db)"
  shows "tenant_local t (CreateJob pb svc new_id now md creq) db \<and>
    tenant_local t (GetJob pb md greq) db \<and>
    tenant_local t (UpdateJob pb now md jid st) db \<and>
    tenant_local t (RetryJob pb now md jid) db"
  using job_handlers_local [OF assms] .

definition demo_spec :: job_spec where
  "demo_spec = Agent_Execution_Spec
     \<lparr>ae_name = ''a'', ae_instructions = ''go'', ae_llm_config = None, ae_tool_config = None\<rparr>"

definition demo_protobuf :: protobuf where
  "demo_protobuf = \<lparr>message_to_dict = (\<lambda>_. JObj []), parse_dict = (\<lambda>_. Inr demo_spec)\<rparr>"

theorem tenants_do_not_interfere_witness:
  "job_db_ok [demo_job ''j1''] \<and>
   tenant_local ''t2'' (UpdateJob demo_protobuf demo_clock [(''x-tenant-id'', ''t2'')] ''j1'' 6) [demo_job ''j1''] \<and>
   tenant_view ''t1'' (snd (UpdateJob demo_protobuf demo_clock [(''x-tenant-id'', ''t2'')] ''j1'' 6 [demo_job ''j1'']))
     = [demo_job ''j1'']"
proof -
  have ok: "job_db_ok [demo_job ''j1'']"
    by (simp add: job_db_ok_def demo_job_def row_ok_defs)
  have t: "tenant_id_from_metadata [(''x-tenant-id'', ''t2'')] = Inr ''t2''"
    by (simp add: tenant_id_from_metadata_def)
  have f: "''j2'' \<notin> set (map j_id [demo_job ''j1''])" by (simp add: demo_job_def)
  have v: "tenant_view ''t1'' [demo_job ''j1''] = [demo_job ''j1'']"
    by (simp add: tenant_view_def select_where_def demo_job_def)
  from tenants_do_not_interfere [OF ok t f, of demo_protobuf demo_service demo_clock
      "\<lparr>cj_type = 1, cj_spec = demo_spec, cj_max_attempts = None, cj_max_retries = None\<rparr>"
      "\<lparr>gj_ids = [], gj_statuses = [], gj_types = []\<rparr>" "''j1''" 6]
  have u: "tenant_local ''t2'' (UpdateJob demo_protobuf demo_clock [(''x-tenant-id'', ''t2'')] ''j1'' 6) [demo_job ''j1'']"
    by blast
  then have "tenant_view ''t1'' (snd (UpdateJob demo_protobuf demo_clock [(''x-tenant-id'', ''t2'')] ''j1'' 6 [demo_job ''j1'']))
      = tenant_view ''t1'' [demo_job ''j1'']"
    unfolding tenant_local_def by (elim conjE allE [of _ "''t1''"]) simp
  with ok u v show ?thesis by simp
qed

section \<open>Outcomes\<close>

text \<open>C33. Functional behaviour of \<open>UpdateJob\<close> on every branch: the checks are made in order
  (caller identity, id, status, existence within the tenant, allowed source status), each
  failure is its own gRPC code and leaves the table unchanged, and an accepted call stores the
  rewritten row and answers with it (or, when the stored spec cannot be rendered as a message,
  fails after the update has been committed).\<close>

theorem UpdateJob_outcome:
  assumes "job_db_ok db"
  shows "case UpdateJob pb now md jid n db of (res, db') \<Rightarrow>
    (case tenant_id_from_metadata md of
       Inl _ \<Rightarrow> res = Inl (UNAUTHENTICATED, ''missing x-tenant-id metadata'') \<and> db' = db
     | Inr t \<Rightarrow>
         if py_blank jid then res = Inl (INVALID_ARGUMENT, ''id must not be empty'') \<and> db' = db
         else (case status_from_proto n of
             None \<Rightarrow> res = Inl (INVALID_ARGUMENT, ''status is required'') \<and> db' = db
           | Some s \<Rightarrow> (case get_row j_id jid (tenant_view t db) of
               None \<Rightarrow> res = Inl (NOT_FOUND, ''job '' @ jid @ '' not found'') \<and> db' = db
             | Some r \<Rightarrow>
                 if j_status r \<in> set (source_statuses s)
                 then res = map_sum job_abort id (job_to_proto pb (update_values now s r)) \<and>
                   get_row j_id jid db' = Some (update_values now s r)
                 else (\<exists>m. res = Inl (FAILED_PRECONDITION, m)) \<and> db' = db)))"
proof -
  have d: "distinct (map j_id db)" using assms(1) by simp
  have src: "source_statuses s \<noteq> []" if "status_from_proto n = Some s" for s
    using status_from_proto_known [OF that]
    by (auto simp: source_statuses_def allowed_entry_def job_statuses_def)
  show ?thesis
  proof (cases "tenant_id_from_metadata md")
    case (Inl e)
    then show ?thesis
      by (auto simp: UpdateJob_def job_handle_errors_def bindS_def job_abort_def is_app_error_def
          job_status_by_error_def tenant_id_from_metadata_def split: option.splits if_splits)
  next
    case (Inr t)
    show ?thesis
    proof (cases "py_blank jid \<or> status_from_proto n = None")
      case True
      with Inr show ?thesis
        by (auto simp: UpdateJob_def job_handle_errors_def bindS_def job_abort_def is_app_error_def
            job_status_by_error_def validate_job_id_def validate_status_def)
    next
      case False
      then obtain s where s: "\<not> py_blank jid" "status_from_proto n = Some s" by auto
      have eq: "UpdateJob pb now md jid n db = job_handle_errors (bindS (guarded_update t jid
          (source_statuses s) (update_values now s)) (\<lambda>row. liftS (job_to_proto pb row))) db"
        by (simp add: UpdateJob_def Inr s validate_job_id_def validate_status_def bindS_def
            job_handle_errors_def job_update_guarded [OF src [OF s(2)]])
      show ?thesis
        unfolding eq
        using Inr s d
        by (auto simp: job_handle_errors_def bindS_def get_row_tenant_view
            job_rewrite.guarded_update_spec [OF job_rewrite_update_values]
            job_rewrite_get_row_update [OF job_rewrite_update_values]
            job_abort_def is_app_error_def job_status_by_error_def
            dest: get_row_Some split: option.splits sum.splits)
    qed
  qed
qed

theorem UpdateJob_outcome_witness:
  "job_db_ok [demo_job ''j1''] \<and>
   get_row j_id ''j1'' (snd (UpdateJob demo_protobuf demo_clock [(''x-tenant-id'', ''t1'')] ''j1'' 6 [demo_job ''j1'']))
     = Some (update_values demo_clock ''cancelled'' (demo_job ''j1''))"
proof -
  have ok: "job_db_ok [demo_job ''j1'']"
    by (simp add: job_db_ok_def demo_job_def row_ok_defs)
  have t: "tenant_id_from_metadata [(''x-tenant-id'', ''t1'')] = Inr ''t1''"
    by (simp add: tenant_id_from_metadata_def)
  have s: "status_from_proto 6 = Some ''cancelled''" "\<not> py_blank ''j1''"
    by (simp_all add: status_from_proto_def status_to_proto_def py_blank_def py_strip_def py_lstrip_def py_rstrip_def py_isspace_def)
  have v: "get_row j_id ''j1'' (tenant_view ''t1'' [demo_job ''j1'']) = Some (demo_job ''j1'')"
    by (simp add: tenant_view_def select_where_def demo_job_def)
  have a: "j_status (demo_job ''j1'') \<in> set (source_statuses ''cancelled'')"
    by (simp add: demo_job_def source_statuses_def allowed_entry_def)
  from UpdateJob_outcome [OF ok, where pb = demo_protobuf and now = demo_clock and
      md = "[(''x-tenant-id'', ''t1'')]" and jid = "''j1''" and n = 6] ok
  show ?thesis by (simp add: t s v a split: prod.splits)
qed

section \<open>Progress on the wire\<close>

text \<open>
  The runner keys the \<open>steps\<close> object of the \<open>progress\<close> column by decimal indices, as
  strings; the mapper does not rely on the order in which the object's entries come back.
\<close>

lemma sort_key_str_nat_steps:
  "sort_key fst (map (\<lambda>(i, v). (int i, v)) kvs) = map (\<lambda>(i, v). (int i, v)) (sort_key fst kvs)"
proof (induction kvs)
  case (Cons x xs)
  have ins: "insort_key fst (int i, v) (map (\<lambda>(i, v). (int i, v)) ys) =
      map (\<lambda>(i, v). (int i, v)) (insort_key fst (i, v) ys)" for i and v :: 'a and ys
    by (induction ys) auto
  obtain i v where "x = (i, v)" by (cases x)
  with Cons ins [of i v "sort_key fst xs"] show ?case by (simp add: sort_key_def)
qed simp

text \<open>The checkpointed steps reach the wire in execution order: whatever the order of
  the stored object's entries, a progress blob keyed by decimal step indices is rendered with one
  step per entry, sorted by numeric (not textual) index, each with its stored prompt, output and
  agent, and an unset result or error as the empty string.\<close>

theorem progress_steps_in_order:
  assumes "pg_steps p = Some (map (\<lambda>(i, st). (str_nat i, st)) entries)" and "distinct (map fst entries)"
  shows "\<exists>pp. progress_to_proto p = Inr pp \<and>
    pp_steps pp = map (\<lambda>(i, st). step_to_proto (int i, st)) (sort_key fst entries) \<and>
    sorted_wrt (<) (map ps_index (pp_steps pp)) \<and> length (pp_steps pp) = length entries \<and>
    (\<forall>i st. (i, st) \<in> set entries \<longrightarrow> (\<exists>s \<in> set (pp_steps pp). ps_index s = int i \<and>
       ps_prompt s = st_prompt st \<and> ps_output s = st_output st \<and> ps_agent s = st_agent st)) \<and>
    pp_plan pp = (case pg_plan p of None \<Rightarrow> [] | Some xs \<Rightarrow> xs) \<and>
    pp_error pp = opt_str (pg_error p) \<and> pp_result pp = opt_str (pg_result p)"
proof -
  let ?steps = "map (\<lambda>(i, st). step_to_proto (int i, st)) (sort_key fst entries)"
  have i: "map ps_index ?steps = map int (map fst (sort_key fst entries))"
    by (auto simp: step_to_proto_def o_def case_prod_beta)
  have "distinct (map fst (sort_key fst entries))"
    using assms(2) by (simp add: distinct_map)
  then have "sorted_wrt (<) (map fst (sort_key fst entries))"
    by (intro strict_sorted_iff [THEN iffD2] conjI) simp_all
  then have s: "sorted_wrt (<) (map ps_index ?steps)"
    unfolding i by (simp add: sorted_wrt_map)
  have e: "progress_to_proto p = Inr
      \<lparr>pp_phase = phase_to_proto (opt_str (pg_phase p)),
       pp_plan = (case pg_plan p of None \<Rightarrow> [] | Some xs \<Rightarrow> xs), pp_steps = ?steps,
       pp_error = opt_str (pg_error p), pp_result = opt_str (pg_result p)\<rparr>"
    using int_keys_str_nat [of entries] assms
    by (simp add: progress_to_proto_def sort_key_str_nat_steps o_def case_prod_beta)
  have "\<forall>i st. (i, st) \<in> set entries \<longrightarrow> (\<exists>s \<in> set ?steps. ps_index s = int i \<and>
       ps_prompt s = st_prompt st \<and> ps_output s = st_output st \<and> ps_agent s = st_agent st)"
    by (force simp: step_to_proto_def)
  with e s show ?thesis by simp
qed

definition demo_step :: "string \<Rightarrow> job_step" where
  "demo_step out = \<lparr>st_prompt = ''p'', st_output = out, st_finish_reason = ''stop'', st_agent = []\<rparr>"

theorem progress_steps_in_order_witness:
  "\<exists>pp. progress_to_proto (empty_progress\<lparr>pg_steps := Some (map (\<lambda>(i, st). (str_nat i, st))
      [(10, demo_step ''b''), (2, demo_step ''a'')])\<rparr>) = Inr pp \<and>
    map ps_index (pp_steps pp) = [2, 10]"
  using progress_steps_in_order [of "empty_progress\<lparr>pg_steps := Some (map (\<lambda>(i, st). (str_nat i, st))
      [(10, demo_step ''b''), (2, demo_step ''a'')])\<rparr>" "[(10, demo_step ''b''), (2, demo_step ''a'')]"]
  by (auto simp: step_to_proto_def)

end
