(* ===== verification/Json_Codec.thy ===== *)
theory Json_Codec
  imports Json
begin

text \<open>
  Python's \<open>json.loads\<close> and \<open>json.dumps\<close>: the planner's reply and the tool schemas and
  arguments that cross the services are JSON text. The decoder follows the scanner of the
  standard library (white space, literals with \<open>NaN\<close> and the infinities, numbers, strict
  strings with escapes, objects and arrays, nothing after the value); a \<open>ValueError\<close> is
  \<open>None\<close>. A recursive call on the rest of an array or object is guarded by the rest being
  shorter, which it always is (\<open>parse_consumes\<close>).
\<close>

section \<open>Library parameters\<close>

text \<open>
  Strings here hold code points below 256. \<open>wide_char\<close> gives the character that stands for
  a larger code point written as a \<open>\u\<close> escape, and \<open>float_str\<close> is \<open>str\<close> of the float a
  literal denotes; the development holds for every choice of the two.
\<close>

record pylib =
  wide_char :: "nat \<Rightarrow> char"
  float_str :: "string \<Rightarrow> string"

section \<open>Scanning\<close>

definition json_ws :: "char \<Rightarrow> bool" where
  "json_ws c \<longleftrightarrow> ordc c \<in> {32, 9, 10, 13}"

definition skip_ws :: "string \<Rightarrow> string" where
  "skip_ws s = dropWhile json_ws s"

definition hex_value :: "char \<Rightarrow> nat option" where
  "hex_value c =
     (if 48 \<le> ordc c \<and> ordc c \<le> 57 then Some (ordc c - 48)
      else if 97 \<le> ordc c \<and> ordc c \<le> 102 then Some (ordc c - 87)
      else if 65 \<le> ordc c \<and> ordc c \<le> 70 then Some (ordc c - 55)
      else None)"

fun hex4 :: "string \<Rightarrow> nat option" where
  "hex4 (a # b # c # d # r) =
     (case (hex_value a, hex_value b, hex_value c, hex_value d) of
        (Some i, Some j, Some k, Some l) \<Rightarrow> Some (((i * 16 + j) * 16 + k) * 16 + l)
      | _ \<Rightarrow> None)"
| "hex4 _ = None"

text \<open>A high surrogate escape and the low one that follows it are one code point.\<close>

definition surrogate_pair :: "nat \<Rightarrow> string \<Rightarrow> nat option" where
  "surrogate_pair u r =
     (if 55296 \<le> u \<and> u \<le> 56319 \<and> take 2 r = [CHR 0x5C, CHR ''u'']
      then (case hex4 (drop 2 r) of
              Some u2 \<Rightarrow> if 56320 \<le> u2 \<and> u2 \<le> 57343
                then Some (65536 + (u - 55296) * 1024 + (u2 - 56320)) else None
            | None \<Rightarrow> None)
      else None)"

definition simple_escape :: "char \<Rightarrow> char option" where
  "simple_escape e = map_of
     [(CHR 0x22, CHR 0x22), (CHR 0x5C, CHR 0x5C), (CHR ''/'', CHR ''/''),
      (CHR ''b'', CHR 0x08), (CHR ''f'', CHR 0x0C), (CHR ''n'', CHR 0x0A),
      (CHR ''r'', CHR 0x0D), (CHR ''t'', CHR 0x09)] e"

definition unit_char :: "pylib \<Rightarrow> nat \<Rightarrow> char" where
  "unit_char lib u = (if u < 256 then char_of u else wide_char lib u)"

definition cons_fst :: "'a \<Rightarrow> ('a list \<times> 'b) option \<Rightarrow> ('a list \<times> 'b) option" where
  "cons_fst x r = map_option (\<lambda>(xs, t). (x # xs, t)) r"

text \<open>The string after its opening quote, and what follows its closing one.\<close>

fun scan_string :: "pylib \<Rightarrow> string \<Rightarrow> (string \<times> string) option" where
  "scan_string lib [] = None"
| "scan_string lib (c # cs) =
     (if c = CHR 0x22 then Some ([], cs)
      else if c = CHR 0x5C then
        (case cs of
           [] \<Rightarrow> None
         | e # es \<Rightarrow>
             if e = CHR ''u'' then
               (case hex4 es of
                  None \<Rightarrow> None
                | Some u \<Rightarrow>
                    (case surrogate_pair u (drop 4 es) of
                       Some p \<Rightarrow> cons_fst (wide_char lib p) (scan_string lib (drop 10 es))
                     | None \<Rightarrow> cons_fst (unit_char lib u) (scan_string lib (drop 4 es))))
             else (case simple_escape e of
                     None \<Rightarrow> None
                   | Some x \<Rightarrow> cons_fst x (scan_string lib es)))
      else if ordc c < 32 then None
      else cons_fst c (scan_string lib cs))"

definition digits_value :: "string \<Rightarrow> nat" where
  "digits_value ds = foldl (\<lambda>a c. 10 * a + (ordc c - 48)) 0 ds"

definition scan_frac :: "string \<Rightarrow> string \<times> string" where
  "scan_frac s =
     (case s of
        c # d # r \<Rightarrow> if c = CHR ''.'' \<and> ascii_digit d
          then (c # takeWhile ascii_digit (d # r), dropWhile ascii_digit (d # r)) else ([], s)
      | _ \<Rightarrow> ([], s))"

definition split_sign :: "string \<Rightarrow> string \<Rightarrow> string \<times> string" where
  "split_sign signs s =
     (case s of [] \<Rightarrow> ([], []) | d # r \<Rightarrow> if d \<in> set signs then ([d], r) else ([], s))"

definition scan_exp :: "string \<Rightarrow> string \<times> string" where
  "scan_exp s =
     (case s of
        [] \<Rightarrow> ([], s)
      | c # r \<Rightarrow>
          if c \<in> {CHR ''e'', CHR ''E''}
          then (let (sign, ds) = split_sign ''+-'' r
                in if ds \<noteq> [] \<and> ascii_digit (hd ds)
                   then (c # sign @ takeWhile ascii_digit ds, dropWhile ascii_digit ds)
                   else ([], s))
          else ([], s))"

text \<open>Python refuses to convert an integer literal of more than 4300 digits.\<close>

definition max_str_digits :: nat where
  "max_str_digits = 4300"

definition scan_digits :: "string \<Rightarrow> (string \<times> string) option" where
  "scan_digits s =
     (case s of
        [] \<Rightarrow> None
      | c # r \<Rightarrow>
          if \<not> ascii_digit c then None
          else if c = CHR ''0'' then Some ([c], r)
          else Some (takeWhile ascii_digit s, dropWhile ascii_digit s))"

definition scan_number :: "string \<Rightarrow> (json \<times> string) option" where
  "scan_number s =
     (let (neg, s1) = split_sign ''-'' s
      in case scan_digits s1 of
           None \<Rightarrow> None
         | Some (ds, r1) \<Rightarrow>
             (let (fr, r2) = scan_frac r1;
                  (ex, r3) = scan_exp r2
              in if fr = [] \<and> ex = []
                 then (if length ds > max_str_digits then None
                       else Some (JInt (if neg = [] then int (digits_value ds) else - int (digits_value ds)), r1))
                 else Some (JFloat (neg @ ds @ fr @ ex), r3)))"

definition strip_prefix :: "string \<Rightarrow> string \<Rightarrow> string option" where
  "strip_prefix p s = (if take (length p) s = p then Some (drop (length p) s) else None)"

definition literals :: "(string \<times> json) list" where
  "literals = [(''null'', JNull), (''true'', JBool True), (''false'', JBool False),
     (''NaN'', JFloat ''NaN''), (''Infinity'', JFloat ''Infinity''),
     (''-Infinity'', JFloat ''-Infinity'')]"

fun scan_literal :: "(string \<times> json) list \<Rightarrow> string \<Rightarrow> (json \<times> string) option" where
  "scan_literal [] s = None"
| "scan_literal ((p, v) # ls) s =
     (case strip_prefix p s of Some r \<Rightarrow> Some (v, r) | None \<Rightarrow> scan_literal ls s)"

definition scan_atom :: "string \<Rightarrow> (json \<times> string) option" where
  "scan_atom s = (case scan_literal literals s of Some x \<Rightarrow> Some x | None \<Rightarrow> scan_number s)"

lemma skip_ws_length [termination_simp]: "length (skip_ws s) \<le> length s"
  by (simp add: skip_ws_def length_dropWhile_le)

lemma skip_ws_length_less: "skip_ws s = c # r \<Longrightarrow> length r < length s"
  using skip_ws_length [of s] by simp

lemma cons_fst_Some:
  "cons_fst x r = Some (ys, t) \<longleftrightarrow> (\<exists>xs. r = Some (xs, t) \<and> ys = x # xs)"
  by (cases r) (auto simp: cons_fst_def)

lemma scan_string_length: "scan_string lib s = Some (x, r) \<Longrightarrow> length r < length s"
proof (induction "length s" arbitrary: s x rule: less_induct)
  case less
  have IH: "length r < Suc n" if "scan_string lib t = Some (y, r)" "length t \<le> n" "n < length s" for t y n
    using less(1) [OF _ that(1)] that(2,3) by simp
  show ?case
  proof (cases s)
    case (Cons c cs)
    with less(2) show ?thesis
      by (auto simp: cons_fst_Some split: if_splits list.splits option.splits
          dest!: IH [where n = "length cs"])
  qed (use less in simp)
qed

lemma skip_ws_measure:
  "length t < n \<Longrightarrow> 2 * length (skip_ws t) \<le> Suc (2 * n)"
  "length t < n \<Longrightarrow> 2 * length (skip_ws t) \<le> Suc (Suc (2 * n))"
  using skip_ws_length [of t] by linarith+

section \<open>Values\<close>

function (sequential)
  parse_value :: "pylib \<Rightarrow> string \<Rightarrow> (json \<times> string) option" and
  parse_elems :: "pylib \<Rightarrow> string \<Rightarrow> (json list \<times> string) option" and
  parse_members :: "pylib \<Rightarrow> string \<Rightarrow> ((string \<times> json) list \<times> string) option" where
  "parse_value lib [] = None"
| "parse_value lib (c # r) =
     (if c = CHR 0x22 then map_option (\<lambda>(x, t). (JStr x, t)) (scan_string lib r)
      else if c = CHR ''{'' then
        (case skip_ws r of
           [] \<Rightarrow> None
         | d # r' \<Rightarrow> if d = CHR ''}'' then Some (JObj [], r')
             else map_option (\<lambda>(ms, t). (JObj ms, t)) (parse_members lib (skip_ws r)))
      else if c = CHR ''['' then
        (case skip_ws r of
           [] \<Rightarrow> None
         | d # r' \<Rightarrow> if d = CHR '']'' then Some (JArr [], r')
             else map_option (\<lambda>(vs, t). (JArr vs, t)) (parse_elems lib (skip_ws r)))
      else scan_atom (c # r))"
| "parse_elems lib s =
     (case parse_value lib s of
        None \<Rightarrow> None
      | Some (v, rest) \<Rightarrow>
          (case skip_ws rest of
             [] \<Rightarrow> None
           | d # r \<Rightarrow>
               if d = CHR '']'' then Some ([v], r)
               else if d = CHR '','' \<and> length r < length s
               then cons_fst v (parse_elems lib (skip_ws r))
               else None))"
| "parse_members lib [] = None"
| "parse_members lib (c # s) =
     (if c \<noteq> CHR 0x22 then None
      else (case scan_string lib s of
        None \<Rightarrow> None
      | Some (k, s1) \<Rightarrow>
          (case skip_ws s1 of
             [] \<Rightarrow> None
           | d # s2 \<Rightarrow>
               if d \<noteq> CHR '':'' \<or> \<not> length s2 < length s then None
               else (case parse_value lib (skip_ws s2) of
                 None \<Rightarrow> None
               | Some (v, s3) \<Rightarrow>
                   (case skip_ws s3 of
                      [] \<Rightarrow> None
                    | e # s4 \<Rightarrow>
                        if e = CHR ''}'' then Some ([(k, v)], s4)
                        else if e = CHR '','' \<and> length s4 < length s
                        then cons_fst (k, v) (parse_members lib (skip_ws s4))
                        else None)))))"
  by pat_completeness auto

termination
  by (relation "measure (\<lambda>x. case x of Inl (_, s) \<Rightarrow> 2 * length s
        | Inr (Inl (_, s)) \<Rightarrow> 2 * length s + 1 | Inr (Inr (_, s)) \<Rightarrow> 2 * length s + 1)")
    (auto dest: skip_ws_length_less intro: skip_ws_measure le_less_trans [OF skip_ws_length] le_trans [OF skip_ws_length]
      simp: Suc_le_eq less_Suc_eq_le)

definition json_loads :: "pylib \<Rightarrow> string \<Rightarrow> json option" where
  "json_loads lib text =
     (case parse_value lib (skip_ws text) of
        None \<Rightarrow> None
      | Some (v, rest) \<Rightarrow> if skip_ws rest = [] then Some v else None)"

section \<open>Printing\<close>

text \<open>\<open>json.dumps\<close> with its default settings: ASCII output, \<open>', '\<close> and \<open>': '\<close>.\<close>

definition dumps_char :: "char \<Rightarrow> string" where
  "dumps_char c =
     (if c = CHR 0x22 \<or> c = CHR 0x5C then [CHR 0x5C, c]
      else if 32 \<le> ordc c \<and> ordc c \<le> 126 then [c]
      else if c = CHR 0x08 then [CHR 0x5C, CHR ''b'']
      else if c = CHR 0x0C then [CHR 0x5C, CHR ''f'']
      else if c = CHR 0x0A then [CHR 0x5C, CHR ''n'']
      else if c = CHR 0x0D then [CHR 0x5C, CHR ''r'']
      else if c = CHR 0x09 then [CHR 0x5C, CHR ''t'']
      else [CHR 0x5C, CHR ''u'', CHR ''0'', CHR ''0'', hex_digit (ordc c div 16), hex_digit (ordc c mod 16)])"

definition dumps_str :: "string \<Rightarrow> string" where
  "dumps_str s = [CHR 0x22] @ concat (map dumps_char s) @ [CHR 0x22]"

fun json_dumps :: "json \<Rightarrow> string" where
  "json_dumps JNull = ''null''"
| "json_dumps (JBool b) = (if b then ''true'' else ''false'')"
| "json_dumps (JInt i) = py_str_int i"
| "json_dumps (JFloat s) = s"
| "json_dumps (JStr s) = dumps_str s"
| "json_dumps (JArr xs) = ''['' @ py_join '', '' (map json_dumps xs) @ '']''"
| "json_dumps (JObj ms) = ''{'' @
     py_join '', '' (map (\<lambda>kv. dumps_str (fst kv) @ '': '' @ json_dumps (snd kv)) ms) @ ''}''"

text \<open>
  The values \<open>json.dumps\<close> prints as JSON: integers within the digit limit and floats spelled
  as literals.
\<close>

definition float_literal :: "string \<Rightarrow> bool" where
  "float_literal s \<longleftrightarrow> s \<in> {''NaN'', ''Infinity'', ''-Infinity''} \<or> scan_number s = Some (JFloat s, [])"

fun json_wf :: "json \<Rightarrow> bool" where
  "json_wf (JInt i) = (length (str_nat (nat \<bar>i\<bar>)) \<le> max_str_digits)"
| "json_wf (JFloat s) = float_literal s"
| "json_wf (JArr xs) = (\<forall>x \<in> set xs. json_wf x)"
| "json_wf (JObj ms) = (\<forall>kv \<in> set ms. json_wf (snd kv))"
| "json_wf _ = True"

section \<open>The decoder inverts the printer\<close>

lemma ordc_less_256: "ordc c < 256"
  by (cases c) simp

lemma hex_value_hex_digit: "d < 16 \<Longrightarrow> hex_value (hex_digit d) = Some d"
  by (auto simp: hex_value_def hex_digit_def)

lemma hex4_dumps:
  "hex4 (CHR ''0'' # CHR ''0'' # hex_digit (ordc c div 16) # hex_digit (ordc c mod 16) # r) = Some (ordc c)"
proof -
  have "ordc c div 16 < 16" using ordc_less_256 [of c] by (simp add: less_mult_imp_div_less)
  moreover have "hex_value (CHR ''0'') = Some 0" by (simp add: hex_value_def)
  ultimately show ?thesis by (simp add: hex_value_hex_digit)
qed

lemma simple_escape_simps:
  "simple_escape (CHR 0x22) = Some (CHR 0x22)" "simple_escape (CHR 0x5C) = Some (CHR 0x5C)"
  "simple_escape (CHR ''b'') = Some (CHR 0x08)" "simple_escape (CHR ''f'') = Some (CHR 0x0C)"
  "simple_escape (CHR ''n'') = Some (CHR 0x0A)" "simple_escape (CHR ''r'') = Some (CHR 0x0D)"
  "simple_escape (CHR ''t'') = Some (CHR 0x09)"
  by (simp_all add: simple_escape_def)

lemma surrogate_pair_latin [simp]: "surrogate_pair (ordc c) r = None"
proof -
  have "\<not> 55296 \<le> ordc c" using ordc_less_256 [of c] by linarith
  then show ?thesis by (simp add: surrogate_pair_def)
qed

lemma unit_char_latin [simp]: "unit_char lib (ordc c) = c"
  using ordc_less_256 [of c] by (simp add: unit_char_def)

lemma scan_string_dumps_char:
  "scan_string lib (dumps_char c @ r) = cons_fst c (scan_string lib r)"
  by (simp add: dumps_char_def hex4_dumps simple_escape_simps del: hex4.simps)

lemma scan_string_dumps:
  "scan_string lib (concat (map dumps_char s) @ CHR 0x22 # r) = Some (s, r)"
  by (induction s) (simp_all add: scan_string_dumps_char cons_fst_def del: scan_string.simps(2), simp)

subsection \<open>Numbers\<close>

text \<open>What may follow a number without becoming part of it.\<close>

definition stops :: "string \<Rightarrow> bool" where
  "stops r \<longleftrightarrow> (case r of [] \<Rightarrow> True | c # _ \<Rightarrow> c \<in> {CHR '','', CHR '']'', CHR ''}''})"

lemma stops_simps [simp]:
  "stops []" "stops (c # r) \<longleftrightarrow> c \<in> {CHR '','', CHR '']'', CHR ''}''}"
  by (simp_all add: stops_def)

lemma stops_cases: "stops r \<Longrightarrow> r = [] \<or> (\<exists>c r'. r = c # r' \<and> \<not> ascii_digit c \<and> c \<notin> set ''+-.eE'')"
  by (cases r) (auto simp: ascii_digit_def)

lemma takeWhile_stops:
  assumes "stops r"
  shows "takeWhile ascii_digit (s @ r) = takeWhile ascii_digit s"
    and "dropWhile ascii_digit (s @ r) = dropWhile ascii_digit s @ r"
  using stops_cases [OF assms] by (induction s) auto

lemma split_sign_append:
  assumes "stops r" and "set signs \<subseteq> set ''+-''"
  shows "split_sign signs (s @ r) = (fst (split_sign signs s), snd (split_sign signs s) @ r)"
  using stops_cases [OF assms(1)] assms(2) by (cases s) (auto simp: split_sign_def)

lemma scan_frac_append:
  assumes "stops r"
  shows "scan_frac (s @ r) = (fst (scan_frac s), snd (scan_frac s) @ r)"
  using stops_cases [OF assms] takeWhile_stops [OF assms]
  by (cases s; cases "tl s") (auto simp: scan_frac_def split: list.splits)

lemma scan_exp_append:
  assumes "stops r"
  shows "scan_exp (s @ r) = (fst (scan_exp s), snd (scan_exp s) @ r)"
proof (cases s)
  case Nil
  then show ?thesis using stops_cases [OF assms] by (auto simp: scan_exp_def)
next
  case (Cons c cs)
  obtain sign ds where sp: "split_sign ''+-'' cs = (sign, ds)" by fastforce
  then have "split_sign ''+-'' (cs @ r) = (sign, ds @ r)"
    using split_sign_append [OF assms, of "''+-''" cs] by simp
  with Cons sp show ?thesis
    using stops_cases [OF assms] takeWhile_stops [OF assms, of ds]
    by (cases ds) (auto simp: scan_exp_def)
qed

lemma scan_digits_append:
  assumes "stops r"
  shows "scan_digits (s @ r) = map_option (\<lambda>(ds, t). (ds, t @ r)) (scan_digits s)"
proof (cases s)
  case Nil
  then show ?thesis using stops_cases [OF assms] by (auto simp: scan_digits_def)
next
  case (Cons c cs)
  then show ?thesis using takeWhile_stops [OF assms, of cs] by (simp add: scan_digits_def)
qed

lemma scan_number_append:
  assumes "scan_number s = Some (v, t)" and "stops r"
  shows "scan_number (s @ r) = Some (v, t @ r)"
  using assms(1)
  by (auto simp: scan_number_def split_sign_append [OF assms(2)] scan_digits_append [OF assms(2)]
      scan_frac_append [OF assms(2)] scan_exp_append [OF assms(2)] Let_def
      split: prod.splits option.splits if_splits)

lemma str_nat_leading_zero:
  assumes "hd (str_nat n) = CHR ''0''"
  shows "n = 0"
  using assms
proof (induction n rule: str_nat.induct)
  case (1 n)
  show ?case
  proof (cases "n < 10")
    case True
    with 1(2) have "ordc (digit_char n) = 48" by (subst (asm) str_nat.simps) simp
    with True show ?thesis by (simp add: code_digit_char)
  next
    case False
    have "str_nat n = str_nat (n div 10) @ [digit_char (n mod 10)]"
      using False by (subst str_nat.simps) simp
    with 1(2) have "hd (str_nat (n div 10)) = CHR ''0''" by simp
    with 1(1) False have "n div 10 = 0" by simp
    with False show ?thesis by simp
  qed
qed

lemma str_nat_0: "str_nat 0 = ''0''"
  by (subst str_nat.simps) (simp add: digit_char_def char_of_eq_iff)

lemma scan_digits_str_nat: "scan_digits (str_nat n) = Some (str_nat n, [])"
proof -
  obtain c cs where c: "str_nat n = c # cs" using str_nat_nonempty [of n] by (cases "str_nat n") auto
  have d: "takeWhile ascii_digit (str_nat n) = str_nat n" "dropWhile ascii_digit (str_nat n) = []"
    using str_nat_digits [of n] by (simp_all add: takeWhile_eq_all_conv dropWhile_eq_Nil_conv)
  show ?thesis
  proof (cases "c = CHR ''0''")
    case True
    with c have "n = 0" by (intro str_nat_leading_zero) simp
    then show ?thesis by (simp add: str_nat_0 scan_digits_def ascii_digit_def)
  next
    case False
    have "ascii_digit c" using str_nat_digits [of n] c by simp
    with False c d show ?thesis by (simp add: scan_digits_def)
  qed
qed

lemma scan_number_py_str_int:
  assumes "json_wf (JInt i)"
  shows "scan_number (py_str_int i) = Some (JInt i, [])"
proof (cases "i < 0")
  case True
  have sp: "split_sign ''-'' (py_str_int i) = (''-'', str_nat (nat (- i)))"
    using True by (simp add: py_str_int_def split_sign_def)
  show ?thesis
    using True assms unfolding scan_number_def sp
    by (simp add: scan_digits_str_nat scan_frac_def scan_exp_def digits_value_def foldl_str_nat)
next
  case False
  obtain c cs where c: "str_nat (nat i) = c # cs" using str_nat_nonempty by (cases "str_nat (nat i)") auto
  have "ascii_digit c" using str_nat_digits [of "nat i"] c by simp
  then have sp: "split_sign ''-'' (py_str_int i) = ([], str_nat (nat i))"
    using False c by (auto simp: py_str_int_def split_sign_def ascii_digit_def)
  show ?thesis
    using False assms unfolding scan_number_def sp
    by (simp add: scan_digits_str_nat scan_frac_def scan_exp_def digits_value_def foldl_str_nat)
qed

text \<open>A number starts with a digit, or with a minus sign and a digit.\<close>

lemma scan_number_first:
  assumes "scan_number s = Some x"
  shows "\<exists>c r. s = c # r \<and> (ascii_digit c \<or> c = CHR ''-'' \<and> r \<noteq> [] \<and> ascii_digit (hd r))"
  using assms
  by (cases s; cases "tl s")
    (auto simp: scan_number_def split_sign_def scan_digits_def split: if_splits)

lemma scan_literal_digit:
  assumes "ascii_digit c"
  shows "scan_literal literals (c # r) = None"
proof -
  have "c \<notin> set ''ntfNI-''" using assms by (auto simp: ascii_digit_def)
  then show ?thesis by (simp add: literals_def strip_prefix_def)
qed

lemma scan_literal_minus_digit:
  assumes "ascii_digit c"
  shows "scan_literal literals (CHR ''-'' # c # r) = None"
proof -
  have "c \<noteq> CHR ''I''" using assms by (auto simp: ascii_digit_def)
  then show ?thesis by (simp add: literals_def strip_prefix_def)
qed

lemma scan_literal_number:
  assumes "scan_number s = Some x"
  shows "scan_literal literals (s @ r) = None"
  using scan_number_first [OF assms]
proof (elim exE conjE disjE)
  fix c r' assume "s = c # r'" "ascii_digit c"
  then show ?thesis by (simp add: scan_literal_digit)
next
  fix c r' assume "s = c # r'" "c = CHR ''-''" "r' \<noteq> []" "ascii_digit (hd r')"
  then show ?thesis by (cases r') (simp_all add: scan_literal_minus_digit)
qed

lemma scan_atom_number:
  "scan_number s = Some (v, []) \<Longrightarrow> stops r \<Longrightarrow> scan_atom (s @ r) = Some (v, r)"
  using scan_number_append [of s v "[]" r] by (simp add: scan_atom_def scan_literal_number)

subsection \<open>Values\<close>

definition value_start :: "string \<Rightarrow> bool" where
  "value_start s \<longleftrightarrow> (\<exists>c r. s = c # r \<and> \<not> json_ws c \<and> c \<notin> {CHR '']'', CHR ''}''})"

lemma digit_start:
  assumes "ascii_digit c"
  shows "\<not> json_ws c" and "c \<notin> {CHR '']'', CHR ''}''}" and "c \<notin> {CHR 0x22, CHR ''{'', CHR ''[''}"
  using assms by (auto simp: ascii_digit_def json_ws_def)

lemma minus_start:
  "\<not> json_ws (CHR ''-'')" "\<not> json_ws (CHR ''N'')" "\<not> json_ws (CHR ''I'')" "\<not> json_ws (CHR ''n'')"
  "\<not> json_ws (CHR ''t'')" "\<not> json_ws (CHR ''f'')" "\<not> json_ws (CHR ''['')" "\<not> json_ws (CHR ''{'')"
  "\<not> json_ws (CHR 0x22)"
  by (simp_all add: json_ws_def)

lemma number_start:
  assumes "scan_number s = Some x"
  shows "value_start s \<and> hd s \<notin> {CHR 0x22, CHR ''{'', CHR ''[''}"
proof -
  from scan_number_first [OF assms] obtain c r where s: "s = c # r" and "ascii_digit c \<or> c = CHR ''-''"
    by blast
  then show ?thesis
  proof (elim disjE)
    assume "ascii_digit c"
    with s digit_start [of c] show ?thesis by (simp add: value_start_def)
  next
    assume "c = CHR ''-''"
    with s show ?thesis by (simp add: value_start_def minus_start)
  qed
qed

lemma float_start:
  assumes "float_literal s"
  shows "value_start s \<and> hd s \<notin> {CHR 0x22, CHR ''{'', CHR ''[''}"
proof -
  from assms consider "s = ''NaN''" | "s = ''Infinity''" | "s = ''-Infinity''" | "scan_number s = Some (JFloat s, [])"
    unfolding float_literal_def by blast
  then show ?thesis
  proof cases
    case 4
    then show ?thesis by (rule number_start)
  qed (simp_all add: value_start_def minus_start)
qed

lemma dumps_start:
  assumes "json_wf v"
  shows "value_start (json_dumps v)"
proof (cases v)
  case (JInt i)
  with assms number_start [OF scan_number_py_str_int] show ?thesis by simp
next
  case (JFloat s)
  with assms float_start show ?thesis by simp
qed (simp_all add: value_start_def minus_start dumps_str_def)

lemma skip_ws_value: "value_start s \<Longrightarrow> skip_ws (s @ r) = s @ r"
  by (auto simp: value_start_def skip_ws_def)

lemma float_atom:
  assumes "float_literal s" and "stops r"
  shows "scan_atom (s @ r) = Some (JFloat s, r)"
proof -
  from assms(1) consider "s = ''NaN''" | "s = ''Infinity''" | "s = ''-Infinity''" | "scan_number s = Some (JFloat s, [])"
    unfolding float_literal_def by blast
  then show ?thesis
    by cases (simp_all add: scan_atom_number assms(2), simp_all add: scan_atom_def literals_def strip_prefix_def)
qed

lemma parse_value_atom:
  assumes "s \<noteq> []" and "hd s \<notin> {CHR 0x22, CHR ''{'', CHR ''[''}"
  shows "parse_value lib (s @ r) = scan_atom (s @ r)"
  using assms by (cases s) auto

lemma parse_value_arr:
  assumes "value_start u" and "parse_elems lib (u @ t) = Some (vs, r)"
  shows "parse_value lib (CHR ''['' # u @ t) = Some (JArr vs, r)"
proof -
  obtain c u' where u: "u = c # u'" "c \<noteq> CHR '']''" using assms(1) by (auto simp: value_start_def)
  then have "skip_ws (u @ t) = c # u' @ t" using skip_ws_value [OF assms(1), of t] by simp
  with assms(2) u show ?thesis by (simp del: parse_elems.simps)
qed

lemma parse_value_obj:
  assumes "value_start u" and "parse_members lib (u @ t) = Some (ms, r)"
  shows "parse_value lib (CHR ''{'' # u @ t) = Some (JObj ms, r)"
proof -
  obtain c u' where u: "u = c # u'" "c \<noteq> CHR ''}''" using assms(1) by (auto simp: value_start_def)
  then have "skip_ws (u @ t) = c # u' @ t" using skip_ws_value [OF assms(1), of t] by simp
  with assms(2) u show ?thesis by (simp del: parse_members.simps)
qed

lemma parse_value_dumps_elems:
  assumes "\<And>x r. x \<in> set xs \<Longrightarrow> stops r \<Longrightarrow> parse_value lib (json_dumps x @ r) = Some (x, r)"
    and "\<forall>x \<in> set xs. json_wf x" and "xs \<noteq> []"
  shows "parse_elems lib (py_join '', '' (map json_dumps xs) @ CHR '']'' # r) = Some (xs, r)"
  using assms
proof (induction xs)
  case (Cons x xs)
  show ?case
  proof (cases xs)
    case Nil
    then show ?thesis using Cons.prems(1) [of x "CHR '']'' # r"]
      by (subst parse_elems.simps) (simp add: skip_ws_def json_ws_def)
  next
    case (Cons y ys)
    let ?t = "py_join '', '' (map json_dumps xs) @ CHR '']'' # r"
    have IH: "parse_elems lib ?t = Some (xs, r)"
      using Cons.IH Cons.prems Cons by simp
    have "value_start (json_dumps y)" using Cons.prems(2) Cons by (intro dumps_start) simp
    then have "value_start (py_join '', '' (map json_dumps xs))"
      using Cons by (cases ys) (auto simp: value_start_def)
    from skip_ws_value [OF this] have sk: "skip_ws ('' '' @ ?t) = ?t"
      by (simp add: skip_ws_def json_ws_def)
    have "parse_value lib (json_dumps x @ '', '' @ ?t) = Some (x, '', '' @ ?t)"
      using Cons.prems(1) [of x "'', '' @ ?t"] by simp
    moreover have "py_join '', '' (map json_dumps (x # xs)) @ CHR '']'' # r = json_dumps x @ '', '' @ ?t"
      using Cons by simp
    moreover have "skip_ws ('', '' @ ?t) = '', '' @ ?t" by (simp add: skip_ws_def json_ws_def)
    ultimately show ?thesis
      using sk IH by (subst parse_elems.simps) (simp add: cons_fst_def)
  qed
qed simp

lemma parse_dumps_members:
  assumes "\<And>k x r. (k, x) \<in> set ms \<Longrightarrow> stops r \<Longrightarrow> parse_value lib (json_dumps x @ r) = Some (x, r)"
    and "\<forall>kv \<in> set ms. json_wf (snd kv)" and "ms \<noteq> []"
  shows "parse_members lib (py_join '', '' (map (\<lambda>kv. dumps_str (fst kv) @ '': '' @ json_dumps (snd kv)) ms) @
    CHR ''}'' # r) = Some (ms, r)"
  using assms
proof (induction ms)
  case (Cons kv ms)
  let ?f = "\<lambda>kv. dumps_str (fst kv) @ '': '' @ json_dumps (snd kv)"
  obtain k x where kv: "kv = (k, x)" by (cases kv)
  have vs: "value_start (json_dumps x)" using Cons.prems(2) kv by (intro dumps_start) simp
  have key: "scan_string lib (concat (map dumps_char k) @ CHR 0x22 # t) = Some (k, t)" for t
    by (rule scan_string_dumps)
  have sk1: "skip_ws (CHR '' '' # json_dumps x @ t) = json_dumps x @ t" for t
    using skip_ws_value [OF vs, of t] by (simp add: skip_ws_def json_ws_def)
  have sk2: "skip_ws (CHR '':'' # t) = CHR '':'' # t" "skip_ws (CHR '','' # t) = CHR '','' # t"
    "skip_ws (CHR ''}'' # t) = CHR ''}'' # t" for t
    by (simp_all add: skip_ws_def json_ws_def)
  have val: "parse_value lib (json_dumps x @ t) = Some (x, t)" if "stops t" for t
    using Cons.prems(1) [of k x t] kv that by simp
  show ?case
  proof (cases ms)
    case Nil
    then show ?thesis by (simp add: kv dumps_str_def key sk1 sk2 val)
  next
    case (Cons y ys)
    let ?t = "py_join '', '' (map ?f ms) @ CHR ''}'' # r"
    have IH: "parse_members lib ?t = Some (ms, r)"
    proof (rule Cons.IH)
      show "parse_value lib (json_dumps x' @ r') = Some (x', r')" if "(k', x') \<in> set ms" "stops r'" for k' x' r'
        using Cons.prems(1) [of k' x' r'] that by simp
    qed (use Cons.prems(2) Cons in simp_all)
    have "value_start (py_join '', '' (map ?f ms))"
      using Cons by (cases ys) (auto simp: value_start_def dumps_str_def minus_start)
    from skip_ws_value [OF this] have sk: "skip_ws (CHR '' '' # ?t) = ?t"
      by (simp add: skip_ws_def json_ws_def)
    have "py_join '', '' (map ?f (kv # ms)) @ CHR ''}'' # r =
        CHR 0x22 # concat (map dumps_char k) @ CHR 0x22 # CHR '':'' # CHR '' '' # json_dumps x @ CHR '','' # CHR '' '' # ?t"
      using Cons by (simp add: kv dumps_str_def)
    then show ?thesis using IH sk by (simp add: key sk1 sk2 val kv cons_fst_def)
  qed
qed simp

lemma parse_value_dumps:
  "json_wf v \<Longrightarrow> stops r \<Longrightarrow> parse_value lib (json_dumps v @ r) = Some (v, r)"
proof (induction v arbitrary: r)
  case (JInt i)
  have n: "scan_number (py_str_int i) = Some (JInt i, [])"
    by (rule scan_number_py_str_int) (rule JInt(1))
  with number_start [OF n] have "parse_value lib (py_str_int i @ r) = scan_atom (py_str_int i @ r)"
    by (intro parse_value_atom) (auto simp: value_start_def)
  with scan_atom_number [OF n JInt(2)] show ?case by simp
next
  case (JFloat s)
  then have f: "float_literal s" by simp
  from float_start [OF f] have "parse_value lib (s @ r) = scan_atom (s @ r)"
    by (intro parse_value_atom) (auto simp: value_start_def)
  with float_atom [OF f JFloat(2)] show ?case by simp
next
  case (JStr s)
  then show ?case by (simp add: dumps_str_def scan_string_dumps)
next
  case (JArr xs)
  show ?case
  proof (cases "xs = []")
    case True
    then show ?thesis by (simp add: skip_ws_def json_ws_def)
  next
    case False
    let ?t = "py_join '', '' (map json_dumps xs) @ CHR '']'' # r"
    have "parse_elems lib ?t = Some (xs, r)"
      by (rule parse_value_dumps_elems) (use JArr False in auto)
    moreover obtain y ys where y: "xs = y # ys" using False by (cases xs) auto
    then have "value_start (json_dumps y)" using JArr.prems by (intro dumps_start) simp
    then have vs: "value_start (py_join '', '' (map json_dumps xs))"
      using y by (cases ys) (auto simp: value_start_def)
    ultimately show ?thesis using parse_value_arr [OF vs] by simp
  qed
next
  case (JObj ms)
  let ?f = "\<lambda>kv. dumps_str (fst kv) @ '': '' @ json_dumps (snd kv)"
  show ?case
  proof (cases "ms = []")
    case True
    then show ?thesis by (simp add: skip_ws_def json_ws_def)
  next
    case False
    let ?t = "py_join '', '' (map ?f ms) @ CHR ''}'' # r"
    have "parse_members lib ?t = Some (ms, r)"
      by (rule parse_dumps_members) (use JObj False in \<open>auto intro!: JObj.IH\<close>)
    moreover obtain y ys where y: "ms = y # ys" using False by (cases ms) auto
    then have vs: "value_start (py_join '', '' (map ?f ms))"
      by (cases ys) (auto simp: value_start_def dumps_str_def minus_start)
    ultimately show ?thesis using parse_value_obj [OF vs] by simp
  qed
qed (simp_all add: scan_atom_def literals_def strip_prefix_def)

lemma json_loads_dumps:
  assumes "json_wf v"
  shows "json_loads lib (json_dumps v) = Some v"
  using parse_value_dumps [OF assms, of "[]"] skip_ws_value [OF dumps_start [OF assms], of "[]"]
  by (simp add: json_loads_def skip_ws_def)

text \<open>The JSON that one service prints is read back unchanged by the next: for every value
  with integers within Python's digit limit and floats spelled as literals,
  \<open>json.loads(json.dumps(v))\<close> is \<open>v\<close>; strings with quotes, backslashes, control characters and
  non-ASCII characters included.\<close>

theorem json_round_trip:
  assumes "json_wf v"
  shows "json_loads lib (json_dumps v) = Some v"
  using assms by (rule json_loads_dumps)

theorem json_round_trip_witness:
  "json_loads \<lparr>wide_char = (\<lambda>_. CHR ''?''), float_str = (\<lambda>s. s)\<rparr>
     (json_dumps (JObj [(''a'', JArr [JInt (- 12), JStr [CHR 0x0A, CHR 0x22, CHR 0xE9], JBool True])]))
   = Some (JObj [(''a'', JArr [JInt (- 12), JStr [CHR 0x0A, CHR 0x22, CHR 0xE9], JBool True])])"
  by (rule json_round_trip) (simp add: str_nat.simps max_str_digits_def)

text \<open>Every successful parse consumes input, so the guards of the recursive calls never fail.\<close>

lemma length_dropWhile_less: "s \<noteq> [] \<Longrightarrow> P (hd s) \<Longrightarrow> length (dropWhile P s) < length s"
  using length_dropWhile_le [of P "tl s"] by (cases s) (auto simp: less_Suc_eq_le)

lemma scan_literal_consumes:
  "scan_literal ls s = Some (v, r) \<Longrightarrow> [] \<notin> fst ` set ls \<Longrightarrow> length r < length s"
proof (induction ls s rule: scan_literal.induct)
  case (2 p v' ls s)
  then show ?case by (cases s) (auto simp: strip_prefix_def split: if_splits)
qed simp

lemma scan_frac_length: "length (snd (scan_frac s)) \<le> length s"
  by (auto simp: scan_frac_def split: list.splits intro: le_trans [OF length_dropWhile_le])

lemma split_sign_length: "length (snd (split_sign signs s)) \<le> length s"
  by (simp add: split_sign_def split: list.splits)

lemma scan_exp_length: "length (snd (scan_exp s)) \<le> length s"
proof (cases s)
  case (Cons c cs)
  have "length (dropWhile ascii_digit (snd (split_sign ''+-'' cs))) \<le> length cs"
    by (rule le_trans [OF length_dropWhile_le split_sign_length])
  with Cons show ?thesis by (auto simp: scan_exp_def split: prod.splits)
qed (simp add: scan_exp_def)

lemma scan_number_consumes:
  assumes "scan_number s = Some (v, r)"
  shows "length r < length s"
proof -
  obtain neg s1 ds r1 where 1: "split_sign ''-'' s = (neg, s1)" "scan_digits s1 = Some (ds, r1)"
    using assms by (auto simp: scan_number_def split: prod.splits option.splits)
  have "length r1 < length s1"
    using 1(2) by (auto simp: scan_digits_def split: list.splits if_splits
        intro!: le_less_trans [OF length_dropWhile_le])
  moreover have "length s1 \<le> length s" using split_sign_length [of "''-''" s] 1(1) by simp
  moreover have "length r \<le> length r1"
    using assms 1 scan_frac_length [of r1] scan_exp_length [of "snd (scan_frac r1)"]
    by (auto simp: scan_number_def split: prod.splits if_splits)
  ultimately show ?thesis by linarith
qed

lemma parse_consumes:
  "parse_value lib s = Some (v, r) \<Longrightarrow> length r < length s"
  "parse_elems lib s = Some (vs, r) \<Longrightarrow> length r < length s"
  "parse_members lib s = Some (ms, r) \<Longrightarrow> length r < length s"
proof (induction lib s and lib s and lib s arbitrary: v r and vs r and ms r
    rule: parse_value_parse_elems_parse_members.induct)
  case (2 lib c cs)
  have atom: "length r < length (c # cs)" if "scan_atom (c # cs) = Some (v, r)"
    using that scan_literal_consumes [of literals "c # cs" v r] scan_number_consumes [of "c # cs" v r]
    by (auto simp: scan_atom_def literals_def split: option.splits)
  have obj: "length r < length cs" if "skip_ws cs = d # r'" "d \<noteq> CHR ''}''" "c \<noteq> CHR 0x22" "c = CHR ''{''"
    "parse_members lib (d # r') = Some (ms, r)" for d r' ms
    using 2(1) [OF that(3,4,1,2)] that(1,5) skip_ws_length [of cs] by simp
  have arr: "length r < length cs" if "skip_ws cs = d # r'" "d \<noteq> CHR '']''" "c = CHR ''[''"
    "parse_elems lib (d # r') = Some (vs, r)" for d r' vs
    using 2(2) [OF _ _ that(3,1,2)] that skip_ws_length [of cs] by simp
  consider "c = CHR 0x22" | "c = CHR ''{''" | "c = CHR ''[''" | "c \<notin> {CHR 0x22, CHR ''{'', CHR ''[''}" by blast
  then show ?case
  proof cases
    case 1
    with 2(3) show ?thesis by (auto dest!: scan_string_length)
  next
    case x: 2
    with 2(3) have c: "c \<noteq> CHR 0x22" by simp
    show ?thesis
    proof (cases "skip_ws cs")
      case (Cons d r')
      then have "length r' < length cs" by (rule skip_ws_length_less)
      moreover from Cons x c 2(3) obtain ms where "d = CHR ''}'' \<and> r = r' \<or> d \<noteq> CHR ''}'' \<and> parse_members lib (d # r') = Some (ms, r)"
        by (simp split: if_splits) blast
      ultimately show ?thesis using obj [OF Cons _ c x] by auto
    qed (use 2(3) x in simp)
  next
    case x: 3
    show ?thesis
    proof (cases "skip_ws cs")
      case (Cons d r')
      then have "length r' < length cs" by (rule skip_ws_length_less)
      moreover from Cons x 2(3) obtain vs where "d = CHR '']'' \<and> r = r' \<or> d \<noteq> CHR '']'' \<and> parse_elems lib (d # r') = Some (vs, r)"
        by (simp split: if_splits del: parse_elems.simps) blast
      ultimately show ?thesis using arr [OF Cons _ x] by auto
    qed (use 2(3) x in simp)
  next
    case 4
    with 2(3) atom show ?thesis by simp
  qed
next
  case (3 lib s)
  from 3(3) obtain v rest d r1 where v: "parse_value lib s = Some (v, rest)" and d: "skip_ws rest = d # r1"
    by (auto split: option.splits list.splits prod.splits)
  have 1: "length r1 < length s"
    using 3(1) [OF v] skip_ws_length_less [OF d] by linarith
  show ?case
  proof (cases "d = CHR '']''")
    case True
    with 3(3) v d 1 show ?thesis by simp
  next
    case False
    with 3(3) v d have d2: "d = CHR '',''" by (simp split: if_splits)
    with False 3(3) v d 1 obtain vs' where "parse_elems lib (skip_ws r1) = Some (vs', r)"
      by (subst (asm) parse_elems.simps) (auto simp: cons_fst_Some simp del: parse_elems.simps)
    with 3(2) [OF v refl d False] d2 1 skip_ws_length [of r1] show ?thesis by fastforce
  qed
next
  case (5 lib c s)
  from 5(3) obtain k s1 d s2 v s3 e s4 where
    k: "c = CHR 0x22" "scan_string lib s = Some (k, s1)" and d: "skip_ws s1 = d # s2" "d = CHR '':''"
      "length s2 < length s"
    and v: "parse_value lib (skip_ws s2) = Some (v, s3)" and e: "skip_ws s3 = e # s4"
    by (auto split: option.splits list.splits if_splits prod.splits)
  have 1: "length s4 < length s"
  proof -
    have "length s3 < length (skip_ws s2)" using 5(1) k d v by fastforce
    then show ?thesis using d(3) skip_ws_length_less [OF e] skip_ws_length [of s2] by linarith
  qed
  show ?case
  proof (cases "e = CHR ''}''")
    case True
    with 5(3) k d v e 1 show ?thesis by simp
  next
    case False
    with 5(3) k d v e 1 obtain ms' where m: "e = CHR '',''" "parse_members lib (skip_ws s4) = Some (ms', r)"
      by (auto simp: cons_fst_Some split: if_splits)
    have "length r < length (skip_ws s4)"
      using 5(2) k d v e False m 1 by fastforce
    with 1 skip_ws_length [of s4] show ?thesis by simp
  qed
qed simp_all

end
