(* ===== verification/Py_Json.thy ===== *)
theory Py_Json
  imports Json_Codec
begin

text \<open>
  Decoded JSON values as Python objects: their \<open>str\<close> and \<open>repr\<close>, their sum, and the
  iteration over a value that should be a list.
\<close>

section \<open>str of a decoded value\<close>

text \<open>A dictionary keeps the place of a name's first occurrence and the value of its last.\<close>

definition dict_items :: "(string \<times> 'a) list \<Rightarrow> (string \<times> 'a) list" where
  "dict_items ms = map (\<lambda>k. (k, the (map_of (rev ms) k))) (rev (remdups (rev (map fst ms))))"

fun py_repr_json :: "pylib \<Rightarrow> json \<Rightarrow> string" where
  "py_repr_json lib JNull = ''None''"
| "py_repr_json lib (JBool b) = (if b then ''True'' else ''False'')"
| "py_repr_json lib (JInt i) = py_str_int i"
| "py_repr_json lib (JFloat s) = float_str lib s"
| "py_repr_json lib (JStr s) = py_repr s"
| "py_repr_json lib (JArr xs) = ''['' @ py_join '', '' (map (py_repr_json lib) xs) @ '']''"
| "py_repr_json lib (JObj ms) = ''{'' @
     py_join '', '' (map (\<lambda>kv. py_repr (fst kv) @ '': '' @ snd kv)
       (dict_items (map (\<lambda>kv. (fst kv, py_repr_json lib (snd kv))) ms))) @ ''}''"

definition py_str_json :: "pylib \<Rightarrow> json \<Rightarrow> string" where
  "py_str_json lib v = (case v of JStr s \<Rightarrow> s | _ \<Rightarrow> py_repr_json lib v)"

section \<open>Iteration and sums\<close>

text \<open>\<open>for x in v or []\<close>: only the elements of a list can answer \<open>x.get\<close>, so every other true
  value raises, at the loop or at its first element.\<close>

definition py_items :: "json \<Rightarrow> json list option" where
  "py_items v = (case v of JArr xs \<Rightarrow> Some xs | _ \<Rightarrow> if json_truthy v then None else Some [])"

text \<open>\<open>a + b\<close>; the sum of floating point numbers is a parameter. \<open>None\<close> is the \<open>TypeError\<close>.\<close>

definition py_number :: "json \<Rightarrow> int option" where
  "py_number v = (case v of JInt i \<Rightarrow> Some i | JBool b \<Rightarrow> Some (if b then 1 else 0) | _ \<Rightarrow> None)"

definition is_float :: "json \<Rightarrow> bool" where
  "is_float v = (case v of JFloat _ \<Rightarrow> True | _ \<Rightarrow> False)"

definition py_add :: "(json \<Rightarrow> json \<Rightarrow> string) \<Rightarrow> json \<Rightarrow> json \<Rightarrow> json option" where
  "py_add float_sum a b =
     (case (a, b) of
        (JStr s, JStr t) \<Rightarrow> Some (JStr (s @ t))
      | (JArr xs, JArr ys) \<Rightarrow> Some (JArr (xs @ ys))
      | _ \<Rightarrow>
          (case (py_number a, py_number b) of
             (Some i, Some j) \<Rightarrow> Some (JInt (i + j))
           | _ \<Rightarrow>
               if (is_float a \<or> py_number a \<noteq> None) \<and> (is_float b \<or> py_number b \<noteq> None)
               then Some (JFloat (float_sum a b)) else None))"

end
