(* ===== verification/Job_Plan.thy ===== *)
theory Job_Plan
  imports Job_Model Py_Json
begin

text \<open>
  The two pure functions of the job runner (\<open>runner.py\<close>): \<open>_prompt_of\<close>, which reads the
  instructions out of a job's spec, and \<open>_parse_plan\<close>, which turns the planner's reply into
  an ordered list of sub-prompts.
\<close>

section \<open>Bullets\<close>

text \<open>
  \<open>_BULLET_RE.sub("", line)\<close> for \<open>^\s*(?:[-*+]|\d+[.)])\s*\<close>: the pattern is anchored, so it
  is replaced at most once, at the start of the line.
\<close>

definition strip_bullet :: "string \<Rightarrow> string" where
  "strip_bullet line =
     (let s = dropWhile py_isspace line in
      case s of
        [] \<Rightarrow> line
      | c # r \<Rightarrow>
          if c \<in> set ''-*+'' then dropWhile py_isspace r
          else if ascii_digit c
          then (case dropWhile ascii_digit s of
                  d # r' \<Rightarrow> if d \<in> set ''.)'' then dropWhile py_isspace r' else line
                | [] \<Rightarrow> line)
          else line)"

section \<open>The plan\<close>

definition parse_plan :: "pylib \<Rightarrow> string \<Rightarrow> string list" where
  "parse_plan lib content =
     (let text = py_strip content in
      if text = [] then []
      else (case json_loads lib text of
              Some (JArr items) \<Rightarrow>
                map (\<lambda>item. py_strip (py_str_json lib item))
                  (filter (\<lambda>item. py_strip (py_str_json lib item) \<noteq> []) items)
            | _ \<Rightarrow>
                filter (\<lambda>line. line \<noteq> [])
                  (map (\<lambda>line. py_strip (strip_bullet line)) (py_splitlines text))))"

section \<open>The prompt\<close>

fun py_type_name :: "json \<Rightarrow> string" where
  "py_type_name JNull = ''NoneType''"
| "py_type_name (JBool b) = ''bool''"
| "py_type_name (JInt i) = ''int''"
| "py_type_name (JFloat s) = ''float''"
| "py_type_name (JStr s) = ''str''"
| "py_type_name (JArr xs) = ''list''"
| "py_type_name (JObj ms) = ''dict''"

definition attribute_error :: "json \<Rightarrow> string \<Rightarrow> py_exception" where
  "attribute_error v name =
     OtherException (py_repr (py_type_name v) @ '' object has no attribute '' @ py_repr name)"

definition get_or :: "json \<Rightarrow> string \<Rightarrow> py_exception + json" where
  "get_or v key =
     (case v of JObj ms \<Rightarrow> Inr (case obj_get ms key of None \<Rightarrow> JNull | Some x \<Rightarrow> x)
      | _ \<Rightarrow> Inl (attribute_error v ''get''))"

definition or_empty :: "json \<Rightarrow> json" where
  "or_empty v = (if json_truthy v then v else JObj [])"

definition prompt_of :: "job_row \<Rightarrow> py_exception + string" where
  "prompt_of row =
     (case get_or (or_empty (j_spec row)) ''agent_execution_spec'' of
        Inl e \<Rightarrow> Inl e
      | Inr spec \<Rightarrow>
     (case get_or (or_empty spec) ''instructions'' of
        Inl e \<Rightarrow> Inl e
      | Inr prompt \<Rightarrow>
          if \<not> json_truthy prompt
          then Inl (RunnerError (''job '' @ j_id row @ '' spec has no agent_execution_spec.instructions''))
          else (case prompt of
                  JStr s \<Rightarrow>
                    if py_strip s = []
                    then Inl (RunnerError (''job '' @ j_id row @ '' spec has no agent_execution_spec.instructions''))
                    else Inr s
                | _ \<Rightarrow> Inl (attribute_error prompt ''strip''))))"

section \<open>Properties\<close>

text \<open>Whatever the planner answers, the parsed plan is a list of sub-prompts that are non-empty
  and carry no surrounding white space; a blank reply gives the empty plan.\<close>

theorem parse_plan_clean:
  "(\<forall>p \<in> set (parse_plan lib content). p \<noteq> [] \<and> py_strip p = p \<and> \<not> py_blank p) \<and>
   (py_blank content \<longrightarrow> parse_plan lib content = [])"
proof -
  have "p \<noteq> [] \<and> py_strip p = p \<and> \<not> py_blank p" if "p \<in> set (parse_plan lib content)" for p
  proof -
    from that have "p \<noteq> [] \<and> (\<exists>x. p = py_strip x)"
      by (auto simp: parse_plan_def Let_def split: if_splits option.splits json.splits)
    then show ?thesis by (auto simp: py_blank_def)
  qed
  then show ?thesis by (auto simp: parse_plan_def py_blank_def py_strip_def py_lstrip_def py_rstrip_def)
qed

text \<open>C39. A planner that obeys its instruction is understood exactly: when the reply is a JSON
  array of strings, as any encoder with Python's defaults prints it, possibly surrounded by
  white space, the plan is these strings in order, stripped, without the blank ones, whatever
  line breaks, bullets, quotes or escapes they contain.\<close>

theorem parse_plan_json_array:
  assumes "\<forall>c \<in> set pre. py_isspace c" and "\<forall>c \<in> set post. py_isspace c"
  shows "parse_plan lib (pre @ json_dumps (JArr (map JStr prompts)) @ post) =
    filter (\<lambda>p. p \<noteq> []) (map py_strip prompts)"
proof -
  let ?j = "json_dumps (JArr (map JStr prompts))"
  have b: "\<not> py_isspace (CHR ''['')" "\<not> py_isspace (CHR '']'')" by (simp_all add: py_isspace_def)
  have "dropWhile py_isspace (pre @ ?j @ post) = ?j @ post"
    using assms(1) b by (simp add: dropWhile_append2)
  moreover have "dropWhile py_isspace (rev (?j @ post)) = rev ?j"
    using dropWhile_append2 [of "rev post" py_isspace "rev ?j"] assms(2) b by simp
  ultimately have "py_strip (pre @ ?j @ post) = ?j"
    by (simp add: py_strip_def py_lstrip_def py_rstrip_def del: json_dumps.simps)
  moreover have "json_loads lib ?j = Some (JArr (map JStr prompts))"
    by (rule json_loads_dumps) simp
  moreover have "?j \<noteq> []" by simp
  ultimately show ?thesis
    by (simp add: parse_plan_def py_str_json_def o_def filter_map del: json_dumps.simps)
qed

theorem parse_plan_json_array_witness:
  "parse_plan \<lparr>wide_char = (\<lambda>_. CHR ''?''), float_str = (\<lambda>s. s)\<rparr>
     ([CHR 0x0A] @ json_dumps (JArr (map JStr ['' 1. look up'', ''  '', ''add''])) @ [CHR '' ''])
   = [''1. look up'', ''add'']"
  by (subst parse_plan_json_array)
    (simp_all add: py_isspace_def py_strip_def py_lstrip_def py_rstrip_def)

theorem parse_plan_clean_witness:
  "parse_plan \<lparr>wide_char = (\<lambda>_. CHR ''?''), float_str = (\<lambda>s. s)\<rparr> ''1) add'' = [''add''] \<and>
   py_strip ''add'' = ''add'' \<and> \<not> py_blank ''add''"
proof -
  have e: "parse_plan \<lparr>wide_char = (\<lambda>_. CHR ''?''), float_str = (\<lambda>s. s)\<rparr> ''1) add'' = [''add'']" by code_simp
  then show ?thesis
    using parse_plan_clean [of "\<lparr>wide_char = (\<lambda>_. CHR ''?''), float_str = (\<lambda>s. s)\<rparr>" "''1) add''"] by simp
qed

end
