(* ===== verification/Chat_Proto.thy ===== *)
theory Chat_Proto
  imports Grpc
begin

text \<open>
  The messages of \<open>aep.orchestrator.v1\<close>, between the job runner and the orchestrator.
\<close>

record chat_message =
  cm_role :: string
  cm_content :: string
  cm_agent :: string

record chat_request =
  cq_messages :: "chat_message list"
  cq_approved :: bool

record chat_response =
  cr_messages :: "chat_message list"
  cr_prompt_tokens :: int
  cr_completion_tokens :: int
  cr_total_tokens :: int
  cr_finish_reason :: string

definition empty_message :: chat_message where
  "empty_message = \<lparr>cm_role = [], cm_content = [], cm_agent = []\<rparr>"

end
