(* ===== verification/Job_Runner.thy ===== *)
theory Job_Runner
  imports Job_Queue Job_Plan Chat_Proto
begin

text \<open>
  The job runner (\<open>runner.py\<close>) and its client to the orchestrator
  (\<open>orchestrator_client.py\<close>). The runner is a sequence of awaited calls (a chat with the
  orchestrator, a checkpoint write, a status report) between which any other pod may act on
  the table and each of which may fail; every one is logged. What surrounds a run is a
  \<open>runner_world\<close>: what the orchestrator answers, what the others (the run's own heartbeat
  included) do to the table before each database call, which database calls fail, before or
  after taking effect, what the clock reads, and which rows other transactions hold locked. All
  of it may depend on the whole log. The poller that drives the runners acts in the same world.
\<close>

section \<open>The orchestrator client\<close>

record chat_turn =
  ct_role :: string
  ct_content :: string

record chat_reply =
  ry_content :: string
  ry_finish_reason :: string
  ry_agent :: string

definition md :: "string \<Rightarrow> metadata" where
  "md tenant_id = [(''x-tenant-id'', tenant_id)]"

definition final_message :: "chat_response \<Rightarrow> chat_message" where
  "final_message response =
     (case find (\<lambda>m. cm_content m \<noteq> []) (rev (cr_messages response)) of
        Some message \<Rightarrow> message | None \<Rightarrow> empty_message)"

text \<open>A stub call either fails with a status or answers.\<close>

type_synonym chat_stub = "metadata \<Rightarrow> chat_request \<Rightarrow> rpc_error + chat_response"

definition client_chat ::
    "chat_stub \<Rightarrow> string \<Rightarrow> chat_turn list \<Rightarrow> bool \<Rightarrow> py_exception + chat_reply" where
  "client_chat stub tenant_id messages approved =
     (let request = \<lparr>cq_messages = map (\<lambda>t. \<lparr>cm_role = ct_role t, cm_content = ct_content t, cm_agent = []\<rparr>) messages,
                     cq_approved = approved\<rparr>
      in case stub (md tenant_id) request of
           Inl (code, details) \<Rightarrow>
             Inl (DependencyError (''orchestrator: '' @ status_name code @ '': '' @ details))
         | Inr response \<Rightarrow>
             (let final = final_message response
              in Inr \<lparr>ry_content = cm_content final, ry_finish_reason = cr_finish_reason response,
                      ry_agent = cm_agent final\<rparr>))"

section \<open>The world of a run\<close>

datatype runner_event =
    Ev_Chat "chat_turn list" bool "py_exception + chat_reply"
  | Ev_Save progress "py_exception + unit"
  | Ev_Update string "py_exception + job_row"
  | Ev_List "py_exception + job_row list"
  | Ev_Reap "py_exception + job_row list"
  | Ev_Claim "py_exception + job_row list"

record runner_world =
  rw_lib :: pylib
  rw_stub :: "runner_event list \<Rightarrow> chat_stub"
  rw_others :: "runner_event list \<Rightarrow> job_db \<Rightarrow> job_db"
  rw_fault :: "runner_event list \<Rightarrow> (string \<times> bool) option"
  rw_clock :: "runner_event list \<Rightarrow> clock"
  rw_locked :: "runner_event list \<Rightarrow> string list"

text \<open>\<open>rs_progress\<close> is the runner's local checkpoint dictionary, mutated in place.\<close>

record runner_state =
  rs_db :: job_db
  rs_log :: "runner_event list"
  rs_progress :: progress

type_synonym 'a runner = "(runner_state, py_exception, 'a) comp"

definition get_progress :: "progress runner" where
  "get_progress = (\<lambda>s. (Inr (rs_progress s), s))"

definition set_progress :: "(progress \<Rightarrow> progress) \<Rightarrow> unit runner" where
  "set_progress f = (\<lambda>s. (Inr (), s\<lparr>rs_progress := f (rs_progress s)\<rparr>))"

definition db_call ::
    "runner_world \<Rightarrow> (clock \<Rightarrow> 'a job_op) \<Rightarrow> (py_exception + 'a \<Rightarrow> runner_event) \<Rightarrow> 'a runner" where
  "db_call w op ev = (\<lambda>s.
     let db = rw_others w (rs_log s) (rs_db s);
         (r, db') = op (rw_clock w (rs_log s)) db;
         (r', db'') = (case rw_fault w (rs_log s) of
             None \<Rightarrow> (r, db')
           | Some (m, applied) \<Rightarrow> (Inl (OtherException m), if applied then db' else db))
     in (r', s\<lparr>rs_db := db'', rs_log := rs_log s @ [ev r']\<rparr>))"

definition chat :: "runner_world \<Rightarrow> job_row \<Rightarrow> chat_turn list \<Rightarrow> bool \<Rightarrow> chat_reply runner" where
  "chat w row messages approved = (\<lambda>s.
     let r = client_chat (rw_stub w (rs_log s)) (j_tenant_id row) messages approved
     in (r, s\<lparr>rs_log := rs_log s @ [Ev_Chat messages approved r]\<rparr>))"

definition checkpoint_progress :: "runner_world \<Rightarrow> job_row \<Rightarrow> unit runner" where
  "checkpoint_progress w row = (\<lambda>s.
     db_call w (\<lambda>now. save_progress now (j_id row) (rs_progress s)) (Ev_Save (rs_progress s)) s)"

definition report :: "runner_world \<Rightarrow> job_row \<Rightarrow> string \<Rightarrow> job_row runner" where
  "report w row status =
     db_call w (\<lambda>now. job_update now (j_tenant_id row) (j_id row) status) (Ev_Update status)"

section \<open>Planning\<close>

definition planner_instruction :: string where
  "planner_instruction =
     ''You are a task planner. Break the user's request into the fewest '' @
     ''self-contained sub-prompts needed, each independently executable by one '' @
     ''agent that may make several tool calls; prefer a SINGLE prompt when the '' @
     ''whole request can be answered in one agent turn. Return ONLY a JSON array '' @
     ''of strings (each string one prompt), in execution order, with no '' @
     ''surrounding text.''"

definition planner_turns :: "string \<Rightarrow> chat_turn list" where
  "planner_turns prompt =
     [\<lparr>ct_role = ''system'', ct_content = planner_instruction\<rparr>,
      \<lparr>ct_role = ''user'', ct_content = prompt\<rparr>]"

definition with_steps :: "progress \<Rightarrow> progress" where
  "with_steps p = (case pg_steps p of None \<Rightarrow> p\<lparr>pg_steps := Some []\<rparr> | Some _ \<Rightarrow> p)"

definition existing_plan :: "progress \<Rightarrow> string list" where
  "existing_plan p = (case pg_plan p of None \<Rightarrow> [] | Some xs \<Rightarrow> xs)"

definition ensure_plan :: "runner_world \<Rightarrow> job_row \<Rightarrow> string \<Rightarrow> string list runner" where
  "ensure_plan w row prompt =
     bindS get_progress (\<lambda>progress.
     if existing_plan progress \<noteq> [] then returnS (existing_plan progress)
     else
       bindS (chat w row (planner_turns prompt) False) (\<lambda>reply.
       let plan = parse_plan (rw_lib w) (ry_content reply) in
       if plan = []
       then raiseS (RunnerError (''planner returned no sub-prompts for job '' @ j_id row))
       else
         bindS (set_progress (\<lambda>p. with_steps (p\<lparr>pg_plan := Some plan, pg_phase := Some ''executing''\<rparr>))) (\<lambda>_.
         bindS (checkpoint_progress w row) (\<lambda>_.
         returnS plan))))"

section \<open>Executing\<close>

definition approval_finish_reason :: string where
  "approval_finish_reason = ''requires_approval''"

definition steps_of :: "progress \<Rightarrow> (string \<times> job_step) list" where
  "steps_of p = (case pg_steps p of None \<Rightarrow> [] | Some d \<Rightarrow> d)"

definition step_done :: "progress \<Rightarrow> nat \<Rightarrow> bool" where
  "step_done p index \<longleftrightarrow> str_nat index \<in> fst ` set (steps_of p)"

definition step_approved :: "progress \<Rightarrow> nat \<Rightarrow> bool" where
  "step_approved p index =
     (case pg_pending p of None \<Rightarrow> False | Some pending \<Rightarrow> pa_step pending = int index)"

definition paused_at :: "nat \<Rightarrow> string \<Rightarrow> chat_reply \<Rightarrow> progress \<Rightarrow> progress" where
  "paused_at index sub_prompt reply p =
     p\<lparr>pg_pending := Some \<lparr>pa_step = int index, pa_prompt = sub_prompt, pa_detail = ry_content reply\<rparr>\<rparr>"

definition step_completed :: "nat \<Rightarrow> string \<Rightarrow> chat_reply \<Rightarrow> progress \<Rightarrow> progress" where
  "step_completed index sub_prompt reply p =
     p\<lparr>pg_pending := None,
       pg_steps := Some (steps_of p @
         [(str_nat index, \<lparr>st_prompt = sub_prompt, st_output = ry_content reply,
                           st_finish_reason = ry_finish_reason reply, st_agent = ry_agent reply\<rparr>)])\<rparr>"

definition step_turns :: "string \<Rightarrow> chat_turn list" where
  "step_turns sub_prompt = [\<lparr>ct_role = ''user'', ct_content = sub_prompt\<rparr>]"

definition execute_step :: "runner_world \<Rightarrow> job_row \<Rightarrow> nat \<Rightarrow> string \<Rightarrow> unit runner" where
  "execute_step w row index sub_prompt =
     bindS get_progress (\<lambda>progress.
     if step_done progress index then returnS ()
     else
       bindS (chat w row (step_turns sub_prompt) (step_approved progress index)) (\<lambda>reply.
       if ry_finish_reason reply = approval_finish_reason
       then
         bindS (set_progress (paused_at index sub_prompt reply)) (\<lambda>_.
         bindS (checkpoint_progress w row) (\<lambda>_.
         raiseS ApprovalRequired))
       else
         bindS (set_progress (step_completed index sub_prompt reply)) (\<lambda>_.
         checkpoint_progress w row)))"

fun execute_from :: "runner_world \<Rightarrow> job_row \<Rightarrow> nat \<Rightarrow> string list \<Rightarrow> unit runner" where
  "execute_from w row index [] = returnS ()"
| "execute_from w row index (sub_prompt # plan) =
     bindS (execute_step w row index sub_prompt) (\<lambda>_. execute_from w row (Suc index) plan)"

definition execute_steps :: "runner_world \<Rightarrow> job_row \<Rightarrow> string list \<Rightarrow> unit runner" where
  "execute_steps w row plan =
     bindS (set_progress with_steps) (\<lambda>_. execute_from w row 0 plan)"

section \<open>Finishing\<close>

text \<open>
  \<open>steps[str(max(int(key) for key in steps))]["output"]\<close>; a key that is no integer, or a
  largest index whose decimal spelling is not a key, raises.
\<close>

fun key_indices :: "(string \<times> 'a) list \<Rightarrow> py_exception + int list" where
  "key_indices [] = Inr []"
| "key_indices ((k, v) # kvs) =
     (case py_int k of
        None \<Rightarrow> Inl (OtherException (''invalid literal for int() with base 10: '' @ py_repr k))
      | Some i \<Rightarrow> (case key_indices kvs of Inl e \<Rightarrow> Inl e | Inr is \<Rightarrow> Inr (i # is)))"

definition last_output :: "progress \<Rightarrow> py_exception + string" where
  "last_output p =
     (case key_indices (steps_of p) of
        Inl e \<Rightarrow> Inl e
      | Inr is \<Rightarrow>
          (let last_index = fold max (tl is) (hd is)
           in case map_of (steps_of p) (py_str_int last_index) of
                None \<Rightarrow> Inl (OtherException (py_repr (py_str_int last_index)))
              | Some st \<Rightarrow> Inr (st_output st)))"

definition finalize :: "runner_world \<Rightarrow> job_row \<Rightarrow> unit runner" where
  "finalize w row =
     bindS (set_progress (\<lambda>p. p\<lparr>pg_phase := Some ''completed'', pg_error := None\<rparr>)) (\<lambda>_.
     bindS get_progress (\<lambda>progress.
     bindS (if steps_of progress = [] then returnS ()
            else (case last_output progress of
                    Inl e \<Rightarrow> raiseS e
                  | Inr out \<Rightarrow> set_progress (\<lambda>p. p\<lparr>pg_result := Some out\<rparr>))) (\<lambda>_.
     bindS (checkpoint_progress w row) (\<lambda>_.
     bindS (report w row ''succeeded'') (\<lambda>_.
     returnS ())))))"

section \<open>A run\<close>

definition lift_result :: "py_exception + 'a \<Rightarrow> 'a runner" where
  "lift_result r = (\<lambda>s. (r, s))"

definition execute :: "runner_world \<Rightarrow> job_row \<Rightarrow> unit runner" where
  "execute w row =
     bindS (set_progress (\<lambda>_. j_progress row)) (\<lambda>_.
     catchS
       (bindS (lift_result (prompt_of row)) (\<lambda>prompt.
        bindS (ensure_plan w row prompt) (\<lambda>plan.
        bindS (execute_steps w row plan) (\<lambda>_.
        finalize w row))))
       (\<lambda>exc. if exc = ApprovalRequired then raiseS exc
              else
                bindS (set_progress (\<lambda>p. p\<lparr>pg_error := Some (exc_str exc)\<rparr>)) (\<lambda>_.
                bindS (checkpoint_progress w row) (\<lambda>_.
                raiseS exc))))"

definition mark_waiting_approval :: "runner_world \<Rightarrow> job_row \<Rightarrow> unit runner" where
  "mark_waiting_approval w row = bindS (report w row ''waiting_approval'') (\<lambda>_. returnS ())"

definition mark_failed :: "runner_world \<Rightarrow> job_row \<Rightarrow> unit runner" where
  "mark_failed w row = bindS (report w row ''failed'') (\<lambda>_. returnS ())"

definition runner_run :: "runner_world \<Rightarrow> job_row \<Rightarrow> unit runner" where
  "runner_run w row =
     catchS (execute w row)
       (\<lambda>exc. if exc = ApprovalRequired then mark_waiting_approval w row else mark_failed w row)"

text \<open>One tick of the heartbeat, which swallows its exceptions.\<close>

definition heartbeat_tick :: "clock \<Rightarrow> string \<Rightarrow> (string \<times> bool) option \<Rightarrow> job_db \<Rightarrow> job_db" where
  "heartbeat_tick now job_id fault db =
     (case fault of
        Some (_, False) \<Rightarrow> db
      | _ \<Rightarrow> snd (renew_lease now job_id db))"

text \<open>\<open>RunnerDispatcher.run\<close>: the registry maps a job type to its runner.\<close>

definition dispatcher_run ::
    "(string \<times> (job_row \<Rightarrow> unit runner)) list \<Rightarrow> runner_world \<Rightarrow> job_row \<Rightarrow> unit runner" where
  "dispatcher_run runners w row =
     (case map_of runners (j_type row) of
        None \<Rightarrow> bindS (report w row ''failed'') (\<lambda>_. returnS ())
      | Some runner \<Rightarrow> runner row)"

end
