(* ===== verification/Job_Runs.thy ===== *)
theory Job_Runs
  imports Job_Runner "HOL-Library.Sublist"
begin

text \<open>
  What a run of the job runner does, read off its log: which calls it makes and in which order,
  what it has checkpointed at every moment, and what it reports. All of it holds whatever the
  orchestrator answers, whatever other pods do to the table, and whichever database calls fail.
\<close>

section \<open>One awaited call\<close>

abbreviation St :: "job_db \<Rightarrow> runner_event list \<Rightarrow> progress \<Rightarrow> runner_state" where
  "St db l p \<equiv> \<lparr>rs_db = db, rs_log = l, rs_progress = p\<rparr>"

lemma db_call_event:
  assumes "\<And>now db. fst (op now db) \<noteq> Inl ApprovalRequired"
  shows "\<exists>r db'. db_call w op ev (St db l p) = (r, St db' (l @ [ev r]) p) \<and> r \<noteq> Inl ApprovalRequired"
proof -
  obtain r db' where "op (rw_clock w l) (rw_others w l db) = (r, db')"
    by fastforce
  with assms [of "rw_clock w l" "rw_others w l db"] show ?thesis
    by (auto simp: db_call_def Let_def split: option.splits)
qed

lemma scalar_not_approval: "scalar_one_or_none rows \<noteq> Inl ApprovalRequired"
  by (cases rows rule: scalar_one_or_none.cases) auto

lemma save_not_approval: "fst (save_progress now jid p db) \<noteq> Inl ApprovalRequired"
  using scalar_not_approval
  by (auto simp: save_progress_def Let_def split: option.splits prod.splits sum.splits)

lemma guarded_not_approval: "fst (guarded_update t jid allowed f db) \<noteq> Inl ApprovalRequired"
  using scalar_not_approval
  by (auto simp: guarded_update_def Let_def split: prod.splits sum.splits option.splits)

lemma update_not_approval: "fst (job_update now t jid s db) \<noteq> Inl ApprovalRequired"
  by (auto simp: job_update_def job_start_def job_fail_def guarded_not_approval split: option.splits)

lemma checkpoint_event:
  "\<exists>r db'. checkpoint_progress w row (St db l p) = (r, St db' (l @ [Ev_Save p r]) p) \<and> r \<noteq> Inl ApprovalRequired"
  unfolding checkpoint_progress_def
  using db_call_event [of "\<lambda>now. save_progress now (j_id row) p" w "Ev_Save p" db l p] save_not_approval
  by simp

lemma report_event:
  "\<exists>r db'. report w row st (St db l p) = (r, St db' (l @ [Ev_Update st r]) p) \<and> r \<noteq> Inl ApprovalRequired"
  unfolding report_def by (rule db_call_event) (rule update_not_approval)

lemma client_not_approval: "client_chat stub t ms a \<noteq> Inl ApprovalRequired"
  by (simp add: client_chat_def Let_def split: sum.splits)

lemma chat_event:
  "\<exists>r. chat w row ms a (St db l p) = (r, St db (l @ [Ev_Chat ms a r]) p) \<and> r \<noteq> Inl ApprovalRequired"
  by (auto simp: chat_def Let_def client_not_approval)

section \<open>One step\<close>

lemma execute_step_skip:
  "step_done p i \<Longrightarrow> execute_step w row i sp (St db l p) = (Inr (), St db l p)"
  by (simp add: execute_step_def get_progress_def bindS_def)

lemma execute_step_cases:
  assumes "\<not> step_done p i"
  obtains
    (failed) e where "execute_step w row i sp (St db l p) =
      (Inl e, St db (l @ [Ev_Chat (step_turns sp) (step_approved p i) (Inl e)]) p)" "e \<noteq> ApprovalRequired"
  | (paused) reply r db' where "ry_finish_reason reply = approval_finish_reason"
      "execute_step w row i sp (St db l p) =
        (Inl (case r of Inl e \<Rightarrow> e | Inr _ \<Rightarrow> ApprovalRequired),
         St db' (l @ [Ev_Chat (step_turns sp) (step_approved p i) (Inr reply),
                      Ev_Save (paused_at i sp reply p) r]) (paused_at i sp reply p))"
      "r \<noteq> Inl ApprovalRequired"
  | (completed) reply r db' where "ry_finish_reason reply \<noteq> approval_finish_reason"
      "execute_step w row i sp (St db l p) =
        (r, St db' (l @ [Ev_Chat (step_turns sp) (step_approved p i) (Inr reply),
                         Ev_Save (step_completed i sp reply p) r]) (step_completed i sp reply p))"
      "r \<noteq> Inl ApprovalRequired"
proof -
  let ?a = "step_approved p i"
  obtain c where c: "chat w row (step_turns sp) ?a (St db l p) = (c, St db (l @ [Ev_Chat (step_turns sp) ?a c]) p)"
    "c \<noteq> Inl ApprovalRequired"
    using chat_event by blast
  note unf = execute_step_def get_progress_def set_progress_def bindS_def
  show thesis
  proof (cases c)
    case (Inl e)
    with c assms failed show thesis by (simp add: unf)
  next
    case (Inr reply)
    let ?l = "l @ [Ev_Chat (step_turns sp) ?a (Inr reply)]"
    show thesis
    proof (cases "ry_finish_reason reply = approval_finish_reason")
      case True
      obtain r db' where "checkpoint_progress w row (St db ?l (paused_at i sp reply p)) =
        (r, St db' (?l @ [Ev_Save (paused_at i sp reply p) r]) (paused_at i sp reply p))" "r \<noteq> Inl ApprovalRequired"
        using checkpoint_event by blast
      with True Inr c assms show thesis
        by (intro paused [of reply r db']) (auto simp: unf split: sum.splits)
    next
      case False
      obtain r db' where "checkpoint_progress w row (St db ?l (step_completed i sp reply p)) =
        (r, St db' (?l @ [Ev_Save (step_completed i sp reply p) r]) (step_completed i sp reply p))"
        "r \<noteq> Inl ApprovalRequired"
        using checkpoint_event by blast
      with False Inr c assms show thesis
        by (intro completed [of reply r db']) (auto simp: unf)
    qed
  qed
qed

section \<open>The protocol of a run\<close>

text \<open>
  The logs a run may leave, as relations between the checkpoint a phase starts with, the events
  it appends, the checkpoint it ends with and how it ends. The database and the world no longer
  occur: every result of an awaited call is allowed.
\<close>

inductive plan_trace ::
    "pylib \<Rightarrow> job_row \<Rightarrow> string \<Rightarrow> progress \<Rightarrow> runner_event list \<Rightarrow> progress \<Rightarrow> py_exception + string list \<Rightarrow> bool"
  for lib row prompt where
  reused: "existing_plan p \<noteq> [] \<Longrightarrow> plan_trace lib row prompt p [] p (Inr (existing_plan p))"
| no_reply: "existing_plan p = [] \<Longrightarrow> e \<noteq> ApprovalRequired \<Longrightarrow>
    plan_trace lib row prompt p [Ev_Chat (planner_turns prompt) False (Inl e)] p (Inl e)"
| empty_plan: "existing_plan p = [] \<Longrightarrow> parse_plan lib (ry_content reply) = [] \<Longrightarrow>
    plan_trace lib row prompt p [Ev_Chat (planner_turns prompt) False (Inr reply)] p
      (Inl (RunnerError (''planner returned no sub-prompts for job '' @ j_id row)))"
| planned: "existing_plan p = [] \<Longrightarrow> plan = parse_plan lib (ry_content reply) \<Longrightarrow> plan \<noteq> [] \<Longrightarrow>
    p' = with_steps (p\<lparr>pg_plan := Some plan, pg_phase := Some ''executing''\<rparr>) \<Longrightarrow> r \<noteq> Inl ApprovalRequired \<Longrightarrow>
    plan_trace lib row prompt p [Ev_Chat (planner_turns prompt) False (Inr reply), Ev_Save p' r] p'
      (map_sum id (\<lambda>_. plan) r)"

inductive steps_trace ::
    "nat \<Rightarrow> string list \<Rightarrow> progress \<Rightarrow> runner_event list \<Rightarrow> progress \<Rightarrow> py_exception + unit \<Rightarrow> bool" where
  all_done: "steps_trace i [] p [] p (Inr ())"
| skipped: "step_done p i \<Longrightarrow> steps_trace (Suc i) plan p evs p' res \<Longrightarrow> steps_trace i (sp # plan) p evs p' res"
| no_answer: "\<not> step_done p i \<Longrightarrow> e \<noteq> ApprovalRequired \<Longrightarrow>
    steps_trace i (sp # plan) p [Ev_Chat (step_turns sp) (step_approved p i) (Inl e)] p (Inl e)"
| paused: "\<not> step_done p i \<Longrightarrow> ry_finish_reason reply = approval_finish_reason \<Longrightarrow> r \<noteq> Inl ApprovalRequired \<Longrightarrow>
    steps_trace i (sp # plan) p
      [Ev_Chat (step_turns sp) (step_approved p i) (Inr reply), Ev_Save (paused_at i sp reply p) r]
      (paused_at i sp reply p) (Inl (case r of Inl e \<Rightarrow> e | Inr _ \<Rightarrow> ApprovalRequired))"
| unsaved: "\<not> step_done p i \<Longrightarrow> ry_finish_reason reply \<noteq> approval_finish_reason \<Longrightarrow> e \<noteq> ApprovalRequired \<Longrightarrow>
    steps_trace i (sp # plan) p
      [Ev_Chat (step_turns sp) (step_approved p i) (Inr reply), Ev_Save (step_completed i sp reply p) (Inl e)]
      (step_completed i sp reply p) (Inl e)"
| completed: "\<not> step_done p i \<Longrightarrow> ry_finish_reason reply \<noteq> approval_finish_reason \<Longrightarrow>
    steps_trace (Suc i) plan (step_completed i sp reply p) evs p' res \<Longrightarrow>
    steps_trace i (sp # plan) p
      (Ev_Chat (step_turns sp) (step_approved p i) (Inr reply) #
       Ev_Save (step_completed i sp reply p) (Inr ()) # evs) p' res"

definition completed_phase :: "progress \<Rightarrow> progress" where
  "completed_phase p = p\<lparr>pg_phase := Some ''completed'', pg_error := None\<rparr>"

definition final_progress :: "progress \<Rightarrow> py_exception + progress" where
  "final_progress p =
     (if steps_of p = [] then Inr (completed_phase p)
      else map_sum id (\<lambda>out. completed_phase p\<lparr>pg_result := Some out\<rparr>) (last_output p))"

inductive finish_trace :: "progress \<Rightarrow> runner_event list \<Rightarrow> progress \<Rightarrow> py_exception + unit \<Rightarrow> bool" where
  no_result: "final_progress p = Inl e \<Longrightarrow> e \<noteq> ApprovalRequired \<Longrightarrow> finish_trace p [] (completed_phase p) (Inl e)"
| unsaved_result: "final_progress p = Inr p' \<Longrightarrow> e \<noteq> ApprovalRequired \<Longrightarrow> finish_trace p [Ev_Save p' (Inl e)] p' (Inl e)"
| reported: "final_progress p = Inr p' \<Longrightarrow> r \<noteq> Inl ApprovalRequired \<Longrightarrow>
    finish_trace p [Ev_Save p' (Inr ()), Ev_Update ''succeeded'' r] p' (map_sum id (\<lambda>_. ()) r)"

inductive body_trace ::
    "pylib \<Rightarrow> job_row \<Rightarrow> progress \<Rightarrow> runner_event list \<Rightarrow> progress \<Rightarrow> py_exception + unit \<Rightarrow> bool"
  for lib row where
  no_prompt: "prompt_of row = Inl e \<Longrightarrow> body_trace lib row p [] p (Inl e)"
| no_plan: "prompt_of row = Inr prompt \<Longrightarrow> plan_trace lib row prompt p evs p' (Inl e) \<Longrightarrow>
    body_trace lib row p evs p' (Inl e)"
| not_executed: "prompt_of row = Inr prompt \<Longrightarrow> plan_trace lib row prompt p evs1 p1 (Inr plan) \<Longrightarrow>
    steps_trace 0 plan (with_steps p1) evs2 p2 (Inl e) \<Longrightarrow> body_trace lib row p (evs1 @ evs2) p2 (Inl e)"
| executed: "prompt_of row = Inr prompt \<Longrightarrow> plan_trace lib row prompt p evs1 p1 (Inr plan) \<Longrightarrow>
    steps_trace 0 plan (with_steps p1) evs2 p2 (Inr ()) \<Longrightarrow> finish_trace p2 evs3 p3 res \<Longrightarrow>
    body_trace lib row p (evs1 @ evs2 @ evs3) p3 res"

inductive run_trace :: "pylib \<Rightarrow> job_row \<Rightarrow> runner_event list \<Rightarrow> py_exception + unit \<Rightarrow> bool" for lib row where
  success: "body_trace lib row (j_progress row) evs p (Inr ()) \<Longrightarrow> run_trace lib row evs (Inr ())"
| pause: "body_trace lib row (j_progress row) evs p (Inl ApprovalRequired) \<Longrightarrow> r \<noteq> Inl ApprovalRequired \<Longrightarrow>
    run_trace lib row (evs @ [Ev_Update ''waiting_approval'' r]) (map_sum id (\<lambda>_. ()) r)"
| failure: "body_trace lib row (j_progress row) evs p (Inl e) \<Longrightarrow> e \<noteq> ApprovalRequired \<Longrightarrow>
    r1 \<noteq> Inl ApprovalRequired \<Longrightarrow> r2 \<noteq> Inl ApprovalRequired \<Longrightarrow>
    run_trace lib row (evs @ [Ev_Save (p\<lparr>pg_error := Some (exc_str e)\<rparr>) r1, Ev_Update ''failed'' r2])
      (map_sum id (\<lambda>_. ()) r2)"

inductive_cases plan_traceE: "plan_trace lib row prompt p evs p' (Inr plan)"

lemma prompt_not_approval: "prompt_of row \<noteq> Inl ApprovalRequired"
  by (auto simp: prompt_of_def get_or_def attribute_error_def split: json.splits sum.splits)

lemma key_indices_not_approval: "key_indices kvs \<noteq> Inl ApprovalRequired"
  by (induction kvs) (auto split: option.splits sum.splits)

lemma last_output_not_approval: "last_output p \<noteq> Inl ApprovalRequired"
  using key_indices_not_approval [of "steps_of p"]
  by (auto simp: last_output_def Let_def split: sum.splits option.splits)

lemma final_progress_not_approval: "final_progress p \<noteq> Inl ApprovalRequired"
  using last_output_not_approval [of p]
  by (cases "last_output p") (auto simp: final_progress_def)

section \<open>The runner follows the protocol\<close>

lemma ensure_plan_trace:
  "\<exists>res db' evs p'. ensure_plan w row prompt (St db l p) = (res, St db' (l @ evs) p') \<and>
     plan_trace (rw_lib w) row prompt p evs p' res"
proof (cases "existing_plan p = []")
  case False
  then show ?thesis using plan_trace.reused [of p]
    by (fastforce simp: ensure_plan_def get_progress_def bindS_def)
next
  case True
  obtain c where c: "chat w row (planner_turns prompt) False (St db l p) =
      (c, St db (l @ [Ev_Chat (planner_turns prompt) False c]) p)" "c \<noteq> Inl ApprovalRequired"
    using chat_event by blast
  note unf = ensure_plan_def get_progress_def set_progress_def bindS_def
  show ?thesis
  proof (cases c)
    case (Inl e)
    with c True plan_trace.no_reply [OF True, of e] show ?thesis by (fastforce simp: unf)
  next
    case (Inr reply)
    let ?plan = "parse_plan (rw_lib w) (ry_content reply)"
    show ?thesis
    proof (cases "?plan = []")
      case empty: True
      with c Inr True plan_trace.empty_plan [OF True empty, of row prompt] show ?thesis
        by (fastforce simp: unf)
    next
      case False
      let ?p = "with_steps (p\<lparr>pg_plan := Some ?plan, pg_phase := Some ''executing''\<rparr>)"
      let ?l = "l @ [Ev_Chat (planner_turns prompt) False (Inr reply)]"
      obtain r db' where r: "checkpoint_progress w row (St db ?l ?p) = (r, St db' (?l @ [Ev_Save ?p r]) ?p)"
        "r \<noteq> Inl ApprovalRequired"
        using checkpoint_event by blast
      have "ensure_plan w row prompt (St db l p) = (map_sum id (\<lambda>_. ?plan) r,
          St db' (l @ [Ev_Chat (planner_turns prompt) False (Inr reply), Ev_Save ?p r]) ?p)"
        using c Inr True False r by (cases r) (simp_all add: unf Let_def)
      with plan_trace.planned [OF True refl False refl r(2), of row prompt] show ?thesis by blast
    qed
  qed
qed

lemma execute_from_trace:
  "\<exists>res db' evs p'. execute_from w row i plan (St db l p) = (res, St db' (l @ evs) p') \<and>
     steps_trace i plan p evs p' res"
proof (induction plan arbitrary: i db l p)
  case Nil
  then show ?case using steps_trace.all_done by (fastforce simp: returnS_def)
next
  case (Cons sp plan)
  show ?case
  proof (cases "step_done p i")
    case True
    from Cons [of "Suc i" db l p] obtain res db' evs p' where
      "execute_from w row (Suc i) plan (St db l p) = (res, St db' (l @ evs) p')"
      "steps_trace (Suc i) plan p evs p' res" by blast
    with True steps_trace.skipped [OF True] show ?thesis
      by (fastforce simp: bindS_def execute_step_skip)
  next
    case False
    then show ?thesis
    proof (cases rule: execute_step_cases [of p i w row sp db l])
      case (failed e)
      then show ?thesis using steps_trace.no_answer [OF False, of e sp plan]
        by (fastforce simp: bindS_def)
    next
      case (paused reply r db')
      then show ?thesis using steps_trace.paused [OF False paused(1,3), of sp plan]
        by (fastforce simp: bindS_def)
    next
      case (completed reply r db')
      show ?thesis
      proof (cases r)
        case (Inl e)
        with completed steps_trace.unsaved [OF False completed(1), of e sp plan] show ?thesis
          by (fastforce simp: bindS_def)
      next
        case (Inr u)
        let ?p = "step_completed i sp reply p"
        let ?es = "[Ev_Chat (step_turns sp) (step_approved p i) (Inr reply), Ev_Save ?p (Inr ())]"
        from Cons [of "Suc i" db' "l @ ?es" ?p] obtain res db'' evs p' where
          "execute_from w row (Suc i) plan (St db' (l @ ?es) ?p) = (res, St db'' ((l @ ?es) @ evs) p')"
          "steps_trace (Suc i) plan ?p evs p' res" by blast
        with Inr completed steps_trace.completed [OF False completed(1), of plan sp evs p' res]
        show ?thesis by (intro exI conjI) (auto simp: bindS_def)
      qed
    qed
  qed
qed

lemma finalize_final:
  assumes "final_progress p = Inr p'"
  shows "finalize w row (St db l p) =
    bindS (checkpoint_progress w row) (\<lambda>_. bindS (report w row ''succeeded'') (\<lambda>_. returnS ())) (St db l p')"
proof -
  have "bindS (set_progress (\<lambda>p. p\<lparr>pg_phase := Some ''completed'', pg_error := None\<rparr>)) (\<lambda>_.
     bindS get_progress (\<lambda>progress.
     bindS (if steps_of progress = [] then returnS ()
            else (case last_output progress of
                    Inl e \<Rightarrow> raiseS e
                  | Inr out \<Rightarrow> set_progress (\<lambda>p. p\<lparr>pg_result := Some out\<rparr>))) m)) (St db l p) =
      m () (St db l p')" for m :: "unit \<Rightarrow> unit runner"
    using assms by (auto simp: final_progress_def completed_phase_def set_progress_def
        get_progress_def bindS_def steps_of_def last_output_def split: if_splits sum.splits)
  then show ?thesis unfolding finalize_def .
qed

lemma finalize_trace:
  "\<exists>res db' evs p'. finalize w row (St db l p) = (res, St db' (l @ evs) p') \<and> finish_trace p evs p' res"
proof (cases "final_progress p")
  case (Inl e)
  then have "e \<noteq> ApprovalRequired" using final_progress_not_approval [of p] by auto
  moreover have "finalize w row (St db l p) = (Inl e, St db (l @ []) (completed_phase p))"
    using Inl by (auto simp: finalize_def final_progress_def completed_phase_def set_progress_def
        get_progress_def bindS_def steps_of_def last_output_def split: if_splits sum.splits)
  ultimately show ?thesis using finish_trace.no_result [OF Inl] by blast
next
  case (Inr p')
  have fin: "finalize w row (St db l p) =
      bindS (checkpoint_progress w row) (\<lambda>_. bindS (report w row ''succeeded'') (\<lambda>_. returnS ())) (St db l p')"
    by (rule finalize_final [OF Inr])
  obtain r db1 where r: "checkpoint_progress w row (St db l p') = (r, St db1 (l @ [Ev_Save p' r]) p')"
    "r \<noteq> Inl ApprovalRequired"
    using checkpoint_event by blast
  show ?thesis
  proof (cases r)
    case (Inl e)
    with r fin finish_trace.unsaved_result [OF Inr, of e] show ?thesis by (fastforce simp: bindS_def)
  next
    case ok: (Inr u)
    obtain r2 db2 where r2: "report w row ''succeeded'' (St db1 (l @ [Ev_Save p' (Inr ())]) p') =
        (r2, St db2 ((l @ [Ev_Save p' (Inr ())]) @ [Ev_Update ''succeeded'' r2]) p')" "r2 \<noteq> Inl ApprovalRequired"
      using report_event by blast
    have "finalize w row (St db l p) = (map_sum id (\<lambda>_. ()) r2,
        St db2 (l @ [Ev_Save p' (Inr ()), Ev_Update ''succeeded'' r2]) p')"
      using fin r ok r2 by (cases r2) (simp_all add: bindS_def)
    with finish_trace.reported [OF Inr r2(2)] show ?thesis by blast
  qed
qed

definition run_body :: "runner_world \<Rightarrow> job_row \<Rightarrow> unit runner" where
  "run_body w row = bindS (lift_result (prompt_of row)) (\<lambda>prompt.
     bindS (ensure_plan w row prompt) (\<lambda>plan.
     bindS (execute_steps w row plan) (\<lambda>_. finalize w row)))"

lemma execute_run_body:
  "execute w row = bindS (set_progress (\<lambda>_. j_progress row)) (\<lambda>_. catchS (run_body w row)
     (\<lambda>exc. if exc = ApprovalRequired then raiseS exc
            else bindS (set_progress (\<lambda>p. p\<lparr>pg_error := Some (exc_str exc)\<rparr>)) (\<lambda>_.
              bindS (checkpoint_progress w row) (\<lambda>_. raiseS exc))))"
  by (simp add: execute_def run_body_def)

lemma run_body_trace:
  "\<exists>res db' evs p'. run_body w row (St db l p) = (res, St db' (l @ evs) p') \<and>
     body_trace (rw_lib w) row p evs p' res"
proof (cases "prompt_of row")
  case (Inl e)
  then show ?thesis using body_trace.no_prompt [OF Inl, of "rw_lib w" p]
    by (fastforce simp: run_body_def lift_result_def bindS_def)
next
  case (Inr prompt)
  obtain r1 db1 evs1 p1 where 1: "ensure_plan w row prompt (St db l p) = (r1, St db1 (l @ evs1) p1)"
    "plan_trace (rw_lib w) row prompt p evs1 p1 r1"
    using ensure_plan_trace by blast
  show ?thesis
  proof (cases r1)
    case (Inl e)
    with 1 Inr body_trace.no_plan [OF Inr, of "rw_lib w" p evs1 p1 e] show ?thesis
      by (fastforce simp: run_body_def lift_result_def bindS_def)
  next
    case plan: (Inr plan)
    obtain r2 db2 evs2 p2 where 2: "execute_from w row 0 plan (St db1 (l @ evs1) (with_steps p1)) =
        (r2, St db2 ((l @ evs1) @ evs2) p2)" "steps_trace 0 plan (with_steps p1) evs2 p2 r2"
      using execute_from_trace by blast
    have st: "execute_steps w row plan (St db1 (l @ evs1) p1) = (r2, St db2 ((l @ evs1) @ evs2) p2)"
      using 2 by (simp add: execute_steps_def set_progress_def bindS_def)
    show ?thesis
    proof (cases r2)
      case (Inl e)
      have "body_trace (rw_lib w) row p (evs1 @ evs2) p2 (Inl e)"
        using body_trace.not_executed [OF Inr] 1 plan 2 Inl by blast
      moreover have "run_body w row (St db l p) = (Inl e, St db2 (l @ (evs1 @ evs2)) p2)"
        using 1 plan st Inl Inr by (simp add: run_body_def lift_result_def bindS_def)
      ultimately show ?thesis by blast
    next
      case ok: (Inr u)
      obtain r3 db3 evs3 p3 where 3: "finalize w row (St db2 (l @ evs1 @ evs2) p2) =
          (r3, St db3 ((l @ evs1 @ evs2) @ evs3) p3)" "finish_trace p2 evs3 p3 r3"
        using finalize_trace by blast
      have "body_trace (rw_lib w) row p (evs1 @ evs2 @ evs3) p3 r3"
        using body_trace.executed [OF Inr] 1 plan 2 ok 3(2) by fastforce
      moreover have "run_body w row (St db l p) = (r3, St db3 (l @ (evs1 @ evs2 @ evs3)) p3)"
        using 1 plan st ok Inr 3(1) by (simp add: run_body_def lift_result_def bindS_def)
      ultimately show ?thesis by blast
    qed
  qed
qed

lemma runner_run_trace:
  "\<exists>res db' evs p'. runner_run w row (St db l p0) = (res, St db' (l @ evs) p') \<and>
     run_trace (rw_lib w) row evs res"
proof -
  obtain r db1 evs p where b: "run_body w row (St db l (j_progress row)) = (r, St db1 (l @ evs) p)"
    "body_trace (rw_lib w) row (j_progress row) evs p r"
    using run_body_trace by blast
  note unf = runner_run_def execute_run_body set_progress_def
  show ?thesis
  proof (cases r)
    case (Inr u)
    with b run_trace.success [of "rw_lib w" row evs p] show ?thesis
      by (fastforce simp: unf bindS_def catchS_def)
  next
    case (Inl e)
    show ?thesis
    proof (cases "e = ApprovalRequired")
      case True
      obtain r2 db2 where r2: "report w row ''waiting_approval'' (St db1 (l @ evs) p) =
          (r2, St db2 ((l @ evs) @ [Ev_Update ''waiting_approval'' r2]) p)" "r2 \<noteq> Inl ApprovalRequired"
        using report_event by blast
      have "runner_run w row (St db l p0) = (map_sum id (\<lambda>_. ()) r2,
          St db2 (l @ (evs @ [Ev_Update ''waiting_approval'' r2])) p)"
        using b Inl True r2 by (cases r2) (simp_all add: unf bindS_def catchS_def mark_waiting_approval_def)
      moreover have "run_trace (rw_lib w) row (evs @ [Ev_Update ''waiting_approval'' r2]) (map_sum id (\<lambda>_. ()) r2)"
        using run_trace.pause b(2) Inl True r2(2) by blast
      ultimately show ?thesis by blast
    next
      case False
      let ?p = "p\<lparr>pg_error := Some (exc_str e)\<rparr>"
      obtain r1 db2 where r1: "checkpoint_progress w row (St db1 (l @ evs) ?p) =
          (r1, St db2 ((l @ evs) @ [Ev_Save ?p r1]) ?p)" "r1 \<noteq> Inl ApprovalRequired"
        using checkpoint_event by blast
      obtain r2 db3 where r2: "report w row ''failed'' (St db2 ((l @ evs) @ [Ev_Save ?p r1]) ?p) =
          (r2, St db3 (((l @ evs) @ [Ev_Save ?p r1]) @ [Ev_Update ''failed'' r2]) ?p)" "r2 \<noteq> Inl ApprovalRequired"
        using report_event by blast
      have "runner_run w row (St db l p0) = (map_sum id (\<lambda>_. ()) r2,
          St db3 (l @ (evs @ [Ev_Save ?p r1, Ev_Update ''failed'' r2])) ?p)"
        using b Inl False r1 r2
        by (cases r1; cases r2) (auto simp: unf bindS_def catchS_def mark_failed_def)
      moreover have "run_trace (rw_lib w) row (evs @ [Ev_Save ?p r1, Ev_Update ''failed'' r2]) (map_sum id (\<lambda>_. ()) r2)"
        using run_trace.failure b(2) Inl False r1(2) r2(2) by blast
      ultimately show ?thesis by blast
    qed
  qed
qed

end
