(* ===== verification/Job_Execution.thy ===== *)
theory Job_Execution
  imports Job_Runs
begin

text \<open>
  The guarantees of the job runner, proved on the protocol of \<open>Job_Runs\<close>: which calls it makes
  (each pending step at most once, in order, approved only where a human was asked), that every
  completed step is checkpointed before anything else happens, what a success, a pause and a
  failure leave behind, and that a run ends with exactly one decisive status report.
\<close>

section \<open>Reading a log\<close>

fun chat_calls :: "runner_event list \<Rightarrow> (chat_turn list \<times> bool) list" where
  "chat_calls [] = []"
| "chat_calls (e # es) = (case e of Ev_Chat t a r \<Rightarrow> (t, a) # chat_calls es | _ \<Rightarrow> chat_calls es)"

fun saved :: "runner_event list \<Rightarrow> progress list" where
  "saved [] = []"
| "saved (e # es) = (case e of Ev_Save p r \<Rightarrow> p # saved es | _ \<Rightarrow> saved es)"

fun reports :: "runner_event list \<Rightarrow> string list" where
  "reports [] = []"
| "reports (e # es) = (case e of Ev_Update st r \<Rightarrow> st # reports es | _ \<Rightarrow> reports es)"

lemma log_append [simp]:
  "chat_calls (xs @ ys) = chat_calls xs @ chat_calls ys"
  "saved (xs @ ys) = saved xs @ saved ys"
  "reports (xs @ ys) = reports xs @ reports ys"
  by (induction xs) (auto split: runner_event.splits)

lemma with_steps_simps [simp]:
  "steps_of (with_steps p) = steps_of p" "step_done (with_steps p) = step_done p"
  "step_approved (with_steps p) = step_approved p" "existing_plan (with_steps p) = existing_plan p"
  "pg_pending (with_steps p) = pg_pending p"
  by (auto simp: steps_of_def with_steps_def step_done_def step_approved_def existing_plan_def
      fun_eq_iff split: option.splits)

lemma step_completed_simps [simp]:
  "steps_of (step_completed i sp reply p) = steps_of p @
     [(str_nat i, \<lparr>st_prompt = sp, st_output = ry_content reply, st_finish_reason = ry_finish_reason reply,
                   st_agent = ry_agent reply\<rparr>)]"
  "step_done (step_completed i sp reply p) j \<longleftrightarrow> j = i \<or> step_done p j"
  "step_approved (step_completed i sp reply p) j = False"
  "existing_plan (step_completed i sp reply p) = existing_plan p"
  "pg_pending (step_completed i sp reply p) = None"
  by (auto simp: steps_of_def step_completed_def step_done_def step_approved_def existing_plan_def)

lemma paused_at_simps [simp]:
  "steps_of (paused_at i sp reply p) = steps_of p"
  "step_done (paused_at i sp reply p) = step_done p"
  "existing_plan (paused_at i sp reply p) = existing_plan p"
  "pg_pending (paused_at i sp reply p) =
     Some \<lparr>pa_step = int i, pa_prompt = sp, pa_detail = ry_content reply\<rparr>"
  by (auto simp: steps_of_def paused_at_def step_done_def existing_plan_def fun_eq_iff)

lemma error_simps [simp]:
  "steps_of (p\<lparr>pg_error := e\<rparr>) = steps_of p" "existing_plan (p\<lparr>pg_error := e\<rparr>) = existing_plan p"
  "step_done (p\<lparr>pg_error := e\<rparr>) = step_done p"
  by (auto simp: steps_of_def existing_plan_def step_done_def fun_eq_iff)

lemma new_plan_simps [simp]:
  "steps_of (p\<lparr>pg_plan := x, pg_phase := y\<rparr>) = steps_of p"
  "step_done (p\<lparr>pg_plan := x, pg_phase := y\<rparr>) = step_done p"
  "step_approved (p\<lparr>pg_plan := x, pg_phase := y\<rparr>) = step_approved p"
  "existing_plan (p\<lparr>pg_plan := Some plan, pg_phase := y\<rparr>) = plan"
  by (auto simp: steps_of_def existing_plan_def step_done_def step_approved_def fun_eq_iff)

lemma completed_phase_simps [simp]:
  "steps_of (completed_phase p) = steps_of p" "existing_plan (completed_phase p) = existing_plan p"
  "step_done (completed_phase p) = step_done p" "pg_error (completed_phase p) = None"
  "pg_phase (completed_phase p) = Some ''completed''" "pg_pending (completed_phase p) = pg_pending p"
  by (auto simp: steps_of_def existing_plan_def step_done_def completed_phase_def fun_eq_iff)

lemma result_simps [simp]:
  "steps_of (p\<lparr>pg_result := e\<rparr>) = steps_of p" "existing_plan (p\<lparr>pg_result := e\<rparr>) = existing_plan p"
  "step_done (p\<lparr>pg_result := e\<rparr>) = step_done p"
  by (auto simp: steps_of_def existing_plan_def step_done_def fun_eq_iff)

section \<open>Calls\<close>

text \<open>The calls the pending steps of a checkpoint need: approval is passed on for the first only,
  and only when it is the step that asked for it.\<close>

definition step_calls :: "progress \<Rightarrow> string list \<Rightarrow> nat list \<Rightarrow> (chat_turn list \<times> bool) list" where
  "step_calls p plan is =
     (case is of [] \<Rightarrow> []
      | i # js \<Rightarrow> (step_turns (plan ! i), step_approved p i) # map (\<lambda>j. (step_turns (plan ! j), False)) js)"

definition pending_indices :: "progress \<Rightarrow> string list \<Rightarrow> nat list" where
  "pending_indices p plan = filter (\<lambda>i. \<not> step_done p i) [0..<length plan]"

lemma step_calls_no_pending:
  "step_calls (step_completed i sp reply p) plan js = map (\<lambda>j. (step_turns (plan ! j), False)) js"
  by (simp add: step_calls_def split: list.splits)

lemma drop_eq_Cons:
  assumes "x # xs = drop i ys"
  shows "[i..<length ys] = i # [Suc i..<length ys] \<and> ys ! i = x \<and> xs = drop (Suc i) ys \<and> i < length ys"
proof -
  have "i < length ys" using assms by (metis drop_eq_Nil list.distinct(1) not_le)
  with assms show ?thesis by (metis Cons_nth_drop_Suc list.inject upt_rec)
qed

lemma steps_trace_calls:
  assumes "steps_trace i ps p evs p' res" and "ps = drop i plan" and "i + length ps = length plan"
  shows "\<exists>n. chat_calls evs = take n (step_calls p plan (filter (\<lambda>j. \<not> step_done p j) [i..<length plan])) \<and>
    (res = Inr () \<longrightarrow> chat_calls evs = step_calls p plan (filter (\<lambda>j. \<not> step_done p j) [i..<length plan]))"
  using assms
proof (induction rule: steps_trace.induct)
  case (all_done i p)
  then show ?case by (simp add: step_calls_def)
next
  case (skipped p i ps evs p' res sp)
  note d = drop_eq_Cons [OF skipped(4)]
  moreover have "Suc i + length ps = length plan" using skipped(5) by simp
  ultimately show ?case using skipped(1) skipped(3) by simp
next
  case (no_answer p i e sp ps)
  with drop_eq_Cons [OF no_answer(3)] show ?case by (intro exI [of _ 1]) (simp add: step_calls_def)
next
  case (paused p i reply r sp ps)
  with drop_eq_Cons [OF paused(4)] show ?case by (intro exI [of _ 1]) (simp add: step_calls_def)
next
  case (unsaved p i reply e sp ps)
  with drop_eq_Cons [OF unsaved(4)] show ?case by (intro exI [of _ 1]) (simp add: step_calls_def)
next
  case (completed p i reply ps sp evs p' res)
  note d = drop_eq_Cons [OF completed(5)]
  have f: "filter (\<lambda>j. \<not> step_done (step_completed i sp reply p) j) [Suc i..<length plan] =
      filter (\<lambda>j. \<not> step_done p j) [Suc i..<length plan]"
    by (rule filter_cong) auto
  have len: "Suc i + length ps = length plan" using completed(6) by simp
  have "ps = drop (Suc i) plan" using d by blast
  from completed(4) [OF this len] obtain n where
    "chat_calls evs = take n (map (\<lambda>j. (step_turns (plan ! j), False)) (filter (\<lambda>j. \<not> step_done p j) [Suc i..<length plan]))"
    "res = Inr () \<longrightarrow> chat_calls evs =
       map (\<lambda>j. (step_turns (plan ! j), False)) (filter (\<lambda>j. \<not> step_done p j) [Suc i..<length plan])"
    unfolding step_calls_no_pending f by blast
  with d completed(1) show ?case by (intro exI [of _ "Suc n"]) (simp add: step_calls_def)
qed

lemma chat_calls_simps [simp]:
  "chat_calls [Ev_Save p r] = []" "chat_calls [Ev_Update st r'] = []"
  by simp_all

lemma finish_trace_calls: "finish_trace p evs p' res \<Longrightarrow> chat_calls evs = []"
  by (induction rule: finish_trace.induct) simp_all

lemma plan_trace_calls:
  "plan_trace lib row prompt p evs p' res \<Longrightarrow>
     chat_calls evs = (if existing_plan p = [] then [(planner_turns prompt, False)] else []) \<and>
     (\<forall>plan. res = Inr plan \<longrightarrow> existing_plan p' = plan \<and> plan \<noteq> [] \<and>
        (existing_plan p \<noteq> [] \<longrightarrow> plan = existing_plan p) \<and>
        step_done p' = step_done p \<and> step_approved p' = step_approved p)"
proof (induction rule: plan_trace.induct)
  case (planned p plan reply p' r)
  then show ?case by (cases r) auto
qed auto

lemma step_calls_cong:
  "step_approved p' = step_approved p \<Longrightarrow> step_calls p' plan is = step_calls p plan is"
  by (cases "is") (simp_all add: step_calls_def)

lemma steps_trace_calls_all:
  assumes "steps_trace 0 plan p evs p' res"
  shows "\<exists>n. chat_calls evs = take n (step_calls p plan (pending_indices p plan))"
  using steps_trace_calls [OF assms, of plan] by (auto simp: pending_indices_def)

lemma pending_indices_with_steps:
  "step_done p1 = step_done p \<Longrightarrow> pending_indices (with_steps p1) plan = pending_indices p plan"
  by (simp add: pending_indices_def)

lemma step_calls_with_steps:
  "step_approved p1 = step_approved p \<Longrightarrow> step_calls (with_steps p1) plan is = step_calls p plan is"
  by (rule step_calls_cong) simp

lemma body_trace_calls:
  assumes "body_trace lib row p evs p' res"
  shows "\<exists>prompt plan n. (prompt_of row = Inr prompt \<or> n = 0) \<and>
    (existing_plan p \<noteq> [] \<longrightarrow> plan = existing_plan p) \<and>
    chat_calls evs = take n ((if existing_plan p = [] then [(planner_turns prompt, False)] else []) @
      step_calls p plan (pending_indices p plan))"
  using assms
proof (induction rule: body_trace.induct)
  case (no_prompt e p)
  then show ?case by (intro exI [of _ "[]"] exI [of _ "existing_plan p"] exI [of _ 0]) simp
next
  case (no_plan prompt p evs p' e)
  then show ?case
    by (intro exI [of _ prompt] exI [of _ "existing_plan p"] exI [of _ "if existing_plan p = [] then 1 else 0"])
      (auto dest: plan_trace_calls)
next
  case (not_executed prompt p evs1 p1 plan evs2 p2 e)
  obtain n where n: "chat_calls evs2 = take n (step_calls (with_steps p1) plan (pending_indices (with_steps p1) plan))"
    using steps_trace_calls_all [OF not_executed(3)] by blast
  with plan_trace_calls [OF not_executed(2)] not_executed(1) show ?case
    by (intro exI [of _ prompt] exI [of _ plan]
          exI [of _ "if existing_plan p = [] then Suc n else n"])
      (auto simp: pending_indices_with_steps step_calls_with_steps)
next
  case (executed prompt p evs1 p1 plan evs2 p2 evs3 p3 res)
  obtain n where n: "chat_calls evs2 = take n (step_calls (with_steps p1) plan (pending_indices (with_steps p1) plan))"
    using steps_trace_calls_all [OF executed(3)] by blast
  with plan_trace_calls [OF executed(2)] executed(1) finish_trace_calls [OF executed(4)] show ?case
    by (intro exI [of _ prompt] exI [of _ plan]
          exI [of _ "if existing_plan p = [] then Suc n else n"])
      (auto simp: pending_indices_with_steps step_calls_with_steps)
qed

lemma run_trace_calls:
  assumes "run_trace lib row evs res"
  shows "\<exists>prompt plan n. (prompt_of row = Inr prompt \<or> n = 0) \<and>
    (existing_plan (j_progress row) \<noteq> [] \<longrightarrow> plan = existing_plan (j_progress row)) \<and>
    chat_calls evs = take n ((if existing_plan (j_progress row) = [] then [(planner_turns prompt, False)] else []) @
      step_calls (j_progress row) plan (pending_indices (j_progress row) plan))"
  using assms
proof cases
  case (success p)
  from body_trace_calls [OF success(2)] show ?thesis .
next
  case (pause es p r)
  then have "chat_calls evs = chat_calls es" by simp
  with body_trace_calls [OF pause(3)] show ?thesis by metis
next
  case (failure es p e r1 r2)
  then have "chat_calls evs = chat_calls es" by simp
  with body_trace_calls [OF failure(3)] show ?thesis by metis
qed

text \<open>What a run of the model appends to its log.\<close>

definition run_log :: "runner_world \<Rightarrow> job_row \<Rightarrow> runner_state \<Rightarrow> runner_event list" where
  "run_log w row s = drop (length (rs_log s)) (rs_log (snd (runner_run w row s)))"

lemma run_log_trace: "run_trace (rw_lib w) row (run_log w row s) (fst (runner_run w row s))"
proof (cases s)
  case (fields db l p0)
  from runner_run_trace [of w row db l p0] obtain res db' evs p' where
    "runner_run w row s = (res, St db' (l @ evs) p')" "run_trace (rw_lib w) row evs res"
    unfolding fields by blast
  then show ?thesis by (simp add: run_log_def fields)
qed


section \<open>Checkpoints\<close>

text \<open>A later checkpoint keeps the plan and every completed step of an earlier one.\<close>

definition grows :: "progress \<Rightarrow> progress \<Rightarrow> bool" where
  "grows p q \<longleftrightarrow> prefix (steps_of p) (steps_of q) \<and>
     (existing_plan p \<noteq> [] \<longrightarrow> existing_plan q = existing_plan p)"

text \<open>
  What a runner leaves in the \<open>progress\<close> column: one entry per completed step of the plan,
  under its index and with its prompt, and a pending approval only for an incomplete step.
\<close>

definition checkpoint_ok :: "progress \<Rightarrow> bool" where
  "checkpoint_ok p \<longleftrightarrow> distinct (map fst (steps_of p)) \<and>
     (\<forall>ks \<in> set (steps_of p). \<exists>i < length (existing_plan p).
        fst ks = str_nat i \<and> st_prompt (snd ks) = existing_plan p ! i) \<and>
     (\<forall>pa. pg_pending p = Some pa \<longrightarrow> (\<exists>i < length (existing_plan p).
        pa_step pa = int i \<and> pa_prompt pa = existing_plan p ! i \<and> \<not> step_done p i))"

definition chained :: "progress \<Rightarrow> runner_event list \<Rightarrow> progress \<Rightarrow> bool" where
  "chained p evs p' \<longleftrightarrow> sorted_wrt grows (p # saved evs @ [p']) \<and>
     (checkpoint_ok p \<longrightarrow> (\<forall>q \<in> set (saved evs @ [p']). checkpoint_ok q))"

lemma grows_refl [simp]: "grows p p"
  by (simp add: grows_def)

lemma grows_trans: "grows p q \<Longrightarrow> grows q r \<Longrightarrow> grows p r"
  by (auto simp: grows_def)

lemma chainedI:
  assumes "sorted_wrt grows (p # saved evs @ [p'])"
    and "\<And>q. checkpoint_ok p \<Longrightarrow> q \<in> set (saved evs) \<or> q = p' \<Longrightarrow> checkpoint_ok q"
  shows "chained p evs p'"
  using assms by (simp add: chained_def)

lemma chainedD:
  assumes "chained p evs p'"
  shows "sorted_wrt grows (p # saved evs @ [p'])"
    and "checkpoint_ok p \<Longrightarrow> q \<in> set (saved evs) \<or> q = p' \<Longrightarrow> checkpoint_ok q"
  using assms by (simp_all add: chained_def) blast

lemma chained_append:
  assumes "chained p e1 p1" and "chained p1 e2 p2"
  shows "chained p (e1 @ e2) p2"
proof -
  have s1: "sorted_wrt grows (p # saved e1)" "\<forall>x \<in> set (p # saved e1). grows x p1"
    using assms(1) by (auto simp: chained_def sorted_wrt_append)
  have s2: "sorted_wrt grows (saved e2 @ [p2])" "\<forall>y \<in> set (saved e2 @ [p2]). grows p1 y"
    using assms(2) by (auto simp: chained_def)
  have "\<forall>x \<in> set (p # saved e1). \<forall>y \<in> set (saved e2 @ [p2]). grows x y"
    using s1(2) s2(2) grows_trans by blast
  with s1(1) s2(1) have "sorted_wrt grows ((p # saved e1) @ (saved e2 @ [p2]))"
    unfolding sorted_wrt_append by blast
  then have "sorted_wrt grows (p # saved (e1 @ e2) @ [p2])" by simp
  then show ?thesis
  proof (rule chainedI)
    fix q assume p: "checkpoint_ok p" and "q \<in> set (saved (e1 @ e2)) \<or> q = p2"
    then have "q \<in> set (saved e1) \<or> q \<in> set (saved e2) \<or> q = p2" by simp
    moreover have "checkpoint_ok p1" using chainedD(2) [OF assms(1) p] by simp
    ultimately show "checkpoint_ok q"
      using chainedD(2) [OF assms(1) p] chainedD(2) [OF assms(2)] by metis
  qed
qed

lemma chained_Nil: "grows p p' \<Longrightarrow> (checkpoint_ok p \<Longrightarrow> checkpoint_ok p') \<Longrightarrow> chained p [] p'"
  by (simp add: chained_def)

lemma chained_Cons:
  assumes "grows p q" and "checkpoint_ok p \<Longrightarrow> checkpoint_ok q" and "chained q evs p'"
  shows "chained p (Ev_Save q r # evs) p'"
proof -
  have s: "sorted_wrt grows (q # saved evs @ [p'])" using assms(3) by (simp add: chained_def)
  then have "\<forall>y \<in> set (q # saved evs @ [p']). grows q y" by simp
  then have "\<forall>y \<in> set (q # saved evs @ [p']). grows p y" using assms(1) grows_trans by blast
  with s have s': "sorted_wrt grows (p # saved (Ev_Save q r # evs) @ [p'])" by simp
  then show ?thesis
  proof (rule chainedI)
    fix x assume p: "checkpoint_ok p" and "x \<in> set (saved (Ev_Save q r # evs)) \<or> x = p'"
    then have "x = q \<or> x \<in> set (saved evs) \<or> x = p'" by simp
    then show "checkpoint_ok x" using assms(2) [OF p] chainedD(2) [OF assms(3)] by metis
  qed
qed

lemma chained_chat: "chained p evs p' \<Longrightarrow> chained p (Ev_Chat t a c # evs) p'"
  by (simp add: chained_def)

lemma chained_update: "chained p (Ev_Update st r # evs) p' = chained p evs p'"
  by (simp add: chained_def)

lemmas chained_intros = chained_Cons chained_chat chained_Nil

lemma grows_step: "grows p (step_completed i sp reply p)"
  by (simp add: grows_def)

lemma checkpoint_ok_step:
  assumes "checkpoint_ok p" and "\<not> step_done p i" and "i < length (existing_plan p)"
    and "existing_plan p ! i = sp"
  shows "checkpoint_ok (step_completed i sp reply p)" and "checkpoint_ok (paused_at i sp reply p)"
  using assms by (auto simp: checkpoint_ok_def step_done_def)

lemma grows_same: "steps_of p' = steps_of p \<Longrightarrow> existing_plan p' = existing_plan p \<Longrightarrow> grows p p'"
  by (simp add: grows_def)

lemma checkpoint_ok_cong:
  "steps_of p' = steps_of p \<Longrightarrow> existing_plan p' = existing_plan p \<Longrightarrow> pg_pending p' = pg_pending p \<Longrightarrow>
     checkpoint_ok p' = checkpoint_ok p"
  by (simp add: checkpoint_ok_def step_done_def)

lemma steps_trace_chained:
  assumes "steps_trace i ps p evs p' res" and "ps = drop i (existing_plan p)" and "ps \<noteq> [] \<longrightarrow> i < length (existing_plan p)"
  shows "chained p evs p' \<and> existing_plan p' = existing_plan p"
  using assms
proof (induction rule: steps_trace.induct)
  case (all_done i p)
  then show ?case by (simp add: chained_Nil)
next
  case (skipped p i ps evs p' res sp)
  from drop_eq_Cons [OF skipped(4)] skipped(3) show ?case
    by (metis drop_eq_Nil not_le)
next
  case (no_answer p i e sp ps)
  then show ?case by (simp add: chained_chat chained_Nil)
next
  case (paused p i reply r sp ps)
  with drop_eq_Cons [OF paused(4)] show ?case
    by (auto intro!: chained_intros simp: checkpoint_ok_step grows_same)
next
  case (unsaved p i reply e sp ps)
  with drop_eq_Cons [OF unsaved(4)] show ?case
    by (auto intro!: chained_intros simp: checkpoint_ok_step grows_step)
next
  case (completed p i reply ps sp evs p' res)
  note d = drop_eq_Cons [OF completed(5)]
  have i: "i < length (existing_plan p)" "existing_plan p ! i = sp" using completed(6) d by auto
  have "ps \<noteq> [] \<longrightarrow> Suc i < length (existing_plan p)" using d by auto
  then have "chained (step_completed i sp reply p) evs p' \<and> existing_plan p' = existing_plan p"
    using completed(4) d by simp
  with i completed(1) show ?case
    by (auto intro!: chained_chat chained_Cons simp: checkpoint_ok_step grows_step)
qed

lemma plan_trace_chained:
  "plan_trace lib row prompt p evs p' res \<Longrightarrow>
     chained p evs p' \<and> (\<forall>plan. res = Inr plan \<longrightarrow> existing_plan p' = plan)"
proof (induction rule: plan_trace.induct)
  case (planned p plan reply p' r)
  have "grows p p'" using planned by (simp add: grows_def)
  moreover have "checkpoint_ok p'" if "checkpoint_ok p"
  proof -
    have "steps_of p = []" using that planned(1) by (cases "steps_of p") (auto simp: checkpoint_ok_def)
    moreover have "pg_pending p = None" using that planned(1) by (cases "pg_pending p") (auto simp: checkpoint_ok_def)
    ultimately show ?thesis using planned by (simp add: checkpoint_ok_def)
  qed
  ultimately have "chained p [Ev_Chat (planner_turns prompt) False (Inr reply), Ev_Save p' r] p'"
    by (intro chained_chat chained_Cons chained_Nil) simp_all
  moreover have "existing_plan p' = plan" using planned by simp
  ultimately show ?case by (cases r) simp_all
qed (auto intro!: chained_intros)

lemma final_progress_same:
  "final_progress p = Inr q \<Longrightarrow> steps_of q = steps_of p \<and> existing_plan q = existing_plan p \<and>
     pg_pending q = pg_pending p \<and> pg_error q = None \<and> pg_phase q = Some ''completed''"
  by (cases "last_output p") (auto simp: final_progress_def split: if_splits)

lemma finish_trace_chained: "finish_trace p evs p' res \<Longrightarrow> chained p evs p'"
proof (induction rule: finish_trace.induct)
  case (no_result p e)
  then show ?case
    by (auto intro!: chained_Nil grows_same simp: checkpoint_ok_cong [of "completed_phase p" p])
next
  case (unsaved_result p p' e)
  with final_progress_same [OF unsaved_result(1)] show ?case
    by (auto intro!: chained_intros grows_same simp: checkpoint_ok_cong [of p' p])
next
  case (reported p p' r)
  with final_progress_same [OF reported(1)] show ?case
    by (auto intro!: chained_Cons grows_same chained_Nil simp: chained_update checkpoint_ok_cong [of p' p])
qed

lemma chained_with_steps: "chained p [] (with_steps p)"
  by (auto intro!: chained_Nil grows_same simp: checkpoint_ok_cong [of "with_steps p" p])

lemma body_trace_chained: "body_trace lib row p evs p' res \<Longrightarrow> chained p evs p'"
proof (induction rule: body_trace.induct)
  case (no_prompt e p)
  then show ?case by (simp add: chained_Nil)
next
  case (no_plan prompt p evs p' e)
  then show ?case using plan_trace_chained by blast
next
  case (not_executed prompt p evs1 p1 plan evs2 p2 e)
  from plan_trace_chained [OF not_executed(2)] have 1: "chained p evs1 (with_steps p1)" "existing_plan p1 = plan"
    using chained_append [OF _ chained_with_steps, of p evs1 p1] by auto
  with steps_trace_chained [OF not_executed(3)] show ?case
    by (auto intro: chained_append)
next
  case (executed prompt p evs1 p1 plan evs2 p2 evs3 p3 res)
  from plan_trace_chained [OF executed(2)] have 1: "chained p evs1 (with_steps p1)" "existing_plan p1 = plan"
    using chained_append [OF _ chained_with_steps, of p evs1 p1] by auto
  with steps_trace_chained [OF executed(3)] finish_trace_chained [OF executed(4)] show ?case
    by (auto intro: chained_append)
qed

lemma run_trace_chained:
  assumes "run_trace lib row evs res"
  shows "\<exists>p'. chained (j_progress row) evs p'"
  using assms
proof cases
  case (success p)
  then show ?thesis using body_trace_chained by blast
next
  case (pause es p r)
  have "chained (j_progress row) (es @ [Ev_Update ''waiting_approval'' r]) p"
    by (rule chained_append [OF body_trace_chained [OF pause(3)]]) (simp add: chained_update chained_Nil)
  with pause show ?thesis by blast
next
  case (failure es p e r1 r2)
  let ?p = "p\<lparr>pg_error := Some (exc_str e)\<rparr>"
  have "chained p [Ev_Save ?p r1, Ev_Update ''failed'' r2] ?p"
    by (intro chained_Cons) (auto simp: chained_update chained_Nil grows_same checkpoint_ok_cong [of ?p p])
  then have "chained (j_progress row) (es @ [Ev_Save ?p r1, Ev_Update ''failed'' r2]) ?p"
    by (rule chained_append [OF body_trace_chained [OF failure(3)]])
  with failure show ?thesis by blast
qed

text \<open>C20. Checkpoints only grow: every checkpoint a run writes keeps the plan and the completed
  steps (in order, unchanged) of the one the job came with and of every earlier write, failures
  and pauses included; and if the job came with a well-formed checkpoint, every write is
  well formed: distinct indices of the plan with their prompts, and a pending approval only for
  a step that is not complete.\<close>

theorem checkpoints_grow:
  "sorted_wrt grows (j_progress row # saved (run_log w row s)) \<and>
   (checkpoint_ok (j_progress row) \<longrightarrow> (\<forall>q \<in> set (saved (run_log w row s)). checkpoint_ok q))"
  using run_trace_chained [OF run_log_trace [of w row s]]
  by (auto simp: chained_def sorted_wrt_append)

section \<open>Status reports\<close>

lemma steps_trace_reports: "steps_trace i ps p evs p' res \<Longrightarrow> reports evs = []"
  by (induction rule: steps_trace.induct) simp_all

lemma plan_trace_reports: "plan_trace lib row prompt p evs p' res \<Longrightarrow>
    reports evs = [] \<and> res \<noteq> Inl ApprovalRequired"
proof (induction rule: plan_trace.induct)
  case (planned p plan reply p' r)
  then show ?case by (cases r) simp_all
qed simp_all

lemma finish_trace_reports:
  "finish_trace p evs p' res \<Longrightarrow> res \<noteq> Inl ApprovalRequired \<and>
     (reports evs = [] \<and> res \<noteq> Inr () \<or>
      (\<exists>r. evs = [Ev_Save p' (Inr ()), Ev_Update ''succeeded'' r] \<and> final_progress p = Inr p' \<and>
        res = map_sum id (\<lambda>_. ()) r))"
proof (induction rule: finish_trace.induct)
  case (reported p p' r)
  then show ?case by (cases r) auto
qed simp_all

lemma steps_trace_paused:
  "steps_trace i ps p evs p' (Inl ApprovalRequired) \<Longrightarrow>
     \<exists>pre j sp a reply q. evs = pre @ [Ev_Chat (step_turns sp) a (Inr reply), Ev_Save (paused_at j sp reply q) (Inr ())] \<and>
       ry_finish_reason reply = approval_finish_reason \<and> \<not> step_done q j"
proof (induction i ps p evs p' "Inl ApprovalRequired :: py_exception + unit" rule: steps_trace.induct)
  case (paused p i reply r sp plan)
  then show ?case by (cases r) (auto split: sum.splits)
next
  case (completed p i reply plan sp evs p')
  then obtain pre j sp' a reply' q where
    "evs = pre @ [Ev_Chat (step_turns sp') a (Inr reply'), Ev_Save (paused_at j sp' reply' q) (Inr ())]"
    "ry_finish_reason reply' = approval_finish_reason" "\<not> step_done q j" by blast
  then show ?case by (metis append_Cons)
qed auto

lemma body_trace_success:
  assumes "body_trace lib row p evs p' (Inr ())"
  shows "\<exists>pre r. evs = pre @ [Ev_Update ''succeeded'' r] \<and> reports pre = [] \<and> (\<exists>row'. r = Inr row')"
  using assms
proof cases
  case (executed prompt evs1 p1 plan evs2 p2 evs3)
  from finish_trace_reports [OF executed(5)] obtain r where
    "evs3 = [Ev_Save p' (Inr ()), Ev_Update ''succeeded'' r]" "map_sum id (\<lambda>_. ()) r = Inr ()" by auto
  moreover from this(2) obtain row' where "r = Inr row'" by (cases r) auto
  ultimately show ?thesis
    using executed(1) plan_trace_reports [OF executed(3)] steps_trace_reports [OF executed(4)]
    by (intro exI [of _ "evs1 @ evs2 @ [Ev_Save p' (Inr ())]"] exI [of _ r]) simp
qed

lemma body_trace_pause:
  assumes "body_trace lib row p evs p' (Inl ApprovalRequired)"
  shows "reports evs = [] \<and>
    (\<exists>pre j sp a reply q. evs = pre @ [Ev_Chat (step_turns sp) a (Inr reply), Ev_Save (paused_at j sp reply q) (Inr ())] \<and>
       ry_finish_reason reply = approval_finish_reason \<and> \<not> step_done q j)"
  using assms
proof cases
  case no_prompt
  then show ?thesis using prompt_not_approval by blast
next
  case (no_plan prompt)
  then show ?thesis using plan_trace_reports by blast
next
  case (not_executed prompt evs1 p1 plan evs2)
  with steps_trace_paused [OF not_executed(4)] plan_trace_reports [OF not_executed(3)]
    steps_trace_reports [OF not_executed(4)] show ?thesis by (simp, metis append.assoc)
next
  case (executed prompt evs1 p1 plan evs2 p2 evs3)
  with finish_trace_reports [OF executed(5)] show ?thesis by auto
qed

lemma body_trace_reports:
  assumes "body_trace lib row p evs p' res"
  shows "reports evs \<in> {[], [''succeeded'']}"
  using assms
proof cases
  case (no_plan prompt e)
  then show ?thesis using plan_trace_reports by simp
next
  case (not_executed prompt evs1 p1 plan evs2 e)
  then show ?thesis using plan_trace_reports steps_trace_reports by simp
next
  case (executed prompt evs1 p1 plan evs2 p2 evs3)
  then show ?thesis using plan_trace_reports [OF executed(3)] steps_trace_reports [OF executed(4)]
      finish_trace_reports [OF executed(5)] by auto
qed simp

text \<open>C36. Every run ends with exactly one decisive status report, and returns normally exactly when
  that report was accepted: success after no other report, a pause after no other report, or a
  failure, which can follow a refused or lost report of success. A refused or lost final report
  is the only exception that reaches the poller.\<close>

theorem run_ends_with_report:
  "\<exists>pre st r. run_log w row s = pre @ [Ev_Update st r] \<and>
    fst (runner_run w row s) = map_sum id (\<lambda>_. ()) r \<and>
    (st = ''succeeded'' \<and> reports pre = [] \<and> (\<exists>row'. r = Inr row') \<or>
     st = ''waiting_approval'' \<and> reports pre = [] \<or>
     st = ''failed'' \<and> (reports pre = [] \<or> reports pre = [''succeeded'']))"
  using run_log_trace [of w row s]
proof cases
  case (success p)
  from body_trace_success [OF success(2)] obtain pre r row' where
    "run_log w row s = pre @ [Ev_Update ''succeeded'' r]" "reports pre = []" "r = Inr row'" by blast
  with success(1) show ?thesis by auto
next
  case (pause es p r)
  with body_trace_pause [OF pause(3)] show ?thesis by auto
next
  case (failure es p e r1 r2)
  with body_trace_reports [OF failure(3)] show ?thesis
    by (intro exI [of _ "es @ [Ev_Save (p\<lparr>pg_error := Some (exc_str e)\<rparr>) r1]"] exI [of _ "''failed''"]
        exI [of _ r2]) auto
qed

text \<open>C34. A pause is always backed by its checkpoint: a run reports \<open>waiting_approval\<close> only right
  after the orchestrator answered an incomplete step with the approval finish reason and a
  checkpoint naming that step, its prompt and the tool's request was stored; nothing is called
  in between and the step is not recorded as complete.\<close>

theorem pause_is_checkpointed:
  assumes "Ev_Update ''waiting_approval'' r \<in> set (run_log w row s)"
  shows "\<exists>pre j sp a reply q. run_log w row s = pre @
      [Ev_Chat (step_turns sp) a (Inr reply), Ev_Save q (Inr ()), Ev_Update ''waiting_approval'' r] \<and>
    ry_finish_reason reply = approval_finish_reason \<and> \<not> step_done q j \<and>
    pg_pending q = Some \<lparr>pa_step = int j, pa_prompt = sp, pa_detail = ry_content reply\<rparr>"
proof -
  have mem: "st \<in> set (reports evs)" if "Ev_Update st x \<in> set evs" for st x evs
    using that by (induction evs) (auto split: runner_event.splits)
  show ?thesis
    using run_log_trace [of w row s]
  proof cases
    case (success p)
    from body_trace_reports [OF success(2)] mem [OF assms] show ?thesis by auto
  next
    case (pause es p r')
    from body_trace_pause [OF pause(3)] obtain pre j sp a reply q where
      e: "reports es = []" "es = pre @ [Ev_Chat (step_turns sp) a (Inr reply), Ev_Save (paused_at j sp reply q) (Inr ())]"
        "ry_finish_reason reply = approval_finish_reason" "\<not> step_done q j" by blast
    from assms pause(1) mem e(1) have "r' = r" by fastforce
    with pause(1) e show ?thesis
      by (intro exI [of _ pre] exI [of _ j] exI [of _ sp] exI [of _ a] exI [of _ reply]
          exI [of _ "paused_at j sp reply q"]) simp
  next
    case (failure es p e r1 r2)
    with body_trace_reports [OF failure(3)] mem [OF assms] show ?thesis by auto
  qed
qed

section \<open>Success\<close>

lemma grows_done: "grows p q \<Longrightarrow> step_done p i \<Longrightarrow> step_done q i"
  by (auto simp: grows_def step_done_def prefix_def)

lemma chained_grows: "chained p evs p' \<Longrightarrow> grows p p'"
  by (simp add: chained_def)

lemma all_from:
  assumes "P i" and "\<forall>j. Suc i \<le> j \<and> j < Suc i + n \<longrightarrow> P j"
  shows "\<forall>j. i \<le> j \<and> j < Suc (i + n) \<longrightarrow> P j"
proof (intro allI impI)
  fix j assume "i \<le> j \<and> j < Suc (i + n)"
  then have "j = i \<or> (Suc i \<le> j \<and> j < Suc i + n)" by linarith
  with assms show "P j" by blast
qed

lemma steps_trace_all_done:
  assumes "steps_trace i ps p evs p' (Inr ())" and "ps = drop i (existing_plan p)"
    and "ps \<noteq> [] \<longrightarrow> i < length (existing_plan p)"
  shows "\<forall>j. i \<le> j \<and> j < i + length ps \<longrightarrow> step_done p' j"
  using assms
proof (induction i ps p evs p' "Inr () :: py_exception + unit" rule: steps_trace.induct)
  case (all_done i p)
  show ?case by auto
next
  case (skipped p i ps evs p' sp)
  note d = drop_eq_Cons [OF skipped(4)]
  then have ps: "ps = drop (Suc i) (existing_plan p)" "ps \<noteq> [] \<longrightarrow> Suc i < length (existing_plan p)" by auto
  have "step_done p' i"
    using steps_trace_chained [OF skipped(2) ps] skipped(1) grows_done chained_grows by blast
  from all_from [where P = "step_done p'", OF this skipped(3) [OF ps]] show ?case by simp
next
  case (completed p i reply ps sp evs p')
  let ?q = "step_completed i sp reply p"
  note d = drop_eq_Cons [OF completed(5)]
  then have ps: "ps = drop (Suc i) (existing_plan ?q)" "ps \<noteq> [] \<longrightarrow> Suc i < length (existing_plan ?q)" by auto
  have "grows ?q p'" using steps_trace_chained [OF completed(3) ps] chained_grows by blast
  then have "step_done p' i" by (rule grows_done) simp
  from all_from [where P = "step_done p'", OF this completed(4) [OF ps]] show ?case by simp
qed

lemma key_indices_nat:
  assumes "\<forall>k \<in> fst ` set kvs. \<exists>i. k = str_nat i"
  shows "\<exists>is. key_indices kvs = Inr (map int is) \<and> map fst kvs = map str_nat is"
  using assms
proof (induction kvs)
  case (Cons kv kvs)
  obtain k v where kv: "kv = (k, v)" by (cases kv)
  with Cons.prems obtain i where i: "k = str_nat i" by auto
  from Cons obtain "is" where "key_indices kvs = Inr (map int is)" "map fst kvs = map str_nat is" by auto
  with kv i show ?case by (intro exI [of _ "i # is"]) simp
qed simp

lemma fold_max: "fold max xs (x :: int) = Max (set (x # xs))"
  by (simp only: Max.set_eq_fold)

lemma py_str_int_nat [simp]: "py_str_int (int n) = str_nat n"
  by (simp add: py_str_int_def)

lemma last_output_complete:
  assumes ok: "checkpoint_ok p" and n: "existing_plan p \<noteq> []"
    and all: "\<forall>i < length (existing_plan p). step_done p i"
  shows "\<exists>st. map_of (steps_of p) (str_nat (length (existing_plan p) - 1)) = Some st \<and>
    last_output p = Inr (st_output st)"
proof -
  let ?n = "length (existing_plan p)"
  have n0: "?n > 0" using n by simp
  have keys: "\<forall>k \<in> fst ` set (steps_of p). \<exists>i. k = str_nat i \<and> i < ?n"
    using ok by (fastforce simp: checkpoint_ok_def)
  then obtain js where js: "key_indices (steps_of p) = Inr (map int js)" "map fst (steps_of p) = map str_nat js"
    using key_indices_nat [of "steps_of p"] by blast
  have "fst ` set (steps_of p) = str_nat ` set js"
    using arg_cong [OF js(2), of set] by simp
  then have mem: "str_nat i \<in> fst ` set (steps_of p) \<longleftrightarrow> i \<in> set js" for i by auto
  have last: "?n - 1 \<in> set js"
    using all n0 mem [of "?n - 1"] by (simp add: step_done_def)
  have bound: "i \<le> ?n - 1" if "i \<in> set js" for i
    using keys mem [of i] that by force
  have "js \<noteq> []" using last by auto
  then have "fold max (tl (map int js)) (hd (map int js)) = Max (set (map int js))"
    using fold_max [of "tl (map int js)" "hd (map int js)"] by simp
  also have "\<dots> = int (?n - 1)"
    using last bound by (intro Max_eqI) auto
  finally have m: "fold max (tl (map int js)) (hd (map int js)) = int (?n - 1)" .
  have "step_done p (?n - 1)" using all n0 by simp
  then have "map_of (steps_of p) (str_nat (?n - 1)) \<noteq> None"
    by (simp add: step_done_def map_of_eq_None_iff)
  then obtain st where "map_of (steps_of p) (str_nat (?n - 1)) = Some st" by blast
  with js(1) m show ?thesis by (simp add: last_output_def Let_def)
qed

lemma body_trace_reported:
  assumes "body_trace lib row p evs p' res" and "Ev_Update ''succeeded'' r \<in> set evs" and "checkpoint_ok p"
  shows "\<exists>pre. evs = pre @ [Ev_Save p' (Inr ()), Ev_Update ''succeeded'' r] \<and>
    existing_plan p' \<noteq> [] \<and> (\<forall>i < length (existing_plan p'). step_done p' i) \<and>
    pg_phase p' = Some ''completed'' \<and> pg_error p' = None \<and>
    (\<exists>st. map_of (steps_of p') (str_nat (length (existing_plan p') - 1)) = Some st \<and>
      pg_result p' = Some (st_output st))"
proof -
  have mem: "st \<in> set (reports es)" if "Ev_Update st x \<in> set es" for st x es
    using that by (induction es) (auto split: runner_event.splits)
  show ?thesis
    using assms(1)
  proof cases
    case (executed prompt evs1 p1 plan evs2 p2 evs3)
    from plan_trace_chained [OF executed(3)] plan_trace_calls [OF executed(3)]
    have 1: "chained p evs1 p1" "existing_plan p1 = plan" "plan \<noteq> []" by auto
    have pre: "plan = drop 0 (existing_plan (with_steps p1))"
      "plan \<noteq> [] \<longrightarrow> 0 < length (existing_plan (with_steps p1))" using 1 by auto
    from steps_trace_chained [OF executed(4) pre] have 2: "chained (with_steps p1) evs2 p2" "existing_plan p2 = plan"
      using 1(2) by auto
    have ok: "checkpoint_ok p2"
      using chainedD(2) [OF chained_append [OF chained_append [OF 1(1) chained_with_steps] 2(1)] assms(3)] by simp
    have all: "\<forall>i < length plan. step_done p2 i"
      using steps_trace_all_done [OF executed(4) pre] by auto
    have "''succeeded'' \<notin> set (reports (evs1 @ evs2))"
      using plan_trace_reports [OF executed(3)] steps_trace_reports [OF executed(4)] by simp
    with mem assms(2) executed(1) have "Ev_Update ''succeeded'' r \<in> set evs3" by fastforce
    with finish_trace_reports [OF executed(5)] mem have
      3: "evs3 = [Ev_Save p' (Inr ()), Ev_Update ''succeeded'' r]" "final_progress p2 = Inr p'"
      by fastforce+
    obtain st where st: "map_of (steps_of p2) (str_nat (length plan - 1)) = Some st" "last_output p2 = Inr (st_output st)"
      using last_output_complete [OF ok] 1(3) 2(2) all by auto
    have "steps_of p2 \<noteq> []" using st(1) by auto
    with 3(2) st(2) have "pg_result p' = Some (st_output st)" by (auto simp: final_progress_def)
    moreover note final_progress_same [OF 3(2)]
    ultimately show ?thesis
      using executed(1) 3(1) 1(3) 2(2) all st(1) by (auto simp: step_done_def)
  next
    case (no_plan prompt e)
    with plan_trace_reports [OF no_plan(3)] mem [OF assms(2)] show ?thesis by simp
  next
    case (not_executed prompt evs1 p1 plan evs2 e)
    with plan_trace_reports [OF not_executed(4)] steps_trace_reports [OF not_executed(5)] mem [OF assms(2)]
    show ?thesis by simp
  qed (use assms(2) in simp)
qed

text \<open>C11. Success means complete: a run that started from a well-formed checkpoint reports
  \<open>succeeded\<close> only right after storing a checkpoint in which every step of the plan is complete,
  the phase is completed, no error is left, and the result is the output of the plan's last
  step.\<close>

theorem success_is_complete:
  assumes "checkpoint_ok (j_progress row)" and "Ev_Update ''succeeded'' r \<in> set (run_log w row s)"
  shows "\<exists>pre p post. run_log w row s = pre @ [Ev_Save p (Inr ()), Ev_Update ''succeeded'' r] @ post \<and>
    existing_plan p \<noteq> [] \<and> (\<forall>i < length (existing_plan p). step_done p i) \<and>
    pg_phase p = Some ''completed'' \<and> pg_error p = None \<and>
    (\<exists>st. map_of (steps_of p) (str_nat (length (existing_plan p) - 1)) = Some st \<and>
      pg_result p = Some (st_output st))"
  using run_log_trace [of w row s]
proof cases
  case (success p)
  from body_trace_reported [OF success(2) assms(2,1)] show ?thesis by (metis append_Nil2)
next
  case (pause es p r')
  then have "Ev_Update ''succeeded'' r \<in> set es" using assms(2) by simp
  from body_trace_reported [OF pause(3) this assms(1)] pause(1) show ?thesis by (metis append.assoc)
next
  case (failure es p e r1 r2)
  then have "Ev_Update ''succeeded'' r \<in> set es" using assms(2) by simp
  from body_trace_reported [OF failure(3) this assms(1)] failure(1) show ?thesis by (metis append.assoc)
qed

section \<open>Every answer is checkpointed at once\<close>

text \<open>A checkpoint records the answer to a step call: as the step asking for approval, or as the
  last completed step.\<close>

definition records :: "chat_turn list \<Rightarrow> chat_reply \<Rightarrow> progress \<Rightarrow> bool" where
  "records t reply q \<longleftrightarrow>
     (if ry_finish_reason reply = approval_finish_reason
      then (case pg_pending q of None \<Rightarrow> False
            | Some pa \<Rightarrow> t = step_turns (pa_prompt pa) \<and> pa_detail pa = ry_content reply)
      else steps_of q \<noteq> [] \<and> t = step_turns (st_prompt (snd (last (steps_of q)))) \<and>
        st_output (snd (last (steps_of q))) = ry_content reply \<and>
        st_agent (snd (last (steps_of q))) = ry_agent reply)"

fun checkpointed :: "runner_event list \<Rightarrow> bool" where
  "checkpointed [] = True"
| "checkpointed (e # es) = (checkpointed es \<and>
     (case e of
        Ev_Chat t a (Inr reply) \<Rightarrow> length t = 1 \<longrightarrow>
          (case es of Ev_Save q r # _ \<Rightarrow> records t reply q | _ \<Rightarrow> False)
      | _ \<Rightarrow> True))"

lemma checkpointed_append: "checkpointed xs \<Longrightarrow> checkpointed ys \<Longrightarrow> checkpointed (xs @ ys)"
  by (induction xs) (auto split: runner_event.splits sum.splits list.splits)

lemma checkpointed_split:
  "checkpointed (pre @ Ev_Chat t a (Inr reply) # post) \<Longrightarrow> length t = 1 \<Longrightarrow>
     \<exists>q r post'. post = Ev_Save q r # post' \<and> records t reply q"
  by (induction pre) (auto split: runner_event.splits list.splits)

lemma steps_trace_checkpointed: "steps_trace i ps p evs p' res \<Longrightarrow> checkpointed evs"
  by (induction rule: steps_trace.induct)
    (simp_all add: records_def step_turns_def)

lemma plan_trace_checkpointed: "plan_trace lib row prompt p evs p' res \<Longrightarrow> checkpointed evs"
  by (induction rule: plan_trace.induct) (simp_all add: planner_turns_def)

lemma finish_trace_checkpointed: "finish_trace p evs p' res \<Longrightarrow> checkpointed evs"
  by (induction rule: finish_trace.induct) simp_all

lemma body_trace_checkpointed: "body_trace lib row p evs p' res \<Longrightarrow> checkpointed evs"
  by (induction rule: body_trace.induct)
    (simp_all add: checkpointed_append plan_trace_checkpointed steps_trace_checkpointed finish_trace_checkpointed)

lemma run_trace_checkpointed: "run_trace lib row evs res \<Longrightarrow> checkpointed evs"
  by (induction rule: run_trace.induct) (auto intro!: checkpointed_append dest: body_trace_checkpointed)

text \<open>C35. No answer is lost: as soon as the orchestrator has answered a step, before any other call
  is made, the run writes a checkpoint that records it (the output and the agent of a completed
  step, or the request of a paused one), so a crash can lose at most the one step whose answer
  had not been written yet.\<close>

theorem answers_are_checkpointed:
  assumes "run_log w row s = pre @ Ev_Chat (step_turns sp) a (Inr reply) # post"
  shows "\<exists>q r post'. post = Ev_Save q r # post' \<and>
    (if ry_finish_reason reply = approval_finish_reason
     then \<exists>pa. pg_pending q = Some pa \<and> pa_prompt pa = sp \<and> pa_detail pa = ry_content reply
     else steps_of q \<noteq> [] \<and> st_prompt (snd (last (steps_of q))) = sp \<and>
       st_output (snd (last (steps_of q))) = ry_content reply \<and>
       st_agent (snd (last (steps_of q))) = ry_agent reply)"
proof -
  from run_trace_checkpointed [OF run_log_trace [of w row s]] assms
  have "checkpointed (pre @ Ev_Chat (step_turns sp) a (Inr reply) # post)" by simp
  from checkpointed_split [OF this] obtain q r post' where
    "post = Ev_Save q r # post'" "records (step_turns sp) reply q" by (auto simp: step_turns_def)
  then show ?thesis
    by (auto simp: records_def step_turns_def split: if_splits option.splits)
qed

end
