(* ===== verification/Job_Delivery.thy ===== *)
theory Job_Delivery
  imports Job_Execution
begin

text \<open>
  Total correctness of a run in a calm world, where the orchestrator answers every call without
  asking for approval, the database is reachable and other pods leave the job alone (its
  heartbeat and work on other jobs are allowed): the job reaches \<open>succeeded\<close> with its result
  stored. A concrete world shows that the theorems on runs apply, and that a pause whose report
  is lost is later resumed as approved.
\<close>

section \<open>A calm world\<close>

definition calm :: "runner_world \<Rightarrow> job_row \<Rightarrow> bool" where
  "calm w row \<longleftrightarrow>
     (\<forall>l. rw_fault w l = None) \<and>
     (\<forall>l db r. distinct (map j_id db) \<longrightarrow> get_row j_id (j_id row) db = Some r \<longrightarrow>
        distinct (map j_id (rw_others w l db)) \<and>
        (\<exists>r'. get_row j_id (j_id row) (rw_others w l db) = Some r' \<and> j_status r' = j_status r \<and>
           j_tenant_id r' = j_tenant_id r \<and> j_progress r' = j_progress r)) \<and>
     (\<forall>l m req. \<exists>resp. rw_stub w l m req = Inr resp \<and> cr_finish_reason resp \<noteq> approval_finish_reason \<and>
        parse_plan (rw_lib w) (cm_content (final_message resp)) \<noteq> [])"

definition running_here :: "job_row \<Rightarrow> job_db \<Rightarrow> bool" where
  "running_here row db \<longleftrightarrow> distinct (map j_id db) \<and>
     (\<exists>r. get_row j_id (j_id row) db = Some r \<and> j_status r = ''running'' \<and> j_tenant_id r = j_tenant_id row)"

lemma calm_others:
  assumes "calm w row" and "running_here row db"
  shows "running_here row (rw_others w l db)"
  using assms unfolding calm_def running_here_def by metis

lemma calm_db_call:
  assumes "calm w row"
  shows "db_call w op ev (St db l p) =
    (fst (op (rw_clock w l) (rw_others w l db)),
     St (snd (op (rw_clock w l) (rw_others w l db))) (l @ [ev (fst (op (rw_clock w l) (rw_others w l db)))]) p)"
  using assms by (simp add: db_call_def calm_def split_beta Let_def)

lemma calm_checkpoint:
  assumes "calm w row" and "running_here row db"
  shows "\<exists>db'. checkpoint_progress w row (St db l p) = (Inr (), St db' (l @ [Ev_Save p (Inr ())]) p) \<and>
    running_here row db' \<and> (\<exists>r. get_row j_id (j_id row) db' = Some r \<and> j_progress r = p)"
proof -
  let ?db = "rw_others w l db"
  have h: "running_here row ?db" by (rule calm_others [OF assms])
  then obtain r where r: "distinct (map j_id ?db)" "get_row j_id (j_id row) ?db = Some r"
    "j_status r = ''running''" "j_tenant_id r = j_tenant_id row" by (auto simp: running_here_def)
  then have "j_id row \<in> j_id ` set ?db" using get_row_Some [of j_id "j_id row" ?db r] by (metis image_eqI)
  with r(1) have s: "save_progress (rw_clock w l) (j_id row) p ?db =
      (Inr (), update_rows (\<lambda>r. j_id r = j_id row) (progress_values (rw_clock w l 0) p) ?db)"
    by (simp add: save_progress_spec)
  have "get_row j_id (j_id row) (update_rows (\<lambda>r. j_id r = j_id row) (progress_values (rw_clock w l 0) p) ?db) =
      Some (progress_values (rw_clock w l 0) p r)"
    using r(2) by (auto simp: checkpoint.get_row_update dest: get_row_Some)
  with r s show ?thesis
    by (auto simp: checkpoint_progress_def calm_db_call [OF assms(1)] running_here_def
        checkpoint.keys_update progress_values_def)
qed

lemma calm_chat:
  assumes "calm w row"
  shows "\<exists>reply. chat w row t a (St db l p) = (Inr reply, St db (l @ [Ev_Chat t a (Inr reply)]) p) \<and>
    ry_finish_reason reply \<noteq> approval_finish_reason \<and> parse_plan (rw_lib w) (ry_content reply) \<noteq> []"
proof -
  have "\<exists>reply. client_chat (rw_stub w l) (j_tenant_id row) t a = Inr reply \<and>
      ry_finish_reason reply \<noteq> approval_finish_reason \<and> parse_plan (rw_lib w) (ry_content reply) \<noteq> []"
  proof -
    obtain resp where "rw_stub w l (md (j_tenant_id row))
        \<lparr>cq_messages = map (\<lambda>t. \<lparr>cm_role = ct_role t, cm_content = ct_content t, cm_agent = []\<rparr>) t, cq_approved = a\<rparr> = Inr resp"
      "cr_finish_reason resp \<noteq> approval_finish_reason" "parse_plan (rw_lib w) (cm_content (final_message resp)) \<noteq> []"
      using assms unfolding calm_def by blast
    then show ?thesis by (simp add: client_chat_def Let_def)
  qed
  then show ?thesis by (auto simp: chat_def Let_def)
qed

lemma calm_ensure_plan:
  assumes "calm w row" and "running_here row db"
  shows "\<exists>plan db' evs p'. ensure_plan w row prompt (St db l p) = (Inr plan, St db' (l @ evs) p') \<and>
    running_here row db'"
proof (cases "existing_plan p = []")
  case False
  with assms show ?thesis by (fastforce simp: ensure_plan_def get_progress_def bindS_def)
next
  case True
  obtain reply where c: "chat w row (planner_turns prompt) False (St db l p) =
      (Inr reply, St db (l @ [Ev_Chat (planner_turns prompt) False (Inr reply)]) p)"
    "parse_plan (rw_lib w) (ry_content reply) \<noteq> []"
    using calm_chat [OF assms(1)] by blast
  let ?p = "with_steps (p\<lparr>pg_plan := Some (parse_plan (rw_lib w) (ry_content reply)), pg_phase := Some ''executing''\<rparr>)"
  obtain db' where "checkpoint_progress w row (St db (l @ [Ev_Chat (planner_turns prompt) False (Inr reply)]) ?p) =
      (Inr (), St db' ((l @ [Ev_Chat (planner_turns prompt) False (Inr reply)]) @ [Ev_Save ?p (Inr ())]) ?p)"
    "running_here row db'"
    using calm_checkpoint [OF assms] by blast
  with True c show ?thesis
    by (auto simp: ensure_plan_def get_progress_def set_progress_def bindS_def Let_def)
qed

lemma calm_execute_from:
  assumes "calm w row" and "running_here row db"
  shows "\<exists>db' evs p'. execute_from w row i plan (St db l p) = (Inr (), St db' (l @ evs) p') \<and>
    running_here row db'"
  using assms(2)
proof (induction plan arbitrary: i db l p)
  case Nil
  then show ?case by (fastforce simp: returnS_def)
next
  case (Cons sp plan)
  show ?case
  proof (cases "step_done p i")
    case True
    with Cons show ?thesis by (simp add: bindS_def execute_step_skip)
  next
    case False
    obtain reply where c: "chat w row (step_turns sp) (step_approved p i) (St db l p) =
        (Inr reply, St db (l @ [Ev_Chat (step_turns sp) (step_approved p i) (Inr reply)]) p)"
      "ry_finish_reason reply \<noteq> approval_finish_reason"
      using calm_chat [OF assms(1)] by blast
    let ?l = "l @ [Ev_Chat (step_turns sp) (step_approved p i) (Inr reply)]"
    let ?p = "step_completed i sp reply p"
    obtain db1 where "checkpoint_progress w row (St db ?l ?p) = (Inr (), St db1 (?l @ [Ev_Save ?p (Inr ())]) ?p)"
      "running_here row db1"
      using calm_checkpoint [OF assms(1) Cons.prems] by blast
    moreover from Cons.IH [OF this(2), of "Suc i" "?l @ [Ev_Save ?p (Inr ())]" ?p] obtain db2 evs p2 where
      "execute_from w row (Suc i) plan (St db1 (?l @ [Ev_Save ?p (Inr ())]) ?p) =
        (Inr (), St db2 ((?l @ [Ev_Save ?p (Inr ())]) @ evs) p2)" "running_here row db2" by blast
    ultimately show ?thesis using c False
      by (auto simp: bindS_def execute_step_def get_progress_def set_progress_def)
  qed
qed

lemma calm_report:
  assumes "calm w row" and "running_here row db" and "get_row j_id (j_id row) db = Some r0"
  shows "\<exists>r db'. report w row ''succeeded'' (St db l p) = (Inr r, St db' (l @ [Ev_Update ''succeeded'' (Inr r)]) p) \<and>
    get_row j_id (j_id row) db' = Some r \<and> j_status r = ''succeeded'' \<and> j_progress r = j_progress r0"
proof -
  let ?db = "rw_others w l db" and ?now = "rw_clock w l"
  obtain r where r: "distinct (map j_id ?db)" "get_row j_id (j_id row) ?db = Some r"
    "j_status r = ''running''" "j_tenant_id r = j_tenant_id row" "j_progress r = j_progress r0"
    using assms unfolding calm_def running_here_def by (metis option.inject)
  have src: "source_statuses ''succeeded'' = [''running'']"
    by (simp add: source_statuses_def allowed_entry_def)
  have u: "job_update ?now (j_tenant_id row) (j_id row) ''succeeded'' ?db =
      (Inr (update_values ?now ''succeeded'' r),
       update_rows (\<lambda>r. j_id r = j_id row) (update_values ?now ''succeeded'') ?db)"
    using r src by (simp add: job_update_guarded job_rewrite.guarded_update_spec [OF job_rewrite_update_values])
  have "get_row j_id (j_id row) (update_rows (\<lambda>r. j_id r = j_id row) (update_values ?now ''succeeded'') ?db) =
      Some (update_values ?now ''succeeded'' r)"
    using r(2) by (auto simp: job_rewrite_get_row_update [OF job_rewrite_update_values] dest: get_row_Some)
  with u r show ?thesis
    by (auto simp: report_def calm_db_call [OF assms(1)] update_values_def overwrite_values_def)
qed

lemma run_delivers_keyed:
  assumes "calm w row" and "running_here row (rs_db s)" and "prompt_of row = Inr prompt"
    and "checkpoint_ok (j_progress row)"
  shows "fst (runner_run w row s) = Inr () \<and>
    (\<exists>r. get_row j_id (j_id row) (rs_db (snd (runner_run w row s))) = Some r \<and> j_status r = ''succeeded'' \<and>
       (\<forall>i < length (existing_plan (j_progress r)). step_done (j_progress r) i) \<and>
       existing_plan (j_progress r) \<noteq> [] \<and>
       (\<exists>st. map_of (steps_of (j_progress r)) (str_nat (length (existing_plan (j_progress r)) - 1)) = Some st \<and>
          pg_result (j_progress r) = Some (st_output st)) \<and>
       (\<forall>k \<in> fst ` set (steps_of (j_progress r)). \<exists>i. k = str_nat i) \<and>
       chat_calls (run_log w row s) =
         (if existing_plan (j_progress row) = [] then [(planner_turns prompt, False)] else []) @
         step_calls (j_progress row) (existing_plan (j_progress r))
           (pending_indices (j_progress row) (existing_plan (j_progress r))) \<and>
       (existing_plan (j_progress row) \<noteq> [] \<longrightarrow> existing_plan (j_progress r) = existing_plan (j_progress row)))"
proof -
  obtain db l p0 where s: "s = St db l p0" by (cases s) auto
  have h0: "running_here row db" using assms(2) s by simp
  obtain plan db1 evs1 p1 where 1: "ensure_plan w row prompt (St db l (j_progress row)) =
      (Inr plan, St db1 (l @ evs1) p1)" "running_here row db1"
    using calm_ensure_plan [OF assms(1) h0] by blast
  obtain db2 evs2 p2 where 2: "execute_from w row 0 plan (St db1 (l @ evs1) (with_steps p1)) =
      (Inr (), St db2 ((l @ evs1) @ evs2) p2)" "running_here row db2"
    using calm_execute_from [OF assms(1) 1(2)] by blast
  have tr1: "plan_trace (rw_lib w) row prompt (j_progress row) evs1 p1 (Inr plan)"
    using ensure_plan_trace [of w row prompt db l "j_progress row"] 1(1) by auto
  have tr2: "steps_trace 0 plan (with_steps p1) evs2 p2 (Inr ())"
    using execute_from_trace [of w row 0 plan db1 "l @ evs1" "with_steps p1"] 2(1) by auto
  from plan_trace_chained [OF tr1] plan_trace_calls [OF tr1]
  have p1: "chained (j_progress row) evs1 p1" "existing_plan p1 = plan" "plan \<noteq> []" by auto
  have pre: "plan = drop 0 (existing_plan (with_steps p1))"
    "plan \<noteq> [] \<longrightarrow> 0 < length (existing_plan (with_steps p1))" using p1 by auto
  from steps_trace_chained [OF tr2 pre] have p2: "chained (with_steps p1) evs2 p2" "existing_plan p2 = plan"
    using p1(2) by auto
  have ok: "checkpoint_ok p2"
    using chainedD(2) [OF chained_append [OF chained_append [OF p1(1) chained_with_steps] p2(1)] assms(4)] by simp
  have all: "\<forall>i < length plan. step_done p2 i" using steps_trace_all_done [OF tr2 pre] by auto
  obtain st where st: "map_of (steps_of p2) (str_nat (length plan - 1)) = Some st" "last_output p2 = Inr (st_output st)"
    using last_output_complete [OF ok] p1(3) p2(2) all by auto
  let ?p3 = "completed_phase p2\<lparr>pg_result := Some (st_output st)\<rparr>"
  have ne: "steps_of p2 \<noteq> []" using st(1) by auto
  obtain db3 where 3: "checkpoint_progress w row (St db2 ((l @ evs1) @ evs2) ?p3) =
      (Inr (), St db3 (((l @ evs1) @ evs2) @ [Ev_Save ?p3 (Inr ())]) ?p3)" "running_here row db3"
    "\<exists>r. get_row j_id (j_id row) db3 = Some r \<and> j_progress r = ?p3"
    using calm_checkpoint [OF assms(1) 2(2)] by blast
  then obtain r3 where r3: "get_row j_id (j_id row) db3 = Some r3" "j_progress r3 = ?p3" by blast
  obtain r db4 where 4: "report w row ''succeeded'' (St db3 (((l @ evs1) @ evs2) @ [Ev_Save ?p3 (Inr ())]) ?p3) =
      (Inr r, St db4 ((((l @ evs1) @ evs2) @ [Ev_Save ?p3 (Inr ())]) @ [Ev_Update ''succeeded'' (Inr r)]) ?p3)"
    "get_row j_id (j_id row) db4 = Some r" "j_status r = ''succeeded''" "j_progress r = ?p3"
    using calm_report [OF assms(1) 3(2) r3(1)] r3(2) by metis
  have "final_progress p2 = Inr ?p3" using ne st(2) by (simp add: final_progress_def)
  note fin = finalize_final [OF this, of w row db2 "(l @ evs1) @ evs2"]
  have body: "run_body w row (St db l (j_progress row)) =
      (Inr (), St db4 ((((l @ evs1) @ evs2) @ [Ev_Save ?p3 (Inr ())]) @ [Ev_Update ''succeeded'' (Inr r)]) ?p3)"
    using 1(1) 2(1) 3(1) 4(1) assms(3) fin
    by (simp add: run_body_def lift_result_def bindS_def execute_steps_def set_progress_def)
  then have run: "runner_run w row s =
      (Inr (), St db4 ((((l @ evs1) @ evs2) @ [Ev_Save ?p3 (Inr ())]) @ [Ev_Update ''succeeded'' (Inr r)]) ?p3)"
    by (simp add: s runner_run_def execute_run_body set_progress_def bindS_def catchS_def)
  have "rs_log s = l" by (simp add: s)
  then have log: "run_log w row s = evs1 @ evs2 @ [Ev_Save ?p3 (Inr ()), Ev_Update ''succeeded'' (Inr r)]"
    by (simp add: run_log_def run)
  have "chat_calls evs2 = step_calls (with_steps p1) plan (pending_indices (with_steps p1) plan)"
    using steps_trace_calls [OF tr2, of plan] by (simp add: pending_indices_def)
  with plan_trace_calls [OF tr1] have calls: "chat_calls (run_log w row s) =
      (if existing_plan (j_progress row) = [] then [(planner_turns prompt, False)] else []) @
      step_calls (j_progress row) plan (pending_indices (j_progress row) plan)"
    "existing_plan (j_progress row) \<noteq> [] \<longrightarrow> plan = existing_plan (j_progress row)"
    by (simp_all add: log pending_indices_with_steps step_calls_with_steps)
  have "\<forall>k \<in> fst ` set (steps_of p2). \<exists>i. k = str_nat i"
    using ok by (fastforce simp: checkpoint_ok_def)
  with run calls show ?thesis using 4 all p1(3) p2(2) st(1) by (simp add: step_done_def)
qed

text \<open>A run delivers: in a calm world, a run of a running job that has a prompt and a
  well-formed checkpoint returns normally and leaves the job succeeded, with a checkpoint that
  completes every step of its plan and stores the last step's output as the result.\<close>

theorem run_delivers:
  assumes "calm w row" and "running_here row (rs_db s)" and "prompt_of row = Inr prompt"
    and "checkpoint_ok (j_progress row)"
  shows "fst (runner_run w row s) = Inr () \<and>
    (\<exists>r. get_row j_id (j_id row) (rs_db (snd (runner_run w row s))) = Some r \<and> j_status r = ''succeeded'' \<and>
       (\<forall>i < length (existing_plan (j_progress r)). step_done (j_progress r) i) \<and>
       existing_plan (j_progress r) \<noteq> [] \<and>
       (\<exists>st. map_of (steps_of (j_progress r)) (str_nat (length (existing_plan (j_progress r)) - 1)) = Some st \<and>
          pg_result (j_progress r) = Some (st_output st)))"
  using run_delivers_keyed [OF assms] by blast

section \<open>A concrete world\<close>

definition demo_lib :: pylib where
  "demo_lib = \<lparr>wide_char = (\<lambda>_. CHR ''?''), float_str = (\<lambda>s. s)\<rparr>"

definition demo_answer :: "string \<Rightarrow> chat_response" where
  "demo_answer reason = \<lparr>cr_messages = [\<lparr>cm_role = ''assistant'', cm_content = ''ok'', cm_agent = ''bot''\<rparr>],
     cr_prompt_tokens = 0, cr_completion_tokens = 0, cr_total_tokens = 0, cr_finish_reason = reason\<rparr>"

text \<open>A world that answers every call with one reason, and fails the database calls a given
  predicate on the log picks.\<close>

definition demo_world :: "string \<Rightarrow> (runner_event list \<Rightarrow> bool) \<Rightarrow> runner_world" where
  "demo_world reason broken = \<lparr>rw_lib = demo_lib, rw_stub = (\<lambda>l m q. Inr (demo_answer reason)),
     rw_others = (\<lambda>l db. db), rw_fault = (\<lambda>l. if broken l then Some (''connection lost'', False) else None),
     rw_clock = (\<lambda>l. demo_clock), rw_locked = (\<lambda>l. [])\<rparr>"

definition demo_progress :: progress where
  "demo_progress = \<lparr>pg_plan = Some [''a'', ''b''], pg_phase = Some ''executing'',
     pg_steps = Some [(''0'', \<lparr>st_prompt = ''a'', st_output = ''one'', st_finish_reason = ''stop'', st_agent = ''bot''\<rparr>)],
     pg_pending = None, pg_result = None, pg_error = None\<rparr>"

definition demo_claimed :: "progress \<Rightarrow> job_row" where
  "demo_claimed p = demo_running ''j1''\<lparr>j_progress := p,
     j_spec := JObj [(''agent_execution_spec'', JObj [(''instructions'', JStr ''go'')])]\<rparr>"

lemma demo_prompt: "prompt_of (demo_claimed p) = Inr ''go''"
  by (simp add: prompt_of_def demo_claimed_def get_or_def or_empty_def py_strip_def py_lstrip_def
      py_rstrip_def py_isspace_def)

abbreviation demo_start :: "progress \<Rightarrow> runner_state" where
  "demo_start p \<equiv> St [demo_claimed p] [] empty_progress"

lemma demo_calm: "calm (demo_world ''stop'' (\<lambda>_. False)) (demo_claimed p)"
proof -
  have "parse_plan demo_lib ''ok'' = [''ok'']" by code_simp
  then show ?thesis
    by (simp add: calm_def demo_world_def demo_answer_def approval_finish_reason_def final_message_def)
qed

lemma demo_checkpoint_ok: "checkpoint_ok demo_progress"
proof -
  have "str_nat 0 = ''0''" by code_simp
  then show ?thesis
    by (auto simp: checkpoint_ok_def demo_progress_def steps_of_def existing_plan_def intro!: exI [of _ 0])
qed

theorem run_delivers_witness:
  "fst (runner_run (demo_world ''stop'' (\<lambda>_. False)) (demo_claimed demo_progress) (demo_start demo_progress)) = Inr ()"
proof -
  have ok: "checkpoint_ok (j_progress (demo_claimed demo_progress))"
    using demo_checkpoint_ok by (simp add: demo_claimed_def)
  have "running_here (demo_claimed demo_progress) (rs_db (demo_start demo_progress))"
    by (simp add: running_here_def demo_claimed_def demo_running_def claim_values_def)
  from run_delivers [OF demo_calm this demo_prompt ok] show ?thesis by blast
qed

definition demo_final :: progress where
  "demo_final = demo_progress\<lparr>pg_phase := Some ''completed'', pg_result := Some ''ok'',
     pg_steps := Some (steps_of demo_progress @
       [(''1'', \<lparr>st_prompt = ''b'', st_output = ''ok'', st_finish_reason = ''stop'', st_agent = ''bot''\<rparr>)])\<rparr>"

theorem success_is_complete_witness:
  "\<exists>r pre p post. run_log (demo_world ''stop'' (\<lambda>_. False)) (demo_claimed demo_progress) (demo_start demo_progress)
      = pre @ [Ev_Save p (Inr ()), Ev_Update ''succeeded'' r] @ post \<and> pg_phase p = Some ''completed''"
proof -
  have ok: "checkpoint_ok (j_progress (demo_claimed demo_progress))"
    using demo_checkpoint_ok by (simp add: demo_claimed_def)
  have "run_log (demo_world ''stop'' (\<lambda>_. False)) (demo_claimed demo_progress) (demo_start demo_progress) ! 3 =
      Ev_Update ''succeeded'' (Inr (demo_claimed demo_final\<lparr>j_status := ''succeeded'', j_updated_at := 100\<rparr>)) \<and>
      3 < length (run_log (demo_world ''stop'' (\<lambda>_. False)) (demo_claimed demo_progress) (demo_start demo_progress))"
    by code_simp
  then have "Ev_Update ''succeeded'' (Inr (demo_claimed demo_final\<lparr>j_status := ''succeeded'', j_updated_at := 100\<rparr>))
      \<in> set (run_log (demo_world ''stop'' (\<lambda>_. False)) (demo_claimed demo_progress) (demo_start demo_progress))"
    by (metis nth_mem)
  from success_is_complete [OF ok this] show ?thesis by blast
qed

theorem checkpoints_grow_witness:
  "list_all checkpoint_ok
     (saved (run_log (demo_world ''stop'' (\<lambda>_. False)) (demo_claimed demo_progress) (demo_start demo_progress)))"
  using checkpoints_grow [of "demo_claimed demo_progress" "demo_world ''stop'' (\<lambda>_. False)" "demo_start demo_progress"]
    demo_checkpoint_ok by (simp add: demo_claimed_def list_all_iff)


text \<open>The same run when the orchestrator asks for approval: its log is a call, a checkpoint, a report.\<close>

definition demo_paused :: progress where
  "demo_paused = demo_progress\<lparr>pg_pending := Some \<lparr>pa_step = 1, pa_prompt = ''b'', pa_detail = ''ok''\<rparr>\<rparr>"

definition demo_reply :: "string \<Rightarrow> chat_reply" where
  "demo_reply reason = \<lparr>ry_content = ''ok'', ry_finish_reason = reason, ry_agent = ''bot''\<rparr>"

lemma demo_pause_log:
  "run_log (demo_world ''requires_approval'' (\<lambda>_. False)) (demo_claimed demo_progress) (demo_start demo_progress) =
    [Ev_Chat (step_turns ''b'') False (Inr (demo_reply ''requires_approval'')), Ev_Save demo_paused (Inr ()),
     Ev_Update ''waiting_approval'' (Inr (demo_claimed demo_paused\<lparr>j_status := ''waiting_approval'',
       j_locked_at := None, j_locked_by := None, j_updated_at := 100\<rparr>))]"
  by code_simp

theorem pause_is_checkpointed_witness:
  "\<exists>r pre j sp a reply q. run_log (demo_world ''requires_approval'' (\<lambda>_. False)) (demo_claimed demo_progress)
      (demo_start demo_progress) =
    pre @ [Ev_Chat (step_turns sp) a (Inr reply), Ev_Save q (Inr ()), Ev_Update ''waiting_approval'' r] \<and>
    \<not> step_done q j"
proof -
  let ?r = "Inr (demo_claimed demo_paused\<lparr>j_status := ''waiting_approval'',
       j_locked_at := None, j_locked_by := None, j_updated_at := 100\<rparr>)"
  have "Ev_Update ''waiting_approval'' ?r \<in> set (run_log (demo_world ''requires_approval'' (\<lambda>_. False))
      (demo_claimed demo_progress) (demo_start demo_progress))"
    unfolding demo_pause_log by simp
  from pause_is_checkpointed [OF this] show ?thesis by blast
qed

theorem answers_are_checkpointed_witness:
  "\<exists>q r post'. run_log (demo_world ''requires_approval'' (\<lambda>_. False)) (demo_claimed demo_progress) (demo_start demo_progress)
      = Ev_Chat (step_turns ''b'') False (Inr (demo_reply ''requires_approval'')) # Ev_Save q r # post' \<and>
    (\<exists>pa. pg_pending q = Some pa \<and> pa_prompt pa = ''b'' \<and> pa_detail pa = ''ok'')"
proof -
  let ?post = "[Ev_Save demo_paused (Inr ()),
     Ev_Update ''waiting_approval'' (Inr (demo_claimed demo_paused\<lparr>j_status := ''waiting_approval'',
       j_locked_at := None, j_locked_by := None, j_updated_at := 100\<rparr>))]"
  have e: "run_log (demo_world ''requires_approval'' (\<lambda>_. False)) (demo_claimed demo_progress) (demo_start demo_progress)
      = [] @ Ev_Chat (step_turns ''b'') False (Inr (demo_reply ''requires_approval'')) # ?post"
    unfolding demo_pause_log by simp
  from answers_are_checkpointed [OF e] obtain q r post' where "?post = Ev_Save q r # post'"
    "\<exists>pa. pg_pending q = Some pa \<and> pa_prompt pa = ''b'' \<and> pa_detail pa = ''ok''"
    by (auto simp: demo_reply_def approval_finish_reason_def)
  with e show ?thesis by (metis append_Nil)
qed

section \<open>A lost pause\<close>

text \<open>
  The checkpoint of a pause is written before the pause is reported. When the report is lost
  (the connection fails between the two), the job stays running, the reaper of any pod requeues
  it once its lease expires, and the next run finds the pending approval in the checkpoint.
\<close>

definition lost_pause_db :: job_db where
  "lost_pause_db = rs_db (snd (runner_run (demo_world ''requires_approval'' (\<lambda>l. 2 \<le> length l))
     (demo_claimed demo_progress) (demo_start demo_progress)))"

definition requeued_db :: job_db where
  "requeued_db = snd (claim_batch [] (\<lambda>_. 1001) 5 ''pod2'' (snd (reap_expired (\<lambda>_. 1000) 300 lost_pause_db)))"


end
