(* ===== verification/Job_Poller.thy ===== *)
theory Job_Poller
  imports Job_Delivery
begin

text \<open>
  The poller (\<open>poller.py\<close>) that drains the backlog on every pod, the dispatcher it hands claimed
  jobs to (\<open>RunnerDispatcher\<close>), and their properties: a tick claims, dispatches every claimed
  job in order and swallows what the runners raise; an observing poller changes nothing; and the
  loop stops at the first check after the stop event, whatever its ticks raise.
\<close>

section \<open>JobPoller\<close>

record poller =
  po_batch :: nat
  po_lease :: time
  po_runner :: "(job_row \<Rightarrow> unit runner) option"
  po_owner :: string

definition poller_dispatch :: "(job_row \<Rightarrow> unit runner) \<Rightarrow> job_row \<Rightarrow> unit runner" where
  "poller_dispatch runner row = catchS (runner row) (\<lambda>_. returnS ())"

fun dispatch_all :: "(job_row \<Rightarrow> unit runner) \<Rightarrow> job_row list \<Rightarrow> unit runner" where
  "dispatch_all runner [] = returnS ()"
| "dispatch_all runner (row # rows) =
     bindS (poller_dispatch runner row) (\<lambda>_. dispatch_all runner rows)"

definition poller_tick :: "runner_world \<Rightarrow> poller \<Rightarrow> nat runner" where
  "poller_tick w po =
     (case po_runner po of
        None \<Rightarrow>
          bindS (db_call w (\<lambda>now db. (Inr (list_queued (po_batch po) db), db)) Ev_List) (\<lambda>_. returnS 0)
      | Some runner \<Rightarrow>
          bindS (db_call w (\<lambda>now. reap_expired now (po_lease po)) Ev_Reap) (\<lambda>_.
          bindS (\<lambda>s. db_call w (\<lambda>now. claim_batch (rw_locked w (rs_log s)) now (po_batch po) (po_owner po)) Ev_Claim s)
            (\<lambda>claimed.
          bindS (dispatch_all runner claimed) (\<lambda>_.
          returnS (length claimed)))))"

text \<open>
  \<open>stop n\<close> says whether the stop event is set when the loop checks it for the \<open>n\<close>-th time; the
  interval between two ticks has no effect on the state. The loop need not end, so its result is
  an option.
\<close>

partial_function (option) poller_run ::
    "runner_world \<Rightarrow> poller \<Rightarrow> (nat \<Rightarrow> bool) \<Rightarrow> nat \<Rightarrow> runner_state \<Rightarrow> runner_state option" where
  "poller_run w po stop n s =
     (if stop n then Some s
      else poller_run w po stop (Suc n) (snd (catchS (poller_tick w po) (\<lambda>_. returnS 0) s)))"

section \<open>The loop\<close>

fun ticks :: "runner_world \<Rightarrow> poller \<Rightarrow> nat \<Rightarrow> runner_state \<Rightarrow> runner_state" where
  "ticks w po 0 s = s"
| "ticks w po (Suc n) s = ticks w po n (snd (poller_tick w po s))"

lemma snd_catch_return: "snd (catchS m (\<lambda>_. returnS a) s) = snd (m s)"
  by (simp add: catchS_def split: prod.splits sum.splits)

lemma poller_run_ticks:
  assumes "stop (n + k)" and "\<And>i. i < k \<Longrightarrow> \<not> stop (n + i)"
  shows "poller_run w po stop n s = Some (ticks w po k s)"
  using assms
proof (induction k arbitrary: n s)
  case 0
  then show ?case by (subst poller_run.simps) simp
next
  case (Suc k)
  have "\<not> stop n" using Suc.prems(2) [of 0] by simp
  moreover have "poller_run w po stop (Suc n) (snd (poller_tick w po s)) =
      Some (ticks w po k (snd (poller_tick w po s)))"
    by (rule Suc.IH) (use Suc.prems(1) Suc.prems(2) [of "Suc _"] in auto)
  ultimately show ?case by (subst poller_run.simps) (simp add: snd_catch_return)
qed

lemma poller_run_returns:
  assumes "poller_run w po stop n s = Some t"
  shows "\<exists>i. stop i"
proof (rule poller_run.raw_induct [where P = "\<lambda>w po stop n s y. \<exists>i. stop i", OF _ assms])
  fix run w po stop n s y
  assume IH: "\<And>w po stop n s y. run w po stop n s = Some y \<Longrightarrow> \<exists>i. stop i"
    and eq: "(if stop n then Some s
      else run w po stop (Suc n) (snd (catchS (poller_tick w po) (\<lambda>_. returnS 0) s))) = Some y"
  then show "\<exists>i. stop i" by (cases "stop n") auto
qed

text \<open>The poll loop ends exactly when the stop event is ever set, and then it has run one tick
  for every check before it: a tick that raises (a lost connection, a bug in a runner) neither
  ends the loop nor skips a later tick, and no tick starts after the event is seen.\<close>

theorem poller_stops:
  "((\<exists>t. poller_run w po stop 0 s = Some t) \<longleftrightarrow> (\<exists>i. stop i)) \<and>
   (stop k \<and> \<not> (\<exists>i < k. stop i) \<longrightarrow> poller_run w po stop 0 s = Some (ticks w po k s))"
proof (intro conjI)
  have run: "poller_run w po stop 0 s = Some (ticks w po k s)" if "stop k \<and> \<not> (\<exists>i < k. stop i)" for k
    using poller_run_ticks [of stop 0 k w po s] that by simp
  show "(\<exists>t. poller_run w po stop 0 s = Some t) \<longleftrightarrow> (\<exists>i. stop i)"
    using run poller_run_returns exists_least_iff [of stop] by blast
  show "stop k \<and> \<not> (\<exists>i < k. stop i) \<longrightarrow> poller_run w po stop 0 s = Some (ticks w po k s)"
    using run by blast
qed

section \<open>Ticks\<close>

lemma dispatch_all_Inr: "fst (dispatch_all runner rows s) = Inr ()"
  by (induction rows arbitrary: s)
    (auto simp: poller_dispatch_def bindS_def catchS_def split: prod.splits sum.splits)

lemma dispatch_all_runs:
  "snd (dispatch_all runner rows s) = fold (\<lambda>row s. snd (runner row s)) rows s"
  by (induction rows arbitrary: s)
    (auto simp: poller_dispatch_def bindS_def catchS_def split: prod.splits sum.splits)

text \<open>A tick with a runner never fails because of a job: when its reap and its claim go through,
  it dispatches every claimed row, each exactly once and in claim order, whatever the runs of
  the others raise, and answers with their number; when the reap or the claim fails, it
  dispatches nothing. A tick without a runner changes no row.\<close>

theorem tick_dispatches_all:
  "case po_runner po of
     None \<Rightarrow> rw_fault w (rs_log s) = None \<longrightarrow>
       fst (poller_tick w po s) = Inr 0 \<and> rs_db (snd (poller_tick w po s)) = rw_others w (rs_log s) (rs_db s)
   | Some runner \<Rightarrow>
       (case db_call w (\<lambda>now. reap_expired now (po_lease po)) Ev_Reap s of
          (Inl e, s1) \<Rightarrow> poller_tick w po s = (Inl e, s1)
        | (Inr _, s1) \<Rightarrow>
            (case db_call w (\<lambda>now. claim_batch (rw_locked w (rs_log s1)) now (po_batch po) (po_owner po)) Ev_Claim s1 of
               (Inl e, s2) \<Rightarrow> poller_tick w po s = (Inl e, s2)
             | (Inr claimed, s2) \<Rightarrow>
                 poller_tick w po s = (Inr (length claimed), fold (\<lambda>row s. snd (runner row s)) claimed s2)))"
proof (cases "po_runner po")
  case None
  then show ?thesis by (auto simp: poller_tick_def db_call_def bindS_def Let_def)
next
  case (Some runner)
  have "dispatch_all runner rows s = (Inr (), fold (\<lambda>row s. snd (runner row s)) rows s)" for rows s
    by (rule prod_eqI) (simp_all add: dispatch_all_Inr dispatch_all_runs)
  with Some show ?thesis by (auto simp: poller_tick_def bindS_def split: prod.splits sum.splits)
qed

text \<open>A job of a type no runner is registered for is not left running until its lease
  expires: the dispatcher itself makes exactly one call, the report of its failure, and the
  job moves on by its retry budgets; a registered type is handed to its runner untouched.\<close>

theorem unknown_type_is_failed:
  "(map_of runners (j_type row) = Some runner \<longrightarrow> dispatcher_run runners w row = runner row) \<and>
   (map_of runners (j_type row) = None \<and> rw_fault w (rs_log s) = None \<and>
    distinct (map j_id (rw_others w (rs_log s) (rs_db s))) \<and>
    get_row j_id (j_id row) (rw_others w (rs_log s) (rs_db s)) = Some r \<and>
    j_status r = ''running'' \<and> j_tenant_id r = j_tenant_id row \<longrightarrow>
      fst (dispatcher_run runners w row s) = Inr () \<and>
      get_row j_id (j_id row) (rs_db (snd (dispatcher_run runners w row s))) =
        Some (fail_values (rw_clock w (rs_log s) 0) r) \<and>
      j_status (fail_values (rw_clock w (rs_log s) 0) r) = next_status_after_failure r \<and>
      next_status_after_failure r \<noteq> ''running'')"
proof (intro conjI impI)
  assume "map_of runners (j_type row) = Some runner"
  then show "dispatcher_run runners w row = runner row" by (simp add: dispatcher_run_def)
next
  let ?db = "rw_others w (rs_log s) (rs_db s)" and ?now = "rw_clock w (rs_log s)"
  assume a: "map_of runners (j_type row) = None \<and> rw_fault w (rs_log s) = None \<and>
    distinct (map j_id ?db) \<and> get_row j_id (j_id row) ?db = Some r \<and>
    j_status r = ''running'' \<and> j_tenant_id r = j_tenant_id row"
  then have u: "job_update ?now (j_tenant_id row) (j_id row) ''failed'' ?db =
      (Inr (fail_values (?now 0) r), update_rows (\<lambda>r. j_id r = j_id row) (fail_values (?now 0)) ?db)"
    by (simp add: job_update_def job_fail_def fail.guarded_update_spec)
  from a u show "fst (dispatcher_run runners w row s) = Inr ()"
    by (simp add: dispatcher_run_def report_def db_call_def bindS_def Let_def)
  from a u show "get_row j_id (j_id row) (rs_db (snd (dispatcher_run runners w row s))) = Some (fail_values (?now 0) r)"
    by (auto simp: dispatcher_run_def report_def db_call_def bindS_def Let_def fail.get_row_update dest: get_row_Some)
qed (simp_all add: fail_values_def next_status_after_failure_def)

section \<open>Witnesses\<close>

definition demo_poller :: "runner_world \<Rightarrow> nat \<Rightarrow> poller" where
  "demo_poller w batch = \<lparr>po_batch = batch, po_lease = 300,
     po_runner = Some (dispatcher_run [(''agent_execution'', runner_run w)] w), po_owner = ''pod1''\<rparr>"

theorem poller_stops_witness:
  "poller_run (demo_world ''stop'' (\<lambda>_. False)) (demo_poller (demo_world ''stop'' (\<lambda>_. False)) 2) (\<lambda>i. 3 \<le> i) 0
     (demo_start demo_progress) =
   Some (ticks (demo_world ''stop'' (\<lambda>_. False)) (demo_poller (demo_world ''stop'' (\<lambda>_. False)) 2) 3 (demo_start demo_progress))"
  using poller_stops [of "demo_world ''stop'' (\<lambda>_. False)" "demo_poller (demo_world ''stop'' (\<lambda>_. False)) 2"
      "\<lambda>i. 3 \<le> i" "demo_start demo_progress" 3]
  by auto

theorem tick_dispatches_all_witness:
  "fst (poller_tick (demo_world ''stop'' (\<lambda>_. False)) (demo_poller (demo_world ''stop'' (\<lambda>_. False)) 2\<lparr>po_runner := None\<rparr>)
     (demo_start demo_progress)) = Inr 0"
  using tick_dispatches_all [where po = "demo_poller (demo_world ''stop'' (\<lambda>_. False)) 2\<lparr>po_runner := None\<rparr>"
      and w = "demo_world ''stop'' (\<lambda>_. False)" and s = "demo_start demo_progress"]
  by (simp add: demo_world_def)

theorem unknown_type_is_failed_witness:
  "fst (dispatcher_run [] (demo_world ''stop'' (\<lambda>_. False)) (demo_claimed demo_progress) (demo_start demo_progress)) = Inr ()"
  using unknown_type_is_failed [of "[]" "demo_claimed demo_progress" undefined "demo_world ''stop'' (\<lambda>_. False)"
      "demo_start demo_progress" "demo_claimed demo_progress"]
  by (simp add: demo_world_def demo_claimed_def demo_running_def claim_values_def)

section \<open>The rest of a claimed batch\<close>

text \<open>
  A tick claims a whole batch but only the job being run has a heartbeat. In this world the first
  run outlives the lease: while it is going on, its heartbeat renews its own lease, and another
  pod reaps and claims what has expired.
\<close>

definition slow_world :: runner_world where
  "slow_world = (demo_world ''stop'' (\<lambda>_. False))\<lparr>rw_others := (\<lambda>l db.
     if length l = 3
     then snd (claim_batch [] (\<lambda>_. 1001) 5 ''pod2''
            (snd (reap_expired (\<lambda>_. 1000) 300 (heartbeat_tick (\<lambda>_. 999) ''j1'' None db))))
     else db)\<rparr>"

definition slow_job :: "string \<Rightarrow> string \<Rightarrow> job_row" where
  "slow_job jid prompt = demo_job jid\<lparr>j_progress := empty_progress\<lparr>pg_plan := Some [prompt]\<rparr>,
     j_spec := JObj [(''agent_execution_spec'', JObj [(''instructions'', JStr ''go'')])]\<rparr>"

text \<open>The lease does not protect the jobs of a batch that still wait for their turn: the second
  job of the batch is reaped and claimed by another pod while the first one runs, and the first
  pod runs it nevertheless, from the row it read when it claimed it, and reports its success on
  the other pod's lease, so the job is executed by two pods at once.\<close>

theorem batch_is_run_twice:
  "case poller_tick slow_world (demo_poller slow_world 2) (St [slow_job ''j1'' ''a'', slow_job ''j2'' ''b''] [] empty_progress) of
     (res, s) \<Rightarrow> res = Inr 2 \<and>
       chat_calls (rs_log s) = [(step_turns ''a'', False), (step_turns ''b'', False)] \<and>
       map j_locked_by (rs_db s) = [Some ''pod1'', Some ''pod2''] \<and>
       map j_attempts (rs_db s) = [1, 2] \<and> map j_status (rs_db s) = [''succeeded'', ''succeeded'']"
  by code_simp

end
