(* ===== verification/Job_Pods.thy ===== *)
theory Job_Pods
  imports Job_Poller
begin

text \<open>
  The pods refine the table machine: whatever a poll loop does (reaping, claiming, running jobs,
  checkpointing and reporting, with calls that fail before or after they take effect), it
  touches the \<open>jobs\<close> table by operations of \<open>Job_Service\<close> only, so that every run of a pod
  is a run of \<open>job_step\<close> and every property of the reachable tables holds under any number
  of them.
\<close>

section \<open>Frames of a run\<close>

text \<open>
  What a run keeps: a relation between states that only looks at the table and that the two
  database calls of the runner keep is kept by a whole run, by the dispatcher and by a batch.
\<close>

locale run_frame =
  fixes w :: runner_world and R :: "runner_state \<Rightarrow> runner_state \<Rightarrow> bool"
  assumes frame_trans: "transp R"
    and frame_same: "rs_db s = rs_db s' \<Longrightarrow> R s s'"
    and frame_checkpoint: "keepsS R (checkpoint_progress w row)"
    and frame_report: "keepsS R (report w row st)"
begin

lemma frame_refl: "reflp R"
  by (simp add: reflp_def frame_same)

lemma frame_pure: "(\<And>s. rs_db (snd (m s)) = rs_db s) \<Longrightarrow> keepsS R m"
  by (simp add: keepsS_def frame_same)

lemma frame_parts:
  "keepsS R get_progress" "keepsS R (set_progress f)" "keepsS R (chat w row ms a)" "keepsS R (lift_result r)"
  by (rule frame_pure; simp add: get_progress_def set_progress_def chat_def lift_result_def Let_def)+

lemma frame_if: "keepsS R a \<Longrightarrow> keepsS R b \<Longrightarrow> keepsS R (if c then a else b)"
  by simp

lemmas frame_flow = keepsS_bind [OF frame_trans] keepsS_catch [OF frame_trans]
  keepsS_return [OF frame_refl] keepsS_raise [OF frame_refl] frame_if

lemmas frame_calls = frame_flow frame_parts frame_checkpoint frame_report

lemma frame_ensure_plan: "keepsS R (ensure_plan w row prompt)"
  unfolding ensure_plan_def Let_def by (intro frame_calls)

lemma frame_execute_step: "keepsS R (execute_step w row i sp)"
  unfolding execute_step_def by (intro frame_calls)

lemma frame_execute_from: "keepsS R (execute_from w row i plan)"
  by (induction plan arbitrary: i) (simp_all only: execute_from.simps frame_flow frame_execute_step)

lemma frame_last_output: "keepsS R (case last_output p of Inl e \<Rightarrow> raiseS e | Inr out \<Rightarrow> set_progress (f out))"
  by (cases "last_output p") (simp_all add: frame_calls)

lemma frame_finalize: "keepsS R (finalize w row)"
  unfolding finalize_def by (intro frame_calls frame_last_output)

lemma frame_execute: "keepsS R (execute w row)"
  unfolding execute_def execute_steps_def
  by (intro frame_calls frame_ensure_plan frame_execute_from frame_finalize)

lemma frame_run: "keepsS R (runner_run w row)"
  unfolding runner_run_def mark_waiting_approval_def mark_failed_def by (intro frame_calls frame_execute)

lemma frame_dispatcher:
  assumes "\<And>ty f. (ty, f) \<in> set runners \<Longrightarrow> keepsS R (f row)"
  shows "keepsS R (dispatcher_run runners w row)"
  using assms by (auto simp: dispatcher_run_def intro: frame_calls dest: map_of_SomeD split: option.split)

lemma frame_dispatch_all: "(\<And>row. keepsS R (f row)) \<Longrightarrow> keepsS R (dispatch_all f rows)"
  by (induction rows) (simp_all only: dispatch_all.simps poller_dispatch_def frame_flow)

end

section \<open>The table machine\<close>

text \<open>What surrounds a pod touches the table by operations of the service only; then so does the pod.\<close>

definition lawful_world :: "job_service \<Rightarrow> runner_world \<Rightarrow> bool" where
  "lawful_world svc w \<longleftrightarrow> (\<forall>l db. (job_step svc)\<^sup>*\<^sup>* db (rw_others w l db))"

definition pod_step :: "job_service \<Rightarrow> runner_world \<Rightarrow> runner_state \<Rightarrow> runner_state \<Rightarrow> bool" where
  "pod_step svc w s s' \<longleftrightarrow> lawful_world svc w \<longrightarrow> (job_step svc)\<^sup>*\<^sup>* (rs_db s) (rs_db s')"

lemma pod_step_db_call:
  assumes "\<And>now db. (job_step svc)\<^sup>*\<^sup>* db (snd (op now db))"
  shows "pod_step svc w s (snd (db_call w op ev s))"
  unfolding pod_step_def
proof
  assume "lawful_world svc w"
  let ?db = "rw_others w (rs_log s) (rs_db s)"
  have others: "(job_step svc)\<^sup>*\<^sup>* (rs_db s) ?db" using \<open>lawful_world svc w\<close> by (simp add: lawful_world_def)
  have "(job_step svc)\<^sup>*\<^sup>* (rs_db s) (snd (op (rw_clock w (rs_log s)) ?db))"
    using others assms by (rule rtranclp_trans)
  with others show "(job_step svc)\<^sup>*\<^sup>* (rs_db s) (rs_db (snd (db_call w op ev s)))"
    by (auto simp: db_call_def split_beta Let_def split: option.split)
qed

lemma job_step_ops:
  "(job_step svc)\<^sup>*\<^sup>* db (snd (save_progress now k p db))"
  "(job_step svc)\<^sup>*\<^sup>* db (snd (job_update now t k st db))"
  "(job_step svc)\<^sup>*\<^sup>* db (snd (reap_expired now lease db))"
  "(job_step svc)\<^sup>*\<^sup>* db (snd (claim_batch skip now n owner db))"
  by (auto intro: job_step.intros)

interpretation pod: run_frame w "pod_step svc w" for svc w
proof
  show "transp (pod_step svc w)"
    unfolding transp_def pod_step_def by (blast intro: rtranclp_trans)
  show "keepsS (pod_step svc w) (checkpoint_progress w row)" for row
    unfolding checkpoint_progress_def by (intro keepsSI pod_step_db_call job_step_ops)
  show "keepsS (pod_step svc w) (report w row st)" for row st
    unfolding report_def by (intro keepsSI pod_step_db_call job_step_ops)
qed (simp add: pod_step_def)

lemma pod_step_tick:
  assumes "\<And>f row. po_runner po = Some f \<Longrightarrow> keepsS (pod_step svc w) (f row)"
  shows "keepsS (pod_step svc w) (poller_tick w po)"
proof (cases "po_runner po")
  case None
  have "keepsS (pod_step svc w) (db_call w (\<lambda>now db. (Inr (list_queued (po_batch po) db), db)) Ev_List)"
    by (intro keepsSI pod_step_db_call) simp
  then show ?thesis by (simp only: poller_tick_def None option.case) (intro pod.frame_flow)
next
  case (Some f)
  have reap: "keepsS (pod_step svc w) (db_call w (\<lambda>now. reap_expired now (po_lease po)) Ev_Reap)"
    by (intro keepsSI pod_step_db_call job_step_ops)
  have claim: "keepsS (pod_step svc w)
      (\<lambda>s. db_call w (\<lambda>now. claim_batch (rw_locked w (rs_log s)) now (po_batch po) (po_owner po)) Ev_Claim s)"
    by (intro keepsSI pod_step_db_call job_step_ops)
  show ?thesis
    by (simp only: poller_tick_def Some option.case)
      (intro pod.frame_flow pod.frame_dispatch_all reap claim assms [OF Some])
qed

lemma pod_step_ticks:
  assumes "\<And>f row. po_runner po = Some f \<Longrightarrow> keepsS (pod_step svc w) (f row)"
  shows "pod_step svc w s (ticks w po n s)"
proof (induction n arbitrary: s)
  case 0
  then show ?case by (simp add: pod_step_def)
next
  case (Suc n)
  have "pod_step svc w s (snd (poller_tick w po s))"
    using pod_step_tick [of po svc w] assms by (simp add: keepsS_def)
  with Suc show ?case using transpD [OF pod.frame_trans] by auto
qed

section \<open>Pods\<close>

text \<open>
  The settings \<open>main.py\<close> reads (\<open>config.py\<close>; durations in microseconds, the clock's
  resolution) and the parts it builds from them: the service behind the RPC surface and behind
  the poller, the dispatcher with one runner per job type, the poller, and the interval of the
  runners' heartbeat.
\<close>

record poller_settings =
  ps_enabled :: bool
  ps_interval :: time
  ps_batch_size :: nat
  ps_lease :: time

record jobs_settings =
  js_default_max_attempts :: int
  js_default_max_retries :: int

definition serve_jobs :: "jobs_settings \<Rightarrow> job_service" where
  "serve_jobs s = \<lparr>svc_default_max_attempts = js_default_max_attempts s,
     svc_default_max_retries = js_default_max_retries s\<rparr>"

definition pod_runner :: "runner_world \<Rightarrow> job_row \<Rightarrow> unit runner" where
  "pod_runner w = dispatcher_run [(''agent_execution'', runner_run w)] w"

definition serve_poller :: "poller_settings \<Rightarrow> runner_world \<Rightarrow> string \<Rightarrow> poller option" where
  "serve_poller s w owner =
     (if ps_enabled s
      then Some \<lparr>po_batch = ps_batch_size s, po_lease = ps_lease s, po_runner = Some (pod_runner w), po_owner = owner\<rparr>
      else None)"

definition heartbeat_interval :: "poller_settings \<Rightarrow> time" where
  "heartbeat_interval s = ps_lease s div 3"

lemma pod_step_pod_runner: "keepsS (pod_step svc w) (pod_runner w row)"
  unfolding pod_runner_def by (rule pod.frame_dispatcher) (auto intro: pod.frame_run)

lemma heartbeat_steps: "(job_step svc)\<^sup>*\<^sup>* db (heartbeat_tick now k fault db)"
  by (auto simp: heartbeat_tick_def intro: job_step.intros split: option.split bool.split)

lemma poller_run_is_ticks:
  assumes "poller_run w po stop 0 s = Some t"
  shows "\<exists>k. t = ticks w po k s"
proof -
  obtain k where k: "stop k" "\<not> (\<exists>i < k. stop i)"
    using poller_run_returns [OF assms] exists_least_iff [of stop] by blast
  then have "poller_run w po stop 0 s = Some (ticks w po k s)"
    using poller_run_ticks [of stop 0 k w po s] by simp
  with assms show ?thesis by auto
qed

lemma pods_refine:
  assumes "lawful_world svc w" and "po_runner po \<in> {None, Some (pod_runner w)}"
  shows "(job_step svc)\<^sup>*\<^sup>* (rs_db s) (rs_db (snd (poller_tick w po s))) \<and>
    (poller_run w po stop 0 s = Some t \<longrightarrow> (job_step svc)\<^sup>*\<^sup>* (rs_db s) (rs_db t)) \<and>
    (job_step svc)\<^sup>*\<^sup>* db (heartbeat_tick now k fault db)"
proof (intro conjI impI heartbeat_steps)
  have run: "\<And>f row. po_runner po = Some f \<Longrightarrow> keepsS (pod_step svc w) (f row)"
    using assms pod_step_pod_runner by auto
  have "keepsS (pod_step svc w) (poller_tick w po)" by (rule pod_step_tick) (rule run)
  with assms(1) show "(job_step svc)\<^sup>*\<^sup>* (rs_db s) (rs_db (snd (poller_tick w po s)))"
    by (simp add: keepsS_def pod_step_def)
  assume "poller_run w po stop 0 s = Some t"
  then obtain n where "t = ticks w po n s" using poller_run_is_ticks by blast
  then show "(job_step svc)\<^sup>*\<^sup>* (rs_db s) (rs_db t)"
    using pod_step_ticks [of po svc w s n] run assms(1) by (auto simp: pod_step_def)
qed

text \<open>C18. The pods refine the table machine: a tick of the poller \<open>main.py\<close> starts, its whole loop
  (claims, reaps, the runs of the claimed jobs, with database calls failing before or after they
  take effect) and a heartbeat change the jobs table by operations of the service only, so a
  table that was reachable stays reachable and keeps the table invariant, provided the rest of
  the world does the same.\<close>

theorem pods_refine_table:
  assumes "serve_poller settings w owner = Some po" and "lawful_world (serve_jobs defaults) w"
    and "job_reachable (serve_jobs defaults) (rs_db s)" and "service_ok (serve_jobs defaults)"
  shows "job_reachable (serve_jobs defaults) (rs_db (snd (poller_tick w po s))) \<and>
    job_db_ok (rs_db (snd (poller_tick w po s))) \<and>
    (\<forall>t. poller_run w po stop 0 s = Some t \<longrightarrow> job_reachable (serve_jobs defaults) (rs_db t) \<and> job_db_ok (rs_db t)) \<and>
    job_reachable (serve_jobs defaults) (heartbeat_tick now k fault (rs_db s))"
proof -
  let ?svc = "serve_jobs defaults"
  have po: "po_runner po \<in> {None, Some (pod_runner w)}"
    using assms(1) by (auto simp: serve_poller_def split: if_splits)
  have go: "job_reachable ?svc db'" if "(job_step ?svc)\<^sup>*\<^sup>* (rs_db s) db'" for db'
    using that assms(3) by (induction rule: rtranclp_induct) (auto intro: job_reachable.step)
  have "job_reachable ?svc (rs_db (snd (poller_tick w po s)))"
    using pods_refine [OF assms(2) po] by (blast intro: go)
  moreover have "job_reachable ?svc (rs_db t)" if "poller_run w po stop 0 s = Some t" for t
    using pods_refine [OF assms(2) po] that by (blast intro: go)
  moreover have "job_reachable ?svc (heartbeat_tick now k fault (rs_db s))"
    by (rule go [OF heartbeat_steps])
  ultimately show ?thesis using reachable_ok [OF _ assms(4)] by blast
qed

definition demo_settings :: poller_settings where
  "demo_settings = \<lparr>ps_enabled = True, ps_interval = 5000000, ps_batch_size = 2, ps_lease = 300\<rparr>"

definition demo_defaults :: jobs_settings where
  "demo_defaults = \<lparr>js_default_max_attempts = 3, js_default_max_retries = 3\<rparr>"

lemma serve_demo: "serve_jobs demo_defaults = demo_service"
  by (simp add: serve_jobs_def demo_defaults_def demo_service_def)

lemma slow_world_lawful: "lawful_world svc slow_world"
proof -
  have "(job_step svc)\<^sup>*\<^sup>* db (snd (claim_batch [] (\<lambda>_. 1001) 5 ''pod2''
            (snd (reap_expired (\<lambda>_. 1000) 300 (heartbeat_tick (\<lambda>_. 999) ''j1'' None db)))))" for db
    by (rule rtranclp_trans [OF heartbeat_steps]) (rule rtranclp_trans [OF job_step_ops(3) job_step_ops(4)])
  then show ?thesis by (simp add: lawful_world_def slow_world_def)
qed

theorem pods_refine_table_witness:
  "case poller_tick slow_world (the (serve_poller demo_settings slow_world ''pod1''))
      (St [demo_job ''j1''] [] empty_progress) of (res, s) \<Rightarrow> job_reachable demo_service (rs_db s) \<and> job_db_ok (rs_db s)"
proof -
  have po: "serve_poller demo_settings slow_world ''pod1'' = Some (the (serve_poller demo_settings slow_world ''pod1''))"
    by (simp add: serve_poller_def demo_settings_def)
  from pods_refine_table [OF po, where defaults = demo_defaults and s = "St [demo_job ''j1''] [] empty_progress"]
    demo_reachable slow_world_lawful
  show ?thesis by (simp add: split_beta serve_demo)
qed

end
