(* ===== verification/Job_Lease.thy ===== *)
theory Job_Lease
  imports Job_Pods
begin

text \<open>
  The lease and the heartbeat that keeps it, in time. A run is watched as a sequence of what
  reaches the table: the attempts of its heartbeat (each of which may fail), the reaper passes
  of any pod with that pod's own clock, and the claims, checkpoints and renewals of others. The
  theorems say for which timing a live run is never reaped, and that the interval \<open>main.py\<close>
  chooses leaves room for one missed renewal and not for two.
\<close>

section \<open>A run in time\<close>

datatype lease_event =
    L_Beat clock "(string \<times> bool) option"
  | L_Reap clock
  | L_Claim "string list" clock nat string
  | L_Save clock string progress

fun apply_lease_event :: "time \<Rightarrow> string \<Rightarrow> lease_event \<Rightarrow> job_db \<Rightarrow> job_db" where
  "apply_lease_event lease jid (L_Beat now fault) db = heartbeat_tick now jid fault db"
| "apply_lease_event lease jid (L_Reap now) db = snd (reap_expired now lease db)"
| "apply_lease_event lease jid (L_Claim skip now n owner) db = snd (claim_batch skip now n owner db)"
| "apply_lease_event lease jid (L_Save now k p) db = snd (save_progress now k p db)"

definition lease_events :: "time \<Rightarrow> string \<Rightarrow> lease_event list \<Rightarrow> job_db \<Rightarrow> job_db" where
  "lease_events lease jid evs db = fold (apply_lease_event lease jid) evs db"

text \<open>A renewal that takes effect, reported or not.\<close>

fun renews :: "(string \<times> bool) option \<Rightarrow> bool" where
  "renews (Some (m, False)) = False"
| "renews _ = True"

text \<open>
  Attempts at most \<open>gap\<close> apart, of which at most \<open>m\<close> in a row fail, seen by reapers whose
  clocks are ahead by at most \<open>skew\<close>; \<open>t\<close> is the time of the last attempt and \<open>k\<close> how
  many have failed since the last that did not.
\<close>

fun steady :: "time \<Rightarrow> time \<Rightarrow> nat \<Rightarrow> time \<Rightarrow> nat \<Rightarrow> lease_event list \<Rightarrow> bool" where
  "steady gap skew m t k [] \<longleftrightarrow> True"
| "steady gap skew m t k (L_Beat now fault # evs) \<longleftrightarrow> t \<le> now 0 \<and> now 0 \<le> t + gap \<and>
     (if renews fault then steady gap skew m (now 0) 0 evs else k < m \<and> steady gap skew m (now 0) (Suc k) evs)"
| "steady gap skew m t k (L_Reap now # evs) \<longleftrightarrow> now 0 \<le> t + gap + skew \<and> steady gap skew m t k evs"
| "steady gap skew m t k (e # evs) \<longleftrightarrow> steady gap skew m t k evs"

definition held :: "string \<Rightarrow> job_row \<Rightarrow> time \<Rightarrow> job_db \<Rightarrow> bool" where
  "held jid r t db \<longleftrightarrow> distinct (map j_id db) \<and>
     (\<exists>r' l. get_row j_id jid db = Some r' \<and> j_status r' = ''running'' \<and> j_locked_by r' = j_locked_by r \<and>
        j_attempts r' = j_attempts r \<and> j_locked_at r' = Some l \<and> t \<le> l)"

lemma heldE:
  assumes "held jid r t db"
  obtains r' l where "distinct (map j_id db)" and "get_row j_id jid db = Some r'" and "j_status r' = ''running''"
    and "j_locked_by r' = j_locked_by r" and "j_attempts r' = j_attempts r" and "j_locked_at r' = Some l" and "t \<le> l"
  using assms unfolding held_def by blast

lemma heldI:
  assumes "distinct (map j_id db)" and "get_row j_id jid db = Some r'" and "j_status r' = ''running''"
    and "j_locked_by r' = j_locked_by r" and "j_attempts r' = j_attempts r" and "j_locked_at r' = Some l" and "t \<le> l"
  shows "held jid r t db"
  using assms unfolding held_def by blast

lemma held_renew:
  assumes "held jid r t db"
  shows "held jid r (now 0) (snd (renew_lease now jid db))"
proof (rule heldE [OF assms])
  fix r' l
  assume r': "distinct (map j_id db)" "get_row j_id jid db = Some r'" "j_status r' = ''running''"
    "j_locked_by r' = j_locked_by r" "j_attempts r' = j_attempts r"
  then have "get_row j_id jid (snd (renew_lease now jid db)) = Some (renew_values now r')"
    by (auto simp: snd_renew_lease renew.get_row_update dest: get_row_Some)
  then show ?thesis
    by (rule heldI [where l = "now 0", rotated]) (use r' in \<open>simp_all add: snd_renew_lease renew.keys_update renew_values_def\<close>)
qed

lemma held_claim:
  assumes "held jid r t db"
  shows "held jid r t (snd (claim_batch skip now n owner db))"
proof -
  from assms obtain r' where r': "distinct (map j_id db)" "get_row j_id jid db = Some r'" "j_status r' = ''running''"
    by (auto simp: held_def)
  then have "j_id r' \<notin> set (claim_candidates skip n db)"
    using claim_candidates_queued(1) [OF r'(1), of r' skip n] by (auto dest: get_row_Some)
  then have "get_row j_id jid (snd (claim_batch skip now n owner db)) = get_row j_id jid db"
    using r'(2) by (simp add: snd_claim_batch claim.get_row_update)
  with assms show ?thesis by (simp add: held_def snd_claim_batch claim.keys_update)
qed

lemma held_save:
  assumes "held jid r t db"
  shows "held jid r t (snd (save_progress now k p db))"
proof (rule heldE [OF assms])
  fix r' l
  assume r': "distinct (map j_id db)" "get_row j_id jid db = Some r'" "j_status r' = ''running''"
    "j_locked_by r' = j_locked_by r" "j_attempts r' = j_attempts r" "j_locked_at r' = Some l" "t \<le> l"
  then have "get_row j_id jid (snd (save_progress now k p db)) =
      Some (if j_id r' = k then progress_values (now 0) p r' else r')"
    by (auto simp: save_progress_spec checkpoint.get_row_update dest: get_row_Some)
  then show ?thesis
    by (rule heldI [rotated]) (use r' in \<open>simp_all add: save_progress_spec checkpoint.keys_update progress_values_def\<close>)
qed

lemma held_reap:
  assumes "held jid r t db" and "now 0 - lease \<le> t"
  shows "held jid r t (snd (reap_expired now lease db))"
proof -
  from assms obtain r' where r': "get_row j_id jid db = Some r'" "\<not> lease_expired (now 0 - lease) r'"
    by (auto simp: held_def lease_expired_def)
  then have "get_row j_id jid (snd (reap_expired now lease db)) = get_row j_id jid db"
    by (simp add: snd_reap_expired fail.get_row_update)
  with assms(1) show ?thesis by (simp add: held_def snd_reap_expired fail.keys_update)
qed

lemma held_mono: "held jid r t db \<Longrightarrow> u \<le> t \<Longrightarrow> held jid r u db"
  unfolding held_def by (meson order_trans)

lemma lease_events_held:
  assumes "steady gap skew m t k evs" and "held jid r (t - int k * gap) db"
    and "0 \<le> gap" and "k \<le> m" and "(int m + 1) * gap + skew \<le> lease"
  shows "\<exists>u. held jid r u (lease_events lease jid evs db)"
  using assms
proof (induction evs arbitrary: t k db)
  case Nil
  then show ?case by (auto simp: lease_events_def)
next
  case (Cons e evs)
  have go: "\<exists>u. held jid r u (lease_events lease jid (e # evs) db)"
    if "steady gap skew m t' k' evs" "held jid r (t' - int k' * gap) (apply_lease_event lease jid e db)" "k' \<le> m" for t' k'
    using Cons.IH [OF that(1,2) Cons.prems(3) that(3) Cons.prems(5)] by (simp add: lease_events_def)
  show ?case
  proof (cases e)
    case (L_Beat now fault)
    show ?thesis
    proof (cases "renews fault")
      case True
      then have "heartbeat_tick now jid fault db = snd (renew_lease now jid db)"
        by (auto simp: heartbeat_tick_def split: option.split bool.split)
      with held_renew [OF Cons.prems(2), of now] True Cons.prems(1) L_Beat show ?thesis
        by (intro go [of "now 0" 0]) simp_all
    next
      case False
      then have miss: "heartbeat_tick now jid fault db = db"
        by (cases fault rule: renews.cases) (simp_all add: heartbeat_tick_def)
      have "now 0 - int (Suc k) * gap \<le> t - int k * gap"
        using Cons.prems(1) L_Beat by (simp add: algebra_simps)
      with miss held_mono [OF Cons.prems(2)] False Cons.prems(1) L_Beat show ?thesis
        by (intro go [of "now 0" "Suc k"]) (auto split: if_splits)
    qed
  next
    case (L_Reap now)
    have "int k * gap \<le> int m * gap" using Cons.prems(3,4) by (intro mult_right_mono) simp_all
    moreover have "now 0 \<le> t + gap + skew" using Cons.prems(1) L_Reap by simp
    ultimately have "now 0 - lease \<le> t - int k * gap" using Cons.prems(5) by (simp add: algebra_simps)
    with held_reap [OF Cons.prems(2)] L_Reap Cons.prems(1,4) show ?thesis by (intro go [of t k]) simp_all
  next
    case (L_Claim skip now n owner)
    with held_claim [OF Cons.prems(2)] Cons.prems(1,4) show ?thesis by (intro go [of t k]) simp_all
  next
    case (L_Save now k' p)
    with held_save [OF Cons.prems(2)] Cons.prems(1,4) show ?thesis by (intro go [of t k]) simp_all
  qed
qed

section \<open>What the timing buys\<close>

text \<open>C15. A live run is not reaped: with the heartbeat interval \<open>main.py\<close> sets, renewals that come
  at most \<open>delay\<close> late, at most \<open>m\<close> failing in a row and reapers whose clocks are at most
  \<open>skew\<close> ahead, a running job stays running with its owner and its attempt count, whatever
  reapers, claims and checkpoints of any pod come between, as long as \<open>m + 1\<close> late intervals
  and the skew fit in the lease.\<close>

theorem live_run_keeps_lease:
  assumes "distinct (map j_id db)" and "get_row j_id jid db = Some r" and "j_status r = ''running''"
    and "j_locked_at r = Some t" and "0 \<le> delay" and "0 \<le> ps_lease s"
    and "(int m + 1) * (heartbeat_interval s + delay) + skew \<le> ps_lease s"
    and "steady (heartbeat_interval s + delay) skew m t 0 evs"
  shows "\<exists>r'. get_row j_id jid (lease_events (ps_lease s) jid evs db) = Some r' \<and> j_status r' = ''running'' \<and>
    j_locked_by r' = j_locked_by r \<and> j_attempts r' = j_attempts r"
proof -
  have "held jid r (t - int 0 * (heartbeat_interval s + delay)) db" using assms(1-4) by (simp add: held_def)
  moreover have "0 \<le> heartbeat_interval s + delay" using assms(5,6) by (simp add: heartbeat_interval_def)
  ultimately obtain u where "held jid r u (lease_events (ps_lease s) jid evs db)"
    using lease_events_held [OF assms(8) _ _ _ assms(7)] by blast
  then show ?thesis by (rule heldE) blast
qed

text \<open>Two missed renewals in a row lose the job: when each failed renewal takes any time at all
  before it fails, the third attempt comes later than the lease lasts, and a reaper pass in
  between takes the job out of running while its run goes on.\<close>

theorem two_misses_lose_lease:
  assumes "get_row j_id jid db = Some r" and "j_status r = ''running''" and "j_locked_at r = Some t"
    and "ps_lease s = 3 * heartbeat_interval s" and "0 < delay" and "0 < heartbeat_interval s"
    and "evs = [L_Beat (\<lambda>_. t + heartbeat_interval s) (Some (e1, False)),
       L_Beat (\<lambda>_. t + 2 * heartbeat_interval s + delay) (Some (e2, False)), L_Reap (\<lambda>_. t + ps_lease s + 1)]"
  shows "get_row j_id jid (lease_events (ps_lease s) jid evs db) = Some (fail_values (t + ps_lease s + 1) r) \<and>
    j_status (fail_values (t + ps_lease s + 1) r) \<noteq> ''running'' \<and>
    t + ps_lease s + 1 \<le> t + 3 * heartbeat_interval s + 2 * delay \<and>
    steady (heartbeat_interval s + delay) 0 2 t 0 evs"
proof -
  have expired: "lease_expired (t + ps_lease s + 1 - ps_lease s) r"
    using assms(2,3) by (simp add: lease_expired_def)
  have "lease_events (ps_lease s) jid evs db = snd (reap_expired (\<lambda>_. t + ps_lease s + 1) (ps_lease s) db)"
    by (simp add: assms(7) lease_events_def heartbeat_tick_def)
  then have "get_row j_id jid (lease_events (ps_lease s) jid evs db) = Some (fail_values (t + ps_lease s + 1) r)"
    using assms(1) expired by (simp add: get_row_reap)
  moreover have "j_status (fail_values (t + ps_lease s + 1) r) \<noteq> ''running''"
    by (simp add: fail_values_def next_status_after_failure_def)
  ultimately show ?thesis using assms(4-7) by simp
qed

section \<open>No fencing\<close>

text \<open>
  The writes of a run name the job only: a run whose job was reaped and claimed again renews the
  new owner's lease, and its checkpoints replace the job's progress and result, in whatever
  status the job is, a succeeded one included.
\<close>

lemma stale_run_still_writes:
  assumes "distinct (map j_id db)" and "get_row j_id jid db = Some r"
  shows "j_status r = ''running'' \<Longrightarrow>
      get_row j_id jid (heartbeat_tick now jid None db) = Some (r\<lparr>j_locked_at := Some (now 0), j_updated_at := now 1\<rparr>)"
    and "fst (save_progress now jid p db) = Inr () \<and>
      get_row j_id jid (snd (save_progress now jid p db)) = Some (r\<lparr>j_progress := p, j_updated_at := now 0\<rparr>)"
  using assms
  by (auto simp: heartbeat_tick_def snd_renew_lease renew.get_row_update renew_values_def save_progress_spec
      checkpoint.get_row_update progress_values_def dest: get_row_Some)

section \<open>Witnesses\<close>

definition lease_settings :: poller_settings where
  "lease_settings = \<lparr>ps_enabled = True, ps_interval = 5, ps_batch_size = 10, ps_lease = 300\<rparr>"

theorem live_run_keeps_lease_witness:
  "map_option j_status (get_row j_id ''j1'' (lease_events 300 ''j1''
     [L_Beat (\<lambda>_. 205) (Some (''timeout'', False)), L_Reap (\<lambda>_. 310), L_Beat (\<lambda>_. 310) None, L_Reap (\<lambda>_. 414)]
     [demo_running ''j1''])) = Some ''running''"
proof -
  have r: "get_row j_id ''j1'' [demo_running ''j1''] = Some (demo_running ''j1'')"
    "j_status (demo_running ''j1'') = ''running''" "j_locked_at (demo_running ''j1'') = Some 100"
    by (simp_all add: demo_running_def claim_values_def demo_job_def demo_clock_def)
  have "\<exists>r'. get_row j_id ''j1'' (lease_events (ps_lease lease_settings) ''j1''
     [L_Beat (\<lambda>_. 205) (Some (''timeout'', False)), L_Reap (\<lambda>_. 310), L_Beat (\<lambda>_. 310) None, L_Reap (\<lambda>_. 414)]
     [demo_running ''j1'']) = Some r' \<and> j_status r' = ''running'' \<and>
    j_locked_by r' = j_locked_by (demo_running ''j1'') \<and> j_attempts r' = j_attempts (demo_running ''j1'')"
    by (rule live_run_keeps_lease [OF _ r, where delay = 20 and m = 1 and skew = 10])
      (simp_all add: lease_settings_def heartbeat_interval_def)
  then show ?thesis by (auto simp: lease_settings_def)
qed

theorem two_misses_lose_lease_witness:
  "map_option j_status (get_row j_id ''j1'' (lease_events 300 ''j1''
     [L_Beat (\<lambda>_. 200) (Some (''timeout'', False)), L_Beat (\<lambda>_. 301) (Some (''timeout'', False)), L_Reap (\<lambda>_. 401)]
     [demo_running ''j1''])) = Some ''queued''"
proof -
  have r: "get_row j_id ''j1'' [demo_running ''j1''] = Some (demo_running ''j1'')"
    "j_status (demo_running ''j1'') = ''running''" "j_locked_at (demo_running ''j1'') = Some 100"
    by (simp_all add: demo_running_def claim_values_def demo_job_def demo_clock_def)
  have q: "j_status (fail_values u (demo_running ''j1'')) = ''queued''" for u
    by (simp add: fail_values_def next_status_after_failure_def demo_running_def claim_values_def demo_job_def)
  have s: "heartbeat_interval lease_settings = 100" "ps_lease lease_settings = 300"
    by (simp_all add: lease_settings_def heartbeat_interval_def)
  from two_misses_lose_lease [OF r, of lease_settings 1 _ "''timeout''" "''timeout''"] q show ?thesis
    by (simp add: s)
qed

end
