(* ===== verification/Job_Shutdown.thy ===== *)
theory Job_Shutdown
  imports Job_Pods
begin

text \<open>
  What a pod leaves behind when it is told to stop. The claims of a pod are the running rows
  under its owner name; \<open>held_by\<close> collects them. Whatever a run meets, it ends with a status
  report, so between two ticks a pod holds nothing it did not hold before, and a pod that stops
  strands no job.
\<close>

section \<open>The claims of a pod\<close>

definition owned :: "string \<Rightarrow> job_row \<Rightarrow> bool" where
  "owned owner r \<longleftrightarrow> j_status r = ''running'' \<and> j_locked_by r = Some owner"

definition job_key :: "job_row \<Rightarrow> string \<times> string" where
  "job_key r = (j_id r, j_tenant_id r)"

definition held_by :: "string \<Rightarrow> job_db \<Rightarrow> (string \<times> string) set" where
  "held_by owner db = job_key ` set (filter (owned owner) db)"

text \<open>Nobody else claims in the pod's name, which ends in a fresh \<open>uuid4\<close>.\<close>

definition own_claims :: "string \<Rightarrow> runner_world \<Rightarrow> bool" where
  "own_claims owner w \<longleftrightarrow> (\<forall>l db. held_by owner (rw_others w l db) \<subseteq> held_by owner db)"

definition reliable :: "runner_world \<Rightarrow> bool" where
  "reliable w \<longleftrightarrow> (\<forall>l. rw_fault w l = None)"

lemma job_key_rewrite: "job_rewrite f \<Longrightarrow> job_key (f r) = job_key r"
  using job_rewrite.identity_upd [of f r] by (simp add: job_key_def job_identity_def)

lemma held_byE:
  assumes "k \<in> held_by owner db"
  obtains r where "r \<in> set db" "owned owner r" "k = job_key r"
  using assms by (auto simp: held_by_def)

lemma held_rewrite:
  assumes "job_rewrite f" and "\<And>r. r \<in> set db \<Longrightarrow> P r \<Longrightarrow> owned owner (f r) \<Longrightarrow> owned owner r"
  shows "held_by owner (update_rows P f db) \<subseteq> held_by owner db"
proof
  fix k assume "k \<in> held_by owner (update_rows P f db)"
  then obtain r where r: "r \<in> set db" "owned owner (if P r then f r else r)" "k = job_key (if P r then f r else r)"
    by (auto simp: held_by_def update_rows_def)
  then have "owned owner r" "k = job_key r"
    using assms(2) [of r] job_key_rewrite [OF assms(1), of r] by (auto split: if_splits)
  with r(1) show "k \<in> held_by owner db" by (auto simp: held_by_def)
qed

lemma reaped_held: "held_by owner (snd (reap_expired now lease db)) \<subseteq> held_by owner db"
  unfolding snd_reap_expired
  by (rule held_rewrite [OF fail.job_rewrite_axioms]) (simp add: owned_def fail_values_def)

lemma saved_held:
  assumes "job_db_ok db"
  shows "held_by owner (snd (save_progress now k p db)) \<subseteq> held_by owner db"
  using assms held_rewrite [OF checkpoint.job_rewrite_axioms]
  by (auto simp: save_progress_spec owned_def progress_values_def)

lemma claimed_held:
  assumes "claim_batch skip now n owner db = (Inr rows, db')"
  shows "held_by owner db' \<subseteq> held_by owner db \<union> job_key ` set rows"
proof
  let ?P = "\<lambda>r. j_id r \<in> set (claim_candidates skip n db)"
  have db': "db' = update_rows ?P (claim_values now owner) db"
    and rows: "rows = map (claim_values now owner) (filter ?P db)"
    using snd_claim_batch [of skip now n owner db] fst_claim_batch [of skip now n owner db] assms by auto
  fix k assume "k \<in> held_by owner db'"
  then obtain r where r: "r \<in> set db" "owned owner (if ?P r then claim_values now owner r else r)"
    "k = job_key (if ?P r then claim_values now owner r else r)"
    unfolding db' by (auto simp: held_by_def update_rows_def)
  then show "k \<in> held_by owner db \<union> job_key ` set rows"
    by (cases "?P r") (auto simp: rows held_by_def)
qed

lemma not_owned_update: "\<not> owned owner (update_values now st r)"
  by (auto simp: owned_def update_values_def start_values_def fail_values_def next_status_after_failure_def
      overwrite_values_def Let_def split: if_splits)

lemma update_spec:
  assumes "job_db_ok db" and "source_statuses st \<noteq> []"
  shows "snd (job_update now t k st db) =
    (case get_row j_id k db of
       None \<Rightarrow> db
     | Some r \<Rightarrow> if j_tenant_id r = t \<and> j_status r \<in> set (source_statuses st)
                then update_rows (\<lambda>r. j_id r = k) (update_values now st) db else db)"
  using assms
  by (simp add: job_update_guarded job_rewrite.guarded_update_spec [OF job_rewrite_update_values] split: option.split)

lemma updated_held:
  assumes "job_db_ok db"
  shows "held_by owner (snd (job_update now t k st db)) \<subseteq> held_by owner db"
proof (cases "source_statuses st = []")
  case True
  then show ?thesis using job_update_unknown [of st now t k] by auto
next
  case False
  have "held_by owner (update_rows (\<lambda>r. j_id r = k) (update_values now st) db) \<subseteq> held_by owner db"
    by (rule held_rewrite [OF job_rewrite_update_values]) (simp add: not_owned_update)
  with assms False show ?thesis by (simp add: update_spec split: option.split)
qed

lemma update_releases:
  assumes "job_db_ok db" and "''running'' \<in> set (source_statuses st)"
  shows "(k, t) \<notin> held_by owner (snd (job_update now t k st db))"
proof
  have src: "source_statuses st \<noteq> []" using assms(2) by auto
  assume held: "(k, t) \<in> held_by owner (snd (job_update now t k st db))"
  with updated_held [OF assms(1)] have "(k, t) \<in> held_by owner db" by blast
  then obtain r where r: "r \<in> set db" "owned owner r" "j_id r = k" "j_tenant_id r = t"
    by (auto elim!: held_byE simp: job_key_def)
  then have "get_row j_id k db = Some r"
    using assms(1) by (simp add: get_row_iff job_db_ok_def)
  with r assms src have "snd (job_update now t k st db) = update_rows (\<lambda>r. j_id r = k) (update_values now st) db"
    by (simp add: update_spec owned_def)
  with held obtain r' where "r' \<in> set db" "owned owner (if j_id r' = k then update_values now st r' else r')"
    "(k, t) = job_key (if j_id r' = k then update_values now st r' else r')"
    by (auto simp: held_by_def update_rows_def)
  then show False
    by (cases "j_id r' = k") (auto simp: not_owned_update job_key_def)
qed

section \<open>A run lets go of its job\<close>

definition pod_setting :: "job_service \<Rightarrow> string \<Rightarrow> runner_world \<Rightarrow> bool" where
  "pod_setting svc owner w \<longleftrightarrow> service_ok svc \<and> lawful_world svc w \<and> own_claims owner w"

definition drains :: "job_service \<Rightarrow> string \<Rightarrow> runner_world \<Rightarrow> runner_state \<Rightarrow> runner_state \<Rightarrow> bool" where
  "drains svc owner w s s' \<longleftrightarrow>
     pod_setting svc owner w \<and> job_db_ok (rs_db s) \<longrightarrow>
       job_db_ok (rs_db s') \<and> held_by owner (rs_db s') \<subseteq> held_by owner (rs_db s)"

lemma job_steps_ok:
  assumes "(job_step svc)\<^sup>*\<^sup>* db db'" and "service_ok svc" and "job_db_ok db"
  shows "job_db_ok db'"
  using assms by (induction rule: rtranclp_induct) (auto intro: job_step_ok)

lemma others_ok:
  assumes "pod_setting svc owner w" and "job_db_ok db"
  shows "job_db_ok (rw_others w l db) \<and> held_by owner (rw_others w l db) \<subseteq> held_by owner db"
  using assms job_steps_ok [of svc db "rw_others w l db"]
  by (simp add: pod_setting_def lawful_world_def own_claims_def)

lemma drains_db_call:
  assumes "\<And>now db. job_db_ok db \<Longrightarrow> job_db_ok (snd (op now db)) \<and> held_by owner (snd (op now db)) \<subseteq> held_by owner db"
  shows "drains svc owner w s (snd (db_call w op ev s))"
  unfolding drains_def
proof
  assume w: "pod_setting svc owner w \<and> job_db_ok (rs_db s)"
  let ?db = "rw_others w (rs_log s) (rs_db s)"
  have "job_db_ok ?db \<and> held_by owner ?db \<subseteq> held_by owner (rs_db s)" using w others_ok by blast
  then show "job_db_ok (rs_db (snd (db_call w op ev s))) \<and>
      held_by owner (rs_db (snd (db_call w op ev s))) \<subseteq> held_by owner (rs_db s)"
    using assms [of ?db "rw_clock w (rs_log s)"]
    by (auto simp: db_call_def split_beta Let_def split: option.split)
qed

interpretation drain: run_frame w "drains svc owner w" for svc owner w
proof
  show "transp (drains svc owner w)" unfolding transp_def drains_def by blast
  show "keepsS (drains svc owner w) (checkpoint_progress w row)" for row
    unfolding checkpoint_progress_def by (intro keepsSI drains_db_call conjI save_progress_ok saved_held)
  show "keepsS (drains svc owner w) (report w row st)" for row st
    unfolding report_def by (intro keepsSI drains_db_call conjI job_update_ok updated_held)
qed (simp add: drains_def)

abbreviation answered :: "py_exception + 'a \<Rightarrow> bool" where
  "answered r \<equiv> \<not> isl r"

text \<open>With reliable database calls, what ends as \<open>A\<close> describes has let go of the job.\<close>

definition releases ::
    "job_service \<Rightarrow> string \<Rightarrow> runner_world \<Rightarrow> job_row \<Rightarrow> (py_exception + 'a \<Rightarrow> bool) \<Rightarrow> 'a runner \<Rightarrow> bool" where
  "releases svc owner w row A m \<longleftrightarrow> (\<forall>s r t.
     pod_setting svc owner w \<and> reliable w \<and> job_db_ok (rs_db s) \<and>
     m s = (r, t) \<and> A r \<longrightarrow> job_key row \<notin> held_by owner (rs_db t))"

lemma releases_report:
  assumes "''running'' \<in> set (source_statuses st)"
  shows "releases svc owner w row A (bindS (report w row st) (\<lambda>_. returnS ()))"
  unfolding releases_def
proof (intro allI impI)
  fix s r t
  assume a: "pod_setting svc owner w \<and> reliable w \<and> job_db_ok (rs_db s) \<and>
    bindS (report w row st) (\<lambda>_. returnS ()) s = (r, t) \<and> A r"
  let ?db = "rw_others w (rs_log s) (rs_db s)"
  have "job_db_ok ?db" using a others_ok by blast
  moreover have "rs_db t = snd (job_update (rw_clock w (rs_log s)) (j_tenant_id row) (j_id row) st ?db)"
    using a by (auto simp: bindS_def report_def db_call_def reliable_def split_beta Let_def split: sum.splits)
  ultimately show "job_key row \<notin> held_by owner (rs_db t)"
    using update_releases [OF _ assms] by (simp add: job_key_def)
qed

lemma releases_bind:
  assumes "keepsS (drains svc owner w) m" and "\<And>a. releases svc owner w row answered (f a)"
  shows "releases svc owner w row answered (bindS m f)"
  unfolding releases_def
proof (intro allI impI)
  fix s r t
  assume a: "pod_setting svc owner w \<and> reliable w \<and> job_db_ok (rs_db s) \<and>
    bindS m f s = (r, t) \<and> answered r"
  then obtain b where "bindS m f s = (Inr b, t)" by (cases r) auto
  then obtain x s' where m: "m s = (Inr x, s')" and f: "f x s' = (Inr b, t)" by (auto simp: bindS_eq_Inr_iff)
  from keepsSD [OF assms(1) m] a have "job_db_ok (rs_db s')" by (simp add: drains_def)
  with assms(2) [of x] f a show "job_key row \<notin> held_by owner (rs_db t)" by (force simp: releases_def)
qed

lemma releases_raise: "releases svc owner w row answered (raiseS e)"
  by (simp add: releases_def)

lemma releases_catch:
  assumes "keepsS (drains svc owner w) m" and "releases svc owner w row answered m" and "\<And>e. releases svc owner w row A (h e)"
    and "\<And>r. answered r \<Longrightarrow> A r"
  shows "releases svc owner w row A (catchS m h)"
  unfolding releases_def
proof (intro allI impI)
  fix s r t
  assume a: "pod_setting svc owner w \<and> reliable w \<and> job_db_ok (rs_db s) \<and>
    catchS m h s = (r, t) \<and> A r"
  obtain q s' where m: "m s = (q, s')" by fastforce
  from keepsSD [OF assms(1) m] a have ok: "job_db_ok (rs_db s')" by (simp add: drains_def)
  show "job_key row \<notin> held_by owner (rs_db t)"
  proof (cases q)
    case (Inl e)
    with m a have "h e s' = (r, t)" by (simp add: catchS_def)
    with assms(3) [of e] ok a show ?thesis unfolding releases_def by blast
  next
    case (Inr x)
    with m a have "m s = (r, t)" "answered r" by (auto simp: catchS_def)
    with assms(2) a show ?thesis unfolding releases_def by blast
  qed
qed

lemma releases_finalize: "releases svc owner w row answered (finalize w row)"
  unfolding finalize_def
  by (intro releases_bind drain.frame_calls drain.frame_last_output releases_report)
    (simp_all add: source_statuses_def allowed_entry_def)

lemma releases_execute: "releases svc owner w row answered (execute w row)"
  unfolding execute_def execute_steps_def
proof (intro releases_bind releases_catch [where A = answered])
  show "releases svc owner w row answered
     (if exc = ApprovalRequired then raiseS exc
      else bindS (set_progress (\<lambda>p. p\<lparr>pg_error := Some (exc_str exc)\<rparr>))
             (\<lambda>_. bindS (checkpoint_progress w row) (\<lambda>_. raiseS exc)))" for exc
    by (simp add: releases_raise) (intro impI releases_bind drain.frame_calls releases_raise)
qed (auto intro!: drain.frame_calls drain.frame_ensure_plan drain.frame_execute_from drain.frame_finalize
    releases_finalize)

lemma releases_run: "releases svc owner w row (\<lambda>_. True) (runner_run w row)"
  unfolding runner_run_def mark_waiting_approval_def mark_failed_def
proof (rule releases_catch [OF drain.frame_execute releases_execute])
  show "releases svc owner w row (\<lambda>_. True)
     (if e = ApprovalRequired then bindS (report w row ''waiting_approval'') (\<lambda>_. returnS ())
      else bindS (report w row ''failed'') (\<lambda>_. returnS ()))" for e
    by (simp add: releases_report source_statuses_def allowed_entry_def)
qed simp

lemma releases_pod_runner: "releases svc owner w row (\<lambda>_. True) (pod_runner w row)"
  by (simp add: pod_runner_def dispatcher_run_def releases_run releases_report source_statuses_def)

lemma drains_pod_runner: "keepsS (drains svc owner w) (pod_runner w row)"
  unfolding pod_runner_def by (rule drain.frame_dispatcher) (auto intro: drain.frame_run)

section \<open>A tick leaves nothing behind\<close>

definition settled :: "job_service \<Rightarrow> string \<Rightarrow> runner_world \<Rightarrow> runner_state \<Rightarrow> bool" where
  "settled svc owner w s \<longleftrightarrow> pod_setting svc owner w \<and> reliable w \<and> job_db_ok (rs_db s)"

lemma pod_run_releases:
  assumes "settled svc owner w s"
  shows "settled svc owner w (snd (pod_runner w row s)) \<and>
    held_by owner (rs_db (snd (pod_runner w row s))) \<subseteq> held_by owner (rs_db s) - {job_key row}"
proof -
  obtain r t where run: "pod_runner w row s = (r, t)" by fastforce
  have "drains svc owner w s t" by (rule keepsSD [OF drains_pod_runner run])
  moreover have "job_key row \<notin> held_by owner (rs_db t)"
    using releases_pod_runner [of svc owner w row] assms run unfolding releases_def settled_def by blast
  ultimately show ?thesis using assms run by (auto simp: settled_def drains_def)
qed

lemma batch_releases:
  assumes "settled svc owner w s"
  shows "settled svc owner w (fold (\<lambda>row s. snd (pod_runner w row s)) rows s) \<and>
    held_by owner (rs_db (fold (\<lambda>row s. snd (pod_runner w row s)) rows s)) \<subseteq>
      held_by owner (rs_db s) - job_key ` set rows"
  using assms
proof (induction rows arbitrary: s)
  case (Cons row rows)
  from pod_run_releases [OF Cons.prems, of row] Cons.IH [of "snd (pod_runner w row s)"]
  show ?case by auto
qed simp

lemma reliable_call:
  assumes "settled svc owner w s"
  shows "db_call w op ev s = (case op (rw_clock w (rs_log s)) (rw_others w (rs_log s) (rs_db s)) of
     (r, db') \<Rightarrow> (r, s\<lparr>rs_db := db', rs_log := rs_log s @ [ev r]\<rparr>))"
  using assms by (simp add: settled_def reliable_def db_call_def split_beta Let_def)

lemma tick_releases:
  assumes "settled svc owner w s" and "serve_poller settings w owner = Some po"
  shows "settled svc owner w (snd (poller_tick w po s)) \<and>
    held_by owner (rs_db (snd (poller_tick w po s))) \<subseteq> held_by owner (rs_db s)"
proof -
  have po: "po_runner po = Some (pod_runner w)" "po_owner po = owner"
    using assms(2) by (auto simp: serve_poller_def split: if_splits)
  obtain reaped s1 where reap: "db_call w (\<lambda>now. reap_expired now (po_lease po)) Ev_Reap s = (Inr reaped, s1)"
    using reliable_call [OF assms(1), of "\<lambda>now. reap_expired now (po_lease po)" Ev_Reap]
    by (simp add: reap_expired_def Let_def split_beta)
  have "drains svc owner w s s1"
    using drains_db_call [of "\<lambda>now. reap_expired now (po_lease po)" owner svc w s Ev_Reap] reap
      reap_expired_ok reaped_held by simp
  with assms(1) have s1: "settled svc owner w s1" "held_by owner (rs_db s1) \<subseteq> held_by owner (rs_db s)"
    by (auto simp: settled_def drains_def)
  let ?db = "rw_others w (rs_log s1) (rs_db s1)" and ?now = "rw_clock w (rs_log s1)"
  obtain claimed db' where claim: "claim_batch (rw_locked w (rs_log s1)) ?now (po_batch po) owner ?db = (Inr claimed, db')"
    by (simp add: claim_batch_def Let_def split_beta)
  define s2 where "s2 = s1\<lparr>rs_db := db', rs_log := rs_log s1 @ [Ev_Claim (Inr claimed)]\<rparr>"
  have db: "job_db_ok ?db \<and> held_by owner ?db \<subseteq> held_by owner (rs_db s1)"
    using others_ok [of svc owner w "rs_db s1" "rs_log s1"] s1(1) by (simp add: settled_def)
  with claim have "job_db_ok db'" by (metis claim_batch_ok snd_conv)
  with s1(1) have s2: "settled svc owner w s2" by (simp add: settled_def s2_def)
  have held: "held_by owner (rs_db s2) \<subseteq> held_by owner (rs_db s1) \<union> job_key ` set claimed"
    using claimed_held [OF claim] db by (auto simp: s2_def)
  have "db_call w (\<lambda>now. claim_batch (rw_locked w (rs_log s1)) now (po_batch po) owner) Ev_Claim s1 = (Inr claimed, s2)"
    by (simp add: reliable_call [OF s1(1)] claim s2_def)
  then have "snd (poller_tick w po s) = fold (\<lambda>row s. snd (pod_runner w row s)) claimed s2"
    using reap po by (simp add: poller_tick_def bindS_def dispatch_all_runs dispatch_all_Inr split: prod.split sum.split)
      (metis dispatch_all_Inr dispatch_all_runs fst_conv snd_conv sum.distinct(1))
  with batch_releases [OF s2, of claimed] held s1(2) show ?thesis by auto
qed

lemma ticks_release:
  assumes "settled svc owner w s" and "serve_poller settings w owner = Some po"
  shows "settled svc owner w (ticks w po n s) \<and> held_by owner (rs_db (ticks w po n s)) \<subseteq> held_by owner (rs_db s)"
  using assms(1)
proof (induction n arbitrary: s)
  case (Suc n)
  from tick_releases [OF Suc.prems assms(2)] Suc.IH [of "snd (poller_tick w po s)"] show ?case by auto
qed simp

section \<open>Stopping\<close>

text \<open>C16. A pod that is told to stop strands no job. Whatever the orchestrator answers or fails to
  answer and whatever other pods, callers and reapers do meanwhile, as long as the database calls
  of the pod go through and nobody claims in its name, the poll loop of \<open>main.py\<close> returns exactly
  if the stop event is ever set, and then no job is running on its claim: every job it claimed
  has been succeeded, failed (requeued, left for a retry, or buried), parked for approval, or
  taken over. The same holds after every single tick.\<close>

theorem shutdown_strands_no_job:
  assumes "serve_poller settings w owner = Some po" and "service_ok svc" and "lawful_world svc w"
    and "own_claims owner w" and "reliable w" and "job_db_ok (rs_db s)" and "held_by owner (rs_db s) = {}"
  shows "((\<exists>t. poller_run w po stop 0 s = Some t) \<longleftrightarrow> (\<exists>i. stop i)) \<and>
    (\<forall>t. poller_run w po stop 0 s = Some t \<longrightarrow>
       (\<forall>r \<in> set (rs_db t). j_status r = ''running'' \<longrightarrow> j_locked_by r \<noteq> Some owner)) \<and>
    (\<forall>r \<in> set (rs_db (ticks w po n s)). j_status r = ''running'' \<longrightarrow> j_locked_by r \<noteq> Some owner)"
proof -
  have "settled svc owner w s" using assms(2-6) by (simp add: settled_def pod_setting_def)
  then have none: "held_by owner (rs_db (ticks w po k s)) = {}" for k
    using ticks_release [OF _ assms(1), of svc s k] assms(7) by simp
  have free: "\<forall>r \<in> set db. j_status r = ''running'' \<longrightarrow> j_locked_by r \<noteq> Some owner" if "held_by owner db = {}" for db
    using that by (auto simp: held_by_def owned_def)
  have "held_by owner (rs_db t) = {}" if "poller_run w po stop 0 s = Some t" for t
    using poller_run_is_ticks [OF that] none by auto
  moreover have "(\<exists>t. poller_run w po stop 0 s = Some t) \<longleftrightarrow> (\<exists>i. stop i)"
    using poller_run_returns [of w po stop 0 s] poller_run_ticks [of stop 0 _ w po s] exists_least_iff [of stop]
    by (metis add_0)
  ultimately show ?thesis using free none by blast
qed

text \<open>Without reliable calls the claim is not true: a claim that takes effect but is not answered
  leaves its jobs running without a runner until their lease expires.\<close>

definition lost_claim_world :: runner_world where
  "lost_claim_world = (demo_world ''stop'' (\<lambda>_. False))
     \<lparr>rw_fault := (\<lambda>l. if length l = 1 then Some (''connection lost'', True) else None)\<rparr>"

lemma lost_claim_strands_jobs:
  "case poller_tick lost_claim_world (the (serve_poller demo_settings lost_claim_world ''pod1''))
      (St [demo_job ''j1''] [] empty_progress) of
     (res, s) \<Rightarrow> res = Inl (OtherException ''connection lost'') \<and> held_by ''pod1'' (rs_db s) = {(''j1'', ''t1'')}"
  by code_simp

text \<open>In the slow world another pod reaps and claims a job of the batch and the heartbeat runs.\<close>

lemma held_heartbeat: "held_by owner (heartbeat_tick now k fault db) \<subseteq> held_by owner db"
proof -
  have "held_by owner (update_rows P (renew_values now) db) \<subseteq> held_by owner db" for P
    by (rule held_rewrite [OF renew.job_rewrite_axioms]) (simp add: owned_def renew_values_def)
  then show ?thesis
    by (auto simp: heartbeat_tick_def renew_lease_def update_where_def Let_def split: option.split bool.split sum.split)
qed

lemma claimed_held_other:
  assumes "owner \<noteq> owner'"
  shows "held_by owner (snd (claim_batch skip now n owner' db)) \<subseteq> held_by owner db"
  unfolding snd_claim_batch
  by (rule held_rewrite [OF claim.job_rewrite_axioms]) (use assms in \<open>simp add: owned_def claim_values_def\<close>)

lemma slow_world_own: "own_claims ''pod1'' slow_world"
proof -
  have "held_by ''pod1'' (snd (claim_batch [] (\<lambda>_. 1001) 5 ''pod2''
      (snd (reap_expired (\<lambda>_. 1000) 300 (heartbeat_tick (\<lambda>_. 999) ''j1'' None db))))) \<subseteq> held_by ''pod1'' db" for db
    by (rule subset_trans [OF claimed_held_other subset_trans [OF reaped_held held_heartbeat]]) simp
  then show ?thesis by (simp add: own_claims_def slow_world_def)
qed

theorem shutdown_strands_no_job_witness:
  "\<exists>t. poller_run slow_world (the (serve_poller demo_settings slow_world ''pod1'')) (\<lambda>i. 2 \<le> i) 0
      (St [slow_job ''j1'' ''a'', slow_job ''j2'' ''b''] [] empty_progress) = Some t \<and>
     list_all (\<lambda>r. \<not> owned ''pod1'' r) (rs_db t)"
proof -
  let ?po = "the (serve_poller demo_settings slow_world ''pod1'')" and ?s = "St [slow_job ''j1'' ''a'', slow_job ''j2'' ''b''] [] empty_progress"
  have po: "serve_poller demo_settings slow_world ''pod1'' = Some ?po"
    by (simp add: serve_poller_def demo_settings_def)
  have calm: "reliable slow_world" by (simp add: reliable_def slow_world_def demo_world_def)
  have s: "job_db_ok (rs_db ?s)" "held_by ''pod1'' (rs_db ?s) = {}"
    by (simp_all add: held_by_def owned_def slow_job_def demo_job_def job_db_ok_def row_ok_defs)
  note all = shutdown_strands_no_job [OF po service_ok_demo slow_world_lawful slow_world_own calm s,
      where stop = "\<lambda>i. 2 \<le> i" and n = 0]
  obtain t where "poller_run slow_world ?po (\<lambda>i. 2 \<le> i) 0 ?s = Some t" using conjunct1 [OF all] by blast
  with conjunct1 [OF conjunct2 [OF all]] show ?thesis by (auto simp: list_all_iff owned_def)
qed

end
