(* ===== verification/Aes_Model.thy ===== *)
theory Aes_Model
  imports PyStr Grpc Complex_Main
begin

text \<open>
  The data of \<open>agent_execution_service\<close>: its typed errors (\<open>errors.py\<close>), the rows of its four
  tables (\<open>models.py\<close>) and the integrity invariant of the database: unique keys, unique tool
  names within a tenant, and grants that join an agent and a tool of the same tenant.
\<close>

section \<open>Errors\<close>

datatype aes_error =
    Aes_App string
  | Aes_Not_Found string
  | Aes_Validation string
  | Aes_Authentication string
  | Aes_Conflict string
  | Aes_State string
  | Aes_Other string

text \<open>The classes that derive from \<open>AppError\<close>, itself included.\<close>

definition aes_is_app_error :: "aes_error \<Rightarrow> bool" where
  "aes_is_app_error e \<longleftrightarrow> (case e of Aes_Other _ \<Rightarrow> False | _ \<Rightarrow> True)"

fun aes_error_str :: "aes_error \<Rightarrow> string" where
  "aes_error_str (Aes_App m) = m"
| "aes_error_str (Aes_Not_Found m) = m"
| "aes_error_str (Aes_Validation m) = m"
| "aes_error_str (Aes_Authentication m) = m"
| "aes_error_str (Aes_Conflict m) = m"
| "aes_error_str (Aes_State m) = m"
| "aes_error_str (Aes_Other m) = m"

section \<open>Rows\<close>

type_synonym stamp = int

record agent_row =
  a_id :: string
  a_tenant_id :: string
  a_name :: string
  a_instructions :: string
  a_llm_config_name :: string
  a_llm_config_temperature :: rat
  a_version :: int
  a_created_at :: stamp
  a_updated_at :: stamp

record tool_row =
  t_id :: string
  t_tenant_id :: string
  t_name :: string
  t_description :: "string option"
  t_mutating :: bool
  t_version :: int
  t_created_at :: stamp
  t_updated_at :: stamp

record agent_tool_row =
  at_agent_id :: string
  at_tool_id :: string

record task_row =
  k_id :: string
  k_tenant_id :: string
  k_input :: string
  k_job_id :: string
  k_status :: string
  k_result :: string
  k_created_at :: stamp
  k_updated_at :: stamp

record aes_db =
  agents :: "agent_row list"
  tools :: "tool_row list"
  agent_tools :: "agent_tool_row list"
  tasks :: "task_row list"

type_synonym 'a aes_op = "(aes_db, aes_error, 'a) comp"

section \<open>Integrity\<close>

definition tool_key :: "tool_row \<Rightarrow> string \<times> string" where
  "tool_key t = (t_tenant_id t, t_name t)"

definition link_key :: "agent_tool_row \<Rightarrow> string \<times> string" where
  "link_key l = (at_agent_id l, at_tool_id l)"

text \<open>A grant joins an existing agent and an existing tool of one tenant.\<close>

definition link_ok :: "agent_row list \<Rightarrow> tool_row list \<Rightarrow> agent_tool_row \<Rightarrow> bool" where
  "link_ok ags tls l \<longleftrightarrow> (\<exists>a \<in> set ags. \<exists>t \<in> set tls.
     a_id a = at_agent_id l \<and> t_id t = at_tool_id l \<and> a_tenant_id a = t_tenant_id t)"

definition aes_db_ok :: "aes_db \<Rightarrow> bool" where
  "aes_db_ok db \<longleftrightarrow> distinct (map a_id (agents db)) \<and> distinct (map t_id (tools db)) \<and>
     distinct (map tool_key (tools db)) \<and> distinct (map link_key (agent_tools db)) \<and>
     distinct (map k_id (tasks db)) \<and>
     (\<forall>l \<in> set (agent_tools db). link_ok (agents db) (tools db) l)"

definition empty_aes_db :: aes_db where
  "empty_aes_db = \<lparr>agents = [], tools = [], agent_tools = [], tasks = []\<rparr>"

lemma aes_db_ok_empty [simp]: "aes_db_ok empty_aes_db"
  by (simp add: aes_db_ok_def empty_aes_db_def)

end
