(* ===== verification/Aes_Jobs.thy ===== *)
theory Aes_Jobs
  imports Aes_Model Job_Edge
begin

text \<open>
  \<open>job_client.py\<close>: the gateway through which \<open>agent_execution_service\<close> reaches
  \<open>job_svc\<close>. \<open>JobGateway\<close> is a record of five operations over the state of the job side;
  \<open>JobClient\<close> implements it over a stub, whose four calls are parameters. The contract
  \<open>TaskService\<close> relies on is the locale \<open>task_backend\<close>, and it is interpreted on
  \<open>JobClient\<close> talking to the handlers of \<open>job_svc\<close> (\<open>Job_Rpc\<close>).
\<close>

section \<open>References to jobs\<close>

record job_ref =
  jr_id :: string
  jr_status :: string
  jr_result :: string

record job_step_ref =
  js_index :: int
  js_description :: string
  js_output :: string
  js_agent :: string
  js_requires_approval :: bool

record job_progress_ref =
  jp_status :: string
  jp_steps_total :: nat
  jp_steps :: "job_step_ref list"
  jp_error :: string
  jp_result :: string

record 'j job_gateway =
  gw_create_job :: "string \<Rightarrow> string \<Rightarrow> ('j, aes_error, job_ref) comp"
  gw_get_job :: "string \<Rightarrow> string \<Rightarrow> ('j, aes_error, job_ref) comp"
  gw_start_job :: "string \<Rightarrow> string \<Rightarrow> ('j, aes_error, job_ref) comp"
  gw_retry_job :: "string \<Rightarrow> string \<Rightarrow> ('j, aes_error, job_ref) comp"
  gw_get_job_progress :: "string \<Rightarrow> string \<Rightarrow> ('j, aes_error, job_progress_ref) comp"

section \<open>JobClient\<close>

record 'j job_stub =
  stub_CreateJob :: "metadata \<Rightarrow> create_job_request \<Rightarrow> ('j, rpc_error, proto_job) comp"
  stub_GetJob :: "metadata \<Rightarrow> get_job_request \<Rightarrow> ('j, rpc_error, proto_job list) comp"
  stub_UpdateJob :: "metadata \<Rightarrow> string \<Rightarrow> int \<Rightarrow> ('j, rpc_error, proto_job) comp"
  stub_RetryJob :: "metadata \<Rightarrow> string \<Rightarrow> ('j, rpc_error, proto_job) comp"

fun error_by_code :: "grpc_status \<Rightarrow> string \<Rightarrow> aes_error" where
  "error_by_code NOT_FOUND m = Aes_Not_Found m"
| "error_by_code INVALID_ARGUMENT m = Aes_Validation m"
| "error_by_code FAILED_PRECONDITION m = Aes_State m"
| "error_by_code ALREADY_EXISTS m = Aes_Conflict m"
| "error_by_code ABORTED m = Aes_Conflict m"
| "error_by_code _ m = Aes_App m"

definition aes_md :: "string \<Rightarrow> metadata" where
  "aes_md tenant_id = [(''x-tenant-id'', tenant_id)]"

definition client_call :: "('j, rpc_error, 'a) comp \<Rightarrow> ('j, aes_error, 'a) comp" where
  "client_call call = (\<lambda>j.
     case call j of
       (Inl (code, details), j') \<Rightarrow> (Inl (error_by_code code (''job_svc: '' @ details)), j')
     | (Inr response, j') \<Rightarrow> (Inr response, j'))"

definition job_status_str :: "int \<Rightarrow> string" where
  "job_status_str n =
     (case map_of [(1, ''queued''), (2, ''running''), (3, ''succeeded''), (4, ''failed''), (5, ''dead''),
        (6, ''cancelled''), (7, ''waiting_approval'')] n of
        None \<Rightarrow> ''unspecified'' | Some s \<Rightarrow> s)"

definition job_result_str :: "proto_job \<Rightarrow> string" where
  "job_result_str job = (case pj_result job of None \<Rightarrow> [] | Some output \<Rightarrow> output)"

definition to_ref :: "proto_job \<Rightarrow> job_ref" where
  "to_ref job = \<lparr>jr_id = pj_id job, jr_status = job_status_str (pj_status job),
     jr_result = job_result_str job\<rparr>"

definition to_step_ref :: "proto_step \<Rightarrow> job_step_ref" where
  "to_step_ref step = \<lparr>js_index = ps_index step, js_description = ps_prompt step,
     js_output = ps_output step, js_agent = ps_agent step,
     js_requires_approval = (ps_finish_reason step = 2)\<rparr>"

definition to_progress_ref :: "proto_job \<Rightarrow> job_progress_ref" where
  "to_progress_ref job =
     (let progress = pj_progress job
      in \<lparr>jp_status = job_status_str (pj_status job), jp_steps_total = length (pp_plan progress),
          jp_steps = map to_step_ref (sort_key ps_index (pp_steps progress)),
          jp_error = pp_error progress, jp_result = job_result_str job\<rparr>)"

definition client_create_job :: "'j job_stub \<Rightarrow> string \<Rightarrow> string \<Rightarrow> ('j, aes_error, job_ref) comp" where
  "client_create_job stub tenant_id input =
     bindS (client_call (stub_CreateJob stub (aes_md tenant_id)
       \<lparr>cj_type = 1, cj_spec = Agent_Execution_Spec \<lparr>ae_name = [], ae_instructions = input,
          ae_llm_config = None, ae_tool_config = None\<rparr>, cj_max_attempts = None, cj_max_retries = None\<rparr>))
     (\<lambda>job. returnS (to_ref job))"

definition first_job :: "string \<Rightarrow> proto_job list \<Rightarrow> aes_error + proto_job" where
  "first_job job_id jobs =
     (case jobs of
        [] \<Rightarrow> Inl (Aes_Not_Found (''job_svc: job '' @ job_id @ '' not found''))
      | job # _ \<Rightarrow> Inr job)"

definition client_get :: "'j job_stub \<Rightarrow> string \<Rightarrow> string \<Rightarrow> ('j, aes_error, proto_job) comp" where
  "client_get stub tenant_id job_id =
     bindS (client_call (stub_GetJob stub (aes_md tenant_id)
       \<lparr>gj_ids = [job_id], gj_statuses = [], gj_types = []\<rparr>))
     (\<lambda>jobs. liftS (first_job job_id jobs))"

definition client_get_job :: "'j job_stub \<Rightarrow> string \<Rightarrow> string \<Rightarrow> ('j, aes_error, job_ref) comp" where
  "client_get_job stub tenant_id job_id =
     bindS (client_get stub tenant_id job_id) (\<lambda>job. returnS (to_ref job))"

definition client_start_job :: "'j job_stub \<Rightarrow> string \<Rightarrow> string \<Rightarrow> ('j, aes_error, job_ref) comp" where
  "client_start_job stub tenant_id job_id =
     bindS (client_call (stub_UpdateJob stub (aes_md tenant_id) job_id 1)) (\<lambda>job. returnS (to_ref job))"

definition client_retry_job :: "'j job_stub \<Rightarrow> string \<Rightarrow> string \<Rightarrow> ('j, aes_error, job_ref) comp" where
  "client_retry_job stub tenant_id job_id =
     bindS (client_call (stub_RetryJob stub (aes_md tenant_id) job_id)) (\<lambda>job. returnS (to_ref job))"

definition client_get_job_progress ::
    "'j job_stub \<Rightarrow> string \<Rightarrow> string \<Rightarrow> ('j, aes_error, job_progress_ref) comp" where
  "client_get_job_progress stub tenant_id job_id =
     bindS (client_get stub tenant_id job_id) (\<lambda>job. returnS (to_progress_ref job))"

definition job_client :: "'j job_stub \<Rightarrow> 'j job_gateway" where
  "job_client stub = \<lparr>gw_create_job = client_create_job stub, gw_get_job = client_get_job stub,
     gw_start_job = client_start_job stub, gw_retry_job = client_retry_job stub,
     gw_get_job_progress = client_get_job_progress stub\<rparr>"

lemma client_call_apply [monad_simps]:
  "client_call call j = (case call j of
       (Inl (code, details), j') \<Rightarrow> (Inl (error_by_code code (''job_svc: '' @ details)), j')
     | (Inr response, j') \<Rightarrow> (Inr response, j'))"
  by (simp add: client_call_def)

lemma error_by_code_is_app [simp]:
  "aes_is_app_error (error_by_code c m)" "aes_is_app_error (Aes_Not_Found m)"
  by (cases c) (simp_all add: aes_is_app_error_def)

section \<open>The contract of the gateway\<close>

text \<open>
  \<open>view t k j\<close> is what tenant \<open>t\<close> can read of job \<open>k\<close> in the state \<open>j\<close> of the job
  side. A read answers with the view; a mutation answers with the view it leaves behind, and a
  refused mutation changes nothing.
\<close>

locale task_backend =
  fixes gw :: "'j job_gateway" and inv :: "'j \<Rightarrow> bool" and view :: "string \<Rightarrow> string \<Rightarrow> 'j \<Rightarrow> job_ref option"
  assumes get_job_law: "inv j \<Longrightarrow> view t k j = Some r \<Longrightarrow> gw_get_job gw t k j = (Inr r, j)"
    and get_job_none: "inv j \<Longrightarrow> view t k j = None \<Longrightarrow>
      \<exists>e. gw_get_job gw t k j = (Inl e, j) \<and> aes_is_app_error e"
    and create_law: "inv j \<Longrightarrow> gw_create_job gw t input j = (Inr r, j') \<Longrightarrow>
      inv j' \<and> view t (jr_id r) j = None \<and> view t (jr_id r) j' = Some r"
    and create_fails: "inv j \<Longrightarrow> gw_create_job gw t input j = (Inl e, j') \<Longrightarrow> j' = j"
    and start_law: "inv j \<Longrightarrow> gw_start_job gw t k j = (Inr r, j') \<Longrightarrow> inv j' \<and> view t k j' = Some r"
    and start_fails: "inv j \<Longrightarrow> gw_start_job gw t k j = (Inl e, j') \<Longrightarrow> j' = j"
    and retry_law: "inv j \<Longrightarrow> gw_retry_job gw t k j = (Inr r, j') \<Longrightarrow> inv j' \<and> view t k j' = Some r"
    and retry_fails: "inv j \<Longrightarrow> gw_retry_job gw t k j = (Inl e, j') \<Longrightarrow> j' = j"

section \<open>The handlers of job_svc as the stub\<close>

definition job_svc_stub ::
    "protobuf \<Rightarrow> job_service \<Rightarrow> (job_db \<Rightarrow> string) \<Rightarrow> clock \<Rightarrow> job_db job_stub" where
  "job_svc_stub pb svc fresh now =
     \<lparr>stub_CreateJob = (\<lambda>md request db. CreateJob pb svc (fresh db) now md request db),
      stub_GetJob = GetJob pb, stub_UpdateJob = UpdateJob pb now, stub_RetryJob = RetryJob pb now\<rparr>"

text \<open>
  The states the contract speaks of: ids are unique and not blank, every row can be rendered as
  a message, fresh ids are fresh, and the library parses the dictionaries it wrote.
\<close>

definition renderable :: "protobuf \<Rightarrow> job_row \<Rightarrow> bool" where
  "renderable pb r \<longleftrightarrow> (\<exists>pj. job_to_proto pb r = Inr pj)"

definition job_side_ok :: "protobuf \<Rightarrow> (job_db \<Rightarrow> string) \<Rightarrow> job_db \<Rightarrow> bool" where
  "job_side_ok pb fresh db \<longleftrightarrow> distinct (map j_id db) \<and>
     (\<forall>r \<in> set db. renderable pb r \<and> \<not> py_blank (j_id r) \<and> j_tenant_id r \<noteq> []) \<and>
     (\<forall>db. fresh db \<notin> set (map j_id db) \<and> \<not> py_blank (fresh db)) \<and>
     (\<forall>spec. \<exists>spec'. parse_dict pb (message_to_dict pb spec) = Inr spec')"

definition job_view :: "protobuf \<Rightarrow> string \<Rightarrow> string \<Rightarrow> job_db \<Rightarrow> job_ref option" where
  "job_view pb t k db =
     (case get_row j_id k db of
        None \<Rightarrow> None
      | Some r \<Rightarrow> if j_tenant_id r \<noteq> t then None
          else (case job_to_proto pb r of Inl _ \<Rightarrow> None | Inr pj \<Rightarrow> Some (to_ref pj)))"

lemma job_get_one:
  "distinct (map j_id db) \<Longrightarrow> job_get t [k] [] [] db =
     (case get_row j_id k db of None \<Rightarrow> [] | Some r \<Rightarrow> if j_tenant_id r = t then [r] else [])"
proof (induction db)
  case (Cons x xs)
  have "j_id r \<noteq> j_id x" if "r \<in> set xs" for r
    using Cons.prems that by (auto simp: image_iff)
  then have "filter (\<lambda>r. j_tenant_id r = t \<and> j_id r = j_id x) xs = []"
    "filter (\<lambda>r. j_id r = j_id x \<and> j_tenant_id r = t) xs = []"
    by (auto simp: filter_empty_conv)
  with Cons show ?case by (auto simp: job_get_def Let_def select_where_def)
qed (simp add: job_get_def select_where_def)

lemma job_side_row:
  assumes "job_side_ok pb fresh db" and "get_row j_id k db = Some r"
  shows "\<not> py_blank k \<and> j_tenant_id r \<noteq> [] \<and> (\<exists>pj. job_to_proto pb r = Inr pj)"
  using assms by (auto simp: job_side_ok_def renderable_def dest: get_row_Some)

lemma job_view_iff:
  assumes "job_side_ok pb fresh db"
  shows "job_view pb t k db = Some v \<longleftrightarrow>
    (\<exists>r pj. get_row j_id k db = Some r \<and> j_tenant_id r = t \<and> job_to_proto pb r = Inr pj \<and> v = to_ref pj)"
  by (auto simp: job_view_def split: option.splits sum.splits)

lemma tenant_id_aes_md:
  "tenant_id_from_metadata (aes_md t) =
     (if t = [] then Inl (AuthenticationError ''missing x-tenant-id metadata'') else Inr t)"
  by (simp add: tenant_id_from_metadata_def aes_md_def)

lemma client_get_spec:
  assumes "job_side_ok pb fresh db"
  shows "case get_row j_id k db of
      None \<Rightarrow> \<exists>e. client_get (job_svc_stub pb svc fresh now) t k db = (Inl e, db) \<and> aes_is_app_error e
    | Some r \<Rightarrow>
        if j_tenant_id r = t
        then \<exists>pj. job_to_proto pb r = Inr pj \<and> client_get (job_svc_stub pb svc fresh now) t k db = (Inr pj, db)
        else \<exists>e. client_get (job_svc_stub pb svc fresh now) t k db = (Inl e, db) \<and> aes_is_app_error e"
proof -
  have d: "distinct (map j_id db)" using assms by (simp add: job_side_ok_def)
  show ?thesis
    using job_side_row [OF assms, of k]
    by (auto simp: client_get_def client_call_def job_svc_stub_def GetJob_def tenant_id_aes_md monad_simps
        validate_filter_ids_def max_filter_ids_def job_get_one [OF d] first_job_def split_beta
        split: option.splits sum.splits prod.splits if_splits)
qed

lemma renderable_rewrite:
  assumes "renderable pb r" and "job_identity r' = job_identity r" and "j_progress r' = j_progress r"
    and "j_status r' \<in> set job_statuses"
  shows "renderable pb r'"
  using assms status_round_trip [OF assms(4)]
  by (auto simp: renderable_def job_to_proto_def job_identity_def split: option.splits sum.splits)

definition guarded_rpc ::
    "protobuf \<Rightarrow> string \<Rightarrow> string \<Rightarrow> string list \<Rightarrow> (job_row \<Rightarrow> job_row) \<Rightarrow> (job_db, rpc_error, proto_job) comp" where
  "guarded_rpc pb t k allowed upd =
     job_handle_errors (bindS (guarded_update t k allowed upd) (\<lambda>row. liftS (job_to_proto pb row)))"

context job_rewrite
begin

lemma guarded_rpc_law:
  assumes ok: "job_side_ok pb fresh db" and p: "\<And>r. j_progress (upd r) = j_progress r"
    and s: "\<And>r. j_status (upd r) \<in> set job_statuses"
  shows "case client_call (guarded_rpc pb t k allowed upd) db of
      (Inl e, db') \<Rightarrow> db' = db
    | (Inr pj, db') \<Rightarrow> job_side_ok pb fresh db' \<and> job_view pb t k db' = Some (to_ref pj)"
proof -
  have d: "distinct (map j_id db)" using ok by (simp add: job_side_ok_def)
  show ?thesis
  proof (cases "\<exists>r. get_row j_id k db = Some r \<and> j_tenant_id r = t \<and> j_status r \<in> set allowed")
    case False
    then have "\<exists>e. guarded_update t k allowed upd db = (Inl e, db)"
      by (auto simp: guarded_update_spec [OF d] split: option.splits)
    then obtain e where "guarded_update t k allowed upd db = (Inl e, db)" ..
    then show ?thesis
      by (simp add: guarded_rpc_def client_call_def job_handle_errors_def bindS_def split_beta)
  next
    case True
    then obtain r where r: "get_row j_id k db = Some r" "j_tenant_id r = t" "j_status r \<in> set allowed" by blast
    let ?db = "update_rows (\<lambda>r. j_id r = k) upd db"
    have ren: "renderable pb (upd x)" if "x \<in> set db" for x
    proof (rule renderable_rewrite [OF _ identity_upd p s])
      show "renderable pb x" using that ok by (simp add: job_side_ok_def)
    qed
    have "r \<in> set db" using r(1) by (auto dest: get_row_Some)
    with ren obtain pj where pj: "job_to_proto pb (upd r) = Inr pj" by (auto simp: renderable_def)
    have same: "j_id (upd x) = j_id x" "j_tenant_id (upd x) = j_tenant_id x" for x
      using identity_upd [of x] by (simp_all add: job_identity_def)
    have ok': "job_side_ok pb fresh ?db"
      using ok ren same by (auto simp: job_side_ok_def keys_update in_update_rows)
    have "get_row j_id k ?db = Some (upd r)"
      using r(1) by (auto simp: get_row_update dest: get_row_Some)
    with pj r(2) same have "job_view pb t k ?db = Some (to_ref pj)" by (simp add: job_view_def)
    with ok' r pj show ?thesis
      by (simp add: guarded_rpc_def client_call_def job_handle_errors_def bindS_def guarded_update_spec [OF d])
  qed
qed

end

lemma stub_RetryJob_guarded:
  "stub_RetryJob (job_svc_stub pb svc fresh now) (aes_md t) k =
     (if t = [] \<or> py_blank k then (\<lambda>db. (Inl (if t = [] then (UNAUTHENTICATED, ''missing x-tenant-id metadata'')
         else (INVALID_ARGUMENT, ''id must not be empty'')), db))
      else guarded_rpc pb t k [''failed''] (retry_values (now 0)))"
  by (auto simp: fun_eq_iff job_svc_stub_def RetryJob_def tenant_id_aes_md monad_simps validate_job_id_def
      job_abort_def is_app_error_def job_status_by_error_def guarded_rpc_def job_retry_def)

lemma stub_UpdateJob_guarded:
  "stub_UpdateJob (job_svc_stub pb svc fresh now) (aes_md t) k 1 =
     (if t = [] \<or> py_blank k then (\<lambda>db. (Inl (if t = [] then (UNAUTHENTICATED, ''missing x-tenant-id metadata'')
         else (INVALID_ARGUMENT, ''id must not be empty'')), db))
      else guarded_rpc pb t k [''failed'', ''dead'', ''cancelled'', ''waiting_approval'']
        (overwrite_values (now 0) ''queued''))"
  by (auto simp: fun_eq_iff job_svc_stub_def UpdateJob_def tenant_id_aes_md monad_simps validate_job_id_def
      job_abort_def is_app_error_def job_status_by_error_def guarded_rpc_def job_update_def allowed_entry_def
      validate_status_def status_from_proto_def status_to_proto_def)

lemma client_guarded:
  assumes "\<And>j. case client_call m j of (Inl e, j') \<Rightarrow> j' = j | (Inr pj, j') \<Rightarrow> P j j' pj"
  shows "bindS (client_call m) (\<lambda>job. returnS (to_ref job)) j = (Inl e, j') \<Longrightarrow> j' = j"
    and "bindS (client_call m) (\<lambda>job. returnS (to_ref job)) j = (Inr r, j') \<Longrightarrow>
      \<exists>pj. r = to_ref pj \<and> P j j' pj"
  using assms [of j] by (auto simp: bindS_def split: prod.splits sum.splits)

lemma client_guarded_stub:
  assumes "job_side_ok pb fresh db" and "job_rewrite upd" and "\<And>r. j_progress (upd r) = j_progress r"
    and "\<And>r. j_status (upd r) \<in> set job_statuses"
    and "stub = (if C then (\<lambda>db. (Inl e, db)) else guarded_rpc pb t k allowed upd)"
  shows "bindS (client_call stub) (\<lambda>job. returnS (to_ref job)) db = (Inl e', db') \<Longrightarrow> db' = db"
    and "bindS (client_call stub) (\<lambda>job. returnS (to_ref job)) db = (Inr r, db') \<Longrightarrow>
      job_side_ok pb fresh db' \<and> job_view pb t k db' = Some r"
  using job_rewrite.guarded_rpc_law [OF assms(2,1,3,4), of t k allowed] unfolding assms(5)
  by (auto simp: bindS_def client_call_apply split_beta split: prod.splits sum.splits if_splits)

lemma client_create_law:
  assumes ok: "job_side_ok pb fresh db"
  shows "case client_create_job (job_svc_stub pb svc fresh now) t input db of
      (Inl e, db') \<Rightarrow> db' = db
    | (Inr r, db') \<Rightarrow> job_side_ok pb fresh db' \<and> job_view pb t (jr_id r) db = None \<and>
        job_view pb t (jr_id r) db' = Some r"
proof -
  let ?spec = "Agent_Execution_Spec \<lparr>ae_name = [], ae_instructions = input,
          ae_llm_config = None, ae_tool_config = None\<rparr>"
  have new: "fresh db \<notin> j_id ` set db" "\<not> py_blank (fresh db)" using ok by (auto simp: job_side_ok_def)
  obtain spec' where spec': "parse_dict pb (message_to_dict pb ?spec) = Inr spec'"
    using ok unfolding job_side_ok_def by blast
  let ?row = "\<lparr>j_id = fresh db, j_tenant_id = t, j_type = ''agent_execution'', j_spec = message_to_dict pb ?spec,
                j_status = ''queued'', j_attempts = 0, j_max_attempts = svc_default_max_attempts svc,
                j_retry_count = 0, j_max_retries = svc_default_max_retries svc,
                j_progress = empty_progress, j_locked_at = None, j_locked_by = None,
                j_created_at = now 0, j_updated_at = now (Suc 0)\<rparr>"
  obtain pj where pj: "job_to_proto pb ?row = Inr pj"
    using spec' by (simp add: job_to_proto_def type_to_proto_def status_to_proto_def progress_to_proto_def
        empty_progress_def)
  have id: "pj_id pj = fresh db"
    using pj by (auto simp: job_to_proto_def split: option.splits sum.splits)
  have none: "get_row j_id (fresh db) db = None" using new(1) by (simp add: get_row_None)
  show ?thesis
  proof (cases "t = [] \<or> py_strip input = []")
    case True
    then show ?thesis
      by (auto simp: client_create_job_def job_svc_stub_def CreateJob_def monad_simps tenant_id_aes_md
          validate_type_def type_from_proto_def type_to_proto_def creatable_types_def validate_spec_def split_beta)
  next
    case False
    have e: "client_create_job (job_svc_stub pb svc fresh now) t input db = (Inr (to_ref pj), db @ [?row])"
      using False new(1) pj
      by (simp add: client_create_job_def job_svc_stub_def CreateJob_def monad_simps tenant_id_aes_md
          validate_type_def type_from_proto_def type_to_proto_def creatable_types_def validate_spec_def
          validate_max_attempts_def validate_max_retries_def job_create_def Let_def insert_row_def)
    have "job_side_ok pb fresh (db @ [?row])"
      using ok new False pj by (simp add: job_side_ok_def renderable_def)
    moreover have "get_row j_id (fresh db) (db @ [?row]) = Some ?row"
      using new(1) get_row_insert [of j_id ?row db "fresh db"] by (simp add: insert_row_def)
    ultimately show ?thesis
      using none pj id by (simp add: e job_view_def to_ref_def)
  qed
qed

interpretation job_svc: task_backend "job_client (job_svc_stub pb svc fresh jnow)" "job_side_ok pb fresh" "job_view pb"
  for pb svc fresh jnow
proof
  let ?gw = "job_client (job_svc_stub pb svc fresh jnow)"
  fix db db' t k r e input
  assume ok: "job_side_ok pb fresh db"
  note read = client_get_spec [OF ok, where k = k and svc = svc and now = jnow and t = t]
  { assume "job_view pb t k db = Some r"
    with read show "gw_get_job ?gw t k db = (Inr r, db)"
      by (auto simp: job_client_def client_get_job_def bindS_def job_view_def split: option.splits if_splits)
  next
    assume "job_view pb t k db = None"
    with read show "\<exists>e. gw_get_job ?gw t k db = (Inl e, db) \<and> aes_is_app_error e"
      by (auto simp: job_client_def client_get_job_def bindS_def job_view_def split: option.splits if_splits)
  next
    assume "gw_create_job ?gw t input db = (Inr r, db')"
    with client_create_law [OF ok, where svc = svc and now = jnow and t = t and input = input]
    show "job_side_ok pb fresh db' \<and> job_view pb t (jr_id r) db = None \<and> job_view pb t (jr_id r) db' = Some r"
      by (simp add: job_client_def)
  next
    assume "gw_create_job ?gw t input db = (Inl e, db')"
    with client_create_law [OF ok, where svc = svc and now = jnow and t = t and input = input] show "db' = db" by (simp add: job_client_def)
  next
    assume "gw_start_job ?gw t k db = (Inr r, db')"
    then show "job_side_ok pb fresh db' \<and> job_view pb t k db' = Some r"
      by (intro client_guarded_stub(2) [OF ok overwrite.job_rewrite_axioms _ _ stub_UpdateJob_guarded])
        (simp_all add: job_client_def client_start_job_def job_statuses_def)
  next
    assume "gw_start_job ?gw t k db = (Inl e, db')"
    then show "db' = db"
      by (intro client_guarded_stub(1) [OF ok overwrite.job_rewrite_axioms _ _ stub_UpdateJob_guarded])
        (simp_all add: job_client_def client_start_job_def job_statuses_def)
  next
    assume "gw_retry_job ?gw t k db = (Inr r, db')"
    then show "job_side_ok pb fresh db' \<and> job_view pb t k db' = Some r"
      by (intro client_guarded_stub(2) [OF ok retry.job_rewrite_axioms _ _ stub_RetryJob_guarded])
        (simp_all add: job_client_def client_retry_job_def job_statuses_def retry_values_def)
  next
    assume "gw_retry_job ?gw t k db = (Inl e, db')"
    then show "db' = db"
      by (intro client_guarded_stub(1) [OF ok retry.job_rewrite_axioms _ _ stub_RetryJob_guarded])
        (simp_all add: job_client_def client_retry_job_def job_statuses_def retry_values_def)
  }
qed

end
