(* ===== verification/Grpc_Services.thy ===== *)
theory Grpc_Services
  imports Aes_Jobs
begin

text \<open>
  The gRPC surfaces as the generated modules (\<open>service_pb2_grpc.py\<close>) declare them: of each link
  between two services, the stub the client's copy builds over a channel, the base servicer and
  the handler table the server's copy registers. What the gRPC library does with them (it routes
  a call by its path) and what the message classes do (they serialise and parse) are stated
  once. The theorems: every stub method reaches the server's method of the same name, nothing
  else is served, and the stub of \<open>JobClient\<close> over the wire is the stub the model of
  \<open>agent_execution_service\<close> uses. The lazily opened channels of the clients are here too.
\<close>

section \<open>Methods, handlers and channels\<close>

text \<open>A method of a stub: its path and the message classes of its request and response.\<close>

record rpc_method =
  mt_path :: string
  mt_request :: string
  mt_response :: string

type_synonym ('s, 'm) behaviour = "metadata \<Rightarrow> 'm \<Rightarrow> ('s, rpc_error, 'm) comp"

record ('s, 'm) rpc_handler =
  hd_behaviour :: "('s, 'm) behaviour"
  hd_request :: string
  hd_response :: string

type_synonym ('s, 'm) servicer = "string \<Rightarrow> ('s, 'm) behaviour"

type_synonym ('s, 'm) handlers = "string \<times> (string \<times> ('s, 'm) rpc_handler) list"

text \<open>\<open>SerializeToString\<close> and \<open>FromString\<close> of the message class with a given name.\<close>

record ('m, 'b) wire =
  wi_serialize :: "string \<Rightarrow> 'm \<Rightarrow> 'b"
  wi_parse :: "string \<Rightarrow> 'b \<Rightarrow> 'm option"

text \<open>A server routes a call by its path, \<open>/service/method\<close>.\<close>

definition find_handler :: "('s, 'm) handlers list \<Rightarrow> string \<Rightarrow> ('s, 'm) rpc_handler option" where
  "find_handler tables path =
     map_of (concat (map (\<lambda>(service, hs). map (\<lambda>(name, h). (''/'' @ service @ ''/'' @ name, h)) hs) tables)) path"

definition server_call ::
    "('m, 'b) wire \<Rightarrow> ('s, 'm) handlers list \<Rightarrow> string \<Rightarrow> metadata \<Rightarrow> 'b \<Rightarrow> ('s, rpc_error, 'b) comp" where
  "server_call wire tables path mdata bytes =
     (case find_handler tables path of
        None \<Rightarrow> raiseS (UNIMPLEMENTED, ''Method not found!'')
      | Some h \<Rightarrow>
          (case wi_parse wire (hd_request h) bytes of
             None \<Rightarrow> raiseS (INTERNAL, ''Exception deserializing request!'')
           | Some request \<Rightarrow>
               bindS (hd_behaviour h mdata request) (\<lambda>response.
               returnS (wi_serialize wire (hd_response h) response))))"

text \<open>\<open>channel.unary_unary\<close>: the callable a stub holds for a method.\<close>

definition unary_unary ::
    "('m, 'b) wire \<Rightarrow> ('s, 'm) handlers list \<Rightarrow> rpc_method \<Rightarrow> ('s, 'm) behaviour" where
  "unary_unary wire tables m mdata request =
     bindS (server_call wire tables (mt_path m) mdata (wi_serialize wire (mt_request m) request)) (\<lambda>bytes.
     case wi_parse wire (mt_response m) bytes of
       None \<Rightarrow> raiseS (INTERNAL, ''Exception deserializing response!'')
     | Some response \<Rightarrow> returnS response)"

text \<open>A method the derived servicer does not override.\<close>

definition unimplemented :: "('s, 'm) behaviour" where
  "unimplemented mdata request = raiseS (UNIMPLEMENTED, ''Method not implemented!'')"

definition derived :: "('s, 'm) servicer \<Rightarrow> (string \<times> ('s, 'm) behaviour) list \<Rightarrow> ('s, 'm) servicer" where
  "derived base overrides name = (case map_of overrides name of None \<Rightarrow> base name | Some f \<Rightarrow> f)"

section \<open>The job service\<close>

definition JobServiceStub :: "(string \<times> rpc_method) list" where
  "JobServiceStub =
     [(''CreateJob'', \<lparr>mt_path = ''/aep.job.v1.JobService/CreateJob'',
        mt_request = ''CreateJobRequest'', mt_response = ''CreateJobResponse''\<rparr>),
      (''GetJob'', \<lparr>mt_path = ''/aep.job.v1.JobService/GetJob'',
        mt_request = ''GetJobRequest'', mt_response = ''GetJobResponse''\<rparr>),
      (''UpdateJob'', \<lparr>mt_path = ''/aep.job.v1.JobService/UpdateJob'',
        mt_request = ''UpdateJobRequest'', mt_response = ''UpdateJobResponse''\<rparr>),
      (''RetryJob'', \<lparr>mt_path = ''/aep.job.v1.JobService/RetryJob'',
        mt_request = ''RetryJobRequest'', mt_response = ''RetryJobResponse''\<rparr>)]"

definition JobServiceServicer :: "(string \<times> ('s, 'm) behaviour) list" where
  "JobServiceServicer =
     [(''CreateJob'', unimplemented), (''GetJob'', unimplemented), (''UpdateJob'', unimplemented),
      (''RetryJob'', unimplemented)]"

definition add_JobServiceServicer_to_server :: "('s, 'm) servicer \<Rightarrow> ('s, 'm) handlers" where
  "add_JobServiceServicer_to_server servicer =
     (''aep.job.v1.JobService'',
      [(''CreateJob'', \<lparr>hd_behaviour = servicer ''CreateJob'',
         hd_request = ''CreateJobRequest'', hd_response = ''CreateJobResponse''\<rparr>),
       (''GetJob'', \<lparr>hd_behaviour = servicer ''GetJob'',
         hd_request = ''GetJobRequest'', hd_response = ''GetJobResponse''\<rparr>),
       (''UpdateJob'', \<lparr>hd_behaviour = servicer ''UpdateJob'',
         hd_request = ''UpdateJobRequest'', hd_response = ''UpdateJobResponse''\<rparr>),
       (''RetryJob'', \<lparr>hd_behaviour = servicer ''RetryJob'',
         hd_request = ''RetryJobRequest'', hd_response = ''RetryJobResponse''\<rparr>)])"

section \<open>The orchestrator service\<close>

definition OrchestratorServiceStub :: "(string \<times> rpc_method) list" where
  "OrchestratorServiceStub =
     [(''Chat'', \<lparr>mt_path = ''/aep.orchestrator.v1.OrchestratorService/Chat'',
        mt_request = ''ChatRequest'', mt_response = ''ChatResponse''\<rparr>)]"

definition OrchestratorServiceServicer :: "(string \<times> ('s, 'm) behaviour) list" where
  "OrchestratorServiceServicer = [(''Chat'', unimplemented)]"

definition add_OrchestratorServiceServicer_to_server :: "('s, 'm) servicer \<Rightarrow> ('s, 'm) handlers" where
  "add_OrchestratorServiceServicer_to_server servicer =
     (''aep.orchestrator.v1.OrchestratorService'',
      [(''Chat'', \<lparr>hd_behaviour = servicer ''Chat'', hd_request = ''ChatRequest'', hd_response = ''ChatResponse''\<rparr>)])"

section \<open>The gateway service\<close>

definition GatewayServiceStub :: "(string \<times> rpc_method) list" where
  "GatewayServiceStub =
     [(''Chat'', \<lparr>mt_path = ''/aep.gateway.v1.GatewayService/Chat'',
        mt_request = ''ChatRequest'', mt_response = ''ChatResponse''\<rparr>)]"

definition GatewayServiceServicer :: "(string \<times> ('s, 'm) behaviour) list" where
  "GatewayServiceServicer = [(''Chat'', unimplemented)]"

definition add_GatewayServiceServicer_to_server :: "('s, 'm) servicer \<Rightarrow> ('s, 'm) handlers" where
  "add_GatewayServiceServicer_to_server servicer =
     (''aep.gateway.v1.GatewayService'',
      [(''Chat'', \<lparr>hd_behaviour = servicer ''Chat'', hd_request = ''ChatRequest'', hd_response = ''ChatResponse''\<rparr>)])"

section \<open>The agent execution service\<close>

definition AgentExecutionServiceStub :: "(string \<times> rpc_method) list" where
  "AgentExecutionServiceStub =
     [(''CreateTool'', \<lparr>mt_path = ''/aep.agent_execution.v1.AgentExecutionService/CreateTool'',
        mt_request = ''CreateToolRequest'', mt_response = ''CreateToolResponse''\<rparr>),
      (''GetTool'', \<lparr>mt_path = ''/aep.agent_execution.v1.AgentExecutionService/GetTool'',
        mt_request = ''GetToolRequest'', mt_response = ''GetToolResponse''\<rparr>),
      (''UpdateTool'', \<lparr>mt_path = ''/aep.agent_execution.v1.AgentExecutionService/UpdateTool'',
        mt_request = ''UpdateToolRequest'', mt_response = ''UpdateToolResponse''\<rparr>),
      (''DeleteTool'', \<lparr>mt_path = ''/aep.agent_execution.v1.AgentExecutionService/DeleteTool'',
        mt_request = ''DeleteToolRequest'', mt_response = ''DeleteToolResponse''\<rparr>),
      (''CreateAgent'', \<lparr>mt_path = ''/aep.agent_execution.v1.AgentExecutionService/CreateAgent'',
        mt_request = ''CreateAgentRequest'', mt_response = ''CreateAgentResponse''\<rparr>),
      (''GetAgent'', \<lparr>mt_path = ''/aep.agent_execution.v1.AgentExecutionService/GetAgent'',
        mt_request = ''GetAgentRequest'', mt_response = ''GetAgentResponse''\<rparr>),
      (''UpdateAgent'', \<lparr>mt_path = ''/aep.agent_execution.v1.AgentExecutionService/UpdateAgent'',
        mt_request = ''UpdateAgentRequest'', mt_response = ''UpdateAgentResponse''\<rparr>),
      (''DeleteAgent'', \<lparr>mt_path = ''/aep.agent_execution.v1.AgentExecutionService/DeleteAgent'',
        mt_request = ''DeleteAgentRequest'', mt_response = ''DeleteAgentResponse''\<rparr>),
      (''CreateTask'', \<lparr>mt_path = ''/aep.agent_execution.v1.AgentExecutionService/CreateTask'',
        mt_request = ''CreateTaskRequest'', mt_response = ''CreateTaskResponse''\<rparr>),
      (''GetTask'', \<lparr>mt_path = ''/aep.agent_execution.v1.AgentExecutionService/GetTask'',
        mt_request = ''GetTaskRequest'', mt_response = ''GetTaskResponse''\<rparr>),
      (''ApproveTask'', \<lparr>mt_path = ''/aep.agent_execution.v1.AgentExecutionService/ApproveTask'',
        mt_request = ''ApproveTaskRequest'', mt_response = ''ApproveTaskResponse''\<rparr>),
      (''RetryTask'', \<lparr>mt_path = ''/aep.agent_execution.v1.AgentExecutionService/RetryTask'',
        mt_request = ''RetryTaskRequest'', mt_response = ''RetryTaskResponse''\<rparr>),
      (''GetTaskProgress'', \<lparr>mt_path = ''/aep.agent_execution.v1.AgentExecutionService/GetTaskProgress'',
        mt_request = ''GetTaskProgressRequest'', mt_response = ''GetTaskProgressResponse''\<rparr>)]"

definition AgentExecutionServiceServicer :: "(string \<times> ('s, 'm) behaviour) list" where
  "AgentExecutionServiceServicer =
     [(''CreateTool'', unimplemented),
      (''GetTool'', unimplemented),
      (''UpdateTool'', unimplemented),
      (''DeleteTool'', unimplemented),
      (''CreateAgent'', unimplemented),
      (''GetAgent'', unimplemented),
      (''UpdateAgent'', unimplemented),
      (''DeleteAgent'', unimplemented),
      (''CreateTask'', unimplemented),
      (''GetTask'', unimplemented),
      (''ApproveTask'', unimplemented),
      (''RetryTask'', unimplemented),
      (''GetTaskProgress'', unimplemented)]"

definition add_AgentExecutionServiceServicer_to_server :: "('s, 'm) servicer \<Rightarrow> ('s, 'm) handlers" where
  "add_AgentExecutionServiceServicer_to_server servicer =
     (''aep.agent_execution.v1.AgentExecutionService'',
      [(''CreateTool'', \<lparr>hd_behaviour = servicer ''CreateTool'',
         hd_request = ''CreateToolRequest'', hd_response = ''CreateToolResponse''\<rparr>),
       (''GetTool'', \<lparr>hd_behaviour = servicer ''GetTool'',
         hd_request = ''GetToolRequest'', hd_response = ''GetToolResponse''\<rparr>),
       (''UpdateTool'', \<lparr>hd_behaviour = servicer ''UpdateTool'',
         hd_request = ''UpdateToolRequest'', hd_response = ''UpdateToolResponse''\<rparr>),
       (''DeleteTool'', \<lparr>hd_behaviour = servicer ''DeleteTool'',
         hd_request = ''DeleteToolRequest'', hd_response = ''DeleteToolResponse''\<rparr>),
       (''CreateAgent'', \<lparr>hd_behaviour = servicer ''CreateAgent'',
         hd_request = ''CreateAgentRequest'', hd_response = ''CreateAgentResponse''\<rparr>),
       (''GetAgent'', \<lparr>hd_behaviour = servicer ''GetAgent'',
         hd_request = ''GetAgentRequest'', hd_response = ''GetAgentResponse''\<rparr>),
       (''UpdateAgent'', \<lparr>hd_behaviour = servicer ''UpdateAgent'',
         hd_request = ''UpdateAgentRequest'', hd_response = ''UpdateAgentResponse''\<rparr>),
       (''DeleteAgent'', \<lparr>hd_behaviour = servicer ''DeleteAgent'',
         hd_request = ''DeleteAgentRequest'', hd_response = ''DeleteAgentResponse''\<rparr>),
       (''CreateTask'', \<lparr>hd_behaviour = servicer ''CreateTask'',
         hd_request = ''CreateTaskRequest'', hd_response = ''CreateTaskResponse''\<rparr>),
       (''GetTask'', \<lparr>hd_behaviour = servicer ''GetTask'',
         hd_request = ''GetTaskRequest'', hd_response = ''GetTaskResponse''\<rparr>),
       (''ApproveTask'', \<lparr>hd_behaviour = servicer ''ApproveTask'',
         hd_request = ''ApproveTaskRequest'', hd_response = ''ApproveTaskResponse''\<rparr>),
       (''RetryTask'', \<lparr>hd_behaviour = servicer ''RetryTask'',
         hd_request = ''RetryTaskRequest'', hd_response = ''RetryTaskResponse''\<rparr>),
       (''GetTaskProgress'', \<lparr>hd_behaviour = servicer ''GetTaskProgress'',
         hd_request = ''GetTaskProgressRequest'', hd_response = ''GetTaskProgressResponse''\<rparr>)])"

section \<open>JobServicer behind the wire\<close>

text \<open>The messages of the job service, one constructor per class (the two job answers share one).\<close>

datatype job_message =
    M_Create create_job_request
  | M_Get get_job_request
  | M_Update string int
  | M_Retry string
  | M_Job proto_job
  | M_Jobs "proto_job list"

definition base_servicer :: "(string \<times> ('s, 'm) behaviour) list \<Rightarrow> ('s, 'm) servicer" where
  "base_servicer methods name = (case map_of methods name of None \<Rightarrow> unimplemented | Some f \<Rightarrow> f)"

definition JobServicer ::
    "protobuf \<Rightarrow> job_service \<Rightarrow> (job_db \<Rightarrow> string) \<Rightarrow> clock \<Rightarrow> (job_db, job_message) servicer" where
  "JobServicer pb svc fresh now = derived (base_servicer JobServiceServicer)
     [(''CreateJob'', \<lambda>mdata m. case m of
         M_Create request \<Rightarrow>
           bindS (\<lambda>db. CreateJob pb svc (fresh db) now mdata request db) (\<lambda>job. returnS (M_Job job))
       | _ \<Rightarrow> unimplemented mdata m),
      (''GetJob'', \<lambda>mdata m. case m of
         M_Get request \<Rightarrow> bindS (GetJob pb mdata request) (\<lambda>jobs. returnS (M_Jobs jobs))
       | _ \<Rightarrow> unimplemented mdata m),
      (''UpdateJob'', \<lambda>mdata m. case m of
         M_Update jid status \<Rightarrow> bindS (UpdateJob pb now mdata jid status) (\<lambda>job. returnS (M_Job job))
       | _ \<Rightarrow> unimplemented mdata m),
      (''RetryJob'', \<lambda>mdata m. case m of
         M_Retry jid \<Rightarrow> bindS (RetryJob pb now mdata jid) (\<lambda>job. returnS (M_Job job))
       | _ \<Rightarrow> unimplemented mdata m)]"

text \<open>A method of a stub, called over a channel to a server with the given handler tables.\<close>

definition stub_method ::
    "('m, 'b) wire \<Rightarrow> ('s, 'm) handlers list \<Rightarrow> (string \<times> rpc_method) list \<Rightarrow> string \<Rightarrow> ('s, 'm) behaviour" where
  "stub_method wire tables stub name =
     (case map_of stub name of None \<Rightarrow> unimplemented | Some m \<Rightarrow> unary_unary wire tables m)"

definition the_job :: "job_message \<Rightarrow> (job_db, rpc_error, proto_job) comp" where
  "the_job m = (case m of M_Job job \<Rightarrow> returnS job | _ \<Rightarrow> raiseS (INTERNAL, ''unexpected message''))"

definition the_jobs :: "job_message \<Rightarrow> (job_db, rpc_error, proto_job list) comp" where
  "the_jobs m = (case m of M_Jobs jobs \<Rightarrow> returnS jobs | _ \<Rightarrow> raiseS (INTERNAL, ''unexpected message''))"

definition wire_job_stub :: "(job_message, 'b) wire \<Rightarrow> (job_db, job_message) handlers list \<Rightarrow> job_db job_stub" where
  "wire_job_stub wire tables =
     \<lparr>stub_CreateJob = (\<lambda>mdata request.
        bindS (stub_method wire tables JobServiceStub ''CreateJob'' mdata (M_Create request)) the_job),
      stub_GetJob = (\<lambda>mdata request.
        bindS (stub_method wire tables JobServiceStub ''GetJob'' mdata (M_Get request)) the_jobs),
      stub_UpdateJob = (\<lambda>mdata jid status.
        bindS (stub_method wire tables JobServiceStub ''UpdateJob'' mdata (M_Update jid status)) the_job),
      stub_RetryJob = (\<lambda>mdata jid.
        bindS (stub_method wire tables JobServiceStub ''RetryJob'' mdata (M_Retry jid)) the_job)\<rparr>"

section \<open>Routing\<close>

text \<open>The message classes: what is serialised parses back.\<close>

definition parses_back :: "('m, 'b) wire \<Rightarrow> bool" where
  "parses_back wire \<longleftrightarrow> (\<forall>c m. wi_parse wire c (wi_serialize wire c m) = Some m)"

lemma bindS_return_right: "bindS m returnS = m"
  by (auto simp: fun_eq_iff bindS_def split: prod.split sum.split)

lemma unary_unary_handler:
  assumes "parses_back wire" and "find_handler tables (mt_path m) = Some h"
    and "hd_request h = mt_request m" and "hd_response h = mt_response m"
  shows "unary_unary wire tables m = hd_behaviour h"
proof (intro ext)
  fix mdata request s
  show "unary_unary wire tables m mdata request s = hd_behaviour h mdata request s"
    using assms
    by (simp add: unary_unary_def server_call_def parses_back_def bindS_def split: prod.split sum.split)
qed

text \<open>The four links: what the client's copy declares and what the server's copy registers.\<close>

definition links :: "((string \<times> rpc_method) list \<times> (('s, 'm) servicer \<Rightarrow> ('s, 'm) handlers) \<times> string list) list" where
  "links =
     [(JobServiceStub, add_JobServiceServicer_to_server,
       map fst (JobServiceServicer :: (string \<times> (unit, unit) behaviour) list)),
      (OrchestratorServiceStub, add_OrchestratorServiceServicer_to_server,
       map fst (OrchestratorServiceServicer :: (string \<times> (unit, unit) behaviour) list)),
      (GatewayServiceStub, add_GatewayServiceServicer_to_server,
       map fst (GatewayServiceServicer :: (string \<times> (unit, unit) behaviour) list)),
      (AgentExecutionServiceStub, add_AgentExecutionServiceServicer_to_server,
       map fst (AgentExecutionServiceServicer :: (string \<times> (unit, unit) behaviour) list))]"

lemmas table_defs = JobServiceStub_def JobServiceServicer_def add_JobServiceServicer_to_server_def
  OrchestratorServiceStub_def OrchestratorServiceServicer_def add_OrchestratorServiceServicer_to_server_def
  GatewayServiceStub_def GatewayServiceServicer_def add_GatewayServiceServicer_to_server_def
  AgentExecutionServiceStub_def AgentExecutionServiceServicer_def add_AgentExecutionServiceServicer_to_server_def

lemma link_tables:
  fixes servicer :: "('s, 'm) servicer"
  assumes "(stub, add, names) \<in> set (links :: ((string \<times> rpc_method) list \<times> (('s, 'm) servicer \<Rightarrow> ('s, 'm) handlers) \<times> string list) list)"
  shows "map fst stub = names \<and>
    map (\<lambda>(name, m). (mt_path m, \<lparr>hd_behaviour = servicer name, hd_request = mt_request m, hd_response = mt_response m\<rparr>)) stub =
      (case add servicer of (service, hs) \<Rightarrow> map (\<lambda>(name, h). (''/'' @ service @ ''/'' @ name, h)) hs) \<and>
    distinct (map (\<lambda>(name, m). mt_path m) stub)"
proof -
  have "(stub, add, names) = (JobServiceStub, add_JobServiceServicer_to_server,
       map fst (JobServiceServicer :: (string \<times> (unit, unit) behaviour) list)) \<or>
    (stub, add, names) = (OrchestratorServiceStub, add_OrchestratorServiceServicer_to_server,
       map fst (OrchestratorServiceServicer :: (string \<times> (unit, unit) behaviour) list)) \<or>
    (stub, add, names) = (GatewayServiceStub, add_GatewayServiceServicer_to_server,
       map fst (GatewayServiceServicer :: (string \<times> (unit, unit) behaviour) list)) \<or>
    (stub, add, names) = (AgentExecutionServiceStub, add_AgentExecutionServiceServicer_to_server,
       map fst (AgentExecutionServiceServicer :: (string \<times> (unit, unit) behaviour) list))"
    using assms by (simp only: links_def list.set insert_iff empty_iff) blast
  then show ?thesis by (elim disjE) (simp_all add: table_defs)
qed

lemma link_method:
  fixes servicer :: "('s, 'm) servicer"
  assumes "(stub, add, names) \<in> set (links :: ((string \<times> rpc_method) list \<times> (('s, 'm) servicer \<Rightarrow> ('s, 'm) handlers) \<times> string list) list)"
    and "parses_back wire" and "(name, m) \<in> set stub"
  shows "unary_unary wire [add servicer] m = servicer name"
proof -
  let ?h = "\<lparr>hd_behaviour = servicer name, hd_request = mt_request m, hd_response = mt_response m\<rparr>"
  let ?routes = "map (\<lambda>(name, m). (mt_path m, \<lparr>hd_behaviour = servicer name, hd_request = mt_request m, hd_response = mt_response m\<rparr>)) stub"
  have "map_of ?routes (mt_path m) = Some ?h"
  proof (rule map_of_is_SomeI)
    have "map fst ?routes = map (\<lambda>(name, m). mt_path m) stub" by (simp add: split_beta o_def)
    with link_tables [OF assms(1), of servicer] show "distinct (map fst ?routes)" by simp
    show "(mt_path m, ?h) \<in> set ?routes" using assms(3) by force
  qed
  then have "find_handler [add servicer] (mt_path m) = Some ?h"
    using link_tables [OF assms(1), of servicer] by (simp add: find_handler_def)
  from unary_unary_handler [OF assms(2) this] show ?thesis by simp
qed

text \<open>The generated modules of the two ends of every link agree: each method of the stub that
  the client's copy declares reaches, over a channel to a server with the handler table of the
  server's copy, the servicer's method of the same name with the request sent, and brings its
  response or its status back; the stub, the base servicer and the table have the same methods;
  and the stub of \<open>JobClient\<close> connected to \<open>JobServicer\<close> in this way is the stub the model of
  \<open>agent_execution_service\<close> is built on.\<close>

theorem generated_stubs_agree:
  fixes servicer :: "('s, 'm) servicer"
  assumes "parses_back wire" and "parses_back jobs_wire"
    and "(stub, add, names) \<in> set links" and "(name, m) \<in> set stub"
  shows "unary_unary wire [add servicer] m = servicer name \<and> name \<in> set names \<and>
    map fst stub = names \<and> map fst (snd (add servicer)) = names \<and>
    wire_job_stub jobs_wire [add_JobServiceServicer_to_server (JobServicer pb svc fresh now)] = job_svc_stub pb svc fresh now"
proof (intro conjI)
  show "unary_unary wire [add servicer] m = servicer name" by (rule link_method [OF assms(3,1,4)])
  from link_tables [OF assms(3), of servicer] show names: "map fst stub = names" by blast
  with assms(4) show "name \<in> set names" by (metis fst_conv image_eqI list.set_map)
  show "map fst (snd (add servicer)) = names"
    using assms(3) by (auto simp: links_def table_defs)
  have link: "(JobServiceStub, add_JobServiceServicer_to_server,
      map fst (JobServiceServicer :: (string \<times> (unit, unit) behaviour) list)) \<in> set links"
    by (simp add: links_def)
  have call: "stub_method jobs_wire [add_JobServiceServicer_to_server (JobServicer pb svc fresh now)] JobServiceStub n =
      JobServicer pb svc fresh now n" if "n \<in> {''CreateJob'', ''GetJob'', ''UpdateJob'', ''RetryJob''}" for n
  proof -
    have "n \<in> fst ` set JobServiceStub" using that by (auto simp: JobServiceStub_def)
    then obtain m where m: "map_of JobServiceStub n = Some m"
      by (metis map_of_eq_None_iff not_Some_eq)
    from link_method [OF link assms(2) map_of_SomeD [OF m], of "JobServicer pb svc fresh now"] m
    show ?thesis by (simp add: stub_method_def)
  qed
  show "wire_job_stub jobs_wire [add_JobServiceServicer_to_server (JobServicer pb svc fresh now)] = job_svc_stub pb svc fresh now"
    by (simp add: wire_job_stub_def call)
      (auto simp: job_svc_stub_def JobServicer_def derived_def the_job_def the_jobs_def fun_eq_iff bindS_def
        split: prod.split sum.split)
qed

definition plain_wire :: "('m, 'm) wire" where
  "plain_wire = \<lparr>wi_serialize = (\<lambda>c m. m), wi_parse = (\<lambda>c b. Some b)\<rparr>"

theorem generated_stubs_agree_witness:
  "unary_unary plain_wire [add_GatewayServiceServicer_to_server (\<lambda>name mdata (m :: string). returnS (name @ m))]
     (snd (hd GatewayServiceStub)) [] ''!'' (0 :: nat) = (Inr ''Chat!'', 0)"
proof -
  have plain: "parses_back plain_wire" by (simp add: parses_back_def plain_wire_def)
  have link: "(GatewayServiceStub, add_GatewayServiceServicer_to_server ::
      (nat, string) servicer \<Rightarrow> (nat, string) handlers,
      map fst (GatewayServiceServicer :: (string \<times> (unit, unit) behaviour) list)) \<in> set links"
    by (simp add: links_def)
  have m: "(''Chat'', snd (hd GatewayServiceStub)) \<in> set GatewayServiceStub" by (simp add: GatewayServiceStub_def)
  from generated_stubs_agree [OF plain plain link m, of "\<lambda>name mdata (m :: string). returnS (name @ m)"]
  show ?thesis by simp
qed

section \<open>The clients' channels\<close>

text \<open>
  \<open>_get_stub\<close> opens the channel on first use and \<open>close\<close> closes it: \<open>JobClient\<close>,
  \<open>OrchestratorClient\<close> and \<open>gateway_client.py\<close> have the same code, over their own
  settings. The state is the client's two references and the channels of the process that are
  open; a stub is named by the channel it is built over.
\<close>

record channel_state =
  cs_channel :: "nat option"
  cs_stub :: "nat option"
  cs_open :: "(nat \<times> string) list"
  cs_next :: nat

definition insecure_channel :: "string \<Rightarrow> channel_state \<Rightarrow> nat \<times> channel_state" where
  "insecure_channel address s =
     (cs_next s, s\<lparr>cs_open := cs_open s @ [(cs_next s, address)], cs_next := Suc (cs_next s)\<rparr>)"

definition get_stub :: "string \<Rightarrow> channel_state \<Rightarrow> nat \<times> channel_state" where
  "get_stub address s =
     (case cs_stub s of
        Some stub \<Rightarrow> (stub, s)
      | None \<Rightarrow>
          (case insecure_channel address s of
             (channel, s') \<Rightarrow> (channel, s'\<lparr>cs_channel := Some channel, cs_stub := Some channel\<rparr>)))"

definition close_channel :: "channel_state \<Rightarrow> channel_state" where
  "close_channel s =
     (case cs_channel s of
        None \<Rightarrow> s
      | Some channel \<Rightarrow> s\<lparr>cs_open := filter (\<lambda>(c, a). c \<noteq> channel) (cs_open s), cs_channel := None, cs_stub := None\<rparr>)"

definition address_of :: "string \<Rightarrow> nat \<Rightarrow> string" where
  "address_of host port = host @ '':'' @ str_nat port"

definition job_client_stub :: "string \<Rightarrow> nat \<Rightarrow> channel_state \<Rightarrow> nat \<times> channel_state" where
  "job_client_stub host port = get_stub (address_of host port)"

definition get_gateway_stub :: "string \<Rightarrow> nat \<Rightarrow> channel_state \<Rightarrow> nat \<times> channel_state" where
  "get_gateway_stub host port = get_stub (address_of host port)"

definition close_gateway_channel :: "channel_state \<Rightarrow> channel_state" where
  "close_gateway_channel = close_channel"

definition unopened :: channel_state where
  "unopened = \<lparr>cs_channel = None, cs_stub = None, cs_open = [], cs_next = 0\<rparr>"

text \<open>Any sequence of calls (\<open>True\<close>) and closings (\<open>False\<close>) of one client.\<close>

fun channel_run :: "string \<Rightarrow> bool list \<Rightarrow> channel_state \<Rightarrow> channel_state" where
  "channel_run address [] s = s"
| "channel_run address (True # bs) s = channel_run address bs (snd (get_stub address s))"
| "channel_run address (False # bs) s = channel_run address bs (close_channel s)"

definition one_channel :: "string \<Rightarrow> channel_state \<Rightarrow> bool" where
  "one_channel address s \<longleftrightarrow> cs_stub s = cs_channel s \<and>
     cs_open s = (case cs_channel s of None \<Rightarrow> [] | Some c \<Rightarrow> [(c, address)])"

lemma one_channel_steps:
  assumes "one_channel address s"
  shows "one_channel address (snd (get_stub address s)) \<and> one_channel address (close_channel s) \<and>
    (fst (get_stub address s), address) \<in> set (cs_open (snd (get_stub address s)))"
  using assms
  by (auto simp: one_channel_def get_stub_def insecure_channel_def close_channel_def split: option.splits)

text \<open>
  Whatever the calls and closings, a client holds at most one open channel, to its configured
  address; the stub of a call is over an open channel; and closing leaves none open.
\<close>

lemma channel_run_ok: "one_channel address s \<Longrightarrow> one_channel address (channel_run address bs s)"
  by (induction address bs s rule: channel_run.induct) (simp_all add: one_channel_steps)

lemma client_channels:
  "one_channel address (channel_run address bs unopened) \<and>
   cs_open (close_channel (channel_run address bs unopened)) = [] \<and>
   (fst (get_stub address (channel_run address bs unopened)), address)
     \<in> set (cs_open (snd (get_stub address (channel_run address bs unopened))))"
proof -
  let ?s = "channel_run address bs unopened"
  have ok: "one_channel address ?s"
    by (rule channel_run_ok) (simp add: one_channel_def unopened_def)
  then have "cs_open (close_channel ?s) = []"
    by (auto simp: one_channel_def close_channel_def split: option.splits)
  with one_channel_steps [OF ok] ok show ?thesis by simp
qed

end
