(* ===== verification/Processes.thy ===== *)
theory Processes
  imports Job_Shutdown Grpc_Services
begin

text \<open>
  The life of the five processes (\<open>serve\<close> in the \<open>main.py\<close> of each gRPC service, the lifespan
  \<open>build_app\<close> of \<open>mcp_svc\<close> gives its application): which start-up and shutdown steps they take in
  which order, each of which may raise. A monitor states the discipline of the resources a process
  holds, and every log of every process obeys it, wherever it breaks off.
\<close>

section \<open>Steps\<close>

datatype process_event =
    P_Create_Tables
  | P_Register string
  | P_Reflect "string list"
  | P_Bind string
  | P_Start
  | P_Signals
  | P_Start_Poller
  | P_Stop_Event
  | P_Poller_Done
  | P_Close_Client
  | P_Stop nat
  | P_Enter
  | P_Serve
  | P_Exit
  | P_Dispose

text \<open>The log of what has been done; the next step may raise, depending on all of it.\<close>

type_synonym process = "(process_event list, string, unit) comp"

type_synonym process_world = "process_event list \<Rightarrow> process_event \<Rightarrow> string option"

definition act :: "('e list \<Rightarrow> 'e \<Rightarrow> string option) \<Rightarrow> 'e \<Rightarrow> ('e list, string, unit) comp" where
  "act w e = (\<lambda>l. case w l e of None \<Rightarrow> (Inr (), l @ [e]) | Some m \<Rightarrow> (Inl m, l))"

fun acts :: "process_world \<Rightarrow> process_event list \<Rightarrow> process" where
  "acts w [] = returnS ()"
| "acts w (e # es) = bindS (act w e) (\<lambda>_. acts w es)"

definition reflection_service :: string where
  "reflection_service = ''grpc.reflection.v1alpha.ServerReflection''"

text \<open>What the four servers have in common: register, reflect, bind, start.\<close>

definition start_server :: "string \<Rightarrow> string \<Rightarrow> nat \<Rightarrow> process_event list" where
  "start_server service host port =
     [P_Register service, P_Reflect [service, reflection_service], P_Bind (address_of host port), P_Start]"

section \<open>The processes\<close>

definition job_svc_script :: "bool \<Rightarrow> string \<Rightarrow> nat \<Rightarrow> process_event list" where
  "job_svc_script polling host port =
     [P_Create_Tables] @ start_server ''aep.job.v1.JobService'' host port @ [P_Signals] @
     (if polling then [P_Start_Poller] else []) @ [P_Stop_Event] @
     (if polling then [P_Poller_Done, P_Close_Client] else []) @ [P_Stop 5, P_Dispose]"

definition serve_job_svc :: "process_world \<Rightarrow> poller_settings \<Rightarrow> string \<Rightarrow> nat \<Rightarrow> process" where
  "serve_job_svc w s host port = acts w (job_svc_script (ps_enabled s) host port)"

definition aes_script :: "string \<Rightarrow> nat \<Rightarrow> process_event list" where
  "aes_script host port =
     [P_Create_Tables] @ start_server ''aep.agent_execution.v1.AgentExecutionService'' host port @
     [P_Signals, P_Stop_Event, P_Stop 5, P_Close_Client]"

definition serve_aes :: "process_world \<Rightarrow> string \<Rightarrow> nat \<Rightarrow> process" where
  "serve_aes w host port = acts w (aes_script host port)"

definition gateway_script :: "string \<Rightarrow> nat \<Rightarrow> process_event list" where
  "gateway_script host port =
     start_server ''aep.gateway.v1.GatewayService'' host port @ [P_Signals, P_Stop_Event, P_Stop 5]"

definition serve_gateway :: "process_world \<Rightarrow> string \<Rightarrow> nat \<Rightarrow> process" where
  "serve_gateway w host port = acts w (gateway_script host port)"

definition orchestrator_script :: "string \<Rightarrow> nat \<Rightarrow> process_event list" where
  "orchestrator_script host port =
     start_server ''aep.orchestrator.v1.OrchestratorService'' host port @
     [P_Signals, P_Stop_Event, P_Stop 5, P_Close_Client]"

definition serve_orchestrator :: "process_world \<Rightarrow> string \<Rightarrow> nat \<Rightarrow> process" where
  "serve_orchestrator w host port = acts w (orchestrator_script host port)"

text \<open>
  \<open>try: ... finally: ...\<close>, and the lifespan of \<open>mcp_svc\<close>: the transport's own lifespan is entered,
  the application serves, and is left again whatever serving raises; then the pool is disposed.
\<close>

definition finallyS :: "('s, 'e, 'a) comp \<Rightarrow> ('s, 'e, unit) comp \<Rightarrow> ('s, 'e, 'a) comp" where
  "finallyS m f = (\<lambda>s. case m s of (r, s') \<Rightarrow>
     (case f s' of (Inl e, s'') \<Rightarrow> (Inl e, s'') | (Inr _, s'') \<Rightarrow> (r, s'')))"

definition mcp_lifespan :: "process_world \<Rightarrow> process" where
  "mcp_lifespan w =
     finallyS (bindS (act w P_Enter) (\<lambda>_. finallyS (act w P_Serve) (act w P_Exit))) (act w P_Dispose)"

section \<open>The discipline\<close>

text \<open>
  What is up: handlers registered, a port bound, calls accepted, the poller running, the client's
  channel and the pool still usable.
\<close>

record resources =
  rs_registered :: bool
  rs_bound :: bool
  rs_accepting :: bool
  rs_polling :: bool
  rs_client :: bool
  rs_pool :: bool

text \<open>\<open>shared\<close> says that the handlers use the client (\<open>AES\<close>, the orchestrator), not only the poller.\<close>

fun permitted :: "bool \<Rightarrow> resources \<Rightarrow> process_event \<Rightarrow> bool" where
  "permitted shared r P_Start \<longleftrightarrow> rs_registered r \<and> rs_bound r \<and> rs_pool r \<and> (shared \<longrightarrow> rs_client r)"
| "permitted shared r P_Start_Poller \<longleftrightarrow> rs_pool r \<and> rs_client r \<and> \<not> rs_polling r"
| "permitted shared r P_Poller_Done \<longleftrightarrow> rs_polling r"
| "permitted shared r P_Close_Client \<longleftrightarrow> rs_client r \<and> \<not> rs_polling r \<and> \<not> (shared \<and> rs_accepting r)"
| "permitted shared r (P_Stop n) \<longleftrightarrow> rs_accepting r"
| "permitted shared r P_Dispose \<longleftrightarrow> rs_pool r \<and> \<not> rs_accepting r \<and> \<not> rs_polling r"
| "permitted shared r _ \<longleftrightarrow> True"

fun update_resources :: "process_event \<Rightarrow> resources \<Rightarrow> resources" where
  "update_resources (P_Register s) r = r\<lparr>rs_registered := True\<rparr>"
| "update_resources (P_Bind a) r = r\<lparr>rs_bound := True\<rparr>"
| "update_resources P_Start r = r\<lparr>rs_accepting := True\<rparr>"
| "update_resources P_Serve r = r\<lparr>rs_accepting := True\<rparr>"
| "update_resources P_Exit r = r\<lparr>rs_accepting := False\<rparr>"
| "update_resources P_Start_Poller r = r\<lparr>rs_polling := True\<rparr>"
| "update_resources P_Poller_Done r = r\<lparr>rs_polling := False\<rparr>"
| "update_resources P_Close_Client r = r\<lparr>rs_client := False\<rparr>"
| "update_resources (P_Stop n) r = r\<lparr>rs_accepting := False\<rparr>"
| "update_resources P_Dispose r = r\<lparr>rs_pool := False\<rparr>"
| "update_resources _ r = r"

fun orderly :: "bool \<Rightarrow> resources \<Rightarrow> process_event list \<Rightarrow> bool" where
  "orderly shared r [] \<longleftrightarrow> True"
| "orderly shared r (e # es) \<longleftrightarrow> permitted shared r e \<and> orderly shared (update_resources e r) es"

definition fresh_process :: resources where
  "fresh_process = \<lparr>rs_registered = False, rs_bound = False, rs_accepting = False, rs_polling = False,
     rs_client = True, rs_pool = True\<rparr>"

lemma fresh_simps [simp]:
  "\<not> rs_accepting fresh_process" "\<not> rs_polling fresh_process" "rs_pool fresh_process"
  by (simp_all add: fresh_process_def)

definition resources_after :: "process_event list \<Rightarrow> resources" where
  "resources_after es = fold update_resources es fresh_process"

section \<open>Every process is orderly\<close>

lemma acts_prefix:
  "\<exists>k. snd (acts w es l) = l @ take k es \<and> (fst (acts w es l) = Inr () \<longrightarrow> length es \<le> k)"
proof (induction es arbitrary: l)
  case (Cons e es)
  show ?case
  proof (cases "w l e")
    case None
    then have step: "acts w (e # es) l = acts w es (l @ [e])" by (simp add: act_def bindS_def)
    obtain k where "snd (acts w es (l @ [e])) = (l @ [e]) @ take k es \<and>
        (fst (acts w es (l @ [e])) = Inr () \<longrightarrow> length es \<le> k)"
      using Cons.IH by blast
    then show ?thesis unfolding step by (intro exI [of _ "Suc k"]) simp
  next
    case (Some m)
    then show ?thesis by (intro exI [of _ 0]) (simp add: act_def bindS_def)
  qed
qed simp

lemma orderly_take: "orderly shared r es \<Longrightarrow> orderly shared r (take k es)"
proof (induction es arbitrary: r k)
  case (Cons e es)
  then show ?case by (cases k) simp_all
qed simp

lemma orderly_script: "orderly shared r es \<Longrightarrow> orderly shared r (snd (acts w es []))"
  using acts_prefix [of w es "[]"] orderly_take by fastforce

lemma script_done: "fst (acts w es []) = Inr () \<Longrightarrow> snd (acts w es []) = es"
  using acts_prefix [of w es "[]"] by auto

lemmas script_defs = job_svc_script_def aes_script_def gateway_script_def orchestrator_script_def start_server_def
  fresh_process_def

lemmas serve_defs = serve_job_svc_def serve_aes_def serve_gateway_def serve_orchestrator_def

lemma scripts_orderly:
  "orderly False fresh_process (job_svc_script polling host port)"
  "orderly True fresh_process (aes_script host port)"
  "orderly True fresh_process (orchestrator_script host port)"
  "orderly False fresh_process (gateway_script host port)"
  by (simp_all add: script_defs)

lemma scripts_release:
  "resources_after (job_svc_script polling host port) = fresh_process\<lparr>rs_registered := True, rs_bound := True,
     rs_client := \<not> polling, rs_pool := False\<rparr>"
  "resources_after (aes_script host port) = fresh_process\<lparr>rs_registered := True, rs_bound := True, rs_client := False\<rparr>"
  "resources_after (orchestrator_script host port) =
     fresh_process\<lparr>rs_registered := True, rs_bound := True, rs_client := False\<rparr>"
  by (simp_all add: script_defs resources_after_def)

lemma mcp_logs:
  "snd (mcp_lifespan w []) \<in>
     {[], [P_Dispose], [P_Enter], [P_Enter, P_Serve], [P_Enter, P_Exit], [P_Enter, P_Dispose], [P_Enter, P_Exit, P_Dispose],
      [P_Enter, P_Serve, P_Exit], [P_Enter, P_Serve, P_Dispose], [P_Enter, P_Serve, P_Exit, P_Dispose]}"
  by (simp add: mcp_lifespan_def finallyS_def act_def bindS_def split: option.split)

text \<open>
  Whichever step of a process raises: calls are accepted only while the handlers are registered
  and the pool and the client the handlers use are up, the poller runs only while its client and
  the pool are, nothing is released twice or while it is in use. A process that ends without an
  exception has stopped its server and its poller and closed its client; only \<open>job_svc\<close> and
  \<open>mcp_svc\<close> also dispose their pool.
\<close>

theorem processes_are_orderly:
  "orderly False fresh_process (snd (serve_job_svc w s host port [])) \<and>
   orderly True fresh_process (snd (serve_aes w host port [])) \<and>
   orderly True fresh_process (snd (serve_orchestrator w host port [])) \<and>
   orderly False fresh_process (snd (serve_gateway w host port [])) \<and>
   (fst (serve_job_svc w s host port []) = Inr () \<longrightarrow>
     (case resources_after (snd (serve_job_svc w s host port [])) of
        r \<Rightarrow> \<not> rs_accepting r \<and> \<not> rs_polling r \<and> (ps_enabled s \<longrightarrow> \<not> rs_client r) \<and> \<not> rs_pool r)) \<and>
   (fst (serve_aes w host port []) = Inr () \<longrightarrow>
     (case resources_after (snd (serve_aes w host port [])) of r \<Rightarrow> \<not> rs_accepting r \<and> \<not> rs_client r \<and> rs_pool r)) \<and>
   (fst (serve_orchestrator w host port []) = Inr () \<longrightarrow>
     (case resources_after (snd (serve_orchestrator w host port [])) of r \<Rightarrow> \<not> rs_accepting r \<and> \<not> rs_client r))"
  unfolding serve_defs
  by (auto simp: orderly_script scripts_orderly scripts_release dest!: script_done)

text \<open>
  The pool of \<open>mcp_svc\<close> is disposed whatever fails before; a server that does not stop cleanly
  leaves the pool of \<open>job_svc\<close> (and the client of \<open>AES\<close>) open: its releases are not in a
  \<open>finally\<close> block.
\<close>

lemma releases_on_failure:
  "(\<forall>l. w l P_Dispose = None) \<Longrightarrow> last (snd (mcp_lifespan w [])) = P_Dispose"
  "(\<forall>l. w l (P_Stop 5) = Some m) \<Longrightarrow> rs_pool (resources_after (snd (serve_job_svc w s host port [])))"
  "(\<forall>l. w l (P_Stop 5) = Some m) \<Longrightarrow> rs_client (resources_after (snd (serve_aes w host port [])))"
  by (auto simp: mcp_lifespan_def finallyS_def bindS_def act_def serve_defs script_defs resources_after_def split: option.splits)

end
