(* ===== verification/Gw_Model.thy ===== *)
theory Gw_Model
  imports Grpc Py_Json Complex_Main
begin

text \<open>
  The data of the gateway: its errors (\<open>errors.py\<close>), the internal messages (\<open>models.py\<close>), its
  settings (\<open>config.py\<close>) and the messages of \<open>aep.gateway.v1\<close>, which the orchestrator's model
  client builds and the servicer reads.
\<close>

section \<open>errors.py\<close>

text \<open>\<open>Gw_Other\<close> is every exception of a class the gateway does not define.\<close>

datatype gw_error =
    Gw_App string
  | Guardrail_Rejected string
  | Gw_Validation string
  | Provider_Error string
  | Gw_Other string

fun gw_message_of :: "gw_error \<Rightarrow> string" where
  "gw_message_of (Gw_App m) = m"
| "gw_message_of (Guardrail_Rejected m) = m"
| "gw_message_of (Gw_Validation m) = m"
| "gw_message_of (Provider_Error m) = m"
| "gw_message_of (Gw_Other m) = m"

section \<open>models.py\<close>

text \<open>
  The fields of a \<open>ToolCall\<close> are strings when it comes from a request; the Zen provider fills
  them with whatever JSON the upstream sent, so their type is a parameter.
\<close>

record 's tool_call =
  tc_id :: 's
  tc_name :: 's
  tc_arguments :: 's

lemma tool_call_copy [simp]: "\<lparr>tc_id = tc_id tc, tc_name = tc_name tc, tc_arguments = tc_arguments tc\<rparr> = tc"
  by (cases tc) simp

record gw_message =
  gm_role :: string
  gm_content :: string
  gm_tool_calls :: "string tool_call list"
  gm_tool_call_id :: "string option"

record tool_spec =
  ts_name :: string
  ts_description :: string
  ts_parameters :: string

record usage =
  us_prompt_tokens :: json
  us_completion_tokens :: json
  us_total_tokens :: json

record completion =
  co_content :: string
  co_finish_reason :: string
  co_usage :: usage
  co_tool_calls :: "json tool_call list"

section \<open>config.py\<close>

record model_settings =
  ms_name :: string
  ms_max_tokens :: int
  ms_temperature :: rat

record guardrail_settings =
  gs_max_input_chars :: int
  gs_blocklist :: "string list"

section \<open>aep.gateway.v1\<close>

text \<open>A temperature is the number its 32-bit float stands for.\<close>

record pb_message =
  pm_role :: string
  pm_content :: string
  pm_tool_calls :: "string tool_call list"
  pm_tool_call_id :: "string option"

record pb_chat_request =
  pq_messages :: "pb_message list"
  pq_temperature :: "rat option"
  pq_max_tokens :: "int option"
  pq_tools :: "tool_spec list"
  pq_tool_choice :: "string option"

record pb_chat_response =
  pr_message :: pb_message
  pr_prompt_tokens :: int
  pr_completion_tokens :: int
  pr_total_tokens :: int
  pr_finish_reason :: string
  pr_tool_calls :: "string tool_call list"

end
