(* ===== verification/Regex.thy ===== *)
theory Regex
  imports PyStr
begin

text \<open>
  The part of Python's \<open>re\<close> the guardrails use: backtracking matching of patterns made of
  character classes, sequences, options, greedy repetition of a class and word boundaries, and
  \<open>Pattern.sub\<close>. A match attempt at a position (the character before it, the text from it on)
  yields all its results in the order in which the engine prefers them, so the first is the match.
  The locale \<open>token_pattern\<close> holds of a pattern that matches a digit token between two word
  boundaries; in it a substitution is shown to leave no token.
\<close>

datatype rx =
    Cls "char \<Rightarrow> bool"
  | Seq rx rx
  | Opt rx
  | Plus "char \<Rightarrow> bool"
  | Wb

type_synonym position = "char option \<times> string"

definition word_at :: "char option \<Rightarrow> bool" where
  "word_at c = (case c of None \<Rightarrow> False | Some c \<Rightarrow> re_word c)"

definition first_char :: "string \<Rightarrow> char option" where
  "first_char s = (case s of [] \<Rightarrow> None | c # _ \<Rightarrow> Some c)"

fun plus_match :: "(char \<Rightarrow> bool) \<Rightarrow> string \<Rightarrow> position list" where
  "plus_match P [] = []"
| "plus_match P (c # s) = (if P c then plus_match P s @ [(Some c, s)] else [])"

fun rx_match :: "rx \<Rightarrow> position \<Rightarrow> position list" where
  "rx_match (Cls P) (p, s) = (case s of [] \<Rightarrow> [] | c # s' \<Rightarrow> if P c then [(Some c, s')] else [])"
| "rx_match (Seq a b) (p, s) = concat (map (rx_match b) (rx_match a (p, s)))"
| "rx_match (Opt a) (p, s) = rx_match a (p, s) @ [(p, s)]"
| "rx_match (Plus P) (p, s) = plus_match P s"
| "rx_match Wb (p, s) = (if word_at p \<noteq> word_at (first_char s) then [(p, s)] else [])"

text \<open>
  \<open>pattern.sub(replacement, text)\<close>, for patterns that never match the empty string: at every
  position the first match is replaced and the scan goes on behind it.
\<close>

function rx_sub :: "rx \<Rightarrow> string \<Rightarrow> char option \<Rightarrow> string \<Rightarrow> string" where
  "rx_sub r rep p s =
     (case rx_match r (p, s) of
        (p', s') # _ \<Rightarrow>
          if length s' < length s then rep @ rx_sub r rep p' s'
          else (case s of [] \<Rightarrow> [] | c # cs \<Rightarrow> c # rx_sub r rep (Some c) cs)
      | [] \<Rightarrow> (case s of [] \<Rightarrow> [] | c # cs \<Rightarrow> c # rx_sub r rep (Some c) cs))"
  by pat_completeness auto
termination
  by (relation "measure (\<lambda>(r, rep, p, s). length s)") auto

declare rx_sub.simps [simp del]

text \<open>\<open>pattern.search(text)\<close> finds something.\<close>

fun rx_search :: "rx \<Rightarrow> char option \<Rightarrow> string \<Rightarrow> bool" where
  "rx_search r p [] = (rx_match r (p, []) \<noteq> [])"
| "rx_search r p (c # s) = (rx_match r (p, c # s) \<noteq> [] \<or> rx_search r (Some c) s)"

fun rx_times :: "nat \<Rightarrow> rx \<Rightarrow> rx" where
  "rx_times 0 r = r"
| "rx_times (Suc n) r = Seq r (rx_times n r)"

section \<open>The language of a boundary-free pattern\<close>

fun rx_lang :: "rx \<Rightarrow> string \<Rightarrow> bool" where
  "rx_lang (Cls P) m = (\<exists>c. m = [c] \<and> P c)"
| "rx_lang (Seq a b) m = (\<exists>u v. m = u @ v \<and> rx_lang a u \<and> rx_lang b v)"
| "rx_lang (Opt a) m = (m = [] \<or> rx_lang a m)"
| "rx_lang (Plus P) m = (m \<noteq> [] \<and> (\<forall>c \<in> set m. P c))"
| "rx_lang Wb m = False"

fun boundary_free :: "rx \<Rightarrow> bool" where
  "boundary_free (Seq a b) = (boundary_free a \<and> boundary_free b)"
| "boundary_free (Opt a) = boundary_free a"
| "boundary_free Wb = False"
| "boundary_free _ = True"

text \<open>The character before the position reached after \<open>m\<close>.\<close>

definition after :: "char option \<Rightarrow> string \<Rightarrow> char option" where
  "after p m = (if m = [] then p else Some (last m))"

lemma after_append [simp]: "after (after p u) v = after p (u @ v)"
  by (simp add: after_def)

lemma after_Cons [simp]: "after p (c # m) = after (Some c) m"
  by (simp add: after_def)

lemma plus_match_iff:
  "(p', s') \<in> set (plus_match P s) \<longleftrightarrow> (\<exists>m. s = m @ s' \<and> m \<noteq> [] \<and> (\<forall>c \<in> set m. P c) \<and> p' = Some (last m))"
proof (induction s)
  case (Cons c s)
  show ?case
  proof (cases "P c")
    case True
    show ?thesis
    proof
      assume "(p', s') \<in> set (plus_match P (c # s))"
      with True Cons consider "p' = Some c" "s' = s" |
        m where "s = m @ s'" "m \<noteq> []" "\<forall>c \<in> set m. P c" "p' = Some (last m)" by auto
      then show "\<exists>m. c # s = m @ s' \<and> m \<noteq> [] \<and> (\<forall>c \<in> set m. P c) \<and> p' = Some (last m)"
      proof cases
        case 1
        with True show ?thesis by (intro exI [of _ "[c]"]) simp
      next
        case 2
        with True show ?thesis by (intro exI [of _ "c # m"]) simp
      qed
    next
      assume "\<exists>m. c # s = m @ s' \<and> m \<noteq> [] \<and> (\<forall>c \<in> set m. P c) \<and> p' = Some (last m)"
      then obtain m where m: "c # s = m @ s'" "m \<noteq> []" "\<forall>c \<in> set m. P c" "p' = Some (last m)" by blast
      then obtain m' where "m = c # m'" "s = m' @ s'" by (cases m) auto
      with m Cons True show "(p', s') \<in> set (plus_match P (c # s))" by (cases "m' = []") auto
    qed
  next
    case False
    then show ?thesis by (auto simp: Cons_eq_append_conv)
  qed
qed simp

lemma rx_match_iff:
  "boundary_free r \<Longrightarrow> (p', s') \<in> set (rx_match r (p, s)) \<longleftrightarrow> (\<exists>m. s = m @ s' \<and> rx_lang r m \<and> p' = after p m)"
proof (induction r arbitrary: p s p' s')
  case (Cls P)
  have "(\<exists>m. s = m @ s' \<and> rx_lang (Cls P) m \<and> p' = after p m) \<longleftrightarrow> (\<exists>c. s = c # s' \<and> P c \<and> p' = Some c)"
    by (simp add: after_def)
      (metis append_Cons append_Nil last.simps list.discI)
  then show ?case by (cases s) auto
next
  case (Seq a b)
  show ?case
  proof
    assume "(p', s') \<in> set (rx_match (Seq a b) (p, s))"
    then obtain q t where "(q, t) \<in> set (rx_match a (p, s))" "(p', s') \<in> set (rx_match b (q, t))" by auto
    with Seq obtain u v where "s = u @ t" "rx_lang a u" "q = after p u" "t = v @ s'" "rx_lang b v" "p' = after q v"
      by auto
    then show "\<exists>m. s = m @ s' \<and> rx_lang (Seq a b) m \<and> p' = after p m"
      by (intro exI [of _ "u @ v"]) auto
  next
    assume "\<exists>m. s = m @ s' \<and> rx_lang (Seq a b) m \<and> p' = after p m"
    then obtain u v where "s = u @ v @ s'" "rx_lang a u" "rx_lang b v" "p' = after p (u @ v)" by auto
    with Seq have "(after p u, v @ s') \<in> set (rx_match a (p, s))"
      "(p', s') \<in> set (rx_match b (after p u, v @ s'))" by auto
    then show "(p', s') \<in> set (rx_match (Seq a b) (p, s))" by auto
  qed
next
  case (Opt a)
  then show ?case by (auto simp: after_def)
next
  case (Plus P)
  then show ?case by (auto simp: plus_match_iff after_def)
qed simp

section \<open>Digit tokens\<close>

definition token_rx :: "rx \<Rightarrow> rx" where
  "token_rx body = Seq Wb (Seq body Wb)"

definition has_token :: "rx \<Rightarrow> char option \<Rightarrow> string \<Rightarrow> bool" where
  "has_token body p s \<longleftrightarrow> rx_match (token_rx body) (p, s) \<noteq> []"

lemma in_match_Wb: "y \<in> set (rx_match Wb x) \<longleftrightarrow> y = x \<and> word_at (fst x) \<noteq> word_at (first_char (snd x))"
  by (cases x) auto

lemma rx_sub_no_match:
  "rx_match r (p, s) = [] \<Longrightarrow>
     rx_sub r rep p s = (case s of [] \<Rightarrow> [] | c # cs \<Rightarrow> c # rx_sub r rep (Some c) cs)"
  by (subst rx_sub.simps) simp

lemma digit_word: "ascii_digit c \<Longrightarrow> re_word c"
  by (simp add: re_word_def)

locale token_pattern =
  fixes body :: rx
  assumes free: "boundary_free body"
    and lang: "rx_lang body m \<Longrightarrow> m \<noteq> [] \<and> ascii_digit (hd m) \<and> ascii_digit (last m) \<and> CHR ''['' \<notin> set m"
begin

lemma match_iff:
  "(p', s') \<in> set (rx_match (token_rx body) (p, s)) \<longleftrightarrow>
     (\<exists>m. s = m @ s' \<and> rx_lang body m \<and> p' = Some (last m) \<and> \<not> word_at p \<and> \<not> word_at (first_char s'))"
proof -
  have e: "(p', s') \<in> set (rx_match (token_rx body) (p, s)) \<longleftrightarrow>
      word_at p \<noteq> word_at (first_char s) \<and> (p', s') \<in> set (rx_match body (p, s)) \<and>
      word_at p' \<noteq> word_at (first_char s')"
    by (auto simp: token_rx_def in_match_Wb simp del: rx_match.simps(5) split: if_splits)
  have m: "word_at (first_char (m @ s')) \<and> word_at (Some (last m)) \<and> after p m = Some (last m)" if "rx_lang body m" for m
    using lang [OF that] by (cases m) (auto simp: word_at_def first_char_def after_def digit_word)
  show ?thesis unfolding e rx_match_iff [OF free] using m by auto
qed

lemma has_token_iff:
  "has_token body p s \<longleftrightarrow> \<not> word_at p \<and> (\<exists>m x. s = m @ x \<and> rx_lang body m \<and> \<not> word_at (first_char x))"
proof -
  have "has_token body p s \<longleftrightarrow> (\<exists>p' s'. (p', s') \<in> set (rx_match (token_rx body) (p, s)))"
    unfolding has_token_def by (metis list.set_intros(1) neq_Nil_conv surj_pair empty_iff empty_set)
  then show ?thesis unfolding match_iff by blast
qed

lemma has_token_digit: "has_token body p s \<Longrightarrow> \<exists>c s'. s = c # s' \<and> ascii_digit c"
proof -
  assume "has_token body p s"
  then obtain m x where mx: "s = m @ x" "rx_lang body m" unfolding has_token_iff by blast
  with lang [OF mx(2)] show ?thesis by (cases m) auto
qed

lemma search_skip:
  assumes "\<forall>c \<in> set u. \<not> ascii_digit c"
  shows "rx_search (token_rx body) p (u @ s) = rx_search (token_rx body) (after p u) s"
  using assms
proof (induction u arbitrary: p)
  case (Cons c u)
  have "\<not> has_token body p (c # u @ s)" using Cons.prems has_token_digit by fastforce
  then have "rx_match (token_rx body) (p, c # u @ s) = []" by (simp add: has_token_def)
  with Cons show ?case by simp
qed (simp add: after_def)

text \<open>What a substitution leaves of the text up to the next replacement.\<close>

lemma sub_prefix:
  assumes rep: "rep \<noteq> []" "hd rep = CHR ''[''"
  shows "rx_sub (token_rx body) rep p s = w @ x \<Longrightarrow> CHR ''['' \<notin> set w \<Longrightarrow>
    \<exists>y. s = w @ y \<and> (first_char y = first_char x \<or> has_token body (after p w) y)"
proof (induction w arbitrary: p s)
  case Nil
  show ?case
  proof (cases "has_token body p s")
    case False
    with Nil show ?thesis
      by (cases s) (auto simp: rx_sub_no_match has_token_def first_char_def)
  qed (simp add: after_def)
next
  case (Cons c w)
  have sub: "(case rx_match (token_rx body) (p, s) of
        (p', s') # _ \<Rightarrow>
          if length s' < length s then rep @ rx_sub (token_rx body) rep p' s'
          else (case s of [] \<Rightarrow> [] | c # cs \<Rightarrow> c # rx_sub (token_rx body) rep (Some c) cs)
      | [] \<Rightarrow> (case s of [] \<Rightarrow> [] | c # cs \<Rightarrow> c # rx_sub (token_rx body) rep (Some c) cs)) = c # w @ x"
    using Cons.prems(1) by (subst (asm) rx_sub.simps) simp
  have rep_c: "rep @ z \<noteq> c # w @ x" for z using rep Cons.prems(2) by (cases rep) auto
  have "(case s of [] \<Rightarrow> [] | c # cs \<Rightarrow> c # rx_sub (token_rx body) rep (Some c) cs) = c # w @ x"
    using sub rep_c by (auto split: list.splits if_splits prod.splits)
  then obtain cs where "s = c # cs" "rx_sub (token_rx body) rep (Some c) cs = w @ x"
    by (auto split: list.splits)
  with Cons.IH [of "Some c" cs] Cons.prems(2) show ?case by auto
qed

end

text \<open>
  If every token of \<open>r\<close> in a text begins where a token of \<open>q\<close> does (in particular if \<open>r\<close> is
  \<open>q\<close>, or the text has no token of \<open>r\<close>), then replacing the tokens of \<open>q\<close> leaves no token of
  \<open>r\<close>: the replacement is bracketed, so it can neither contain a token nor make one by joining
  the pieces around it.
\<close>

definition covered :: "rx \<Rightarrow> rx \<Rightarrow> char option \<Rightarrow> string \<Rightarrow> bool" where
  "covered r q p s \<longleftrightarrow> (\<forall>u v. s = u @ v \<longrightarrow> has_token r (after p u) v \<longrightarrow> has_token q (after p u) v)"

lemma covered_suffix: "covered r q p (u @ v) \<Longrightarrow> covered r q (after p u) v"
  unfolding covered_def by (metis after_append append.assoc)

lemma search_iff: "rx_search r p s \<longleftrightarrow> (\<exists>u v. s = u @ v \<and> rx_match r (after p u, v) \<noteq> [])"
proof (induction s arbitrary: p)
  case (Cons c s)
  show ?case
  proof
    assume "rx_search r p (c # s)"
    then consider "rx_match r (p, c # s) \<noteq> []" | "rx_search r (Some c) s" by auto
    then show "\<exists>u v. c # s = u @ v \<and> rx_match r (after p u, v) \<noteq> []"
    proof cases
      case 1
      then show ?thesis by (intro exI [of _ "[]"] exI [of _ "c # s"]) (simp add: after_def)
    next
      case 2
      then obtain u v where "s = u @ v" "rx_match r (after (Some c) u, v) \<noteq> []" unfolding Cons.IH by blast
      then show ?thesis by (intro exI [of _ "c # u"] exI [of _ v]) simp
    qed
  next
    assume "\<exists>u v. c # s = u @ v \<and> rx_match r (after p u, v) \<noteq> []"
    then obtain u v where uv: "c # s = u @ v" "rx_match r (after p u, v) \<noteq> []" by blast
    show "rx_search r p (c # s)"
    proof (cases u)
      case Nil
      with uv have "rx_match r (p, c # s) \<noteq> []" by (simp add: after_def)
      then show ?thesis by simp
    next
      case (Cons d u')
      with uv have "s = u' @ v" "rx_match r (after (Some c) u', v) \<noteq> []" by simp_all
      then have "rx_search r (Some c) s" unfolding Cons.IH by blast
      then show ?thesis by simp
    qed
  qed
qed (simp add: after_def)

definition bracketed :: "string \<Rightarrow> bool" where
  "bracketed rep \<longleftrightarrow> rep \<noteq> [] \<and> hd rep = CHR ''['' \<and> last rep = CHR '']'' \<and> (\<forall>c \<in> set rep. \<not> ascii_digit c)"

text \<open>A token at an unreplaced position of the result was a token of the text.\<close>

lemma token_in_unreplaced:
  assumes r: "token_pattern r" and q: "token_pattern q" and rep: "bracketed rep"
    and no: "\<not> has_token q p (c # cs)" and cov: "covered r q p (c # cs)"
    and ctx: "word_at p' = word_at p \<or> \<not> word_at (Some c)"
  shows "\<not> has_token r p' (c # rx_sub (token_rx q) rep (Some c) cs)"
proof
  assume "has_token r p' (c # rx_sub (token_rx q) rep (Some c) cs)"
  then obtain m x where m: "\<not> word_at p'" "c # rx_sub (token_rx q) rep (Some c) cs = m @ x" "rx_lang r m"
    "\<not> word_at (first_char x)" unfolding token_pattern.has_token_iff [OF r] by blast
  from token_pattern.lang [OF r m(3)] have d: "m \<noteq> []" "ascii_digit (hd m)" "ascii_digit (last m)" "CHR ''['' \<notin> set m"
    by blast+
  with m(2) obtain w where w: "m = c # w" "rx_sub (token_rx q) rep (Some c) cs = w @ x" by (cases m) auto
  obtain y where y: "cs = w @ y" "first_char y = first_char x \<or> has_token q (after (Some c) w) y"
    using token_pattern.sub_prefix [OF q _ _ w(2)] rep d(4) w(1) by (auto simp: bracketed_def)
  have "word_at (after (Some c) w)"
    using d(3) w(1) by (cases "w = []") (simp_all add: after_def word_at_def digit_word)
  then have "first_char y = first_char x" using y(2) unfolding token_pattern.has_token_iff [OF q] by blast
  moreover have "c # cs = m @ y" using w(1) y(1) by simp
  moreover have "\<not> word_at p" using ctx m(1) d(2) w(1) by (simp add: word_at_def digit_word)
  ultimately have "has_token r p (c # cs)"
    using m(3,4) unfolding token_pattern.has_token_iff [OF r] by metis
  with cov no show False unfolding covered_def by (metis after_def append_Nil)
qed

lemma sub_leaves_no_token:
  assumes r: "token_pattern r" and q: "token_pattern q" and rep: "bracketed rep"
  shows "covered r q p s \<Longrightarrow> word_at p' = word_at p \<or> \<not> word_at (first_char s) \<Longrightarrow>
    \<not> rx_search (token_rx r) p' (rx_sub (token_rx q) rep p s)"
proof (induction "length s" arbitrary: p p' s rule: less_induct)
  case less
  show ?case
  proof (cases "has_token q p s")
    case True
    then obtain q' s' ms where m: "rx_match (token_rx q) (p, s) = (q', s') # ms"
      unfolding has_token_def by (cases "rx_match (token_rx q) (p, s)") auto
    then have "(q', s') \<in> set (rx_match (token_rx q) (p, s))" by simp
    then obtain t where t: "s = t @ s'" "rx_lang q t" "q' = Some (last t)" "\<not> word_at (first_char s')"
      unfolding token_pattern.match_iff [OF q] by blast
    with token_pattern.lang [OF q t(2)] have len: "length s' < length s" and q': "q' = after p t"
      by (auto simp: after_def)
    have sub: "rx_sub (token_rx q) rep p s = rep @ rx_sub (token_rx q) rep q' s'"
      by (subst rx_sub.simps) (simp add: m len)
    have cov: "covered r q q' s'" unfolding q' by (rule covered_suffix) (use less.prems(1) t(1) in simp)
    have "\<not> rx_search (token_rx r) (after p' rep) (rx_sub (token_rx q) rep q' s')"
      using less.hyps [OF len cov] t(4) by blast
    then show ?thesis
      unfolding sub using rep by (subst token_pattern.search_skip [OF r]) (auto simp: bracketed_def)
  next
    case False
    then have no: "rx_match (token_rx q) (p, s) = []" by (simp add: has_token_def)
    show ?thesis
    proof (cases s)
      case Nil
      have "\<not> has_token r p' []" using token_pattern.has_token_digit [OF r] by blast
      moreover have "rx_sub (token_rx q) rep p s = []" 
        using rx_sub_no_match [OF no, of rep] by (simp add: Nil)
      ultimately show ?thesis by (simp add: has_token_def)
    next
      case (Cons c cs)
      have sub: "rx_sub (token_rx q) rep p s = c # rx_sub (token_rx q) rep (Some c) cs"
        using rx_sub_no_match [OF no, of rep] by (simp add: Cons)
      have cov: "covered r q (Some c) cs"
        using covered_suffix [of r q p "[c]" cs] less.prems(1) Cons by (simp add: after_def)
      have "\<not> rx_search (token_rx r) (Some c) (rx_sub (token_rx q) rep (Some c) cs)"
        using less.hyps [OF _ cov] Cons by simp
      moreover have "\<not> has_token r p' (c # rx_sub (token_rx q) rep (Some c) cs)"
        using False less.prems Cons
        by (intro token_in_unreplaced [OF r q rep]) (simp_all add: first_char_def)
      ultimately show ?thesis by (simp add: sub has_token_def)
    qed
  qed
qed

lemma sub_removes:
  "token_pattern r \<Longrightarrow> bracketed rep \<Longrightarrow> \<not> rx_search (token_rx r) None (rx_sub (token_rx r) rep None s)"
  by (rule sub_leaves_no_token) (simp_all add: covered_def)

lemma sub_keeps_clean:
  assumes "token_pattern r" and "token_pattern q" and "bracketed rep" and "\<not> rx_search (token_rx r) None s"
  shows "\<not> rx_search (token_rx r) None (rx_sub (token_rx q) rep None s)"
proof (rule sub_leaves_no_token [OF assms(1-3)])
  show "covered r q None s" using assms(4) unfolding search_iff covered_def has_token_def by blast
qed simp

lemma rx_sub_Nil_iff: "rep \<noteq> [] \<Longrightarrow> rx_sub r rep p s = [] \<longleftrightarrow> s = []"
  by (subst rx_sub.simps) (auto split: list.splits prod.splits)

text \<open>A text without a match is left alone, whatever the pattern.\<close>

lemma sub_no_search: "\<not> rx_search r p s \<Longrightarrow> rx_sub r rep p s = s"
  by (induction s arbitrary: p) (simp_all add: rx_sub.simps)

end
