(* ===== verification/Gw_Guardrails.thy ===== *)
theory Gw_Guardrails
  imports Gw_Model Regex
begin

text \<open>
  \<open>guardrails.py\<close>: the checks every request passes before it may reach the model, and the
  redaction of identifiers. The three digit patterns are interpretations of \<open>token_pattern\<close>.
\<close>

definition allowed_roles :: "string list" where
  "allowed_roles = [''system'', ''user'', ''assistant'', ''developer'', ''tool'']"

section \<open>The patterns\<close>

definition email_local :: "char \<Rightarrow> bool" where
  "email_local c \<longleftrightarrow> ascii_letter c \<or> ascii_digit c \<or> c \<in> set ''._%+-''"

definition email_host :: "char \<Rightarrow> bool" where
  "email_host c \<longleftrightarrow> ascii_letter c \<or> ascii_digit c \<or> c \<in> set ''.-''"

definition email_rx :: rx where
  "email_rx =
     Seq Wb (Seq (Plus email_local) (Seq (Cls (\<lambda>c. c = CHR ''@'')) (Seq (Plus email_host)
       (Seq (Cls (\<lambda>c. c = CHR ''.'')) (Seq (Seq (Cls ascii_letter) (Plus ascii_letter)) Wb)))))"

definition digits :: "nat \<Rightarrow> rx" where
  "digits n = rx_times (n - 1) (Cls ascii_digit)"

definition ssn_body :: rx where
  "ssn_body =
     Seq (digits 3) (Seq (Cls (\<lambda>c. c = CHR ''-'')) (Seq (digits 2) (Seq (Cls (\<lambda>c. c = CHR ''-'')) (digits 4))))"

definition card_body :: rx where
  "card_body =
     (let sep = Opt (Cls (\<lambda>c. c \<in> set ''- ''))
      in Seq (digits 4) (Seq sep (Seq (digits 4) (Seq sep (Seq (digits 4) (Seq sep (digits 4)))))))"

definition phone_body :: rx where
  "phone_body =
     (let sep = Opt (Cls (\<lambda>c. c \<in> set ''-.''))
      in Seq (digits 3) (Seq sep (Seq (digits 3) (Seq sep (digits 4)))))"

definition pii_patterns :: "(rx \<times> string) list" where
  "pii_patterns =
     [(email_rx, ''[EMAIL]''), (token_rx ssn_body, ''[SSN]''), (token_rx card_body, ''[CARD]''),
      (token_rx phone_body, ''[PHONE]'')]"

definition redact_pii :: "string \<Rightarrow> string" where
  "redact_pii text = foldl (\<lambda>t pattern. rx_sub (fst pattern) (snd pattern) None t) text pii_patterns"

section \<open>screen_and_sanitize\<close>

text \<open>The first role that is not forwarded, and the first blocked term of a user or tool message.\<close>

definition bad_role :: "gw_message list \<Rightarrow> string option" where
  "bad_role ms = map_option gm_role (find (\<lambda>m. gm_role m \<notin> set allowed_roles) ms)"

fun blocked_term :: "string list \<Rightarrow> gw_message list \<Rightarrow> string option" where
  "blocked_term blocklist [] = None"
| "blocked_term blocklist (m # ms) =
     (if gm_role m \<notin> {''user'', ''tool''} then blocked_term blocklist ms
      else (case find (\<lambda>term. py_contains (py_lower term) (py_lower (gm_content m))) blocklist of
              Some term \<Rightarrow> Some term
            | None \<Rightarrow> blocked_term blocklist ms))"

definition combined_input :: "gw_message list \<Rightarrow> string" where
  "combined_input ms = py_strip (py_join '' '' (map gm_content ms))"

definition screen_and_sanitize :: "guardrail_settings \<Rightarrow> gw_message list \<Rightarrow> gw_error + gw_message list" where
  "screen_and_sanitize g ms =
     (case bad_role ms of
        Some role \<Rightarrow> Inl (Guardrail_Rejected (''unsupported role: '' @ py_repr role))
      | None \<Rightarrow>
          let combined = combined_input ms in
          if combined = [] then Inl (Guardrail_Rejected ''input is empty'')
          else if int (length combined) > gs_max_input_chars g
          then Inl (Guardrail_Rejected (''input exceeds max_input_chars ('' @
                 str_nat (length combined) @ '' > '' @ py_str_int (gs_max_input_chars g) @ '')''))
          else (case blocked_term (gs_blocklist g) ms of
                  Some term \<Rightarrow> Inl (Guardrail_Rejected (''blocked term detected: '' @ py_repr term))
                | None \<Rightarrow>
                    Inr (map (\<lambda>m. \<lparr>gm_role = gm_role m, gm_content = redact_pii (gm_content m),
                                gm_tool_calls = gm_tool_calls m, gm_tool_call_id = gm_tool_call_id m\<rparr>) ms)))"

section \<open>The digit patterns\<close>

lemma digit_ne_bracket: "ascii_digit c \<Longrightarrow> c \<noteq> CHR ''[''"
  by (auto simp: ascii_digit_def)

lemma lang_digits:
  "rx_lang (rx_times n (Cls ascii_digit)) m \<longleftrightarrow> length m = Suc n \<and> (\<forall>c \<in> set m. ascii_digit c)"
proof (induction n arbitrary: m)
  case 0
  then show ?case by (cases m) auto
next
  case (Suc n)
  have "rx_lang (rx_times (Suc n) (Cls ascii_digit)) m \<longleftrightarrow>
      (\<exists>c v. m = c # v \<and> ascii_digit c \<and> length v = Suc n \<and> (\<forall>c \<in> set v. ascii_digit c))"
    using Suc by auto (metis append_Cons append_Nil)
  then show ?case by (cases m) auto
qed

lemma free_digits: "boundary_free (digits n)"
proof -
  have "boundary_free (rx_times k (Cls ascii_digit))" for k by (induction k) auto
  then show ?thesis by (simp add: digits_def)
qed

definition digit_ends :: "string \<Rightarrow> bool" where
  "digit_ends m \<longleftrightarrow> m \<noteq> [] \<and> ascii_digit (hd m) \<and> ascii_digit (last m) \<and> CHR ''['' \<notin> set m"

text \<open>Every match begins and ends with a digit; every match of a separator is free of brackets.\<close>

definition digit_ended :: "rx \<Rightarrow> bool" where
  "digit_ended r \<longleftrightarrow> (\<forall>m. rx_lang r m \<longrightarrow> digit_ends m)"

definition bracketless :: "rx \<Rightarrow> bool" where
  "bracketless r \<longleftrightarrow> (\<forall>m. rx_lang r m \<longrightarrow> CHR ''['' \<notin> set m)"

lemma ended_digits: "digit_ended (digits n)"
  unfolding digit_ended_def digits_def lang_digits digit_ends_def
  by (metis Suc_length_conv digit_ne_bracket last_in_set list.distinct(1) list.set_sel(1))

lemma ended_Seq: "digit_ended a \<Longrightarrow> bracketless sep \<Longrightarrow> digit_ended b \<Longrightarrow> digit_ended (Seq a (Seq sep b))"
  unfolding digit_ended_def bracketless_def digit_ends_def by fastforce

lemma bracketless_Cls: "\<not> P CHR ''['' \<Longrightarrow> bracketless (Cls P)"
  by (auto simp: bracketless_def)

lemma bracketless_Opt: "bracketless r \<Longrightarrow> bracketless (Opt r)"
  by (auto simp: bracketless_def)

lemmas ended_intros = ended_Seq ended_digits bracketless_Opt bracketless_Cls

lemma token_patternI: "boundary_free r \<Longrightarrow> digit_ended r \<Longrightarrow> token_pattern r"
  by (simp add: token_pattern_def digit_ended_def digit_ends_def)

interpretation ssn: token_pattern ssn_body
proof (rule token_patternI)
  show "digit_ended ssn_body" unfolding ssn_body_def by (intro ended_intros) simp_all
qed (simp add: ssn_body_def free_digits)

interpretation card: token_pattern card_body
proof (rule token_patternI)
  show "digit_ended card_body" unfolding card_body_def Let_def by (intro ended_intros) simp_all
qed (simp add: card_body_def Let_def free_digits)

interpretation phone: token_pattern phone_body
proof (rule token_patternI)
  show "digit_ended phone_body" unfolding phone_body_def Let_def by (intro ended_intros) simp_all
qed (simp add: phone_body_def Let_def free_digits)

section \<open>No identifier survives\<close>

lemma bracketed_tags: "bracketed ''[SSN]''" "bracketed ''[CARD]''" "bracketed ''[PHONE]''"
  by (simp_all add: bracketed_def ascii_digit_def)

lemma redact_steps:
  "redact_pii text =
     rx_sub (token_rx phone_body) ''[PHONE]'' None (rx_sub (token_rx card_body) ''[CARD]'' None
       (rx_sub (token_rx ssn_body) ''[SSN]'' None (rx_sub email_rx ''[EMAIL]'' None text)))"
  by (simp add: redact_pii_def pii_patterns_def)

lemma redact_removes:
  "\<not> rx_search (token_rx ssn_body) None (redact_pii text)"
  "\<not> rx_search (token_rx card_body) None (redact_pii text)"
  "\<not> rx_search (token_rx phone_body) None (redact_pii text)"
  unfolding redact_steps
  by (intro sub_keeps_clean sub_removes bracketed_tags
      ssn.token_pattern_axioms card.token_pattern_axioms phone.token_pattern_axioms)+

definition pii_free :: "string \<Rightarrow> bool" where
  "pii_free text \<longleftrightarrow>
     \<not> rx_search (token_rx ssn_body) None text \<and> \<not> rx_search (token_rx card_body) None text \<and>
     \<not> rx_search (token_rx phone_body) None text"

lemma pii_free_redact [simp]: "pii_free (redact_pii text)"
  by (simp add: pii_free_def redact_removes)

section \<open>What passes\<close>

text \<open>A text in which no pattern matches is forwarded as it is.\<close>

lemma redact_clean:
  assumes "\<forall>pattern \<in> set pii_patterns. \<not> rx_search (fst pattern) None text"
  shows "redact_pii text = text"
  using assms by (simp add: redact_pii_def pii_patterns_def sub_no_search)

lemma bad_role_None: "bad_role ms = None \<longleftrightarrow> (\<forall>m \<in> set ms. gm_role m \<in> set allowed_roles)"
  by (auto simp: bad_role_def find_None_iff)

lemma blocked_term_None:
  "blocked_term blocklist ms = None \<longleftrightarrow>
     (\<forall>m \<in> set ms. gm_role m \<in> {''user'', ''tool''} \<longrightarrow>
        (\<forall>term \<in> set blocklist. \<not> py_contains (py_lower term) (py_lower (gm_content m))))"
proof (induction ms)
  case (Cons m ms)
  have "(case f of Some t \<Rightarrow> Some t | None \<Rightarrow> rest) = None \<longleftrightarrow> f = None \<and> rest = None"
    for f rest :: "string option" by (cases f) simp_all
  with Cons show ?case by (auto simp: find_None_iff)
qed simp

text \<open>What is required of a turn, and what is done to it.\<close>

definition turn_admissible :: "string list \<Rightarrow> gw_message \<Rightarrow> bool" where
  "turn_admissible blocklist m \<longleftrightarrow>
     gm_role m \<in> set allowed_roles \<and>
     (gm_role m \<in> {''user'', ''tool''} \<longrightarrow>
       (\<forall>term \<in> set blocklist. \<not> py_contains (py_lower term) (py_lower (gm_content m))))"

definition turn_redacted :: "gw_message \<Rightarrow> gw_message \<Rightarrow> bool" where
  "turn_redacted m m' \<longleftrightarrow>
     gm_role m' = gm_role m \<and> gm_tool_calls m' = gm_tool_calls m \<and> gm_tool_call_id m' = gm_tool_call_id m \<and>
     pii_free (gm_content m') \<and>
     ((\<forall>pattern \<in> set pii_patterns. \<not> rx_search (fst pattern) None (gm_content m)) \<longrightarrow> gm_content m' = gm_content m)"


end
