(* ===== verification/Gw_Provider.thy ===== *)
theory Gw_Provider
  imports Gw_Model
begin

text \<open>
  The two providers behind the gateway: \<open>provider.py\<close>, over the OpenAI SDK, and
  \<open>provider_zen.py\<close>, over the HTTP client. Each is written over an arbitrary client (the
  third-party package and the model behind it): a function of the request that may change the
  outside world and answers or raises.
\<close>

type_synonym ('w, 'q, 'e, 'r) client = "'q \<Rightarrow> ('w, 'e, 'r) comp"

type_synonym 'w provider =
  "gw_message list \<Rightarrow> int option \<Rightarrow> rat option \<Rightarrow> tool_spec list \<Rightarrow> string option \<Rightarrow>
   ('w, gw_error, completion) comp"

text \<open>
  Parameters: the JSON library, the message of a \<open>JSONDecodeError\<close> (\<open>None\<close> when \<open>json.loads\<close>
  raises a plain \<open>ValueError\<close>), the sum of floats, and the conversion of a Python value to an
  \<open>int64\<close> field by protobuf (\<open>None\<close> when it raises).
\<close>

record gw_lib =
  gl_json :: pylib
  decode_error :: "string \<Rightarrow> string option"
  float_sum :: "json \<Rightarrow> json \<Rightarrow> string"
  pb_int64 :: "json \<Rightarrow> int option"

section \<open>Tool schemas\<close>

definition tool_parameters :: "gw_lib \<Rightarrow> tool_spec \<Rightarrow> gw_error + json" where
  "tool_parameters lib t =
     (if ts_parameters t = [] then Inr (JObj [])
      else (case json_loads (gl_json lib) (ts_parameters t) of
              Some v \<Rightarrow> Inr v
            | None \<Rightarrow>
                (case decode_error lib (ts_parameters t) of
                   Some exc \<Rightarrow> Inl (Gw_Validation (''tool '' @ py_repr (ts_name t) @
                     '' has an invalid parameters schema: '' @ exc))
                 | None \<Rightarrow> Inl (Gw_Other ''ValueError''))))"

section \<open>provider.py\<close>

definition to_openai_message :: "gw_message \<Rightarrow> json" where
  "to_openai_message m = JObj (
     [(''role'', JStr (gm_role m)), (''content'', JStr (gm_content m))] @
     (if gm_tool_calls m = [] then []
      else [(''tool_calls'', JArr (map (\<lambda>tc. JObj
             [(''id'', JStr (tc_id tc)), (''type'', JStr ''function''),
              (''function'', JObj [(''name'', JStr (tc_name tc)), (''arguments'', JStr (tc_arguments tc))])])
           (gm_tool_calls m)))]) @
     (case gm_tool_call_id m of None \<Rightarrow> [] | Some call_id \<Rightarrow> [(''tool_call_id'', JStr call_id)]))"

definition to_openai_tools :: "gw_lib \<Rightarrow> tool_spec list \<Rightarrow> gw_error + json list" where
  "to_openai_tools lib = mapR (\<lambda>t. bindR (tool_parameters lib t) (\<lambda>parameters. Inr (JObj
     [(''type'', JStr ''function''),
      (''function'', JObj [(''name'', JStr (ts_name t)), (''description'', JStr (ts_description t)),
                           (''parameters'', parameters)])])))"

record oa_request =
  oq_model :: string
  oq_messages :: "json list"
  oq_max_tokens :: int
  oq_temperature :: rat
  oq_tools :: "json list option"
  oq_tool_choice :: "string option"

text \<open>A tool call of the response: only one of type \<open>function\<close> has a name and arguments.\<close>

record oa_tool_call =
  otc_type :: string
  otc_id :: string
  otc_name :: string
  otc_arguments :: "string option"

record oa_choice =
  och_content :: "string option"
  och_tool_calls :: "oa_tool_call list option"
  och_finish_reason :: "string option"

record oa_response =
  or_choices :: "oa_choice list"
  or_usage :: "(int \<times> int \<times> int) option"

datatype oa_error = Bad_Request_Error string | Open_AI_Error string | Oa_Other string

definition oa_raise :: "oa_error \<Rightarrow> gw_error" where
  "oa_raise e =
     (case e of Bad_Request_Error m \<Rightarrow> Gw_Validation m | Open_AI_Error m \<Rightarrow> Provider_Error m | Oa_Other m \<Rightarrow> Gw_Other m)"

text \<open>\<open>a or b\<close> where \<open>a\<close> may be \<open>None\<close> or empty.\<close>

definition str_or :: "string option \<Rightarrow> string \<Rightarrow> string" where
  "str_or a b = (case a of Some s \<Rightarrow> if s = [] then b else s | None \<Rightarrow> b)"

definition oa_completion :: "oa_response \<Rightarrow> gw_error + completion" where
  "oa_completion response =
     (case or_choices response of
        [] \<Rightarrow> Inl (Provider_Error ''model returned no choices'')
      | choice # _ \<Rightarrow>
          let (prompt, compl, total_tokens) = (case or_usage response of Some u \<Rightarrow> u | None \<Rightarrow> (0, 0, 0));
              calls = filter (\<lambda>tc. otc_type tc = ''function'')
                        (case och_tool_calls choice of Some tcs \<Rightarrow> tcs | None \<Rightarrow> [])
          in Inr \<lparr>co_content = str_or (och_content choice) [],
                  co_finish_reason = str_or (och_finish_reason choice) ''stop'',
                  co_usage = \<lparr>us_prompt_tokens = JInt prompt, us_completion_tokens = JInt compl,
                              us_total_tokens = JInt total_tokens\<rparr>,
                  co_tool_calls = map (\<lambda>tc. \<lparr>tc_id = JStr (otc_id tc), tc_name = JStr (otc_name tc),
                              tc_arguments = JStr (str_or (otc_arguments tc) ''{}'')\<rparr>) calls\<rparr>)"

definition openai_complete ::
    "gw_lib \<Rightarrow> model_settings \<Rightarrow> ('w, oa_request, oa_error, oa_response) client \<Rightarrow> 'w provider" where
  "openai_complete lib settings create messages max_tokens temperature tools tool_choice =
     bindS (liftS (if tools = [] then Inr None else bindR (to_openai_tools lib tools) (\<lambda>ts. Inr (Some ts)))) (\<lambda>extra.
     bindS (\<lambda>w. let (r, w') = create
              \<lparr>oq_model = ms_name settings, oq_messages = map to_openai_message messages,
               oq_max_tokens = (case max_tokens of Some n \<Rightarrow> n | None \<Rightarrow> ms_max_tokens settings),
               oq_temperature = (case temperature of Some x \<Rightarrow> x | None \<Rightarrow> ms_temperature settings),
               oq_tools = extra,
               oq_tool_choice = (if tools = [] \<or> tool_choice = Some [] then None else tool_choice)\<rparr> w
            in (case r of Inl e \<Rightarrow> Inl (oa_raise e) | Inr response \<Rightarrow> Inr response, w')) (\<lambda>response.
     liftS (oa_completion response)))"

section \<open>Lemmas\<close>

lemma str_or_nonempty: "b \<noteq> [] \<Longrightarrow> str_or a b \<noteq> []"
  by (simp add: str_or_def split: option.splits)

lemma oa_completion_finish: "oa_completion r = Inr c \<Longrightarrow> co_finish_reason c \<noteq> []"
  by (auto simp: oa_completion_def str_or_nonempty Let_def split: list.splits prod.splits)

lemma openai_tools_Inl:
  "t \<in> set ts \<Longrightarrow> tool_parameters lib t = Inl e \<Longrightarrow> \<exists>e'. to_openai_tools lib ts = Inl e'"
  unfolding to_openai_tools_def by (rule mapR_Inl) auto

end
