(* ===== verification/Gw_Zen.thy ===== *)
theory Gw_Zen
  imports Gw_Provider
begin

text \<open>
  \<open>provider_zen.py\<close>: the provider that speaks the Responses API. The rendering of a
  conversation as typed input items, the payload, the reading of the reply (any JSON document)
  and its errors.
\<close>

section \<open>The input\<close>

definition zen_call_item :: "string tool_call \<Rightarrow> json" where
  "zen_call_item tc = JObj
     [(''type'', JStr ''function_call''), (''call_id'', JStr (tc_id tc)),
      (''name'', JStr (tc_name tc)), (''arguments'', JStr (tc_arguments tc))]"

definition zen_text_item :: "gw_message \<Rightarrow> json" where
  "zen_text_item m = JObj [(''role'', JStr (gm_role m)), (''content'', JStr (gm_content m))]"

definition zen_items_of :: "gw_message \<Rightarrow> json list" where
  "zen_items_of m =
     (if gm_role m = ''tool''
      then [JObj [(''type'', JStr ''function_call_output''),
                  (''call_id'', JStr (str_or (gm_tool_call_id m) [])), (''output'', JStr (gm_content m))]]
      else if gm_tool_calls m \<noteq> []
      then (if gm_content m \<noteq> [] then [zen_text_item m] else []) @ map zen_call_item (gm_tool_calls m)
      else [zen_text_item m])"

definition to_input :: "gw_message list \<Rightarrow> json list" where
  "to_input ms = concat (map zen_items_of ms)"

definition to_zen_tools :: "gw_lib \<Rightarrow> tool_spec list \<Rightarrow> gw_error + json list" where
  "to_zen_tools lib = mapR (\<lambda>t. bindR (tool_parameters lib t) (\<lambda>parameters. Inr (JObj
     [(''type'', JStr ''function''), (''name'', JStr (ts_name t)),
      (''description'', JStr (ts_description t)), (''parameters'', parameters)])))"

section \<open>The output\<close>

text \<open>\<open>item.get(key, default)\<close> and \<open>a or b\<close>.\<close>

definition get_default :: "(string \<times> json) list \<Rightarrow> string \<Rightarrow> json \<Rightarrow> json" where
  "get_default ms k d = (case obj_get ms k of Some v \<Rightarrow> v | None \<Rightarrow> d)"

definition json_or :: "json \<Rightarrow> json \<Rightarrow> json" where
  "json_or a b = (if json_truthy a then a else b)"

text \<open>The texts of a message's chunks; a chunk that is not an object raises.\<close>

fun chunk_texts :: "json list \<Rightarrow> string list option" where
  "chunk_texts [] = Some []"
| "chunk_texts (JObj ms # chunks) =
     map_option ((@) (case obj_get ms ''text'' of Some (JStr piece) \<Rightarrow> [piece] | _ \<Rightarrow> [])) (chunk_texts chunks)"
| "chunk_texts (_ # chunks) = None"

definition zen_call :: "(string \<times> json) list \<Rightarrow> json tool_call" where
  "zen_call ms =
     \<lparr>tc_id = json_or (get_default ms ''call_id'' JNull) (json_or (get_default ms ''id'' JNull) (JStr [])),
      tc_name = json_or (get_default ms ''name'' JNull) (JStr []),
      tc_arguments = json_or (get_default ms ''arguments'' JNull) (JStr ''{}'')\<rparr>"

definition zen_item :: "(string \<times> json) list \<Rightarrow> (string list \<times> json tool_call list) option" where
  "zen_item ms =
     (if obj_get ms ''type'' = Some (JStr ''message'')
      then (case py_items (get_default ms ''content'' (JArr [])) of
              None \<Rightarrow> None
            | Some chunks \<Rightarrow> map_option (\<lambda>texts. (texts, [])) (chunk_texts chunks))
      else if obj_get ms ''type'' = Some (JStr ''function_call'') then Some ([], [zen_call ms])
      else Some ([], []))"

fun zen_items :: "json list \<Rightarrow> (string list \<times> json tool_call list) option" where
  "zen_items [] = Some ([], [])"
| "zen_items (JObj ms # items) =
     (case zen_item ms of
        None \<Rightarrow> None
      | Some (texts, calls) \<Rightarrow>
          map_option (\<lambda>rest. (texts @ fst rest, calls @ snd rest)) (zen_items items))"
| "zen_items (_ # items) = None"

definition parse_output :: "(string \<times> json) list \<Rightarrow> (string \<times> json tool_call list) option" where
  "parse_output body =
     (case py_items (get_default body ''output'' (JArr [])) of
        None \<Rightarrow> None
      | Some items \<Rightarrow>
          (case zen_items items of
             None \<Rightarrow> None
           | Some (texts, calls) \<Rightarrow>
               Some (if texts \<noteq> [] then concat texts
                     else (case obj_get body ''output_text'' of Some (JStr flat) \<Rightarrow> flat | _ \<Rightarrow> []), calls)))"

section \<open>complete\<close>

record zen_request =
  zq_model :: string
  zq_input :: "json list"
  zq_stream :: bool
  zq_reasoning_effort :: string
  zq_temperature :: "rat option"
  zq_max_output_tokens :: "int option"
  zq_tools :: "json list option"
  zq_tool_choice :: "string option"

text \<open>\<open>response.json()\<close> is \<open>None\<close> when the body is not JSON.\<close>

record zen_response =
  zr_status_code :: int
  zr_text :: string
  zr_json :: "json option"

datatype zen_error = Request_Error string | Zen_Other string

definition zen_usage :: "gw_lib \<Rightarrow> (string \<times> json) list \<Rightarrow> usage option" where
  "zen_usage lib usage_raw =
     (let prompt = get_default usage_raw ''input_tokens'' (JInt 0);
          compl = get_default usage_raw ''output_tokens'' (JInt 0)
      in case py_add (float_sum lib) prompt compl of
           None \<Rightarrow> None
         | Some both \<Rightarrow> Some \<lparr>us_prompt_tokens = prompt, us_completion_tokens = compl,
                             us_total_tokens = get_default usage_raw ''total_tokens'' both\<rparr>)"

definition zen_completion :: "gw_lib \<Rightarrow> zen_response \<Rightarrow> gw_error + completion" where
  "zen_completion lib response =
     (let code = py_str_int (zr_status_code response) in
      if zr_status_code response \<ge> 500
      then Inl (Provider_Error (''zen upstream '' @ code @ '': '' @ zr_text response))
      else if zr_status_code response \<ge> 400
      then Inl (Gw_Validation (''zen rejected request '' @ code @ '': '' @ zr_text response))
      else (case zr_json response of
              Some (JObj body) \<Rightarrow>
                if json_truthy (get_default body ''error'' JNull)
                then Inl (Provider_Error (''zen error: '' @ py_str_json (gl_json lib) (get_default body ''error'' JNull)))
                else (case parse_output body of
                        None \<Rightarrow> Inl (Gw_Other ''AttributeError'')
                      | Some (content, tool_calls) \<Rightarrow>
                          if content = [] \<and> tool_calls = [] then Inl (Provider_Error ''zen returned no output'')
                          else (case json_or (get_default body ''usage'' JNull) (JObj []) of
                                  JObj usage_raw \<Rightarrow>
                                    (case zen_usage lib usage_raw of
                                       None \<Rightarrow> Inl (Gw_Other ''TypeError'')
                                     | Some u \<Rightarrow> Inr \<lparr>co_content = content,
                                         co_finish_reason = (if tool_calls = [] then ''stop'' else ''tool_calls''),
                                         co_usage = u, co_tool_calls = tool_calls\<rparr>)
                                | _ \<Rightarrow> Inl (Gw_Other ''AttributeError'')))
            | Some _ \<Rightarrow> Inl (Gw_Other ''AttributeError'')
            | None \<Rightarrow> Inl (Gw_Other ''JSONDecodeError'')))"

definition zen_complete ::
    "gw_lib \<Rightarrow> model_settings \<Rightarrow> ('w, zen_request, zen_error, zen_response) client \<Rightarrow> 'w provider" where
  "zen_complete lib settings post messages max_tokens temperature tools tool_choice =
     bindS (liftS (if tools = [] then Inr None else bindR (to_zen_tools lib tools) (\<lambda>ts. Inr (Some ts)))) (\<lambda>zen_tools.
     bindS (\<lambda>w. let (r, w') = post
              \<lparr>zq_model = ms_name settings, zq_input = to_input messages, zq_stream = False,
               zq_reasoning_effort = ''low'',
               zq_temperature = Some (case temperature of Some x \<Rightarrow> x | None \<Rightarrow> ms_temperature settings),
               zq_max_output_tokens = max_tokens, zq_tools = zen_tools,
               zq_tool_choice = (if tools = [] \<or> tool_choice = Some [] then None else tool_choice)\<rparr> w
            in (case r of Inl (Request_Error m) \<Rightarrow> Inl (Provider_Error m) | Inl (Zen_Other m) \<Rightarrow> Inl (Gw_Other m)
                | Inr response \<Rightarrow> Inr response, w')) (\<lambda>response.
     liftS (zen_completion lib response)))"

section \<open>Lemmas\<close>

lemma zen_completion_finish:
  assumes "zen_completion lib r = Inr c"
  shows "co_finish_reason c = (if co_tool_calls c = [] then ''stop'' else ''tool_calls'')"
    and "co_content c \<noteq> [] \<or> co_tool_calls c \<noteq> []"
  using assms
  by (auto simp: zen_completion_def Let_def split: if_splits option.splits json.splits prod.splits)

lemma zen_tools_Inl:
  "t \<in> set ts \<Longrightarrow> tool_parameters lib t = Inl e \<Longrightarrow> \<exists>e'. to_zen_tools lib ts = Inl e'"
  unfolding to_zen_tools_def by (rule mapR_Inl) auto

end
