(* ===== verification/Gw_Wire.thy ===== *)
theory Gw_Wire
  imports Gw_Zen
begin

text \<open>
  The two wire formats of a conversation compared. An upstream reads a request as a sequence of
  events: a turn of text, a call the model made, the result of a call. The chat-completions
  messages of the OpenAI provider and the typed items of the Zen provider are decoded into events
  independently, and shown to tell the same conversation.
\<close>

datatype wire_event =
    Wire_Text string string
  | Wire_Call string string string
  | Wire_Result string string

fun json_string :: "json option \<Rightarrow> string" where
  "json_string (Some (JStr s)) = s"
| "json_string _ = []"

fun json_members :: "json \<Rightarrow> (string \<times> json) list" where
  "json_members (JObj ms) = ms"
| "json_members _ = []"

fun json_elements :: "json option \<Rightarrow> json list" where
  "json_elements (Some (JArr xs)) = xs"
| "json_elements _ = []"

definition field :: "json \<Rightarrow> string \<Rightarrow> json option" where
  "field v k = obj_get (json_members v) k"

text \<open>Chat completions: a message answers a call, or says something and makes calls.\<close>

definition openai_call_event :: "json \<Rightarrow> wire_event" where
  "openai_call_event tc =
     (let f = (case field tc ''function'' of Some v \<Rightarrow> v | None \<Rightarrow> JNull)
      in Wire_Call (json_string (field tc ''id'')) (json_string (field f ''name'')) (json_string (field f ''arguments'')))"

definition openai_events :: "json \<Rightarrow> wire_event list" where
  "openai_events m =
     (let role = json_string (field m ''role''); content = json_string (field m ''content'');
          calls = map openai_call_event (json_elements (field m ''tool_calls''))
      in if role = ''tool'' \<or> field m ''tool_call_id'' \<noteq> None
         then Wire_Result (json_string (field m ''tool_call_id'')) content # calls
         else (if content = [] \<and> calls \<noteq> [] then [] else [Wire_Text role content]) @ calls)"

text \<open>The Responses API: every item is one event.\<close>

definition zen_event :: "json \<Rightarrow> wire_event" where
  "zen_event item =
     (if field item ''type'' = Some (JStr ''function_call'')
      then Wire_Call (json_string (field item ''call_id'')) (json_string (field item ''name''))
             (json_string (field item ''arguments''))
      else if field item ''type'' = Some (JStr ''function_call_output'')
      then Wire_Result (json_string (field item ''call_id'')) (json_string (field item ''output''))
      else Wire_Text (json_string (field item ''role'')) (json_string (field item ''content'')))"

section \<open>The conversation\<close>

text \<open>What the turns of a conversation say, and what of it is free text.\<close>

definition turn_events :: "gw_message \<Rightarrow> wire_event list" where
  "turn_events m =
     (if gm_role m = ''tool'' then [Wire_Result (str_or (gm_tool_call_id m) []) (gm_content m)]
      else (if gm_content m = [] \<and> gm_tool_calls m \<noteq> [] then [] else [Wire_Text (gm_role m) (gm_content m)]) @
           map (\<lambda>tc. Wire_Call (tc_id tc) (tc_name tc) (tc_arguments tc)) (gm_tool_calls m))"

fun event_text :: "wire_event \<Rightarrow> string" where
  "event_text (Wire_Text _ s) = s"
| "event_text (Wire_Result _ s) = s"
| "event_text (Wire_Call _ _ _) = []"

text \<open>In a conversation of the platform only tool turns carry a call id, and they make no calls.\<close>

definition turn_ok :: "gw_message \<Rightarrow> bool" where
  "turn_ok m \<longleftrightarrow> (if gm_role m = ''tool'' then gm_tool_calls m = [] else gm_tool_call_id m = None)"

lemma field_JObj: "field (JObj ms) k = map_of (rev ms) k"
  by (simp add: field_def obj_get_def)

lemma zen_event_call: "zen_event (zen_call_item tc) = Wire_Call (tc_id tc) (tc_name tc) (tc_arguments tc)"
  by (simp add: zen_event_def zen_call_item_def field_JObj)

lemma zen_event_text: "zen_event (zen_text_item m) = Wire_Text (gm_role m) (gm_content m)"
  by (simp add: zen_event_def zen_text_item_def field_JObj)

lemma zen_events: "map zen_event (to_input ms) = concat (map turn_events ms)"
proof -
  have "map zen_event (zen_items_of m) = turn_events m" for m
    by (simp add: zen_items_of_def turn_events_def zen_event_call zen_event_text o_def)
      (simp add: zen_event_def field_JObj)
  then show ?thesis by (induction ms) (simp_all add: to_input_def)
qed

lemma openai_events_turn:
  assumes "turn_ok m"
  shows "openai_events (to_openai_message m) = turn_events m"
proof (cases "gm_role m = ''tool''")
  case True
  with assms show ?thesis
    by (simp add: turn_ok_def turn_events_def to_openai_message_def openai_events_def field_JObj
        str_or_def split: option.splits)
next
  case False
  with assms have no_id: "gm_tool_call_id m = None" by (simp add: turn_ok_def)
  show ?thesis
  proof (cases "gm_tool_calls m")
    case Nil
    with False no_id show ?thesis
      by (simp add: turn_events_def to_openai_message_def openai_events_def field_JObj)
  next
    case (Cons tc tcs)
    with False no_id show ?thesis
      by (simp add: turn_events_def to_openai_message_def openai_events_def field_JObj
          openai_call_event_def o_def)
  qed
qed

lemma openai_events_turns:
  "list_all turn_ok ms \<Longrightarrow> concat (map openai_events (map to_openai_message ms)) = concat (map turn_events ms)"
  by (induction ms) (simp_all add: openai_events_turn)

text \<open>C29. Both providers put the same conversation on the wire: for every conversation in which
  only tool turns carry a call id and they make no calls, the items the Zen provider sends and
  the messages the OpenAI provider sends decode to the same sequence of texts, tool calls (id,
  name and arguments) and tool results (with the id of the call they answer).\<close>

theorem providers_send_same_conversation:
  assumes "list_all turn_ok ms"
  shows "map zen_event (to_input ms) = concat (map (\<lambda>m. openai_events (to_openai_message m)) ms)"
  using zen_events [of ms] openai_events_turns [OF assms] by (simp add: o_def)

definition sample_turns :: "gw_message list" where
  "sample_turns =
     [\<lparr>gm_role = ''user'', gm_content = ''weather?'', gm_tool_calls = [], gm_tool_call_id = None\<rparr>,
      \<lparr>gm_role = ''assistant'', gm_content = [],
       gm_tool_calls = [\<lparr>tc_id = ''c1'', tc_name = ''http'', tc_arguments = ''{}''\<rparr>,
                        \<lparr>tc_id = ''c2'', tc_name = ''sql'', tc_arguments = ''{}''\<rparr>], gm_tool_call_id = None\<rparr>,
      \<lparr>gm_role = ''tool'', gm_content = ''sunny'', gm_tool_calls = [], gm_tool_call_id = Some ''c1''\<rparr>]"

theorem providers_send_same_conversation_witness:
  "map zen_event (to_input sample_turns) =
     [Wire_Text ''user'' ''weather?'', Wire_Call ''c1'' ''http'' ''{}'', Wire_Call ''c2'' ''sql'' ''{}'',
      Wire_Result ''c1'' ''sunny'']"
proof -
  have "map zen_event (to_input sample_turns) =
      concat (map (\<lambda>m. openai_events (to_openai_message m)) sample_turns)"
    by (rule providers_send_same_conversation) (simp add: sample_turns_def turn_ok_def)
  also have "\<dots> = [Wire_Text ''user'' ''weather?'', Wire_Call ''c1'' ''http'' ''{}'', Wire_Call ''c2'' ''sql'' ''{}'',
      Wire_Result ''c1'' ''sunny'']"
    by code_simp
  finally show ?thesis .
qed

section \<open>What a provider promises\<close>

text \<open>
  A provider sends a request upstream at most once (it never retries), and what it sends reads
  as the conversation it was given; it has sent one for every answer it gives, gives a reason
  why the model stopped, and refuses a malformed tool schema without sending anything. \<open>sent\<close>
  is the log of the conversations sent so far, \<open>events\<close> reads one.
\<close>

locale chat_provider =
  fixes lib :: gw_lib
    and provider :: "'w provider"
    and sent :: "'w \<Rightarrow> json list list"
    and events :: "json list \<Rightarrow> wire_event list"
  assumes sends: "sent (snd (provider ms mt temp ts choice w)) = sent w \<or>
      (\<exists>conv. sent (snd (provider ms mt temp ts choice w)) = sent w @ [conv] \<and>
        (list_all turn_ok ms \<longrightarrow> events conv = concat (map turn_events ms)))"
    and answered: "provider ms mt temp ts choice w = (Inr c, w') \<Longrightarrow>
      sent w' \<noteq> sent w \<and> co_finish_reason c \<noteq> []"
    and schema_checked: "t \<in> set ts \<Longrightarrow> tool_parameters lib t = Inl e \<Longrightarrow>
      \<exists>e'. provider ms mt temp ts choice w = (Inl e', w)"

text \<open>A client together with the log of the conversations sent through it.\<close>

definition logged :: "('q \<Rightarrow> json list) \<Rightarrow> ('w, 'q, 'e, 'r) client \<Rightarrow> ('w \<times> json list list, 'q, 'e, 'r) client" where
  "logged conv client q = (\<lambda>(w, convs). let (r, w') = client q w in (r, (w', convs @ [conv q])))"

lemma logged_apply:
  "logged conv client q (w, convs) = (fst (client q w), (snd (client q w), convs @ [conv q]))"
  by (simp add: logged_def split: prod.splits)

interpretation openai: chat_provider lib "openai_complete lib settings (logged oq_messages client)" snd
    "\<lambda>conv. concat (map openai_events conv)"
  for lib settings and client :: "('w, oa_request, oa_error, oa_response) client"
proof
  fix ms mt temp ts choice and w :: "'w \<times> json list list"
  show "snd (snd (openai_complete lib settings (logged oq_messages client) ms mt temp ts choice w)) = snd w \<or>
    (\<exists>conv. snd (snd (openai_complete lib settings (logged oq_messages client) ms mt temp ts choice w)) = snd w @ [conv] \<and>
      (list_all turn_ok ms \<longrightarrow> concat (map openai_events conv) = concat (map turn_events ms)))"
    using openai_events_turns [of ms]
    by (cases w) (simp add: openai_complete_def bindS_def logged_apply split: sum.splits prod.splits)
next
  fix ms mt temp ts choice c and w w' :: "'w \<times> json list list"
  assume "openai_complete lib settings (logged oq_messages client) ms mt temp ts choice w = (Inr c, w')"
  then show "snd w' \<noteq> snd w \<and> co_finish_reason c \<noteq> []"
    by (cases w) (auto simp: openai_complete_def bindS_def logged_apply Let_def
        dest: oa_completion_finish split: sum.splits prod.splits)
next
  fix t ts e ms mt temp choice and w :: "'w \<times> json list list"
  assume t: "t \<in> set ts" "tool_parameters lib t = Inl e"
  then obtain e' where "to_openai_tools lib ts = Inl e'" using openai_tools_Inl by blast
  moreover from t have "ts \<noteq> []" by auto
  ultimately show "\<exists>e'. openai_complete lib settings (logged oq_messages client) ms mt temp ts choice w = (Inl e', w)"
    by (simp add: openai_complete_def bindS_def)
qed

interpretation zen: chat_provider lib "zen_complete lib settings (logged zq_input client)" snd "map zen_event"
  for lib settings and client :: "('w, zen_request, zen_error, zen_response) client"
proof
  fix ms mt temp ts choice and w :: "'w \<times> json list list"
  show "snd (snd (zen_complete lib settings (logged zq_input client) ms mt temp ts choice w)) = snd w \<or>
    (\<exists>conv. snd (snd (zen_complete lib settings (logged zq_input client) ms mt temp ts choice w)) = snd w @ [conv] \<and>
      (list_all turn_ok ms \<longrightarrow> map zen_event conv = concat (map turn_events ms)))"
    by (cases w) (simp add: zen_complete_def bindS_def logged_apply zen_events split: sum.splits prod.splits)
next
  fix ms mt temp ts choice c and w w' :: "'w \<times> json list list"
  assume "zen_complete lib settings (logged zq_input client) ms mt temp ts choice w = (Inr c, w')"
  then show "snd w' \<noteq> snd w \<and> co_finish_reason c \<noteq> []"
    by (cases w) (auto simp: zen_complete_def bindS_def logged_apply Let_def zen_completion_finish(1)
        split: sum.splits prod.splits zen_error.splits)
next
  fix t ts e ms mt temp choice and w :: "'w \<times> json list list"
  assume t: "t \<in> set ts" "tool_parameters lib t = Inl e"
  then obtain e' where "to_zen_tools lib ts = Inl e'" using zen_tools_Inl by blast
  moreover from t have "ts \<noteq> []" by auto
  ultimately show "\<exists>e'. zen_complete lib settings (logged zq_input client) ms mt temp ts choice w = (Inl e', w)"
    by (simp add: zen_complete_def bindS_def)
qed

text \<open>\<open>main.py\<close> picks the provider by the configured name.\<close>

definition serve_provider ::
    "string \<Rightarrow> gw_lib \<Rightarrow> model_settings \<Rightarrow> ('w, oa_request, oa_error, oa_response) client \<Rightarrow>
     ('w, zen_request, zen_error, zen_response) client \<Rightarrow> 'w provider" where
  "serve_provider name lib settings oa zen =
     (if name = ''opencode'' then zen_complete lib settings zen else openai_complete lib settings oa)"

definition read_events :: "string \<Rightarrow> json list \<Rightarrow> wire_event list" where
  "read_events name = (if name = ''opencode'' then map zen_event else (\<lambda>conv. concat (map openai_events conv)))"

interpretation served: chat_provider lib
    "serve_provider name lib settings (logged oq_messages oa) (logged zq_input zen)" snd "read_events name"
  for name lib settings and oa :: "('w, oa_request, oa_error, oa_response) client" and zen
  by (cases "name = ''opencode''")
    (simp_all add: serve_provider_def read_events_def openai.chat_provider_axioms zen.chat_provider_axioms)

end
