(* ===== verification/Gw_Servicer.thy ===== *)
theory Gw_Servicer
  imports Gw_Guardrails Gw_Wire
begin

text \<open>
  \<open>servicer.py\<close> of the gateway: the handler \<open>Chat\<close>, which screens the request, forwards it to
  the provider and builds the response, with its error mapping. What holds of it for every
  provider is proved in the locale \<open>chat_provider\<close>.
\<close>

section \<open>Conversions\<close>

definition message_from_proto :: "pb_message \<Rightarrow> gw_message" where
  "message_from_proto m =
     \<lparr>gm_role = pm_role m, gm_content = pm_content m,
      gm_tool_calls = map (\<lambda>tc. \<lparr>tc_id = tc_id tc, tc_name = tc_name tc, tc_arguments = tc_arguments tc\<rparr>)
        (pm_tool_calls m),
      gm_tool_call_id = pm_tool_call_id m\<rparr>"

text \<open>A string field of a message: \<open>None\<close> leaves it unset, a value of another type raises.\<close>

definition pb_string :: "json \<Rightarrow> gw_error + string" where
  "pb_string v = (case v of JStr s \<Rightarrow> Inr s | JNull \<Rightarrow> Inr [] | _ \<Rightarrow> Inl (Gw_Other ''TypeError''))"

definition tool_calls_to_proto :: "json tool_call list \<Rightarrow> gw_error + string tool_call list" where
  "tool_calls_to_proto = mapR (\<lambda>tc.
     bindR (pb_string (tc_id tc)) (\<lambda>i.
     bindR (pb_string (tc_name tc)) (\<lambda>n.
     bindR (pb_string (tc_arguments tc)) (\<lambda>a.
     Inr \<lparr>tc_id = i, tc_name = n, tc_arguments = a\<rparr>))))"

definition pb_int_field :: "gw_lib \<Rightarrow> json \<Rightarrow> gw_error + int" where
  "pb_int_field lib v = (case pb_int64 lib v of Some i \<Rightarrow> Inr i | None \<Rightarrow> Inl (Gw_Other ''TypeError''))"

definition chat_response_of :: "gw_lib \<Rightarrow> completion \<Rightarrow> gw_error + pb_chat_response" where
  "chat_response_of lib c =
     bindR (tool_calls_to_proto (co_tool_calls c)) (\<lambda>calls.
     bindR (pb_int_field lib (us_prompt_tokens (co_usage c))) (\<lambda>prompt.
     bindR (pb_int_field lib (us_completion_tokens (co_usage c))) (\<lambda>compl.
     bindR (pb_int_field lib (us_total_tokens (co_usage c))) (\<lambda>total_tokens.
     Inr \<lparr>pr_message = \<lparr>pm_role = ''assistant'', pm_content = co_content c, pm_tool_calls = calls, pm_tool_call_id = None\<rparr>,
          pr_prompt_tokens = prompt, pr_completion_tokens = compl, pr_total_tokens = total_tokens,
          pr_finish_reason = co_finish_reason c, pr_tool_calls = calls\<rparr>))))"

section \<open>Errors\<close>

definition gw_status_by_error :: "gw_error \<Rightarrow> grpc_status option" where
  "gw_status_by_error e =
     (case e of Guardrail_Rejected _ \<Rightarrow> Some INVALID_ARGUMENT | Gw_Validation _ \<Rightarrow> Some INVALID_ARGUMENT
      | Provider_Error _ \<Rightarrow> Some UNAVAILABLE | _ \<Rightarrow> None)"

definition gw_abort :: "gw_error \<Rightarrow> rpc_error" where
  "gw_abort e =
     (case e of Gw_Other _ \<Rightarrow> (INTERNAL, ''internal error'')
      | _ \<Rightarrow> (case gw_status_by_error e of Some code \<Rightarrow> code | None \<Rightarrow> INTERNAL, gw_message_of e))"

definition gw_handle_errors :: "('w, gw_error, 'a) comp \<Rightarrow> ('w, rpc_error, 'a) comp" where
  "gw_handle_errors fn = (\<lambda>w. case fn w of (Inl e, w') \<Rightarrow> (Inl (gw_abort e), w') | (Inr a, w') \<Rightarrow> (Inr a, w'))"

section \<open>Chat\<close>

definition gw_Chat ::
    "gw_lib \<Rightarrow> guardrail_settings \<Rightarrow> 'w provider \<Rightarrow> pb_chat_request \<Rightarrow> ('w, rpc_error, pb_chat_response) comp" where
  "gw_Chat lib guardrails provider request = gw_handle_errors (
     bindS (liftS (screen_and_sanitize guardrails (map message_from_proto (pq_messages request)))) (\<lambda>sanitized.
     bindS (provider sanitized (pq_max_tokens request) (pq_temperature request)
              (map (\<lambda>t. \<lparr>ts_name = ts_name t, ts_description = ts_description t, ts_parameters = ts_parameters t\<rparr>)
                (pq_tools request))
              (pq_tool_choice request)) (\<lambda>c.
     liftS (chat_response_of lib c))))"

section \<open>Screened, then forwarded once\<close>

lemma screen_rejects: "screen_and_sanitize g ms = Inl e \<Longrightarrow> \<exists>m. e = Guardrail_Rejected m"
  by (auto simp: screen_and_sanitize_def Let_def split: option.splits if_splits)

lemma screen_passes:
  assumes "screen_and_sanitize g ms = Inr out"
  shows "out = map (\<lambda>m. m\<lparr>gm_content := redact_pii (gm_content m)\<rparr>) ms"
  using assms by (auto simp: screen_and_sanitize_def Let_def split: option.splits if_splits)

lemma screened_turns: "screen_and_sanitize g ms = Inr out \<Longrightarrow> list_all turn_ok out = list_all turn_ok ms"
  by (drule screen_passes) (simp add: list_all_iff turn_ok_def)

lemma screened_text:
  assumes "screen_and_sanitize g ms = Inr out" and "ev \<in> set (concat (map turn_events out))"
  shows "pii_free (event_text ev)"
proof -
  have "pii_free []" using pii_free_redact [of "[]"] by (simp add: redact_steps) code_simp
  with assms(2) show ?thesis
    by (auto simp: screen_passes [OF assms(1)] turn_events_def split: if_splits)
qed

abbreviation screened :: "guardrail_settings \<Rightarrow> pb_chat_request \<Rightarrow> gw_error + gw_message list" where
  "screened g request \<equiv> screen_and_sanitize g (map message_from_proto (pq_messages request))"

lemma chat_response_shape:
  "chat_response_of lib c = Inr resp \<Longrightarrow>
     pr_finish_reason resp = co_finish_reason c \<and> pm_role (pr_message resp) = ''assistant'' \<and>
     pm_content (pr_message resp) = co_content c \<and> pm_tool_calls (pr_message resp) = pr_tool_calls resp \<and>
     tool_calls_to_proto (co_tool_calls c) = Inr (pr_tool_calls resp)"
  by (auto simp: chat_response_of_def bindR_eq_Inr_iff)

context chat_provider
begin

lemma chat_refused:
  assumes "screened g request = Inl e"
  shows "gw_Chat lib g provider request w = (Inl (INVALID_ARGUMENT, gw_message_of e), w)"
  using screen_rejects [OF assms] assms
  by (auto simp: gw_Chat_def gw_handle_errors_def bindS_def gw_abort_def gw_status_by_error_def)

lemma chat_forwards:
  assumes "screened g request = Inr out"
  obtains ts where "snd (gw_Chat lib g provider request w) =
    snd (provider out (pq_max_tokens request) (pq_temperature request) ts (pq_tool_choice request) w)"
proof
  show "snd (gw_Chat lib g provider request w) =
    snd (provider out (pq_max_tokens request) (pq_temperature request)
      (map (\<lambda>t. \<lparr>ts_name = ts_name t, ts_description = ts_description t, ts_parameters = ts_parameters t\<rparr>)
        (pq_tools request)) (pq_tool_choice request) w)"
    by (simp add: gw_Chat_def gw_handle_errors_def bindS_def assms split: prod.splits sum.splits)
qed

lemma chat_sends:
  assumes "screened g request = Inr out"
  shows "sent (snd (gw_Chat lib g provider request w)) = sent w \<or>
    (\<exists>conv. sent (snd (gw_Chat lib g provider request w)) = sent w @ [conv] \<and>
      (list_all turn_ok out \<longrightarrow> events conv = concat (map turn_events out)))"
  by (rule chat_forwards [OF assms, of w]) (simp add: sends)

lemma chat_answers:
  assumes "gw_Chat lib g provider request w = (Inr resp, w')"
  shows "sent w' \<noteq> sent w" and "pr_finish_reason resp \<noteq> []"
    and "pm_role (pr_message resp) = ''assistant''" and "pm_tool_calls (pr_message resp) = pr_tool_calls resp"
proof -
  from assms obtain out ts c w1 where
    p: "provider out (pq_max_tokens request) (pq_temperature request) ts (pq_tool_choice request) w = (Inr c, w1)"
    and c: "chat_response_of lib c = Inr resp" and w': "w' = w1"
    by (auto simp: gw_Chat_def gw_handle_errors_def bindS_def split: prod.splits sum.splits)
  show "sent w' \<noteq> sent w" using answered [OF p] w' by simp
  show "pr_finish_reason resp \<noteq> []" "pm_role (pr_message resp) = ''assistant''"
    "pm_tool_calls (pr_message resp) = pr_tool_calls resp"
    using answered [OF p] chat_response_shape [OF c] by simp_all
qed

end

lemma gateway_once:
  assumes turns: "list_all turn_ok (map message_from_proto (pq_messages request))"
    and run: "gw_Chat lib g (serve_provider name lib settings (logged oq_messages oa) (logged zq_input zen))
      request (w, []) = (r, (w', convs))"
  shows "case screened g request of
      Inl e \<Rightarrow> r = Inl (INVALID_ARGUMENT, gw_message_of e) \<and> w' = w \<and> convs = []
    | Inr out \<Rightarrow>
        (convs = [] \<or>
         (\<exists>conv. convs = [conv] \<and> read_events name conv = concat (map turn_events out) \<and>
            (\<forall>ev \<in> set (read_events name conv). pii_free (event_text ev)))) \<and>
        (case r of Inl _ \<Rightarrow> True
         | Inr resp \<Rightarrow> convs \<noteq> [] \<and> pr_finish_reason resp \<noteq> [] \<and> pm_role (pr_message resp) = ''assistant'' \<and>
             pm_tool_calls (pr_message resp) = pr_tool_calls resp)"
proof (cases "screened g request")
  case (Inl e)
  from served.chat_refused [OF this, where w = "(w, [])" and lib = lib and name = name and settings = settings
      and oa = oa and zen = zen] run
  show ?thesis by (simp add: Inl)
next
  case (Inr out)
  have ok: "list_all turn_ok out" using screened_turns [OF Inr] turns by simp
  have "convs = [] \<or> (\<exists>conv. convs = [conv] \<and> read_events name conv = concat (map turn_events out))"
    using served.chat_sends [OF Inr, where w = "(w, [])" and lib = lib and name = name and settings = settings
      and oa = oa and zen = zen] ok run by auto
  with screened_text [OF Inr] have "convs = [] \<or> (\<exists>conv. convs = [conv] \<and>
      read_events name conv = concat (map turn_events out) \<and>
      (\<forall>ev \<in> set (read_events name conv). pii_free (event_text ev)))" by metis
  moreover have "convs \<noteq> [] \<and> pr_finish_reason resp \<noteq> [] \<and> pm_role (pr_message resp) = ''assistant'' \<and>
      pm_tool_calls (pr_message resp) = pr_tool_calls resp" if "r = Inr resp" for resp
    using served.chat_answers [OF run [unfolded that]] by simp
  ultimately show ?thesis by (auto simp: Inr split: sum.splits)
qed


definition sample_lib :: gw_lib where
  "sample_lib = \<lparr>gl_json = \<lparr>wide_char = (\<lambda>_. CHR ''?''), float_str = (\<lambda>s. s)\<rparr>,
     decode_error = (\<lambda>_. Some ''bad''), float_sum = (\<lambda>_ _. ''0.0''),
     pb_int64 = (\<lambda>v. case v of JInt i \<Rightarrow> Some i | _ \<Rightarrow> None)\<rparr>"

definition sample_chat :: "string \<Rightarrow> pb_chat_request" where
  "sample_chat s =
     \<lparr>pq_messages = [\<lparr>pm_role = ''user'', pm_content = s, pm_tool_calls = [], pm_tool_call_id = None\<rparr>],
      pq_temperature = None, pq_max_tokens = None, pq_tools = [], pq_tool_choice = None\<rparr>"

definition sample_turn :: "string \<Rightarrow> gw_message" where
  "sample_turn s = \<lparr>gm_role = ''user'', gm_content = s, gm_tool_calls = [], gm_tool_call_id = None\<rparr>"

definition sample_upstream :: "(unit, oa_request, oa_error, oa_response) client" where
  "sample_upstream q =
     returnS \<lparr>or_choices = [\<lparr>och_content = Some ''ok'', och_tool_calls = None, och_finish_reason = None\<rparr>], or_usage = None\<rparr>"

definition sample_guardrails :: guardrail_settings where
  "sample_guardrails = \<lparr>gs_max_input_chars = 40, gs_blocklist = [''jailbreak'']\<rparr>"

definition sample_answer :: "string \<Rightarrow> (rpc_error + pb_chat_response) \<times> (unit \<times> json list list)" where
  "sample_answer s = gw_Chat sample_lib sample_guardrails
     (serve_provider ''openai'' sample_lib \<lparr>ms_name = ''m'', ms_max_tokens = 10, ms_temperature = 0\<rparr>
       (logged oq_messages sample_upstream) (logged zq_input (\<lambda>_. raiseS (Zen_Other []))))
     (sample_chat s) ((), [])"


end
