(* ===== verification/Orc_Client.thy ===== *)
theory Orc_Client
  imports Gw_Model
begin

text \<open>
  \<open>model_client.py\<close>: the client through which every AutoGen participant of the orchestrator
  reaches the model. It renders AutoGen's messages and tool schemas as a request of
  \<open>aep.gateway.v1\<close>, calls the gateway (a stub, so a parameter here) and turns the response into a
  result, counting the tokens used.
\<close>

section \<open>AutoGen's types\<close>

text \<open>The content of a user turn is text, or an object of which only \<open>str()\<close> matters.\<close>

datatype user_content = Text_Content string | Object_Content string

datatype llm_message =
    System_Message string
  | User_Message user_content
  | Assistant_Text string
  | Assistant_Calls "string tool_call list" "string option"
  | Function_Results "(string \<times> string) list"
  | Unknown_Message user_content

record tool_schema =
  sc_name :: string
  sc_description :: "string option"
  sc_parameters :: "(string \<times> json) list option"

datatype tool_choice = Choice_Str string | Choice_Tool tool_schema

datatype result_content = Result_Text string | Result_Calls "string tool_call list"

record request_usage =
  ru_prompt_tokens :: int
  ru_completion_tokens :: int

record create_result =
  rr_finish_reason :: string
  rr_content :: result_content
  rr_usage :: request_usage

section \<open>Requests\<close>

definition finish_reasons :: "string list" where
  "finish_reasons = [''stop'', ''length'', ''function_calls'', ''content_filter'', ''unknown'']"

definition valid_tool_choices :: "string list" where
  "valid_tool_choices = [''auto'', ''none'', ''required'']"

definition content_str :: "user_content \<Rightarrow> string" where
  "content_str c = (case c of Text_Content s \<Rightarrow> s | Object_Content s \<Rightarrow> s)"

definition plain_message :: "string \<Rightarrow> string \<Rightarrow> pb_message" where
  "plain_message role content =
     \<lparr>pm_role = role, pm_content = content, pm_tool_calls = [], pm_tool_call_id = None\<rparr>"

definition to_gateway_messages :: "llm_message \<Rightarrow> pb_message list" where
  "to_gateway_messages message =
     (case message of
        System_Message s \<Rightarrow> [plain_message ''system'' s]
      | User_Message c \<Rightarrow> [plain_message ''user'' (content_str c)]
      | Assistant_Calls calls thought \<Rightarrow>
          [(plain_message ''assistant'' (case thought of Some t \<Rightarrow> t | None \<Rightarrow> []))
             \<lparr>pm_tool_calls := map (\<lambda>fc. \<lparr>tc_id = tc_id fc, tc_name = tc_name fc, tc_arguments = tc_arguments fc\<rparr>) calls\<rparr>]
      | Assistant_Text s \<Rightarrow> [plain_message ''assistant'' s]
      | Function_Results results \<Rightarrow>
          map (\<lambda>(call_id, content). (plain_message ''tool'' content)\<lparr>pm_tool_call_id := Some call_id\<rparr>) results
      | Unknown_Message c \<Rightarrow> [plain_message ''user'' (content_str c)])"

definition to_gateway_tool :: "tool_schema \<Rightarrow> tool_spec" where
  "to_gateway_tool schema =
     \<lparr>ts_name = sc_name schema,
      ts_description = (case sc_description schema of Some d \<Rightarrow> d | None \<Rightarrow> []),
      ts_parameters = (case sc_parameters schema of
          None \<Rightarrow> [] | Some parameters \<Rightarrow> if parameters = [] then [] else json_dumps (JObj parameters))\<rparr>"

definition to_gateway_tool_choice :: "tool_choice \<Rightarrow> string" where
  "to_gateway_tool_choice choice =
     (case choice of
        Choice_Str s \<Rightarrow> if s \<in> set valid_tool_choices then s else ''auto''
      | Choice_Tool _ \<Rightarrow> ''required'')"

text \<open>\<open>float32\<close> rounds a double to the float the \<open>temperature\<close> field holds.\<close>

definition gateway_request ::
    "(rat \<Rightarrow> rat) \<Rightarrow> rat \<Rightarrow> llm_message list \<Rightarrow> tool_schema list \<Rightarrow> tool_choice \<Rightarrow> pb_chat_request" where
  "gateway_request float32 temperature messages tools choice =
     \<lparr>pq_messages = concat (map to_gateway_messages messages),
      pq_temperature = Some (float32 temperature), pq_max_tokens = None,
      pq_tools = map to_gateway_tool tools,
      pq_tool_choice = (if tools = [] then None else Some (to_gateway_tool_choice choice))\<rparr>"

section \<open>The client\<close>

record client_state =
  actual_usage :: request_usage
  total_usage :: request_usage

definition no_usage :: request_usage where
  "no_usage = \<lparr>ru_prompt_tokens = 0, ru_completion_tokens = 0\<rparr>"

definition new_client :: client_state where
  "new_client = \<lparr>actual_usage = no_usage, total_usage = no_usage\<rparr>"

definition add_usage :: "request_usage \<Rightarrow> request_usage \<Rightarrow> request_usage" where
  "add_usage a b =
     \<lparr>ru_prompt_tokens = ru_prompt_tokens a + ru_prompt_tokens b,
      ru_completion_tokens = ru_completion_tokens a + ru_completion_tokens b\<rparr>"

definition result_of_response :: "pb_chat_response \<Rightarrow> create_result" where
  "result_of_response response =
     (let usage = \<lparr>ru_prompt_tokens = pr_prompt_tokens response, ru_completion_tokens = pr_completion_tokens response\<rparr>
      in if pr_tool_calls response \<noteq> []
         then \<lparr>rr_finish_reason = ''function_calls'',
               rr_content = Result_Calls (map (\<lambda>tc. \<lparr>tc_id = tc_id tc, tc_name = tc_name tc,
                 tc_arguments = tc_arguments tc\<rparr>) (pr_tool_calls response)),
               rr_usage = usage\<rparr>
         else \<lparr>rr_finish_reason = (if pr_finish_reason response \<in> set finish_reasons
                 then pr_finish_reason response else ''unknown''),
               rr_content = Result_Text (pm_content (pr_message response)), rr_usage = usage\<rparr>)"

type_synonym 'w gateway_stub = "pb_chat_request \<Rightarrow> ('w, rpc_error, pb_chat_response) comp"

definition client_create ::
    "(rat \<Rightarrow> rat) \<Rightarrow> 'w gateway_stub \<Rightarrow> rat \<Rightarrow> llm_message list \<Rightarrow> tool_schema list \<Rightarrow> tool_choice \<Rightarrow>
     (client_state \<times> 'w, rpc_error, create_result) comp" where
  "client_create float32 stub temperature messages tools choice = (\<lambda>(st, w).
     case stub (gateway_request float32 temperature messages tools choice) w of
       (Inl e, w') \<Rightarrow> (Inl e, (st, w'))
     | (Inr response, w') \<Rightarrow>
         let result = result_of_response response
         in (Inr result, (\<lparr>actual_usage = rr_usage result,
                          total_usage = add_usage (total_usage st) (rr_usage result)\<rparr>, w')))"

text \<open>The stream, read to its end: the result of the one call.\<close>

definition client_create_stream ::
    "(rat \<Rightarrow> rat) \<Rightarrow> 'w gateway_stub \<Rightarrow> rat \<Rightarrow> llm_message list \<Rightarrow> tool_schema list \<Rightarrow> tool_choice \<Rightarrow>
     (client_state \<times> 'w, rpc_error, create_result list) comp" where
  "client_create_stream float32 stub temperature messages tools choice =
     bindS (client_create float32 stub temperature messages tools choice) (\<lambda>result. returnS [result])"

definition assumed_max_tokens :: int where
  "assumed_max_tokens = 8192"

text \<open>The argument \<open>content_repr\<close> is \<open>str(m.content)\<close>.\<close>

definition count_tokens :: "(llm_message \<Rightarrow> string) \<Rightarrow> llm_message list \<Rightarrow> int" where
  "count_tokens content_repr messages =
     sum_list (map (\<lambda>m. int (length (content_repr m))) messages) div 4"

definition remaining_tokens :: "(llm_message \<Rightarrow> string) \<Rightarrow> llm_message list \<Rightarrow> int" where
  "remaining_tokens content_repr messages = max 0 (assumed_max_tokens - count_tokens content_repr messages)"

section \<open>Lemmas\<close>

lemma result_finish_reason: "rr_finish_reason (result_of_response r) \<in> set finish_reasons"
  by (simp add: result_of_response_def finish_reasons_def Let_def)

lemma result_calls_iff:
  "rr_finish_reason (result_of_response r) = ''function_calls'' \<and> pr_tool_calls r \<noteq> [] \<longleftrightarrow>
     (\<exists>calls. rr_content (result_of_response r) = Result_Calls calls \<and> calls \<noteq> [])"
  by (simp add: result_of_response_def Let_def)

lemma result_calls: "pr_tool_calls r \<noteq> [] \<Longrightarrow> rr_content (result_of_response r) = Result_Calls (pr_tool_calls r)"
  by (simp add: result_of_response_def Let_def)

lemma remaining_tokens_bounds: "0 \<le> remaining_tokens f ms \<and> remaining_tokens f ms \<le> assumed_max_tokens"
proof -
  have "0 \<le> sum_list (map (\<lambda>m. int (length (f m))) ms)" by (rule sum_list_nonneg) auto
  then have "0 \<le> count_tokens f ms" by (simp add: count_tokens_def)
  then show ?thesis by (simp add: remaining_tokens_def assumed_max_tokens_def)
qed

end
