(* ===== verification/Orc_Workbench.thy ===== *)
theory Orc_Workbench
  imports Py_Json
begin

text \<open>
  \<open>mcp_workbench.py\<close>: the tools of one agent. \<open>mcp_svc\<close> is reached through an MCP session, a
  parameter here: listing and calling tools for a tenant may change the world and may raise. The
  workbench keeps the results that signalled a pending approval.
\<close>

section \<open>MCP sessions\<close>

datatype mcp_block = Text_Block string | Other_Block string

record mcp_result =
  mr_content :: "mcp_block list"
  mr_is_error :: bool

record mcp_tool =
  mt_name :: string
  mt_description :: "string option"
  mt_input_schema :: "(string \<times> json) list option"

text \<open>The tenant goes into the session's \<open>x-tenant-id\<close> header. An error is the text of the exception.\<close>

record 'w mcp_session =
  mcp_list_tools :: "string \<Rightarrow> ('w, string, mcp_tool list) comp"
  mcp_call_tool :: "string \<Rightarrow> string \<Rightarrow> (string \<times> json) list \<Rightarrow> ('w, string, mcp_result) comp"

section \<open>The workbench\<close>

definition approval_marker :: string where
  "approval_marker = ''APPROVAL_REQUIRED''"

record workbench =
  wb_tenant_id :: string
  wb_allowed :: "string list"
  wb_mutating :: "string list"
  wb_approved :: bool

record tool_result =
  tr_name :: string
  tr_content :: string
  tr_is_error :: bool

record tool_listing =
  tl_name :: string
  tl_description :: string
  tl_type :: json
  tl_properties :: json
  tl_required :: json

definition render_content :: "mcp_block list \<Rightarrow> string" where
  "render_content items =
     py_join [CHR 0x0A] (map (\<lambda>item. case item of Text_Block s \<Rightarrow> s | Other_Block s \<Rightarrow> s) items)"

definition schema_entry :: "(string \<times> json) list option \<Rightarrow> string \<Rightarrow> json \<Rightarrow> json" where
  "schema_entry input_schema k d =
     (case input_schema of None \<Rightarrow> d | Some ms \<Rightarrow> (case obj_get ms k of Some v \<Rightarrow> v | None \<Rightarrow> d))"

definition list_tools :: "'w mcp_session \<Rightarrow> workbench \<Rightarrow> 'w \<Rightarrow> tool_listing list \<times> 'w" where
  "list_tools mcp wb w =
     (if wb_allowed wb = [] then ([], w)
      else (case mcp_list_tools mcp (wb_tenant_id wb) w of
              (Inl _, w') \<Rightarrow> ([], w')
            | (Inr tools, w') \<Rightarrow>
                (map (\<lambda>tool. \<lparr>tl_name = mt_name tool,
                        tl_description = (case mt_description tool of Some d \<Rightarrow> d | None \<Rightarrow> []),
                        tl_type = schema_entry (mt_input_schema tool) ''type'' (JStr ''object''),
                        tl_properties = schema_entry (mt_input_schema tool) ''properties'' (JObj []),
                        tl_required = schema_entry (mt_input_schema tool) ''required'' (JArr [])\<rparr>)
                   (filter (\<lambda>tool. mt_name tool \<in> set (wb_allowed wb)) tools), w')))"

definition gate_text :: "string \<Rightarrow> string" where
  "gate_text name = approval_marker @ '': tool '' @ py_repr name @
     '' performs a mutating action and requires human approval before it can run.''"

text \<open>The state: the workbench's \<open>pending_approvals\<close> and the world.\<close>

definition call_tool ::
    "'w mcp_session \<Rightarrow> workbench \<Rightarrow> string \<Rightarrow> (string \<times> json) list option \<Rightarrow>
     string list \<times> 'w \<Rightarrow> tool_result \<times> (string list \<times> 'w)" where
  "call_tool mcp wb name arguments = (\<lambda>(pending, w).
     if name \<notin> set (wb_allowed wb)
     then (\<lparr>tr_name = name, tr_content = ''Tool '' @ py_repr name @ '' is not permitted for this agent.'',
            tr_is_error = True\<rparr>, (pending, w))
     else if name \<in> set (wb_mutating wb) \<and> \<not> wb_approved wb
     then (\<lparr>tr_name = name, tr_content = gate_text name, tr_is_error = False\<rparr>, (pending @ [gate_text name], w))
     else (case mcp_call_tool mcp (wb_tenant_id wb) name (case arguments of Some a \<Rightarrow> a | None \<Rightarrow> []) w of
             (Inl exc, w') \<Rightarrow>
               (\<lparr>tr_name = name, tr_content = ''Tool call failed: '' @ exc, tr_is_error = True\<rparr>, (pending, w'))
           | (Inr result, w') \<Rightarrow>
               let content = render_content (mr_content result)
               in (\<lparr>tr_name = name, tr_content = content, tr_is_error = mr_is_error result\<rparr>,
                   (if py_contains approval_marker content then pending @ [content] else pending, w'))))"

section \<open>What a workbench lets through\<close>

definition permitted :: "workbench \<Rightarrow> string \<Rightarrow> bool" where
  "permitted wb name \<longleftrightarrow> name \<in> set (wb_allowed wb) \<and> (name \<in> set (wb_mutating wb) \<longrightarrow> wb_approved wb)"

definition gated :: "workbench \<Rightarrow> string \<Rightarrow> bool" where
  "gated wb name \<longleftrightarrow> name \<in> set (wb_allowed wb) \<and> name \<in> set (wb_mutating wb) \<and> \<not> wb_approved wb"

lemma call_refused:
  assumes "\<not> permitted wb name"
  shows "call_tool mcp wb name args (pending, w) =
    (if gated wb name
     then (\<lparr>tr_name = name, tr_content = gate_text name, tr_is_error = False\<rparr>, (pending @ [gate_text name], w))
     else (\<lparr>tr_name = name, tr_content = ''Tool '' @ py_repr name @ '' is not permitted for this agent.'',
            tr_is_error = True\<rparr>, (pending, w)))"
  using assms by (auto simp: call_tool_def permitted_def gated_def)

lemma call_permitted_world:
  assumes "permitted wb name"
  shows "snd (snd (call_tool mcp wb name args (pending, w))) =
    snd (mcp_call_tool mcp (wb_tenant_id wb) name (case args of Some a \<Rightarrow> a | None \<Rightarrow> []) w)"
  using assms by (auto simp: call_tool_def permitted_def Let_def split: prod.splits sum.splits)

lemma call_pending_grows: "\<exists>new. fst (snd (call_tool mcp wb name args (pending, w))) = pending @ new"
  by (auto simp: call_tool_def Let_def split: prod.splits sum.splits)

lemma call_world_refused: "\<not> permitted wb name \<Longrightarrow> snd (snd (call_tool mcp wb name args (pending, w))) = w"
  by (simp add: call_refused)

lemma call_gated_pending:
  "gated wb name \<Longrightarrow> fst (snd (call_tool mcp wb name args (pending, w))) = pending @ [gate_text name]"
  by (simp add: call_refused permitted_def gated_def)

lemma call_marks:
  "fst (call_tool mcp wb name args (pending, w)) = r \<Longrightarrow> \<not> tr_is_error r \<Longrightarrow> name \<in> set (wb_allowed wb) \<Longrightarrow>
     py_contains approval_marker (tr_content r) \<Longrightarrow> tr_content r \<in> set (fst (snd (call_tool mcp wb name args (pending, w))))"
  by (auto simp: call_tool_def Let_def split: prod.splits sum.splits if_splits)

text \<open>The calls of one agent, in order, and the calls that reach \<open>mcp_svc\<close>.\<close>

type_synonym tool_request = "string \<times> (string \<times> json) list option"

fun run_requests ::
    "'w mcp_session \<Rightarrow> workbench \<Rightarrow> tool_request list \<Rightarrow> string list \<times> 'w \<Rightarrow> tool_result list \<times> (string list \<times> 'w)" where
  "run_requests mcp wb [] s = ([], s)"
| "run_requests mcp wb ((name, args) # reqs) s =
     (let (r, s') = call_tool mcp wb name args s; (rs, s'') = run_requests mcp wb reqs s' in (r # rs, s''))"

fun direct_calls :: "'w mcp_session \<Rightarrow> string \<Rightarrow> tool_request list \<Rightarrow> 'w \<Rightarrow> 'w" where
  "direct_calls mcp tenant [] w = w"
| "direct_calls mcp tenant ((name, args) # reqs) w =
     direct_calls mcp tenant reqs
       (snd (mcp_call_tool mcp tenant name (case args of Some a \<Rightarrow> a | None \<Rightarrow> []) w))"

lemma run_requests_Cons:
  "snd (run_requests mcp wb ((name, args) # reqs) s) =
     snd (run_requests mcp wb reqs (snd (call_tool mcp wb name args s)))"
  by (simp add: Let_def split: prod.splits)

declare run_requests.simps(2) [simp del] run_requests_Cons [simp]

lemma run_requests_world:
  "snd (snd (run_requests mcp wb reqs s)) =
     direct_calls mcp (wb_tenant_id wb) (filter (\<lambda>q. permitted wb (fst q)) reqs) (snd s)"
proof (induction reqs arbitrary: s)
  case (Cons q reqs)
  obtain name args where q: "q = (name, args)" by fastforce
  obtain pending w where s: "s = (pending, w)" by fastforce
  show ?case
    using Cons.IH call_permitted_world [of wb name mcp args pending w]
      call_world_refused [of wb name mcp args pending w]
    by (cases "permitted wb name") (simp_all add: q s)
qed simp

lemma run_requests_pending:
  "set (fst s) \<union> {gate_text name |name args. (name, args) \<in> set reqs \<and> gated wb name} \<subseteq>
     set (fst (snd (run_requests mcp wb reqs s)))"
proof (induction reqs arbitrary: s)
  case (Cons q reqs)
  obtain n a where q: "q = (n, a)" by fastforce
  obtain pending w where s: "s = (pending, w)" by fastforce
  have "set (fst s) \<union> (if gated wb n then {gate_text n} else {}) \<subseteq> set (fst (snd (call_tool mcp wb n a s)))"
    using call_pending_grows [of mcp wb n a pending w] call_gated_pending [of wb n mcp a pending w]
    by (auto simp: s)
  with Cons.IH [of "snd (call_tool mcp wb n a s)"] show ?case by (auto simp: q split: if_splits)
qed simp

end
