(* ===== verification/Aes_Catalog.thy ===== *)
theory Aes_Catalog
  imports Aes_Model
begin

text \<open>
  The catalog of \<open>agent_execution_service\<close>: \<open>AgentService\<close> (\<open>services/agents.py\<close>) and
  \<open>ToolService\<close> (\<open>services/tools.py\<close>). An operation is one transaction: when it raises, the
  database is left as it was.
\<close>

section \<open>services/agents.py\<close>

text \<open>Unknown ids and tools of other tenants are dropped; the ids come back in table order.\<close>

definition valid_tool_ids :: "string \<Rightarrow> string list \<Rightarrow> aes_db \<Rightarrow> string list" where
  "valid_tool_ids tenant_id tool_ids db =
     map t_id (select_where (\<lambda>t. t_tenant_id t = tenant_id \<and> t_id t \<in> set tool_ids) (tools db))"

definition link_tools :: "string \<Rightarrow> string \<Rightarrow> string list \<Rightarrow> string list aes_op" where
  "link_tools tenant_id agent_id tool_ids = (\<lambda>db.
     if tool_ids = [] then (Inr [], db)
     else
       (let valid_ids = valid_tool_ids tenant_id tool_ids db
        in (Inr valid_ids, db\<lparr>agent_tools := agent_tools db @
              map (\<lambda>tool_id. \<lparr>at_agent_id = agent_id, at_tool_id = tool_id\<rparr>) valid_ids\<rparr>)))"

definition agent_create ::
    "string \<Rightarrow> (nat \<Rightarrow> stamp) \<Rightarrow> string \<Rightarrow> string \<Rightarrow> string \<Rightarrow> string \<Rightarrow> rat \<Rightarrow> string list \<Rightarrow>
     (agent_row \<times> string list) aes_op" where
  "agent_create new_id now tenant_id name instructions llm_name temperature tool_ids = (\<lambda>db.
     let row = \<lparr>a_id = new_id, a_tenant_id = tenant_id, a_name = name, a_instructions = instructions,
                a_llm_config_name = llm_name, a_llm_config_temperature = temperature, a_version = 1,
                a_created_at = now 0, a_updated_at = now 1\<rparr>
     in if new_id \<in> set (map a_id (agents db)) then (Inl (Aes_Other ''IntegrityError''), db)
        else (case link_tools tenant_id new_id tool_ids (db\<lparr>agents := insert_row row (agents db)\<rparr>) of
                (Inl e, _) \<Rightarrow> (Inl e, db)
              | (Inr linked, db') \<Rightarrow> (Inr (row, linked), db')))"

definition agent_tool_ids :: "string \<Rightarrow> aes_db \<Rightarrow> string list" where
  "agent_tool_ids agent_id db =
     map at_tool_id (select_where (\<lambda>l. at_agent_id l = agent_id) (agent_tools db))"

definition agent_get :: "string \<Rightarrow> string list \<Rightarrow> aes_db \<Rightarrow> (agent_row \<times> string list) list" where
  "agent_get tenant_id ids db =
     (let rows = select_where (\<lambda>a. a_tenant_id a = tenant_id) (agents db);
          rows = (if ids \<noteq> [] then select_where (\<lambda>a. a_id a \<in> set ids) rows else rows)
      in map (\<lambda>row. (row, agent_tool_ids (a_id row) db)) rows)"

definition agent_has_any :: "string \<Rightarrow> aes_db \<Rightarrow> bool" where
  "agent_has_any tenant_id db \<longleftrightarrow> (\<exists>a \<in> set (agents db). a_tenant_id a = tenant_id)"

definition agent_not_found :: "string \<Rightarrow> aes_error" where
  "agent_not_found agent_id = Aes_Not_Found (''agent '' @ agent_id @ '' not found'')"

definition agent_update ::
    "(nat \<Rightarrow> stamp) \<Rightarrow> string \<Rightarrow> string \<Rightarrow> string \<Rightarrow> string \<Rightarrow> string \<Rightarrow> rat \<Rightarrow> string list \<Rightarrow>
     (agent_row \<times> string list) aes_op" where
  "agent_update now tenant_id agent_id name instructions llm_name temperature tool_ids = (\<lambda>db.
     case get_row a_id agent_id (agents db) of
       None \<Rightarrow> (Inl (agent_not_found agent_id), db)
     | Some row \<Rightarrow>
         if a_tenant_id row \<noteq> tenant_id then (Inl (agent_not_found agent_id), db)
         else
           (let row' = row\<lparr>a_name := name, a_instructions := instructions, a_llm_config_name := llm_name,
                           a_llm_config_temperature := temperature, a_version := a_version row + 1,
                           a_updated_at := now 0\<rparr>;
                db1 = db\<lparr>agents := update_rows (\<lambda>a. a_id a = agent_id) (\<lambda>_. row') (agents db),
                         agent_tools := delete_where (\<lambda>l. at_agent_id l = agent_id) (agent_tools db)\<rparr>
            in case link_tools tenant_id agent_id tool_ids db1 of
                 (Inl e, _) \<Rightarrow> (Inl e, db)
               | (Inr linked, db') \<Rightarrow> (Inr (row', linked), db')))"

text \<open>The rows of \<open>agent_tools\<close> go with the agent.\<close>

definition agent_delete :: "string \<Rightarrow> string \<Rightarrow> unit aes_op" where
  "agent_delete tenant_id agent_id = (\<lambda>db.
     case get_row a_id agent_id (agents db) of
       None \<Rightarrow> (Inl (agent_not_found agent_id), db)
     | Some row \<Rightarrow>
         if a_tenant_id row \<noteq> tenant_id then (Inl (agent_not_found agent_id), db)
         else (Inr (), db\<lparr>agents := delete_where (\<lambda>a. a_id a = agent_id) (agents db),
                          agent_tools := delete_where (\<lambda>l. at_agent_id l = agent_id) (agent_tools db)\<rparr>))"

section \<open>services/tools.py\<close>

text \<open>The flush raises when a key or the unique constraint on tenant and name is violated.\<close>

definition flush_or_conflict :: "string \<Rightarrow> 'a \<Rightarrow> aes_db \<Rightarrow> 'a aes_op" where
  "flush_or_conflict name a db' = (\<lambda>db.
     if distinct (map t_id (tools db')) \<and> distinct (map tool_key (tools db'))
     then (Inr a, db')
     else (Inl (Aes_Conflict (''tool named '' @ py_repr name @ '' already exists'')), db))"

definition tool_create ::
    "string \<Rightarrow> (nat \<Rightarrow> stamp) \<Rightarrow> string \<Rightarrow> string \<Rightarrow> string option \<Rightarrow> bool \<Rightarrow> tool_row aes_op" where
  "tool_create new_id now tenant_id name description mutating = (\<lambda>db.
     let row = \<lparr>t_id = new_id, t_tenant_id = tenant_id, t_name = name, t_description = description,
                t_mutating = mutating, t_version = 1, t_created_at = now 0, t_updated_at = now 1\<rparr>
     in flush_or_conflict name row (db\<lparr>tools := insert_row row (tools db)\<rparr>) db)"

definition tool_get :: "string \<Rightarrow> string list \<Rightarrow> aes_db \<Rightarrow> tool_row list" where
  "tool_get tenant_id ids db =
     (let rows = select_where (\<lambda>t. t_tenant_id t = tenant_id) (tools db)
      in if ids \<noteq> [] then select_where (\<lambda>t. t_id t \<in> set ids) rows else rows)"

definition tool_not_found :: "string \<Rightarrow> aes_error" where
  "tool_not_found tool_id = Aes_Not_Found (''tool '' @ tool_id @ '' not found'')"

definition tool_update ::
    "(nat \<Rightarrow> stamp) \<Rightarrow> string \<Rightarrow> string \<Rightarrow> string \<Rightarrow> string \<Rightarrow> bool \<Rightarrow> tool_row aes_op" where
  "tool_update now tenant_id tool_id name description mutating = (\<lambda>db.
     case get_row t_id tool_id (tools db) of
       None \<Rightarrow> (Inl (tool_not_found tool_id), db)
     | Some row \<Rightarrow>
         if t_tenant_id row \<noteq> tenant_id then (Inl (tool_not_found tool_id), db)
         else
           (let row' = row\<lparr>t_name := name, t_description := (if description = [] then None else Some description),
                           t_mutating := mutating, t_version := t_version row + 1, t_updated_at := now 0\<rparr>
            in flush_or_conflict name row'
                 (db\<lparr>tools := update_rows (\<lambda>t. t_id t = tool_id) (\<lambda>_. row') (tools db)\<rparr>) db))"

text \<open>The foreign key of \<open>agent_tools\<close> cascades.\<close>

definition tool_delete :: "string \<Rightarrow> string \<Rightarrow> unit aes_op" where
  "tool_delete tenant_id tool_id = (\<lambda>db.
     case get_row t_id tool_id (tools db) of
       None \<Rightarrow> (Inl (tool_not_found tool_id), db)
     | Some row \<Rightarrow>
         if t_tenant_id row \<noteq> tenant_id then (Inl (tool_not_found tool_id), db)
         else (Inr (), db\<lparr>tools := delete_where (\<lambda>t. t_id t = tool_id) (tools db),
                          agent_tools := delete_where (\<lambda>l. at_tool_id l = tool_id) (agent_tools db)\<rparr>))"

section \<open>Preservation of integrity\<close>

lemma distinct_filter_map: "distinct (map f xs) \<Longrightarrow> distinct (map f (filter P xs))"
  by (rule distinct_map_filter)

lemma distinct_valid_tool_ids:
  "distinct (map t_id (tools db)) \<Longrightarrow> distinct (valid_tool_ids tenant ids db)"
  by (simp add: valid_tool_ids_def select_where_def distinct_map_filter)

lemma valid_tool_ids_iff:
  "k \<in> set (valid_tool_ids tenant ids db) \<longleftrightarrow>
     (\<exists>t \<in> set (tools db). t_id t = k \<and> t_tenant_id t = tenant \<and> k \<in> set ids)"
  by (auto simp: valid_tool_ids_def)

text \<open>Linking an agent that has no grants yet.\<close>

lemma link_tools_ok:
  assumes "aes_db_ok db" and "\<forall>l \<in> set (agent_tools db). at_agent_id l \<noteq> agent_id"
    and "a \<in> set (agents db)" and "a_id a = agent_id" and "a_tenant_id a = tenant"
  shows "\<exists>linked db'. link_tools tenant agent_id ids db = (Inr linked, db') \<and> aes_db_ok db' \<and>
    linked = valid_tool_ids tenant ids db \<and> agent_tool_ids agent_id db' = linked \<and>
    agents db' = agents db \<and> tools db' = tools db \<and> tasks db' = tasks db \<and>
    (\<forall>k. k \<noteq> agent_id \<longrightarrow> agent_tool_ids k db' = agent_tool_ids k db)"
proof -
  let ?v = "valid_tool_ids tenant ids db"
  let ?db = "db\<lparr>agent_tools := agent_tools db @ map (\<lambda>k. \<lparr>at_agent_id = agent_id, at_tool_id = k\<rparr>) ?v\<rparr>"
  have e: "link_tools tenant agent_id ids db = (Inr ?v, ?db)"
    by (simp add: link_tools_def valid_tool_ids_def select_where_def)
  have d: "distinct ?v" using assms(1) by (intro distinct_valid_tool_ids) (simp add: aes_db_ok_def)
  have keys: "distinct (map link_key (agent_tools ?db))"
    using assms(1,2) d by (auto simp: aes_db_ok_def link_key_def distinct_map inj_on_def)
  have "link_ok (agents db) (tools db) \<lparr>at_agent_id = agent_id, at_tool_id = k\<rparr>" if "k \<in> set ?v" for k
  proof -
    from that obtain t where "t \<in> set (tools db)" "t_id t = k" "t_tenant_id t = tenant"
      by (auto simp: valid_tool_ids_iff)
    with assms(3-5) show ?thesis
      unfolding link_ok_def by (intro bexI [of _ a] bexI [of _ t]) simp_all
  qed
  then have "\<forall>l \<in> set (agent_tools ?db). link_ok (agents db) (tools db) l"
    using assms(1) by (auto simp: aes_db_ok_def)
  with keys assms(1) have ok: "aes_db_ok ?db" by (simp add: aes_db_ok_def)
  have none: "filter (\<lambda>l. at_agent_id l = agent_id) (agent_tools db) = []"
    using assms(2) by (simp add: filter_empty_conv)
  have "agent_tool_ids agent_id ?db = ?v"
    by (simp add: agent_tool_ids_def select_where_def none o_def)
  moreover have "\<forall>k. k \<noteq> agent_id \<longrightarrow> agent_tool_ids k ?db = agent_tool_ids k db"
    by (auto simp: agent_tool_ids_def select_where_def)
  ultimately show ?thesis using e ok by (intro exI [of _ ?v] exI [of _ ?db]) simp
qed

lemma link_ok_other_agent:
  assumes "\<And>a. a \<in> set ags \<Longrightarrow> a_id a \<noteq> k \<Longrightarrow> a \<in> set ags'" and "at_agent_id l \<noteq> k" and "link_ok ags tls l"
  shows "link_ok ags' tls l"
  using assms unfolding link_ok_def by metis

lemma agent_create_ok:
  assumes "aes_db_ok db"
  shows "aes_db_ok (snd (agent_create new_id now tenant name instructions llm temp ids db))"
proof (cases "new_id \<in> set (map a_id (agents db))")
  case True
  then show ?thesis using assms by (simp add: agent_create_def)
next
  case False
  let ?row = "\<lparr>a_id = new_id, a_tenant_id = tenant, a_name = name, a_instructions = instructions,
                a_llm_config_name = llm, a_llm_config_temperature = temp, a_version = 1,
                a_created_at = now 0, a_updated_at = now (Suc 0)\<rparr>"
  let ?db = "db\<lparr>agents := insert_row ?row (agents db)\<rparr>"
  have links: "\<forall>l \<in> set (agent_tools db). at_agent_id l \<noteq> new_id"
  proof
    fix l assume "l \<in> set (agent_tools db)"
    with assms have "link_ok (agents db) (tools db) l" by (simp add: aes_db_ok_def)
    then obtain a where "a \<in> set (agents db)" "a_id a = at_agent_id l" unfolding link_ok_def by blast
    then have "at_agent_id l \<in> set (map a_id (agents db))" by force
    with False show "at_agent_id l \<noteq> new_id" by blast
  qed
  have "aes_db_ok ?db"
    using assms False by (auto simp: aes_db_ok_def link_ok_def insert_row_def)
  from link_tools_ok [OF this, of new_id ?row tenant ids] links
  obtain linked db' where "link_tools tenant new_id ids ?db = (Inr linked, db')" "aes_db_ok db'" by auto
  with False show ?thesis by (simp add: agent_create_def Let_def)
qed

lemma agent_update_spec:
  assumes "aes_db_ok db" and "get_row a_id agent_id (agents db) = Some row" and "a_tenant_id row = tenant"
  shows "\<exists>row' db'. agent_update now tenant agent_id name instructions llm temp ids db =
      (Inr (row', valid_tool_ids tenant ids db), db') \<and> aes_db_ok db' \<and>
    agent_tool_ids agent_id db' = valid_tool_ids tenant ids db \<and>
    get_row a_id agent_id (agents db') = Some row' \<and>
    row' = row\<lparr>a_name := name, a_instructions := instructions, a_llm_config_name := llm,
       a_llm_config_temperature := temp, a_version := a_version row + 1, a_updated_at := now 0\<rparr> \<and>
    tools db' = tools db \<and> tasks db' = tasks db \<and>
    (\<forall>k. k \<noteq> agent_id \<longrightarrow> get_row a_id k (agents db') = get_row a_id k (agents db) \<and>
       agent_tool_ids k db' = agent_tool_ids k db)"
proof -
  let ?row = "row\<lparr>a_name := name, a_instructions := instructions, a_llm_config_name := llm,
       a_llm_config_temperature := temp, a_version := a_version row + 1, a_updated_at := now 0\<rparr>"
  let ?ags = "update_rows (\<lambda>a. a_id a = agent_id) (\<lambda>_. ?row) (agents db)"
  let ?lks = "delete_where (\<lambda>l. at_agent_id l = agent_id) (agent_tools db)"
  let ?db = "db\<lparr>agents := ?ags, agent_tools := ?lks\<rparr>"
  from assms(2) have r: "row \<in> set (agents db)" "a_id row = agent_id" by (auto dest: get_row_Some)
  have keys: "map a_id ?ags = map a_id (agents db)" using r(2) by (simp add: update_rows_def)
  have mem: "a \<in> set ?ags" if "a \<in> set (agents db)" "a_id a \<noteq> agent_id" for a
    using that by (auto simp: in_update_rows)
  have mrow: "?row \<in> set ?ags" using r by (auto simp: in_update_rows)
  have "\<forall>l \<in> set ?lks. link_ok ?ags (tools db) l"
    using assms(1) link_ok_other_agent [of "agents db" agent_id ?ags, OF mem] by (auto simp: aes_db_ok_def)
  moreover have "distinct (map link_key ?lks)"
    using assms(1) by (simp add: aes_db_ok_def delete_where_def distinct_map_filter)
  ultimately have ok: "aes_db_ok ?db" using assms(1) by (simp add: aes_db_ok_def keys)
  have "\<exists>linked db'. link_tools tenant agent_id ids ?db = (Inr linked, db') \<and> aes_db_ok db' \<and>
      linked = valid_tool_ids tenant ids ?db \<and> agent_tool_ids agent_id db' = linked \<and>
      agents db' = agents ?db \<and> tools db' = tools ?db \<and> tasks db' = tasks ?db \<and>
      (\<forall>k. k \<noteq> agent_id \<longrightarrow> agent_tool_ids k db' = agent_tool_ids k ?db)"
    by (rule link_tools_ok [OF ok, where a = ?row]) (use mrow r(2) assms(3) in auto)
  then obtain db' where db': "link_tools tenant agent_id ids ?db = (Inr (valid_tool_ids tenant ids db), db')"
    "aes_db_ok db'" "agent_tool_ids agent_id db' = valid_tool_ids tenant ids db" "agents db' = ?ags"
    "tools db' = tools db" "tasks db' = tasks db"
    "\<forall>k. k \<noteq> agent_id \<longrightarrow> agent_tool_ids k db' = agent_tool_ids k ?db"
    by (auto simp: valid_tool_ids_def)
  have get: "get_row a_id k ?ags = (if k = agent_id then Some ?row else get_row a_id k (agents db))" for k
    using r by (subst get_row_replace) (auto simp: image_iff)
  have links: "agent_tool_ids k ?db = agent_tool_ids k db" if "k \<noteq> agent_id" for k
    using that by (auto simp: agent_tool_ids_def select_where_def delete_where_def intro: arg_cong [of _ _ "map _"] filter_cong)
  show ?thesis
    using assms(2,3) db' get links by (simp add: agent_update_def Let_def)
qed

lemma link_ok_fewer_agents:
  assumes "link_ok ags tls l" and "at_agent_id l \<noteq> k"
  shows "link_ok (delete_where (\<lambda>a. a_id a = k) ags) tls l"
  using assms unfolding link_ok_def by auto

lemma link_ok_fewer_tools:
  assumes "link_ok ags tls l" and "at_tool_id l \<noteq> k"
  shows "link_ok ags (delete_where (\<lambda>t. t_id t = k) tls) l"
proof -
  obtain a t where "a \<in> set ags" "t \<in> set tls" "a_id a = at_agent_id l" "t_id t = at_tool_id l"
    "a_tenant_id a = t_tenant_id t" using assms(1) unfolding link_ok_def by blast
  with assms(2) show ?thesis unfolding link_ok_def by (intro bexI [of _ a] bexI [of _ t]) simp_all
qed

lemma link_ok_more_tools:
  assumes "link_ok ags tls l" and "\<And>t. t \<in> set tls \<Longrightarrow> \<exists>t' \<in> set tls'. t_id t' = t_id t \<and> t_tenant_id t' = t_tenant_id t"
  shows "link_ok ags tls' l"
proof -
  obtain a t where at: "a \<in> set ags" "t \<in> set tls" "a_id a = at_agent_id l" "t_id t = at_tool_id l"
    "a_tenant_id a = t_tenant_id t" using assms(1) unfolding link_ok_def by blast
  obtain t' where "t' \<in> set tls'" "t_id t' = t_id t" "t_tenant_id t' = t_tenant_id t"
    using assms(2) [OF at(2)] by blast
  with at show ?thesis unfolding link_ok_def by (intro bexI [of _ a] bexI [of _ t']) simp_all
qed

lemma agent_delete_ok:
  assumes "aes_db_ok db"
  shows "aes_db_ok (snd (agent_delete tenant agent_id db))"
proof -
  have "aes_db_ok (db\<lparr>agents := delete_where (\<lambda>a. a_id a = agent_id) (agents db),
                     agent_tools := delete_where (\<lambda>l. at_agent_id l = agent_id) (agent_tools db)\<rparr>)"
    using assms by (auto simp: aes_db_ok_def delete_where_def distinct_map_filter
        intro: link_ok_fewer_agents [unfolded delete_where_def])
  with assms show ?thesis by (simp add: agent_delete_def split: option.split)
qed

lemma tool_delete_ok:
  assumes "aes_db_ok db"
  shows "aes_db_ok (snd (tool_delete tenant tool_id db))"
proof -
  have "aes_db_ok (db\<lparr>tools := delete_where (\<lambda>t. t_id t = tool_id) (tools db),
                     agent_tools := delete_where (\<lambda>l. at_tool_id l = tool_id) (agent_tools db)\<rparr>)"
    using assms by (auto simp: aes_db_ok_def delete_where_def distinct_map_filter
        intro: link_ok_fewer_tools [unfolded delete_where_def])
  with assms show ?thesis by (simp add: tool_delete_def split: option.split)
qed

lemma flush_or_conflict_ok:
  assumes "aes_db_ok db"
    and "\<And>t. t \<in> set (tools db) \<Longrightarrow> \<exists>t' \<in> set tls. t_id t' = t_id t \<and> t_tenant_id t' = t_tenant_id t"
  shows "aes_db_ok (snd (flush_or_conflict name r (db\<lparr>tools := tls\<rparr>) db))"
  using assms by (auto simp: flush_or_conflict_def aes_db_ok_def intro: link_ok_more_tools)

lemma tool_create_ok:
  "aes_db_ok db \<Longrightarrow> aes_db_ok (snd (tool_create new_id now tenant name description mutating db))"
  unfolding tool_create_def Let_def by (rule flush_or_conflict_ok) (auto intro: bexI)

lemma tool_update_ok:
  assumes "aes_db_ok db"
  shows "aes_db_ok (snd (tool_update now tenant tool_id name description mutating db))"
proof (cases "get_row t_id tool_id (tools db)")
  case None
  with assms show ?thesis by (simp add: tool_update_def)
next
  case (Some row)
  let ?row = "row\<lparr>t_name := name, t_description := (if description = [] then None else Some description),
                  t_mutating := mutating, t_version := t_version row + 1, t_updated_at := now 0\<rparr>"
  let ?tls = "update_rows (\<lambda>t. t_id t = tool_id) (\<lambda>_. ?row) (tools db)"
  have row: "row \<in> set (tools db)" "t_id row = tool_id" using Some by (auto dest: get_row_Some)
  have keep: "\<exists>t' \<in> set ?tls. t_id t' = t_id t \<and> t_tenant_id t' = t_tenant_id t" if "t \<in> set (tools db)" for t
  proof (cases "t_id t = tool_id")
    case True
    have "t = row"
      using assms that row True unfolding aes_db_ok_def by (metis distinct_key_eq)
    moreover have "?row \<in> set ?tls" using row by (auto simp: in_update_rows)
    ultimately show ?thesis by (intro bexI [of _ ?row]) simp_all
  next
    case False
    with that have "t \<in> set ?tls" by (auto simp: in_update_rows)
    then show ?thesis by blast
  qed
  show ?thesis
    using assms Some flush_or_conflict_ok [where r = ?row and name = name, OF assms keep]
    by (cases "description = []") (simp_all add: tool_update_def Let_def)
qed

lemma agent_update_ok:
  assumes "aes_db_ok db"
  shows "aes_db_ok (snd (agent_update now tenant agent_id name instructions llm temp ids db))"
proof (cases "\<exists>row. get_row a_id agent_id (agents db) = Some row \<and> a_tenant_id row = tenant")
  case True
  then obtain row where "get_row a_id agent_id (agents db) = Some row" "a_tenant_id row = tenant" by blast
  from agent_update_spec [OF assms this, of now name instructions llm temp ids] show ?thesis by auto
next
  case False
  then show ?thesis using assms by (auto simp: agent_update_def split: option.split)
qed

section \<open>Tenant isolation\<close>

text \<open>
  What a tenant can observe of the catalog is what \<open>GetAgent\<close> and \<open>GetTool\<close> answer. The
  view is determined by the tenant's agents, their grants and the tenant's tools.
\<close>

definition same_view :: "string \<Rightarrow> aes_db \<Rightarrow> aes_db \<Rightarrow> bool" where
  "same_view t db db' \<longleftrightarrow>
     select_where (\<lambda>a. a_tenant_id a = t) (agents db') = select_where (\<lambda>a. a_tenant_id a = t) (agents db) \<and>
     select_where (\<lambda>x. t_tenant_id x = t) (tools db') = select_where (\<lambda>x. t_tenant_id x = t) (tools db) \<and>
     select_where (\<lambda>x. k_tenant_id x = t) (tasks db') = select_where (\<lambda>x. k_tenant_id x = t) (tasks db) \<and>
     (\<forall>a \<in> set (agents db). a_tenant_id a = t \<longrightarrow> agent_tool_ids (a_id a) db' = agent_tool_ids (a_id a) db)"

lemma same_view_refl [simp]: "same_view t db db"
  by (simp add: same_view_def)

lemma same_view_agent_get:
  assumes "same_view t db db'"
  shows "agent_get t ids db' = agent_get t ids db"
  using assms unfolding agent_get_def same_view_def Let_def by (auto intro!: map_cong)

lemma same_view_tool_get: "same_view t db db' \<Longrightarrow> tool_get t ids db' = tool_get t ids db"
  by (simp add: tool_get_def same_view_def)

lemma same_view_has_any:
  assumes "same_view t db db'"
  shows "agent_has_any t db' = agent_has_any t db"
proof -
  have "set (select_where (\<lambda>a. a_tenant_id a = t) (agents db')) =
        set (select_where (\<lambda>a. a_tenant_id a = t) (agents db))"
    using assms by (simp add: same_view_def)
  then show ?thesis by (auto simp: agent_has_any_def)
qed

lemma filter_update_other:
  assumes "\<And>x. x \<in> set xs \<Longrightarrow> P x \<Longrightarrow> \<not> Q x" and "\<not> Q r"
  shows "filter Q (update_rows P (\<lambda>_. r) xs) = filter Q xs"
  using assms by (induction xs) auto

lemma filter_delete_other:
  assumes "\<And>x. x \<in> set xs \<Longrightarrow> P x \<Longrightarrow> \<not> Q x"
  shows "filter Q (delete_where P xs) = filter Q xs"
  using assms by (induction xs) (auto simp: delete_where_def)

lemma agent_create_view:
  assumes "aes_db_ok db" and "t \<noteq> tenant"
  shows "same_view t db (snd (agent_create new_id now tenant name instructions llm temp ids db))"
  using assms(2)
  by (auto simp: agent_create_def Let_def link_tools_def same_view_def select_where_def insert_row_def
      agent_tool_ids_def filter_empty_conv)

lemma agent_row_tenant:
  assumes "aes_db_ok db" and "get_row a_id k (agents db) = Some row" and "a \<in> set (agents db)" and "a_id a = k"
  shows "a = row"
  using assms get_row_in [of a_id "agents db" a] by (simp add: aes_db_ok_def)

lemma tool_row_tenant:
  assumes "aes_db_ok db" and "get_row t_id k (tools db) = Some row" and "a \<in> set (tools db)" and "t_id a = k"
  shows "a = row"
  using assms get_row_in [of t_id "tools db" a] by (simp add: aes_db_ok_def)

lemma agent_delete_view:
  assumes "aes_db_ok db" and "t \<noteq> tenant"
  shows "same_view t db (snd (agent_delete tenant agent_id db))"
proof (cases "\<exists>row. get_row a_id agent_id (agents db) = Some row \<and> a_tenant_id row = tenant")
  case False
  then show ?thesis by (auto simp: agent_delete_def split: option.split)
next
  case True
  then obtain row where row: "get_row a_id agent_id (agents db) = Some row" "a_tenant_id row = tenant" by blast
  have other: "a_tenant_id a \<noteq> t" if "a \<in> set (agents db)" "a_id a = agent_id" for a
    using agent_row_tenant [OF assms(1) row(1) that] row(2) assms(2) by simp
  have "filter (\<lambda>l. at_agent_id l = a_id a) (delete_where (\<lambda>l. at_agent_id l = agent_id) (agent_tools db)) =
        filter (\<lambda>l. at_agent_id l = a_id a) (agent_tools db)" if "a \<in> set (agents db)" "a_tenant_id a = t" for a
  proof (rule filter_delete_other)
    fix l :: agent_tool_row
    assume "at_agent_id l = agent_id"
    then show "at_agent_id l \<noteq> a_id a" using other [OF that(1)] that(2) by auto
  qed
  moreover have "filter (\<lambda>a. a_tenant_id a = t) (delete_where (\<lambda>a. a_id a = agent_id) (agents db)) =
      filter (\<lambda>a. a_tenant_id a = t) (agents db)"
    using other by (intro filter_delete_other) auto
  ultimately show ?thesis
    using row by (simp add: agent_delete_def same_view_def select_where_def agent_tool_ids_def)
qed

lemma agent_update_view:
  assumes "aes_db_ok db" and "t \<noteq> tenant"
  shows "same_view t db (snd (agent_update now tenant agent_id name instructions llm temp ids db))"
proof (cases "\<exists>row. get_row a_id agent_id (agents db) = Some row \<and> a_tenant_id row = tenant")
  case False
  then show ?thesis by (auto simp: agent_update_def split: option.split)
next
  case True
  then obtain row where row: "get_row a_id agent_id (agents db) = Some row" "a_tenant_id row = tenant" by blast
  let ?row = "row\<lparr>a_name := name, a_instructions := instructions, a_llm_config_name := llm,
       a_llm_config_temperature := temp, a_version := a_version row + 1, a_updated_at := now 0\<rparr>"
  have other: "a_tenant_id a \<noteq> t" if "a \<in> set (agents db)" "a_id a = agent_id" for a
    using agent_row_tenant [OF assms(1) row(1) that] row(2) assms(2) by simp
  from agent_update_spec [OF assms(1) row, of now name instructions llm temp ids]
  obtain db' where db': "snd (agent_update now tenant agent_id name instructions llm temp ids db) = db'"
    "tools db' = tools db" "tasks db' = tasks db"
    "\<forall>k. k \<noteq> agent_id \<longrightarrow> agent_tool_ids k db' = agent_tool_ids k db" by auto
  have ags: "agents db' = update_rows (\<lambda>a. a_id a = agent_id) (\<lambda>_. ?row) (agents db)"
    using db'(1) row by (auto simp: agent_update_def Let_def link_tools_def)
  have "filter (\<lambda>a. a_tenant_id a = t) (agents db') = filter (\<lambda>a. a_tenant_id a = t) (agents db)"
    unfolding ags using other row(2) assms(2) by (intro filter_update_other) auto
  moreover have "agent_tool_ids (a_id a) db' = agent_tool_ids (a_id a) db"
    if "a \<in> set (agents db)" "a_tenant_id a = t" for a
    using other [OF that(1)] that(2) db'(4) by blast
  ultimately show ?thesis
    unfolding db'(1) using db'(2,3) by (simp add: same_view_def select_where_def)
qed

lemma flush_or_conflict_view:
  assumes "filter (\<lambda>x. t_tenant_id x = t) tls = filter (\<lambda>x. t_tenant_id x = t) (tools db)"
  shows "same_view t db (snd (flush_or_conflict name r (db\<lparr>tools := tls\<rparr>) db))"
  using assms by (simp add: flush_or_conflict_def same_view_def select_where_def agent_tool_ids_def)

lemma tool_create_view:
  "t \<noteq> tenant \<Longrightarrow> same_view t db (snd (tool_create new_id now tenant name description mutating db))"
  unfolding tool_create_def Let_def by (rule flush_or_conflict_view) (simp add: insert_row_def)

lemma tool_update_view:
  assumes "aes_db_ok db" and "t \<noteq> tenant"
  shows "same_view t db (snd (tool_update now tenant tool_id name description mutating db))"
proof (cases "\<exists>row. get_row t_id tool_id (tools db) = Some row \<and> t_tenant_id row = tenant")
  case False
  then show ?thesis by (auto simp: tool_update_def split: option.split)
next
  case True
  then obtain row where row: "get_row t_id tool_id (tools db) = Some row" "t_tenant_id row = tenant" by blast
  let ?row = "row\<lparr>t_name := name, t_description := (if description = [] then None else Some description),
                  t_mutating := mutating, t_version := t_version row + 1, t_updated_at := now 0\<rparr>"
  have other: "t_tenant_id a \<noteq> t" if "a \<in> set (tools db)" "t_id a = tool_id" for a
    using tool_row_tenant [OF assms(1) row(1) that] row(2) assms(2) by simp
  have "filter (\<lambda>x. t_tenant_id x = t) (update_rows (\<lambda>x. t_id x = tool_id) (\<lambda>_. ?row) (tools db)) =
        filter (\<lambda>x. t_tenant_id x = t) (tools db)"
    using other row(2) assms(2) by (intro filter_update_other) auto
  from flush_or_conflict_view [OF this] show ?thesis
    using row by (cases "description = []") (simp_all add: tool_update_def Let_def)
qed

text \<open>A grant of another tenant's agent never names the deleted tool.\<close>

lemma tool_delete_view:
  assumes "aes_db_ok db" and "t \<noteq> tenant"
  shows "same_view t db (snd (tool_delete tenant tool_id db))"
proof (cases "\<exists>row. get_row t_id tool_id (tools db) = Some row \<and> t_tenant_id row = tenant")
  case False
  then show ?thesis by (auto simp: tool_delete_def split: option.split)
next
  case True
  then obtain row where row: "get_row t_id tool_id (tools db) = Some row" "t_tenant_id row = tenant" by blast
  have other: "t_tenant_id a \<noteq> t" if "a \<in> set (tools db)" "t_id a = tool_id" for a
    using tool_row_tenant [OF assms(1) row(1) that] row(2) assms(2) by simp
  have grant: "at_agent_id l \<noteq> a_id a"
    if a: "a \<in> set (agents db)" "a_tenant_id a = t" and l: "l \<in> set (agent_tools db)" "at_tool_id l = tool_id" for a l
  proof
    assume eq: "at_agent_id l = a_id a"
    from assms(1) l(1) have "link_ok (agents db) (tools db) l" by (simp add: aes_db_ok_def)
    then obtain b x where bx: "b \<in> set (agents db)" "x \<in> set (tools db)" "a_id b = at_agent_id l"
      "t_id x = at_tool_id l" "a_tenant_id b = t_tenant_id x" unfolding link_ok_def by blast
    have "b = a" using assms(1) bx(1,3) a(1) eq unfolding aes_db_ok_def by (metis distinct_key_eq)
    with bx a(2) have "t_tenant_id x = t" by simp
    with other [OF bx(2)] bx(4) l(2) show False by simp
  qed
  have "filter (\<lambda>l. at_agent_id l = a_id a) (delete_where (\<lambda>l. at_tool_id l = tool_id) (agent_tools db)) =
        filter (\<lambda>l. at_agent_id l = a_id a) (agent_tools db)" if "a \<in> set (agents db)" "a_tenant_id a = t" for a
    using grant [OF that] by (intro filter_delete_other) auto
  moreover have "filter (\<lambda>a. t_tenant_id a = t) (delete_where (\<lambda>a. t_id a = tool_id) (tools db)) =
      filter (\<lambda>a. t_tenant_id a = t) (tools db)"
    using other by (intro filter_delete_other) auto
  ultimately show ?thesis
    using row by (simp add: tool_delete_def same_view_def select_where_def agent_tool_ids_def)
qed

end
