(* ===== verification/Orc_Repo.thy ===== *)
theory Orc_Repo
  imports Aes_Catalog
begin

text \<open>
  The orchestrator's reads (\<open>agents_repo.py\<close>): a tenant's agents in name order, each with the
  names of the tools it was granted and the subset of them that mutate. The tables are those
  \<open>agent_execution_service\<close> owns (\<open>orchestrator/models.py\<close> mirrors them), so the rows are those
  of \<open>Aes_Model\<close>. \<open>ORDER BY name\<close> uses the collation of the database, a parameter: the rank of
  a name.
\<close>

record agent_spec =
  as_id :: string
  as_name :: string
  as_instructions :: string
  as_llm_config_name :: string
  as_llm_config_temperature :: rat
  as_tool_names :: "string list"
  as_mutating_tool_names :: "string list"

text \<open>\<open>tools_by_id\<close>: the tenant's tools among the granted ids, as a dictionary.\<close>

definition tools_by_id :: "string \<Rightarrow> string list \<Rightarrow> aes_db \<Rightarrow> string \<Rightarrow> tool_row option" where
  "tools_by_id tenant_id tool_ids db =
     map_of (rev (map (\<lambda>t. (t_id t, t))
       (select_where (\<lambda>t. t_tenant_id t = tenant_id \<and> t_id t \<in> set tool_ids) (tools db))))"

definition agent_spec_of :: "(string \<Rightarrow> tool_row option) \<Rightarrow> agent_row \<Rightarrow> string list \<Rightarrow> agent_spec" where
  "agent_spec_of lookup row links =
     (let granted = List.map_filter lookup links
      in \<lparr>as_id = a_id row, as_name = a_name row, as_instructions = a_instructions row,
          as_llm_config_name = a_llm_config_name row,
          as_llm_config_temperature = a_llm_config_temperature row,
          as_tool_names = map t_name granted,
          as_mutating_tool_names = map t_name (filter t_mutating granted)\<rparr>)"

definition list_agents_for_tenant :: "(string \<Rightarrow> int) \<Rightarrow> string \<Rightarrow> aes_db \<Rightarrow> agent_spec list" where
  "list_agents_for_tenant rank tenant_id db =
     (let rows = sort_key (\<lambda>a. rank (a_name a)) (select_where (\<lambda>a. a_tenant_id a = tenant_id) (agents db));
          tool_ids = concat (map (\<lambda>row. agent_tool_ids (a_id row) db) rows);
          lookup = tools_by_id tenant_id tool_ids db
      in map (\<lambda>row. agent_spec_of lookup row (agent_tool_ids (a_id row) db)) rows)"

section \<open>Lemmas\<close>

lemma tools_by_id_Some:
  assumes "tools_by_id tenant_id ids db k = Some t"
  shows "t \<in> set (tools db) \<and> t_id t = k \<and> t_tenant_id t = tenant_id \<and> k \<in> set ids"
proof -
  from assms have "(k, t) \<in> set (rev (map (\<lambda>t. (t_id t, t))
       (select_where (\<lambda>t. t_tenant_id t = tenant_id \<and> t_id t \<in> set ids) (tools db))))"
    unfolding tools_by_id_def by (rule map_of_SomeD)
  then show ?thesis by auto
qed

lemma tools_by_id_get_row:
  assumes "distinct (map t_id (tools db))" and "k \<in> set ids"
    and "get_row t_id k (tools db) = Some t" and "t_tenant_id t = tenant_id"
  shows "tools_by_id tenant_id ids db k = Some t"
proof -
  let ?sel = "select_where (\<lambda>t. t_tenant_id t = tenant_id \<and> t_id t \<in> set ids) (tools db)"
  have d: "distinct (map fst (rev (map (\<lambda>t. (t_id t, t)) ?sel)))"
    using assms(1) by (simp add: rev_map [symmetric] o_def select_where_def distinct_map_filter)
  have "(k, t) \<in> set (rev (map (\<lambda>t. (t_id t, t)) ?sel))"
    using assms(2-4) by (auto dest: get_row_Some)
  with d show ?thesis unfolding tools_by_id_def by (rule map_of_is_SomeI)
qed

text \<open>A granted tool name belongs to a tool of the tenant; it is listed as mutating exactly when that tool is.\<close>

lemma agent_spec_tools:
  assumes "spec \<in> set (list_agents_for_tenant rank tenant_id db)"
  shows "set (as_mutating_tool_names spec) \<subseteq> set (as_tool_names spec)"
    and "name \<in> set (as_tool_names spec) \<Longrightarrow>
      \<exists>t \<in> set (tools db). t_tenant_id t = tenant_id \<and> t_name t = name \<and>
        (t_mutating t \<longrightarrow> name \<in> set (as_mutating_tool_names spec))"
proof -
  from assms obtain lookup row links ids where spec: "spec = agent_spec_of lookup row links"
    and lookup: "lookup = tools_by_id tenant_id ids db"
    by (auto simp: list_agents_for_tenant_def Let_def)
  show "set (as_mutating_tool_names spec) \<subseteq> set (as_tool_names spec)"
    by (auto simp: spec agent_spec_of_def Let_def)
  assume "name \<in> set (as_tool_names spec)"
  then obtain t where t: "t \<in> set (List.map_filter lookup links)" "t_name t = name"
    by (auto simp: spec agent_spec_of_def Let_def)
  then obtain k where "lookup k = Some t" by (auto simp: List.map_filter_def)
  with tools_by_id_Some lookup t show "\<exists>t \<in> set (tools db). t_tenant_id t = tenant_id \<and> t_name t = name \<and>
        (t_mutating t \<longrightarrow> name \<in> set (as_mutating_tool_names spec))"
    by (auto simp: spec agent_spec_of_def Let_def intro!: bexI [of _ t])
qed

lemma agent_names_unique_mutating:
  assumes "aes_db_ok db" and "spec \<in> set (list_agents_for_tenant rank tenant_id db)"
    and "name \<in> set (as_tool_names spec)" and "name \<notin> set (as_mutating_tool_names spec)"
    and "t \<in> set (tools db)" and "t_tenant_id t = tenant_id" and "t_name t = name"
  shows "\<not> t_mutating t"
proof -
  obtain t' where t': "t' \<in> set (tools db)" "t_tenant_id t' = tenant_id" "t_name t' = name" "\<not> t_mutating t'"
    using agent_spec_tools(2) [OF assms(2,3)] assms(4) by blast
  have "t = t'"
    using assms(1,5-7) t' unfolding aes_db_ok_def
    by (intro distinct_key_eq [of tool_key "tools db"]) (simp_all add: tool_key_def)
  with t'(4) show ?thesis by simp
qed

section \<open>Agreement with the catalog service\<close>

text \<open>What \<open>GetAgent\<close> reports of one agent, with the tool ids resolved through the tools table.\<close>

definition resolved_spec :: "aes_db \<Rightarrow> agent_row \<times> string list \<Rightarrow> agent_spec" where
  "resolved_spec db = (\<lambda>(row, ids).
     let granted = map (\<lambda>k. the (get_row t_id k (tools db))) ids
     in \<lparr>as_id = a_id row, as_name = a_name row, as_instructions = a_instructions row,
         as_llm_config_name = a_llm_config_name row,
         as_llm_config_temperature = a_llm_config_temperature row,
         as_tool_names = map t_name granted,
         as_mutating_tool_names = map t_name (filter t_mutating granted)\<rparr>)"

lemma granted_tool:
  assumes "aes_db_ok db" and "a \<in> set (agents db)" and "k \<in> set (agent_tool_ids (a_id a) db)"
  shows "\<exists>t. get_row t_id k (tools db) = Some t \<and> t_tenant_id t = a_tenant_id a"
proof -
  from assms(3) obtain l where l: "l \<in> set (agent_tools db)" "at_agent_id l = a_id a" "at_tool_id l = k"
    by (auto simp: agent_tool_ids_def)
  with assms(1) have "link_ok (agents db) (tools db) l" by (simp add: aes_db_ok_def)
  then obtain b t where bt: "b \<in> set (agents db)" "t \<in> set (tools db)" "a_id b = a_id a" "t_id t = k"
    "a_tenant_id b = t_tenant_id t" using l unfolding link_ok_def by metis
  have "b = a" using assms(1,2) bt unfolding aes_db_ok_def by (metis distinct_key_eq)
  with bt assms(1) show ?thesis
    using get_row_in [of t_id "tools db" t] by (auto simp: aes_db_ok_def)
qed

lemma map_filter_all: "(\<And>x. x \<in> set xs \<Longrightarrow> f x = Some (g x)) \<Longrightarrow> List.map_filter f xs = map g xs"
  by (induction xs) (auto simp: List.map_filter_simps)

lemma agent_spec_resolved:
  assumes "aes_db_ok db" and "row \<in> set (agents db)" and "a_tenant_id row = tenant_id"
    and "set (agent_tool_ids (a_id row) db) \<subseteq> set ids"
  shows "agent_spec_of (tools_by_id tenant_id ids db) row (agent_tool_ids (a_id row) db) =
    resolved_spec db (row, agent_tool_ids (a_id row) db)"
proof -
  have "tools_by_id tenant_id ids db k = Some (the (get_row t_id k (tools db)))"
    if k: "k \<in> set (agent_tool_ids (a_id row) db)" for k
  proof -
    obtain t where "get_row t_id k (tools db) = Some t" "t_tenant_id t = tenant_id"
      using granted_tool [OF assms(1,2) k] assms(3) by blast
    with assms(1,4) k show ?thesis
      by (subst tools_by_id_get_row [of db k ids t]) (auto simp: aes_db_ok_def)
  qed
  then have "List.map_filter (tools_by_id tenant_id ids db) (agent_tool_ids (a_id row) db) =
      map (\<lambda>k. the (get_row t_id k (tools db))) (agent_tool_ids (a_id row) db)"
    by (rule map_filter_all)
  then show ?thesis by (simp add: agent_spec_of_def resolved_spec_def Let_def)
qed

lemma list_agents_resolved:
  assumes "aes_db_ok db"
  shows "list_agents_for_tenant rank tenant_id db =
    map (resolved_spec db) (sort_key (\<lambda>p. rank (a_name (fst p))) (agent_get tenant_id [] db))"
proof -
  let ?rows = "select_where (\<lambda>a. a_tenant_id a = tenant_id) (agents db)"
  let ?pair = "\<lambda>row. (row, agent_tool_ids (a_id row) db)"
  have sorted: "sort_key (\<lambda>p. rank (a_name (fst p))) (map ?pair xs) = map ?pair (sort_key (\<lambda>a. rank (a_name a)) xs)" for xs
  proof (induction xs)
    case (Cons x xs)
    have "insort_key (\<lambda>p. rank (a_name (fst p))) (?pair x) (map ?pair ys) = map ?pair (insort_key (\<lambda>a. rank (a_name a)) x ys)" for ys
      by (induction ys) auto
    with Cons show ?case by (simp add: sort_key_def)
  qed simp
  let ?sorted = "sort_key (\<lambda>a. rank (a_name a)) ?rows"
  let ?ids = "concat (map (\<lambda>row. agent_tool_ids (a_id row) db) ?sorted)"
  have "agent_spec_of (tools_by_id tenant_id ?ids db) row (agent_tool_ids (a_id row) db) = resolved_spec db (?pair row)"
    if row: "row \<in> set ?sorted" for row
  proof (rule agent_spec_resolved [OF assms])
    show "set (agent_tool_ids (a_id row) db) \<subseteq> set ?ids" using row by auto
  qed (use row in auto)
  then have "list_agents_for_tenant rank tenant_id db = map (resolved_spec db) (map ?pair ?sorted)"
    by (simp add: list_agents_for_tenant_def Let_def)
  also have "map ?pair ?sorted = sort_key (\<lambda>p. rank (a_name (fst p))) (agent_get tenant_id [] db)"
    by (simp add: agent_get_def Let_def sorted)
  finally show ?thesis .
qed

end
