(* ===== verification/Orc_Slug.thy ===== *)
theory Orc_Slug
  imports PyStr
begin

text \<open>
  The participant names of a group chat (\<open>_slugify\<close> of \<open>orchestrator/groupchat.py\<close>): an agent's
  display name becomes an identifier-like slug that no other participant has. The search for a
  free suffix is a loop over the finite set of taken names; it ends because every candidate is
  tried once. Python's own notion of identifier (\<open>str.isidentifier\<close>), which the group chat
  library demands of a participant name, is \<open>py_isidentifier\<close>.
\<close>

section \<open>Identifiers\<close>

definition ident_start :: "char \<Rightarrow> bool" where
  "ident_start c \<longleftrightarrow> ascii_letter c \<or> ordc c = 95 \<or> ordc c \<in> {170, 181, 186} \<or>
     (192 \<le> ordc c \<and> ordc c \<noteq> 215 \<and> ordc c \<noteq> 247)"

definition ident_continue :: "char \<Rightarrow> bool" where
  "ident_continue c \<longleftrightarrow> ident_start c \<or> ascii_digit c \<or> ordc c = 183"

definition py_isidentifier :: "string \<Rightarrow> bool" where
  "py_isidentifier s \<longleftrightarrow> s \<noteq> [] \<and> ident_start (hd s) \<and> (\<forall>c \<in> set s. ident_continue c)"

text \<open>The numeric characters that \<open>\w\<close> accepts and an identifier may not contain: the
  superscripts and the vulgar fractions.\<close>

definition odd_numeric :: "char \<Rightarrow> bool" where
  "odd_numeric c \<longleftrightarrow> ordc c \<in> {178, 179, 185, 188, 189, 190}"

section \<open>_slugify\<close>

definition py_strip_chars :: "(char \<Rightarrow> bool) \<Rightarrow> string \<Rightarrow> string" where
  "py_strip_chars P s = rev (dropWhile P (rev (dropWhile P s)))"

text \<open>The base of a slug, before it is made unique.\<close>

definition slug_base :: "string \<Rightarrow> string" where
  "slug_base name =
     (let stripped = py_strip_chars (\<lambda>c. c = CHR ''_'') (map (\<lambda>c. if re_word c then c else CHR ''_'') name);
          slug = (if stripped = [] then ''agent'' else stripped)
      in if py_isdigit (hd slug) then ''a_'' @ slug else slug)"

text \<open>The loop tries the suffixes 2, 3, and so on.\<close>

definition numbered :: "string \<Rightarrow> nat \<Rightarrow> string" where
  "numbered base i = base @ ''_'' @ str_nat i"

lemma numbered_inject [simp]: "numbered base i = numbered base j \<longleftrightarrow> i = j"
  by (simp add: numbered_def)

function first_free :: "string \<Rightarrow> nat \<Rightarrow> string list \<Rightarrow> string" where
  "first_free base i taken =
     (if numbered base i \<in> set taken then first_free base (Suc i) taken else numbered base i)"
  by pat_completeness auto

lemma first_free_measure:
  assumes "numbered base i \<in> set taken"
  shows "card {s \<in> set taken. \<exists>k \<ge> Suc i. s = numbered base k} < card {s \<in> set taken. \<exists>k \<ge> i. s = numbered base k}"
proof (rule psubset_card_mono)
  let ?A = "{s \<in> set taken. \<exists>k \<ge> Suc i. s = numbered base k}"
  let ?B = "{s \<in> set taken. \<exists>k \<ge> i. s = numbered base k}"
  show "finite ?B" by simp
  have "numbered base i \<notin> ?A" by auto
  moreover have "numbered base i \<in> ?B" using assms by auto
  ultimately have "?A \<noteq> ?B" by blast
  moreover have "?A \<subseteq> ?B" by (auto dest: Suc_leD)
  ultimately show "?A \<subset> ?B" by (rule psubsetI [rotated])
qed

termination first_free
  by (relation "measure (\<lambda>(base, i, taken). card {s \<in> set taken. \<exists>k \<ge> i. s = numbered base k})")
    (use first_free_measure in auto)

declare first_free.simps [simp del]

definition slugify :: "string \<Rightarrow> string list \<Rightarrow> string" where
  "slugify name taken =
     (let base = slug_base name
      in if base \<in> set taken then first_free base 2 taken else base)"

text \<open>\<open>build_group_chat\<close> calls it with a set it extends with every slug.\<close>

fun slugify_all :: "string list \<Rightarrow> string list \<Rightarrow> string list" where
  "slugify_all [] taken = []"
| "slugify_all (name # names) taken =
     (let slug = slugify name taken in slug # slugify_all names (slug # taken))"

section \<open>Lemmas\<close>

lemma first_free_fresh: "first_free base i taken \<notin> set taken"
  by (induction base i taken rule: first_free.induct) (metis first_free.simps)

lemma first_free_numbered: "\<exists>k \<ge> i. first_free base i taken = numbered base k"
proof (induction base i taken rule: first_free.induct)
  case (1 base i taken)
  then show ?case by (subst first_free.simps) (auto dest: Suc_leD)
qed

text \<open>The smallest free suffix is taken.\<close>

lemma first_free_least:
  "\<exists>k \<ge> i. first_free base i taken = numbered base k \<and> (\<forall>j. i \<le> j \<and> j < k \<longrightarrow> numbered base j \<in> set taken)"
proof (induction base i taken rule: first_free.induct)
  case (1 base i taken)
  show ?case
  proof (cases "numbered base i \<in> set taken")
    case True
    from 1 [OF True] obtain k where "Suc i \<le> k" "first_free base (Suc i) taken = numbered base k"
      "\<forall>j. Suc i \<le> j \<and> j < k \<longrightarrow> numbered base j \<in> set taken" by blast
    with True show ?thesis
      by (subst first_free.simps) (metis Suc_leD not_less_eq_eq order_antisym_conv)
  next
    case False
    then show ?thesis by (subst first_free.simps) auto
  qed
qed

lemma slugify_fresh: "slugify name taken \<notin> set taken"
  by (simp add: slugify_def Let_def first_free_fresh)

lemma slugify_cases:
  "slugify name taken = slug_base name \<or> (\<exists>k \<ge> 2. slugify name taken = numbered (slug_base name) k)"
  using first_free_numbered [of 2 "slug_base name" taken] by (auto simp: slugify_def Let_def)

lemma slugify_all_distinct:
  "distinct (slugify_all names taken) \<and> set (slugify_all names taken) \<inter> set taken = {}"
proof (induction names arbitrary: taken)
  case (Cons name names)
  from Cons [of "slugify name taken # taken"] show ?case
    using slugify_fresh [of name taken] by (auto simp: Let_def)
qed simp

lemma length_slugify_all [simp]: "length (slugify_all names taken) = length names"
  by (induction names arbitrary: taken) (simp_all add: Let_def)

subsection \<open>Slugs as identifiers\<close>

lemma dropWhile_hd: "dropWhile P s \<noteq> [] \<Longrightarrow> \<not> P (hd (dropWhile P s))"
  by (rule hd_dropWhile)

lemma py_strip_chars_hd:
  assumes "py_strip_chars P s \<noteq> []"
  shows "\<not> P (hd (py_strip_chars P s))"
proof -
  let ?t = "dropWhile P s"
  have ne: "?t \<noteq> []"
  proof
    assume "?t = []"
    then have "py_strip_chars P s = []" unfolding py_strip_chars_def by (simp only: rev.simps dropWhile.simps)
    with assms show False by contradiction
  qed
  then have h: "\<not> P (hd ?t)" by (rule hd_dropWhile)
  have pre: "\<exists>u. ?t = rev (dropWhile P (rev ?t)) @ u"
    by (metis rev_append rev_rev_ident takeWhile_dropWhile_id)
  then obtain u where "?t = py_strip_chars P s @ u" by (auto simp: py_strip_chars_def)
  then have "hd ?t = hd (py_strip_chars P s)" using assms by (metis hd_append2)
  with h show ?thesis by simp
qed

lemma py_strip_chars_set: "set (py_strip_chars P s) \<subseteq> set s"
proof
  fix x assume "x \<in> set (py_strip_chars P s)"
  then have "x \<in> set (rev (dropWhile P s))" unfolding py_strip_chars_def by (metis set_dropWhileD set_rev)
  then show "x \<in> set s" by (auto dest: set_dropWhileD)
qed

lemma re_word_ident: "re_word c \<Longrightarrow> \<not> odd_numeric c \<Longrightarrow> ident_continue c"
  by (auto simp: re_word_def odd_numeric_def ident_continue_def ident_start_def)

lemma ident_start_hd:
  "re_word c \<Longrightarrow> \<not> odd_numeric c \<Longrightarrow> \<not> py_isdigit c \<Longrightarrow> ident_start c"
  by (auto simp: re_word_def odd_numeric_def ident_start_def py_isdigit_def)

lemma slug_base_identifier:
  assumes "\<forall>c \<in> set name. \<not> odd_numeric c"
  shows "py_isidentifier (slug_base name)"
proof -
  let ?m = "map (\<lambda>c. if re_word c then c else CHR ''_'') name"
  let ?s = "py_strip_chars (\<lambda>c. c = CHR ''_'') ?m"
  let ?slug = "if ?s = [] then ''agent'' else ?s"
  have us: "re_word (CHR ''_'')" "\<not> odd_numeric (CHR ''_'')" by (simp_all add: re_word_def odd_numeric_def)
  have m: "re_word c \<and> \<not> odd_numeric c" if "c \<in> set ?m" for c
    using that assms us by auto
  have agent: "re_word c \<and> \<not> odd_numeric c" if "c \<in> set ''agent''" for c
    using that by (auto simp: re_word_def odd_numeric_def ascii_letter_def)
  have all: "re_word c \<and> \<not> odd_numeric c" if "c \<in> set ?slug" for c
  proof (cases "?s = []")
    case True
    then show ?thesis using that agent by simp
  next
    case False
    then have "?slug = ?s" by (rule if_not_P)
    with that have "c \<in> set ?s" by (simp only:)
    then show ?thesis by (rule m [OF subsetD [OF py_strip_chars_set]])
  qed
  define slug where "slug = ?slug"
  have e: "slug_base name = (if py_isdigit (hd slug) then ''a_'' @ slug else slug)"
    unfolding slug_base_def slug_def Let_def ..
  have ne: "slug \<noteq> []" by (simp add: slug_def)
  have ok: "\<And>c. c \<in> set slug \<Longrightarrow> re_word c \<and> \<not> odd_numeric c" using all unfolding slug_def .
  then have cont: "\<forall>c \<in> set slug. ident_continue c" using re_word_ident by blast
  have a: "ident_start (CHR ''a'')" "ident_continue (CHR ''a'')" "ident_continue (CHR ''_'')"
    by (simp_all add: ident_start_def ident_continue_def ascii_letter_def)
  show ?thesis
  proof (cases "py_isdigit (hd slug)")
    case True
    with cont a show ?thesis by (simp add: e py_isidentifier_def)
  next
    case False
    have "ident_start (hd slug)" using ok [OF hd_in_set [OF ne]] False by (intro ident_start_hd) simp_all
    with False ne cont show ?thesis by (simp add: e py_isidentifier_def)
  qed
qed

lemma numbered_identifier:
  assumes "py_isidentifier base"
  shows "py_isidentifier (numbered base k)"
proof -
  have "ident_continue c" if "c \<in> set (str_nat k)" for c
    using that str_nat_digits [of k] by (auto simp: ident_continue_def)
  moreover have "ident_continue (CHR ''_'')" by (simp add: ident_continue_def ident_start_def)
  ultimately show ?thesis using assms by (auto simp: py_isidentifier_def numbered_def)
qed

lemma slugify_identifier:
  "\<forall>c \<in> set name. \<not> odd_numeric c \<Longrightarrow> py_isidentifier (slugify name taken)"
  using slugify_cases [of name taken] slug_base_identifier [of name] numbered_identifier by metis

lemma slugify_all_identifiers:
  "\<forall>name \<in> set names. \<forall>c \<in> set name. \<not> odd_numeric c \<Longrightarrow>
     s \<in> set (slugify_all names taken) \<Longrightarrow> py_isidentifier s"
  by (induction names arbitrary: taken) (auto simp: Let_def slugify_identifier)

end
