(* ===== verification/Orc_Chat.thy ===== *)
theory Orc_Chat
  imports Orc_Client Orc_Workbench Orc_Repo Orc_Slug Chat_Proto
begin

text \<open>
  The orchestrator's request path: \<open>groupchat.py\<close> (participants, selector, termination and the
  session), \<open>run.py\<close> (one turn of a group chat and its transcript), \<open>auth.py\<close>, \<open>errors.py\<close> and
  \<open>servicer.py\<close>.

  AutoGen is a parameter. Its constructors accept or refuse participants, and a run of a team is
  an arbitrary finite decision tree (\<open>team\<close>): at every node the library calls one of the model
  clients, lists or calls the tools of one of the workbenches it was given, ends with messages
  and a stop reason, or raises; each answer decides how it goes on. The library has no other
  access to the services.
\<close>

section \<open>errors.py\<close>

text \<open>\<open>Aio_Rpc_Error\<close> is a failed gateway call, \<open>Orc_Other\<close> any exception of another class.\<close>

datatype orc_error =
    Orc_App string
  | Orc_Authentication string
  | No_Agents string
  | Aio_Rpc_Error grpc_status string
  | Orc_Other string

section \<open>Selection and termination\<close>

datatype selector = Model_Selector | Plan_Selector string | Solo_Selector string

text \<open>The thread is given by the sources of its messages; a message may have none.\<close>

definition select_speaker :: "selector \<Rightarrow> string option list \<Rightarrow> string option" where
  "select_speaker sel thread =
     (case sel of
        Model_Selector \<Rightarrow> None
      | Plan_Selector planner_slug \<Rightarrow>
          if Some ''system'' \<notin> set thread then None
          else if Some planner_slug \<in> set thread then None else Some planner_slug
      | Solo_Selector agent_slug \<Rightarrow> Some agent_slug)"

datatype stop_condition =
    Max_Message int
  | Source_Match "string list"
  | Text_Message string
  | Or_Stop stop_condition stop_condition

definition execution_termination :: "int \<Rightarrow> string list \<Rightarrow> stop_condition" where
  "execution_termination max_messages agent_slugs =
     foldl (\<lambda>t slug. Or_Stop t (Text_Message slug)) (Max_Message max_messages) agent_slugs"

section \<open>Participants\<close>

definition planner_name :: string where "planner_name = ''Planner''"

definition planner_system_message :: string where
  "planner_system_message =
     ''You are the team's task planner. Break the user's request into the FEWEST '' @
     ''self-contained sub-prompts needed, each one carried out end to end by a '' @
     ''single tool-using agent (an agent may make several tool calls within one '' @
     ''sub-prompt). Prefer a SINGLE sub-prompt whenever the whole request can be '' @
     ''answered in one agent turn; do not split a single lookup-and-compute into '' @
     ''separate steps. Return ONLY a JSON array of strings (one sub-prompt per '' @
     ''element), with no surrounding text. You have no tools: never execute the '' @
     ''task or call a tool, only produce the plan.''"

definition planner_description :: string where
  "planner_description =
     ''Task planner: decomposes the initial request into an ordered plan (a JSON '' @
     ''array of sub-prompts). Has no tools and never executes a step -- pick it only '' @
     ''to produce the plan, never to carry out a concrete sub-task.''"

definition placeholder_name :: string where "placeholder_name = ''Placeholder''"

definition placeholder_system_message :: string where
  "placeholder_system_message =
     ''You are an inactive placeholder and will never be asked to respond. If you '' @
     ''somehow are, reply with a single space and nothing else.''"

definition placeholder_description :: string where
  "placeholder_description =
     ''Inactive placeholder with no tools; exists only to pad a single-agent team '' @
     ''to the group chat's required minimum. Never select it.''"

definition newline :: string where "newline = [CHR 0x0A]"

definition agent_system_message :: "agent_spec \<Rightarrow> string" where
  "agent_system_message spec =
     (if as_tool_names spec = [] then as_instructions spec
      else as_instructions spec @ newline @ newline @
        ''You are attached to the MCP tool server. You may ONLY make the following '' @
        ''tool calls and none other: '' @ py_join '', '' (as_tool_names spec) @
        ''. You must not call any other tool under any circumstances.'')"

text \<open>A participant uses the model client and the workbench of the given positions.\<close>

record participant =
  pt_slug :: string
  pt_client :: nat
  pt_workbench :: "nat option"
  pt_system_message :: string
  pt_description :: string

record group_chat =
  gc_participants :: "participant list"
  gc_selector :: selector
  gc_termination :: stop_condition
  gc_selector_client :: nat
  gc_temperatures :: "rat list"
  gc_workbenches :: "workbench list"
  gc_name_by_slug :: "(string \<times> string) list"

text \<open>
  AutoGen: which names \<open>AssistantAgent\<close> accepts, which lists of participants
  \<open>SelectorGroupChat\<close> accepts, and how a team runs.
\<close>

datatype out_message = Chat_Text string string | Chat_Event string

datatype team =
    Team_Done "out_message list" "string option"
  | Team_Raise orc_error
  | Ask_Model nat "llm_message list" "tool_schema list" tool_choice "rpc_error + create_result \<Rightarrow> team"
  | List_Tools nat "tool_listing list \<Rightarrow> team"
  | Call_Tool nat string "(string \<times> json) list option" "tool_result \<Rightarrow> team"

record autogen =
  ag_agent_ok :: "string \<Rightarrow> bool"
  ag_team_ok :: "string list \<Rightarrow> bool"
  ag_run :: "group_chat \<Rightarrow> (string \<times> string) list \<Rightarrow> team"

definition agent_participant :: "nat \<Rightarrow> string \<Rightarrow> agent_spec \<Rightarrow> participant" where
  "agent_participant i slug spec =
     \<lparr>pt_slug = slug, pt_client = i, pt_workbench = Some i,
      pt_system_message = agent_system_message spec,
      pt_description = ''Domain agent '' @ py_repr (as_name spec) @ '' (agent id '' @ as_id spec @ '').''\<rparr>"

definition agent_workbench :: "string \<Rightarrow> bool \<Rightarrow> agent_spec \<Rightarrow> workbench" where
  "agent_workbench tenant_id approved spec =
     \<lparr>wb_tenant_id = tenant_id, wb_allowed = as_tool_names spec,
      wb_mutating = as_mutating_tool_names spec, wb_approved = approved\<rparr>"

text \<open>The participant without tools that is added after the agents, if any: the planner of a
  planning turn, or the placeholder of a single agent's execution turn.\<close>

definition extra_participant :: "bool \<Rightarrow> nat \<Rightarrow> (string \<times> string \<times> string) option" where
  "extra_participant is_planning n =
     (if is_planning then Some (planner_name, planner_system_message, planner_description)
      else if n < 2 then Some (placeholder_name, placeholder_system_message, placeholder_description)
      else None)"

definition build_group_chat ::
    "autogen \<Rightarrow> int \<Rightarrow> string \<Rightarrow> bool \<Rightarrow> bool \<Rightarrow> agent_spec list \<Rightarrow> orc_error + group_chat" where
  "build_group_chat ag max_messages tenant_id approved is_planning specs =
     (if specs = [] then Inl (No_Agents (''tenant '' @ py_repr tenant_id @ '' has no agents configured''))
      else
        let n = length specs;
            agent_slugs = slugify_all (map as_name specs) [];
            agents = map (\<lambda>i. agent_participant i (agent_slugs ! i) (specs ! i)) [0..<n];
            extra = map (\<lambda>(name, system_message, description).
                (name, \<lparr>pt_slug = slugify name agent_slugs, pt_client = n, pt_workbench = None,
                        pt_system_message = system_message, pt_description = description\<rparr>))
              (case extra_participant is_planning n of None \<Rightarrow> [] | Some x \<Rightarrow> [x]);
            participants = agents @ map snd extra;
            slugs = map pt_slug participants
        in if \<not> list_all (ag_agent_ok ag) slugs then Inl (Orc_Other ''ValueError'')
           else if \<not> ag_team_ok ag slugs then Inl (Orc_Other ''ValueError'')
           else Inr \<lparr>gc_participants = participants,
             gc_selector =
               (if is_planning then Plan_Selector (slugify planner_name agent_slugs)
                else if n < 2 then Solo_Selector (hd agent_slugs) else Model_Selector),
             gc_termination =
               (if is_planning
                then Or_Stop (Max_Message max_messages) (Source_Match [slugify planner_name agent_slugs])
                else execution_termination max_messages agent_slugs),
             gc_selector_client = length participants,
             gc_temperatures = map as_llm_config_temperature specs @ map (\<lambda>_. 0) extra @ [0],
             gc_workbenches = map (agent_workbench tenant_id approved) specs,
             gc_name_by_slug = zip agent_slugs (map as_name specs) @ map (\<lambda>(name, p). (pt_slug p, name)) extra\<rparr>)"

section \<open>A run of the team\<close>

record 'w services =
  sv_float32 :: "rat \<Rightarrow> rat"
  sv_gateway :: "'w gateway_stub"
  sv_mcp :: "'w mcp_session"

record 'w chat_state =
  cs_clients :: "client_state list"
  cs_pending :: "string list list"
  cs_world :: 'w

primrec run_team ::
    "'w services \<Rightarrow> group_chat \<Rightarrow> team \<Rightarrow> ('w chat_state, orc_error, out_message list \<times> string option) comp" where
  "run_team sv gc (Team_Done messages stop_reason) = (\<lambda>s. (Inr (messages, stop_reason), s))"
| "run_team sv gc (Team_Raise e) = (\<lambda>s. (Inl e, s))"
| "run_team sv gc (Ask_Model i messages schemas choice k) = (\<lambda>s.
     if i < length (cs_clients s)
     then (case client_create (sv_float32 sv) (sv_gateway sv) (gc_temperatures gc ! i) messages schemas choice
                  (cs_clients s ! i, cs_world s) of
             (r, (c, w)) \<Rightarrow> run_team sv gc (k r) (s\<lparr>cs_clients := (cs_clients s)[i := c], cs_world := w\<rparr>))
     else (Inl (Orc_Other ''no such client''), s))"
| "run_team sv gc (List_Tools i k) = (\<lambda>s.
     if i < length (cs_pending s)
     then (case list_tools (sv_mcp sv) (gc_workbenches gc ! i) (cs_world s) of
             (r, w) \<Rightarrow> run_team sv gc (k r) (s\<lparr>cs_world := w\<rparr>))
     else (Inl (Orc_Other ''no such workbench''), s))"
| "run_team sv gc (Call_Tool i name args k) = (\<lambda>s.
     if i < length (cs_pending s)
     then (case call_tool (sv_mcp sv) (gc_workbenches gc ! i) name args (cs_pending s ! i, cs_world s) of
             (r, (p, w)) \<Rightarrow> run_team sv gc (k r) (s\<lparr>cs_pending := (cs_pending s)[i := p], cs_world := w\<rparr>))
     else (Inl (Orc_Other ''no such workbench''), s))"

section \<open>run.py\<close>

definition orc_approval_finish_reason :: string where
  "orc_approval_finish_reason = ''requires_approval''"

record chat_result =
  rs_messages :: "chat_message list"
  rs_prompt_tokens :: int
  rs_completion_tokens :: int
  rs_finish_reason :: string
  rs_total_tokens :: int

definition to_transcript :: "(string \<times> string) list \<Rightarrow> out_message list \<Rightarrow> chat_message list" where
  "to_transcript name_by_slug messages =
     List.map_filter (\<lambda>m. case m of
         Chat_Text source content \<Rightarrow> Some \<lparr>cm_role = ''assistant'', cm_content = content,
           cm_agent = (case map_of name_by_slug source of Some name \<Rightarrow> name | None \<Rightarrow> source)\<rparr>
       | Chat_Event _ \<Rightarrow> None) messages"

definition is_planning_turn :: "chat_message list \<Rightarrow> bool" where
  "is_planning_turn messages \<longleftrightarrow> (\<exists>m \<in> set messages. cm_role m = ''system'')"

definition team_task :: "chat_message list \<Rightarrow> (string \<times> string) list" where
  "team_task messages = map (\<lambda>m. (cm_content m, if cm_role m = [] then ''user'' else cm_role m)) messages"

definition approval_sink :: "'w chat_state \<Rightarrow> string list" where
  "approval_sink s = concat (cs_pending s)"

definition chat_result_of :: "group_chat \<Rightarrow> out_message list \<times> string option \<Rightarrow> 'w chat_state \<Rightarrow> chat_result" where
  "chat_result_of gc result s =
     (let prompt = sum_list (map (\<lambda>c. ru_prompt_tokens (total_usage c)) (cs_clients s));
          compl = sum_list (map (\<lambda>c. ru_completion_tokens (total_usage c)) (cs_clients s))
      in \<lparr>rs_messages = to_transcript (gc_name_by_slug gc) (fst result),
          rs_prompt_tokens = prompt, rs_completion_tokens = compl,
          rs_finish_reason =
            (if approval_sink s \<noteq> [] then orc_approval_finish_reason
             else (case snd result of None \<Rightarrow> ''stop'' | Some reason \<Rightarrow> if reason = [] then ''stop'' else reason)),
          rs_total_tokens = prompt + compl\<rparr>)"

text \<open>\<open>load\<close> opens a database session and reads the tables; it may raise.\<close>

record 'w orchestrator =
  oc_autogen :: autogen
  oc_max_messages :: int
  oc_rank :: "string \<Rightarrow> int"
  oc_load :: "'w \<Rightarrow> string + aes_db"
  oc_services :: "'w services"

definition start_state :: "group_chat \<Rightarrow> 'w \<Rightarrow> 'w chat_state" where
  "start_state gc w =
     \<lparr>cs_clients = map (\<lambda>_. new_client) (gc_temperatures gc), cs_pending = map (\<lambda>_. []) (gc_workbenches gc), cs_world = w\<rparr>"

definition run_chat ::
    "'w orchestrator \<Rightarrow> string \<Rightarrow> chat_message list \<Rightarrow> bool \<Rightarrow> ('w, orc_error, chat_result) comp" where
  "run_chat orc tenant_id messages approved = (\<lambda>w.
     case oc_load orc w of
       Inl m \<Rightarrow> (Inl (Orc_Other m), w)
     | Inr db \<Rightarrow>
         (case build_group_chat (oc_autogen orc) (oc_max_messages orc) tenant_id approved (is_planning_turn messages)
                 (list_agents_for_tenant (oc_rank orc) tenant_id db) of
            Inl e \<Rightarrow> (Inl e, w)
          | Inr gc \<Rightarrow>
              (case run_team (oc_services orc) gc (ag_run (oc_autogen orc) gc (team_task messages)) (start_state gc w) of
                 (Inl e, s) \<Rightarrow> (Inl e, cs_world s)
               | (Inr result, s) \<Rightarrow> (Inr (chat_result_of gc result s), cs_world s))))"

section \<open>auth.py, servicer.py\<close>

definition orc_tenant_id :: "metadata \<Rightarrow> orc_error + string" where
  "orc_tenant_id md =
     (case md_get md ''x-tenant-id'' of
        None \<Rightarrow> Inl (Orc_Authentication ''missing x-tenant-id metadata'')
      | Some tenant_id \<Rightarrow>
          if tenant_id = [] then Inl (Orc_Authentication ''missing x-tenant-id metadata'') else Inr tenant_id)"

definition orc_status_by_error :: "orc_error \<Rightarrow> grpc_status option" where
  "orc_status_by_error e =
     (case e of Orc_Authentication _ \<Rightarrow> Some UNAUTHENTICATED | No_Agents _ \<Rightarrow> Some FAILED_PRECONDITION | _ \<Rightarrow> None)"

definition propagated_upstream :: "grpc_status list" where
  "propagated_upstream = [UNAVAILABLE, DEADLINE_EXCEEDED, RESOURCE_EXHAUSTED]"

definition orc_app_abort :: "orc_error \<Rightarrow> string \<Rightarrow> rpc_error" where
  "orc_app_abort e m = (case orc_status_by_error e of Some code \<Rightarrow> code | None \<Rightarrow> INTERNAL, m)"

definition orc_abort :: "orc_error \<Rightarrow> rpc_error" where
  "orc_abort e =
     (case e of
        Orc_App m \<Rightarrow> orc_app_abort e m
      | Orc_Authentication m \<Rightarrow> orc_app_abort e m
      | No_Agents m \<Rightarrow> orc_app_abort e m
      | Aio_Rpc_Error upstream details \<Rightarrow>
          (if upstream \<in> set propagated_upstream then upstream else INTERNAL, ''gateway dependency error: '' @ details)
      | Orc_Other _ \<Rightarrow> (INTERNAL, ''internal error''))"

definition orc_handle_errors :: "('w, orc_error, 'a) comp \<Rightarrow> ('w, rpc_error, 'a) comp" where
  "orc_handle_errors fn = (\<lambda>w. case fn w of (Inl e, w') \<Rightarrow> (Inl (orc_abort e), w') | (Inr a, w') \<Rightarrow> (Inr a, w'))"

text \<open>The token counts go into 64-bit fields.\<close>

definition fits_int64 :: "int \<Rightarrow> bool" where
  "fits_int64 i \<longleftrightarrow> - (2 ^ 63) \<le> i \<and> i < 2 ^ 63"

definition orc_response :: "chat_result \<Rightarrow> orc_error + chat_response" where
  "orc_response result =
     (if fits_int64 (rs_prompt_tokens result) \<and> fits_int64 (rs_completion_tokens result) \<and>
         fits_int64 (rs_total_tokens result)
      then Inr \<lparr>cr_messages = map (\<lambda>m. \<lparr>cm_role = cm_role m, cm_content = cm_content m, cm_agent = cm_agent m\<rparr>)
                  (rs_messages result),
                cr_prompt_tokens = rs_prompt_tokens result, cr_completion_tokens = rs_completion_tokens result,
                cr_total_tokens = rs_total_tokens result, cr_finish_reason = rs_finish_reason result\<rparr>
      else Inl (Orc_Other ''ValueError''))"

definition orc_Chat :: "'w orchestrator \<Rightarrow> metadata \<Rightarrow> chat_request \<Rightarrow> ('w, rpc_error, chat_response) comp" where
  "orc_Chat orc md request = orc_handle_errors (
     bindS (liftS (orc_tenant_id md)) (\<lambda>tenant_id.
     bindS (run_chat orc tenant_id (cq_messages request) (cq_approved request)) (\<lambda>result.
     liftS (orc_response result))))"

end
