(* ===== verification/Orc_Edge.thy ===== *)
theory Orc_Edge
  imports Orc_Chat
begin

text \<open>
  What a turn of the orchestrator guarantees whatever AutoGen, the model and the tools do: the
  group chat it builds is well formed, the tool calls that leave it are the permitted ones, a
  gated call pauses the turn, and the token counts it reports are those of its model calls.
  Every service call is logged.
\<close>

section \<open>The group chat\<close>

fun stop_sources :: "stop_condition \<Rightarrow> string list" where
  "stop_sources (Max_Message _) = []"
| "stop_sources (Source_Match slugs) = slugs"
| "stop_sources (Text_Message slug) = [slug]"
| "stop_sources (Or_Stop a b) = stop_sources a @ stop_sources b"

definition selector_slugs :: "selector \<Rightarrow> string list" where
  "selector_slugs sel = (case sel of Model_Selector \<Rightarrow> [] | Plan_Selector s \<Rightarrow> [s] | Solo_Selector s \<Rightarrow> [s])"

text \<open>
  The participants are at least two, with distinct identifiers as slugs; each has a model client
  of its own, none the selector's, and the agents' workbenches are those of their own
  specifications; the speakers the selector forces and the sources that end the turn are
  participants; every slug resolves to a display name.
\<close>

definition gc_wf :: "group_chat \<Rightarrow> bool" where
  "gc_wf gc \<longleftrightarrow>
     (let slugs = map pt_slug (gc_participants gc); clients = map pt_client (gc_participants gc)
      in 2 \<le> length slugs \<and> distinct slugs \<and> list_all py_isidentifier slugs \<and>
         distinct (gc_selector_client gc # clients) \<and>
         list_all (\<lambda>c. c < length (gc_temperatures gc)) (gc_selector_client gc # clients) \<and>
         List.map_filter pt_workbench (gc_participants gc) = [0..<length (gc_workbenches gc)] \<and>
         set (selector_slugs (gc_selector gc)) \<subseteq> set slugs \<and>
         set (stop_sources (gc_termination gc)) \<subseteq> set slugs \<and>
         map fst (gc_name_by_slug gc) = slugs)"

lemma select_speaker_slugs: "select_speaker sel thread = Some s \<Longrightarrow> s \<in> set (selector_slugs sel)"
  by (auto simp: select_speaker_def selector_slugs_def split: selector.splits if_splits)

lemma stop_sources_execution: "stop_sources (execution_termination n slugs) = slugs"
proof -
  have "stop_sources (foldl (\<lambda>t slug. Or_Stop t (Text_Message slug)) t slugs) = stop_sources t @ slugs" for t
    by (induction slugs arbitrary: t) simp_all
  then show ?thesis by (simp add: execution_termination_def)
qed

lemma map_filter_append: "List.map_filter f (xs @ ys) = List.map_filter f xs @ List.map_filter f ys"
  by (simp add: List.map_filter_def)

lemma map_filter_agents:
  "List.map_filter pt_workbench (map (\<lambda>i. agent_participant i (slugs ! i) (specs ! i)) xs) = xs"
  by (induction xs) (simp_all add: List.map_filter_simps agent_participant_def)

text \<open>The extra participant's slug is fresh, so everything follows from the agents' slugs.\<close>

definition names_ok :: "string list \<Rightarrow> bool" where
  "names_ok names \<longleftrightarrow> (\<forall>name \<in> set names. \<forall>c \<in> set name. \<not> odd_numeric c)"

lemma agents_slugs:
  assumes "n = length slugs"
  shows "map pt_slug (map (\<lambda>i. agent_participant i (slugs ! i) (specs ! i)) [0..<n]) = slugs"
  using assms by (simp add: agent_participant_def map_nth o_def)

lemma agents_clients: "map pt_client (map (\<lambda>i. agent_participant i (slugs ! i) (specs ! i)) [0..<n]) = [0..<n]"
  by (simp add: agent_participant_def o_def)

lemma map_fst_extra: "map fst (zip slugs names @ xs) = slugs @ map fst xs" if "length slugs = length names"
  using that by simp

lemma group_chat_built:
  assumes "specs \<noteq> []" and names: "names_ok (map as_name specs)"
    and agent_ok: "\<And>name. py_isidentifier name \<Longrightarrow> ag_agent_ok ag name"
    and team_ok: "\<And>slugs. 2 \<le> length slugs \<Longrightarrow> distinct slugs \<Longrightarrow> ag_team_ok ag slugs"
  shows "\<exists>gc. build_group_chat ag max_messages tenant_id approved is_planning specs = Inr gc \<and> gc_wf gc \<and>
    gc_workbenches gc = map (agent_workbench tenant_id approved) specs \<and>
    take (length specs) (map pt_slug (gc_participants gc)) = slugify_all (map as_name specs) []"
proof -
  define slugs where "slugs = slugify_all (map as_name specs) []"
  define n where "n = length specs"
  define agents where "agents = map (\<lambda>i. agent_participant i (slugs ! i) (specs ! i)) [0..<n]"
  have n: "length slugs = n" "0 < n" "length specs = n" "Suc 0 \<le> n" using assms(1) by (auto simp: slugs_def n_def Suc_le_eq)
  have dist: "distinct slugs" unfolding slugs_def using slugify_all_distinct by simp
  have ident: "\<forall>s \<in> set slugs. py_isidentifier s"
    using slugify_all_identifiers [of "map as_name specs"] names unfolding slugs_def names_ok_def by blast
  have ag: "map pt_slug agents = slugs" "map pt_client agents = [0..<n]" "length agents = n"
    "List.map_filter pt_workbench agents = [0..<n]"
    unfolding agents_def using agents_slugs [OF n(1) [symmetric]]
    by (simp_all only: agents_clients map_filter_agents length_map length_upt diff_zero)
  have fresh: "slugify name slugs \<notin> set slugs" for name by (rule slugify_fresh)
  have extra_ident: "py_isidentifier (slugify planner_name slugs)" "py_isidentifier (slugify placeholder_name slugs)"
    by (rule slugify_identifier; simp add: planner_name_def placeholder_name_def odd_numeric_def)+
  have hd_slugs: "slugs \<noteq> []" using n by auto
  note built = build_group_chat_def Let_def slugs_def [symmetric] n_def [symmetric] agents_def [symmetric]
  note wf = gc_wf_def Let_def ag n dist ident fresh extra_ident hd_slugs selector_slugs_def stop_sources_execution
    map_filter_append List.map_filter_simps
  consider (plan) is_planning | (solo) "\<not> is_planning" "n < 2" | (many) "\<not> is_planning" "2 \<le> n" by linarith
  then show ?thesis
  proof cases
    case plan
    have ok: "list_all (ag_agent_ok ag) (slugs @ [slugify planner_name slugs])"
      "ag_team_ok ag (slugs @ [slugify planner_name slugs])"
      using agent_ok team_ok ident extra_ident dist fresh n by (auto simp: list_all_iff)
    show ?thesis unfolding built using plan ok n assms(1)
      by (simp add: extra_participant_def ag) (simp add: wf list_all_iff)
  next
    case solo
    have ok: "list_all (ag_agent_ok ag) (slugs @ [slugify placeholder_name slugs])"
      "ag_team_ok ag (slugs @ [slugify placeholder_name slugs])"
      using agent_ok team_ok ident extra_ident dist fresh n by (auto simp: list_all_iff)
    show ?thesis unfolding built using solo ok n assms(1)
      by (simp add: extra_participant_def ag) (simp add: wf list_all_iff subset_insertI)
  next
    case many
    have ok: "list_all (ag_agent_ok ag) slugs" "ag_team_ok ag slugs"
      using agent_ok team_ok ident dist n many by (auto simp: list_all_iff)
    show ?thesis unfolding built using many ok n assms(1)
      by (simp add: extra_participant_def ag) (simp add: wf list_all_iff)
  qed
qed

text \<open>C31. A group chat is well formed. For every tenant with agents whose names contain no superscript
  or fraction character, whatever their order, length, punctuation and repetitions, AutoGen
  accepting identifiers as names and teams of two or more distinct names, building the group chat
  succeeds, for planning and execution turns, approved or not: the result satisfies \<open>gc_wf\<close> and
  gives every agent a workbench with exactly its grants and the approval of the turn.\<close>

theorem group_chat_well_formed:
  assumes "specs \<noteq> []" and names: "names_ok (map as_name specs)"
    and agent_ok: "\<And>name. py_isidentifier name \<Longrightarrow> ag_agent_ok ag name"
    and team_ok: "\<And>slugs. 2 \<le> length slugs \<Longrightarrow> distinct slugs \<Longrightarrow> ag_team_ok ag slugs"
  shows "\<exists>gc. build_group_chat ag max_messages tenant_id approved is_planning specs = Inr gc \<and> gc_wf gc \<and>
    gc_workbenches gc = map (agent_workbench tenant_id approved) specs \<and>
    take (length specs) (map pt_slug (gc_participants gc)) = slugify_all (map as_name specs) []"
  using group_chat_built [OF assms] .

definition sample_autogen :: "team \<Rightarrow> autogen" where
  "sample_autogen t = \<lparr>ag_agent_ok = py_isidentifier, ag_team_ok = (\<lambda>s. 2 \<le> length s \<and> distinct s),
     ag_run = (\<lambda>_ _. t)\<rparr>"

definition sample_spec :: "string \<Rightarrow> agent_spec" where
  "sample_spec name = \<lparr>as_id = ''1'', as_name = name, as_instructions = ''help'', as_llm_config_name = ''m'',
     as_llm_config_temperature = 0, as_tool_names = [''query'', ''send''], as_mutating_tool_names = [''send'']\<rparr>"

theorem group_chat_well_formed_witness:
  "\<exists>gc. build_group_chat (sample_autogen (Team_Done [] None)) 6 ''t'' False False
       [sample_spec ''web agent'', sample_spec ''web-agent'', sample_spec ''9 lives''] = Inr gc \<and> gc_wf gc \<and>
     take 3 (map pt_slug (gc_participants gc)) = [''web_agent'', ''web_agent_2'', ''a_9_lives'']"
proof -
  let ?specs = "[sample_spec ''web agent'', sample_spec ''web-agent'', sample_spec ''9 lives'']"
  have "slugify_all (map as_name ?specs) [] = [''web_agent'', ''web_agent_2'', ''a_9_lives'']"
    unfolding sample_spec_def by code_simp
  then show ?thesis
    using group_chat_well_formed [of ?specs "sample_autogen (Team_Done [] None)" 6 "''t''" False False]
    by (auto simp: sample_autogen_def sample_spec_def names_ok_def odd_numeric_def numeral_3_eq_3)
qed

section \<open>The services seen from outside\<close>

text \<open>Every call that reaches the gateway or \<open>mcp_svc\<close>, in order.\<close>

datatype service_call =
    Gateway_Call "rpc_error + pb_chat_response"
  | Mcp_Call string string
  | Mcp_List string

definition logged_services :: "'w services \<Rightarrow> ('w \<times> service_call list) services" where
  "logged_services sv =
     \<lparr>sv_float32 = sv_float32 sv,
      sv_gateway = (\<lambda>request (w, calls). let (r, w') = sv_gateway sv request w in (r, (w', calls @ [Gateway_Call r]))),
      sv_mcp = \<lparr>mcp_list_tools = (\<lambda>tenant (w, calls).
                   let (r, w') = mcp_list_tools (sv_mcp sv) tenant w in (r, (w', calls @ [Mcp_List tenant]))),
                mcp_call_tool = (\<lambda>tenant name args (w, calls).
                   let (r, w') = mcp_call_tool (sv_mcp sv) tenant name args w
                   in (r, (w', calls @ [Mcp_Call tenant name])))\<rparr>\<rparr>"

fun mcp_calls :: "service_call list \<Rightarrow> (string \<times> string) list" where
  "mcp_calls [] = []"
| "mcp_calls (Mcp_Call tenant name # calls) = (tenant, name) # mcp_calls calls"
| "mcp_calls (_ # calls) = mcp_calls calls"

fun answered_usage :: "service_call list \<Rightarrow> request_usage" where
  "answered_usage [] = no_usage"
| "answered_usage (Gateway_Call (Inr response) # calls) =
     add_usage (rr_usage (result_of_response response)) (answered_usage calls)"
| "answered_usage (_ # calls) = answered_usage calls"

text \<open>The tool calls AutoGen makes in a run, whether they are let through or not.\<close>

primrec team_calls :: "'w services \<Rightarrow> group_chat \<Rightarrow> team \<Rightarrow> 'w chat_state \<Rightarrow> (nat \<times> string) list" where
  "team_calls sv gc (Team_Done messages stop_reason) = (\<lambda>s. [])"
| "team_calls sv gc (Team_Raise e) = (\<lambda>s. [])"
| "team_calls sv gc (Ask_Model i messages schemas choice k) = (\<lambda>s.
     if i < length (cs_clients s)
     then (case client_create (sv_float32 sv) (sv_gateway sv) (gc_temperatures gc ! i) messages schemas choice
                  (cs_clients s ! i, cs_world s) of
             (r, (c, w)) \<Rightarrow> team_calls sv gc (k r) (s\<lparr>cs_clients := (cs_clients s)[i := c], cs_world := w\<rparr>))
     else [])"
| "team_calls sv gc (List_Tools i k) = (\<lambda>s.
     if i < length (cs_pending s)
     then (case list_tools (sv_mcp sv) (gc_workbenches gc ! i) (cs_world s) of
             (r, w) \<Rightarrow> team_calls sv gc (k r) (s\<lparr>cs_world := w\<rparr>))
     else [])"
| "team_calls sv gc (Call_Tool i name args k) = (\<lambda>s.
     if i < length (cs_pending s)
     then (case call_tool (sv_mcp sv) (gc_workbenches gc ! i) name args (cs_pending s ! i, cs_world s) of
             (r, (p, w)) \<Rightarrow> (i, name) # team_calls sv gc (k r) (s\<lparr>cs_pending := (cs_pending s)[i := p], cs_world := w\<rparr>))
     else [])"

abbreviation let_through :: "group_chat \<Rightarrow> nat \<times> string \<Rightarrow> bool" where
  "let_through gc c \<equiv> permitted (gc_workbenches gc ! fst c) (snd c)"

abbreviation as_mcp_call :: "group_chat \<Rightarrow> nat \<times> string \<Rightarrow> string \<times> string" where
  "as_mcp_call gc c \<equiv> (wb_tenant_id (gc_workbenches gc ! fst c), snd c)"

lemma mcp_calls_append [simp]: "mcp_calls (xs @ ys) = mcp_calls xs @ mcp_calls ys"
  by (induction xs rule: mcp_calls.induct) simp_all

lemma logged_client:
  assumes "client_create (sv_float32 (logged_services sv)) (sv_gateway (logged_services sv)) temp ms schemas choice
    (c, (w, calls)) = (r, (c', (w', calls')))"
  shows "mcp_calls calls' = mcp_calls calls"
  using assms
  by (auto simp: client_create_def logged_services_def Let_def split: prod.splits sum.splits)

lemma logged_listing:
  "list_tools (sv_mcp (logged_services sv)) wb (w, calls) = (r, (w', calls')) \<Longrightarrow> mcp_calls calls' = mcp_calls calls"
  by (auto simp: list_tools_def logged_services_def Let_def split: prod.splits sum.splits if_splits)

lemma logged_tool:
  "call_tool (sv_mcp (logged_services sv)) wb name args (p, (w, calls)) = (r, (p', (w', calls'))) \<Longrightarrow>
     mcp_calls calls' = mcp_calls calls @ (if permitted wb name then [(wb_tenant_id wb, name)] else [])"
  by (auto simp: call_tool_def permitted_def logged_services_def Let_def split: prod.splits sum.splits if_splits)

section \<open>What a turn preserves\<close>

text \<open>
  A relation between the state before a turn, the tool calls made in it and the state after it
  holds of every turn if it holds of an idle one and is extended by each of the three steps a
  team can take.
\<close>

locale turn_invariant =
  fixes sv :: "'w services" and gc :: group_chat
    and Q :: "'w chat_state \<Rightarrow> (nat \<times> string) list \<Rightarrow> 'w chat_state \<Rightarrow> bool"
  assumes idle: "Q s [] s"
    and model: "i < length (cs_clients s) \<Longrightarrow>
      client_create (sv_float32 sv) (sv_gateway sv) (gc_temperatures gc ! i) ms schemas choice
        (cs_clients s ! i, cs_world s) = (x, (c, w)) \<Longrightarrow>
      Q (s\<lparr>cs_clients := (cs_clients s)[i := c], cs_world := w\<rparr>) calls s' \<Longrightarrow> Q s calls s'"
    and listing: "i < length (cs_pending s) \<Longrightarrow>
      list_tools (sv_mcp sv) (gc_workbenches gc ! i) (cs_world s) = (y, w) \<Longrightarrow>
      Q (s\<lparr>cs_world := w\<rparr>) calls s' \<Longrightarrow> Q s calls s'"
    and tool: "i < length (cs_pending s) \<Longrightarrow>
      call_tool (sv_mcp sv) (gc_workbenches gc ! i) name args (cs_pending s ! i, cs_world s) = (z, (p, w)) \<Longrightarrow>
      Q (s\<lparr>cs_pending := (cs_pending s)[i := p], cs_world := w\<rparr>) calls s' \<Longrightarrow> Q s ((i, name) # calls) s'"
begin

lemma turn: "run_team sv gc t s = (r, s') \<Longrightarrow> Q s (team_calls sv gc t s) s'"
proof (induction t arbitrary: s)
  case (Ask_Model i ms schemas choice k)
  show ?case
  proof (cases "i < length (cs_clients s)")
    case True
    obtain x c w where c: "client_create (sv_float32 sv) (sv_gateway sv) (gc_temperatures gc ! i) ms schemas choice
        (cs_clients s ! i, cs_world s) = (x, (c, w))"
      by (metis prod_cases3)
    then show ?thesis using Ask_Model model [OF True c] True by simp
  qed (use Ask_Model.prems idle in simp)
next
  case (List_Tools i k)
  show ?case
  proof (cases "i < length (cs_pending s)")
    case True
    obtain y w where c: "list_tools (sv_mcp sv) (gc_workbenches gc ! i) (cs_world s) = (y, w)" by fastforce
    then show ?thesis using List_Tools listing [OF True c] True by simp
  qed (use List_Tools.prems idle in simp)
next
  case (Call_Tool i name args k)
  show ?case
  proof (cases "i < length (cs_pending s)")
    case True
    obtain z p w where c: "call_tool (sv_mcp sv) (gc_workbenches gc ! i) name args
        (cs_pending s ! i, cs_world s) = (z, (p, w))"
      by (metis prod_cases3)
    then show ?thesis using Call_Tool tool [OF True c] True by simp
  qed (use Call_Tool.prems idle in simp)
qed (simp_all add: idle)

end

text \<open>Exactly the permitted calls, in order and under the workbench's tenant, reach \<open>mcp_svc\<close>.\<close>

definition calls_let_through ::
    "group_chat \<Rightarrow> ('w \<times> service_call list) chat_state \<Rightarrow> (nat \<times> string) list \<Rightarrow> ('w \<times> service_call list) chat_state \<Rightarrow> bool" where
  "calls_let_through gc s calls s' \<longleftrightarrow>
     mcp_calls (snd (cs_world s')) =
       mcp_calls (snd (cs_world s)) @ map (as_mcp_call gc) (filter (let_through gc) calls)"

interpretation through: turn_invariant "logged_services sv" gc "calls_let_through gc" for sv :: "'w services" and gc
proof
  fix s s' :: "('w \<times> service_call list) chat_state" and i ms schemas choice x c w calls
  assume "client_create (sv_float32 (logged_services sv)) (sv_gateway (logged_services sv)) (gc_temperatures gc ! i)
      ms schemas choice (cs_clients s ! i, cs_world s) = (x, (c, w))"
    and "calls_let_through gc (s\<lparr>cs_clients := (cs_clients s)[i := c], cs_world := w\<rparr>) calls s'"
  then show "calls_let_through gc s calls s'"
    by (cases "cs_world s"; cases w) (auto simp: calls_let_through_def dest: logged_client)
next
  fix s s' :: "('w \<times> service_call list) chat_state" and i y w calls
  assume "list_tools (sv_mcp (logged_services sv)) (gc_workbenches gc ! i) (cs_world s) = (y, w)"
    and "calls_let_through gc (s\<lparr>cs_world := w\<rparr>) calls s'"
  then show "calls_let_through gc s calls s'"
    by (cases "cs_world s"; cases w) (auto simp: calls_let_through_def dest: logged_listing)
next
  fix s s' :: "('w \<times> service_call list) chat_state" and i name args z p w calls
  assume "call_tool (sv_mcp (logged_services sv)) (gc_workbenches gc ! i) name args (cs_pending s ! i, cs_world s) = (z, (p, w))"
    and "calls_let_through gc (s\<lparr>cs_pending := (cs_pending s)[i := p], cs_world := w\<rparr>) calls s'"
  then show "calls_let_through gc s ((i, name) # calls) s'"
    by (cases "cs_world s"; cases w) (auto simp: calls_let_through_def dest!: logged_tool)
qed (simp add: calls_let_through_def)

text \<open>Pending approvals only accumulate, and every gated call leaves one at its workbench.\<close>

definition pending_grows :: "'w chat_state \<Rightarrow> 'w chat_state \<Rightarrow> bool" where
  "pending_grows s s' \<longleftrightarrow> list_all2 (\<lambda>p p'. set p \<subseteq> set p') (cs_pending s) (cs_pending s')"

lemma pending_grows_refl [simp]: "pending_grows s s"
  by (simp add: pending_grows_def list.rel_refl)

lemma pending_grows_trans: "pending_grows s1 s2 \<Longrightarrow> pending_grows s2 s3 \<Longrightarrow> pending_grows s1 s3"
  unfolding pending_grows_def list_all2_conv_all_nth by fastforce

lemma pending_grows_same [simp]:
  "pending_grows (s\<lparr>cs_world := w\<rparr>) t = pending_grows s t"
  "pending_grows (s\<lparr>cs_clients := c\<rparr>) t = pending_grows s t"
  by (simp_all add: pending_grows_def)

lemma pending_grows_nth: "pending_grows s s' \<Longrightarrow> i < length (cs_pending s) \<Longrightarrow> set (cs_pending s ! i) \<subseteq> set (cs_pending s' ! i)"
  by (simp add: pending_grows_def list_all2_conv_all_nth)

lemma pending_grows_length: "pending_grows s s' \<Longrightarrow> length (cs_pending s') = length (cs_pending s)"
  by (simp add: pending_grows_def list_all2_lengthD)

lemma pending_grows_update:
  assumes "i < length (cs_pending s)" and "set (cs_pending s ! i) \<subseteq> set p"
  shows "pending_grows s (s\<lparr>cs_pending := (cs_pending s)[i := p], cs_world := w\<rparr>)"
  using assms by (auto simp: pending_grows_def list_all2_conv_all_nth nth_list_update)

definition gated_calls_pend ::
    "group_chat \<Rightarrow> 'w chat_state \<Rightarrow> (nat \<times> string) list \<Rightarrow> 'w chat_state \<Rightarrow> bool" where
  "gated_calls_pend gc s calls s' \<longleftrightarrow> pending_grows s s' \<and>
     (\<forall>c \<in> set calls. fst c < length (cs_pending s) \<and>
        (gated (gc_workbenches gc ! fst c) (snd c) \<longrightarrow> gate_text (snd c) \<in> set (cs_pending s' ! fst c)))"

interpretation pend: turn_invariant sv gc "gated_calls_pend gc" for sv :: "'w services" and gc
proof
  fix s s' :: "'w chat_state" and i name args z p w calls
  assume i: "i < length (cs_pending s)"
    and c: "call_tool (sv_mcp sv) (gc_workbenches gc ! i) name args (cs_pending s ! i, cs_world s) = (z, (p, w))"
    and rest: "gated_calls_pend gc (s\<lparr>cs_pending := (cs_pending s)[i := p], cs_world := w\<rparr>) calls s'"
  define s1 where "s1 = s\<lparr>cs_pending := (cs_pending s)[i := p], cs_world := w\<rparr>"
  have s1: "pending_grows s1 s'" "length (cs_pending s1) = length (cs_pending s)" "cs_pending s1 ! i = p"
    using rest i by (simp_all add: gated_calls_pend_def s1_def)
  have grow: "pending_grows s s1"
    using call_pending_grows [of "sv_mcp sv" "gc_workbenches gc ! i" name args "cs_pending s ! i" "cs_world s"] i
    unfolding s1_def by (intro pending_grows_update) (auto simp: c)
  have "gate_text name \<in> set (cs_pending s' ! i)" if g: "gated (gc_workbenches gc ! i) name"
  proof -
    have "gate_text name \<in> set p"
      using call_gated_pending [OF g, of "sv_mcp sv" args "cs_pending s ! i" "cs_world s"] by (simp add: c)
    then show ?thesis using pending_grows_nth [OF s1(1), of i] s1(2,3) i by auto
  qed
  moreover have "\<forall>c \<in> set calls. fst c < length (cs_pending s) \<and>
      (gated (gc_workbenches gc ! fst c) (snd c) \<longrightarrow> gate_text (snd c) \<in> set (cs_pending s' ! fst c))"
    using rest s1(2) unfolding gated_calls_pend_def s1_def [symmetric] by simp
  ultimately show "gated_calls_pend gc s ((i, name) # calls) s'"
    using pending_grows_trans [OF grow s1(1)] i unfolding gated_calls_pend_def by simp
qed (simp_all add: gated_calls_pend_def)

section \<open>Token counts\<close>

definition client_totals :: "'w chat_state \<Rightarrow> request_usage" where
  "client_totals s =
     \<lparr>ru_prompt_tokens = sum_list (map (\<lambda>c. ru_prompt_tokens (total_usage c)) (cs_clients s)),
      ru_completion_tokens = sum_list (map (\<lambda>c. ru_completion_tokens (total_usage c)) (cs_clients s))\<rparr>"

lemma sum_list_update_int:
  fixes f :: "'a \<Rightarrow> int"
  shows "i < length xs \<Longrightarrow> sum_list (map f (xs[i := x])) = sum_list (map f xs) - f (xs ! i) + f x"
proof (induction xs arbitrary: i)
  case (Cons y xs)
  then show ?case by (cases i) simp_all
qed simp

lemma add_usage_assoc: "add_usage (add_usage a b) c = add_usage a (add_usage b c)"
  by (simp add: add_usage_def)

lemma add_no_usage [simp]: "add_usage no_usage a = a" "add_usage a no_usage = a"
  by (simp_all add: add_usage_def no_usage_def)

lemma answered_append: "answered_usage (xs @ ys) = add_usage (answered_usage xs) (answered_usage ys)"
  by (induction xs rule: answered_usage.induct) (simp_all add: add_usage_assoc)

lemma client_totals_add:
  assumes "i < length (cs_clients s)" and "total_usage c = add_usage (total_usage (cs_clients s ! i)) u"
  shows "client_totals (s\<lparr>cs_clients := (cs_clients s)[i := c]\<rparr>) = add_usage (client_totals s) u"
  using assms by (simp add: client_totals_def sum_list_update_int add_usage_def)

lemma client_totals_same [simp]:
  "client_totals (s\<lparr>cs_world := w\<rparr>) = client_totals s"
  "client_totals (s\<lparr>cs_pending := p\<rparr>) = client_totals s"
  by (simp_all add: client_totals_def)

text \<open>\<open>new\<close> is what a step appends to the log.\<close>

definition counts_usage :: "('w \<times> service_call list) chat_state \<Rightarrow> ('w \<times> service_call list) chat_state \<Rightarrow> bool" where
  "counts_usage s s' \<longleftrightarrow> (\<exists>new. snd (cs_world s') = snd (cs_world s) @ new \<and>
     client_totals s' = add_usage (client_totals s) (answered_usage new))"

lemma counts_usage_refl [simp]: "counts_usage s s"
  by (simp add: counts_usage_def)

lemma logged_gateway:
  assumes "client_create (sv_float32 (logged_services sv)) (sv_gateway (logged_services sv)) temp ms schemas choice
    (c, (w, calls)) = (r, (c', (w', calls')))"
  shows "\<exists>new. calls' = calls @ new \<and> total_usage c' = add_usage (total_usage c) (answered_usage new)"
  using assms
  by (auto simp: client_create_def logged_services_def Let_def split: prod.splits sum.splits)

lemma logged_mcp:
  "list_tools (sv_mcp (logged_services sv)) wb (w, calls) = (y, (w', calls')) \<Longrightarrow>
     \<exists>new. calls' = calls @ new \<and> answered_usage new = no_usage"
  "call_tool (sv_mcp (logged_services sv)) wb name args (p, (w, calls)) = (z, (p', (w', calls'))) \<Longrightarrow>
     \<exists>new. calls' = calls @ new \<and> answered_usage new = no_usage"
  by (auto simp: list_tools_def call_tool_def logged_services_def Let_def split: prod.splits sum.splits if_splits)

lemma counts_usage_step:
  assumes "snd (cs_world s1) = snd (cs_world s) @ new" and "client_totals s1 = add_usage (client_totals s) (answered_usage new)"
    and "counts_usage s1 s'"
  shows "counts_usage s s'"
  using assms unfolding counts_usage_def by (metis add_usage_assoc answered_append append.assoc)

interpretation tokens: turn_invariant "logged_services sv" gc "\<lambda>s _ s'. counts_usage s s'" for sv :: "'w services" and gc
proof
  fix s s' :: "('w \<times> service_call list) chat_state" and i ms schemas choice x c w calls
  assume i: "i < length (cs_clients s)"
    and c: "client_create (sv_float32 (logged_services sv)) (sv_gateway (logged_services sv)) (gc_temperatures gc ! i)
      ms schemas choice (cs_clients s ! i, cs_world s) = (x, (c, w))"
    and rest: "counts_usage (s\<lparr>cs_clients := (cs_clients s)[i := c], cs_world := w\<rparr>) s'"
  obtain new where new: "snd w = snd (cs_world s) @ new" "total_usage c = add_usage (total_usage (cs_clients s ! i)) (answered_usage new)"
    using logged_gateway [of sv "gc_temperatures gc ! i" ms schemas choice "cs_clients s ! i" "fst (cs_world s)"
        "snd (cs_world s)" x c "fst w" "snd w"] c by auto
  show "counts_usage s s'"
    by (rule counts_usage_step [where new = new, OF _ _ rest]) (simp_all add: new client_totals_add [OF i])
next
  fix s s' :: "('w \<times> service_call list) chat_state" and i y w calls
  assume c: "list_tools (sv_mcp (logged_services sv)) (gc_workbenches gc ! i) (cs_world s) = (y, w)"
    and rest: "counts_usage (s\<lparr>cs_world := w\<rparr>) s'"
  obtain new where new: "snd w = snd (cs_world s) @ new" "answered_usage new = no_usage"
    using logged_mcp(1) [of sv "gc_workbenches gc ! i" "fst (cs_world s)" "snd (cs_world s)" y "fst w" "snd w"] c by auto
  show "counts_usage s s'" by (rule counts_usage_step [where new = new, OF _ _ rest]) (simp_all add: new)
next
  fix s s' :: "('w \<times> service_call list) chat_state" and i name args z p w calls
  assume c: "call_tool (sv_mcp (logged_services sv)) (gc_workbenches gc ! i) name args (cs_pending s ! i, cs_world s) = (z, (p, w))"
    and rest: "counts_usage (s\<lparr>cs_pending := (cs_pending s)[i := p], cs_world := w\<rparr>) s'"
  obtain new where new: "snd w = snd (cs_world s) @ new" "answered_usage new = no_usage"
    using logged_mcp(2) [of sv "gc_workbenches gc ! i" name args "cs_pending s ! i" "fst (cs_world s)" "snd (cs_world s)" z p
        "fst w" "snd w"] c by auto
  show "counts_usage s s'" by (rule counts_usage_step [where new = new, OF _ _ rest]) (simp_all add: new)
qed simp

section \<open>A turn\<close>

definition logged_orc :: "'w orchestrator \<Rightarrow> ('w \<times> service_call list) orchestrator" where
  "logged_orc orc =
     \<lparr>oc_autogen = oc_autogen orc, oc_max_messages = oc_max_messages orc, oc_rank = oc_rank orc,
      oc_load = (\<lambda>(w, _). oc_load orc w), oc_services = logged_services (oc_services orc)\<rparr>"

text \<open>The group chat of a request, and the team's behaviour in it.\<close>

definition built_chat :: "'w orchestrator \<Rightarrow> string \<Rightarrow> chat_request \<Rightarrow> aes_db \<Rightarrow> orc_error + group_chat" where
  "built_chat orc tenant_id request db =
     build_group_chat (oc_autogen orc) (oc_max_messages orc) tenant_id (cq_approved request)
       (is_planning_turn (cq_messages request)) (list_agents_for_tenant (oc_rank orc) tenant_id db)"

definition request_team :: "'w orchestrator \<Rightarrow> chat_request \<Rightarrow> group_chat \<Rightarrow> team" where
  "request_team orc request gc = ag_run (oc_autogen orc) gc (team_task (cq_messages request))"

lemma built_workbenches:
  "built_chat orc tenant_id request db = Inr gc \<Longrightarrow>
     gc_workbenches gc = map (agent_workbench tenant_id (cq_approved request)) (list_agents_for_tenant (oc_rank orc) tenant_id db)"
  by (auto simp: built_chat_def build_group_chat_def Let_def split: if_splits)

lemma logged_orc_simps [simp]:
  "oc_load (logged_orc orc) (w, calls) = oc_load orc w"
  "built_chat (logged_orc orc) = built_chat orc"
  "request_team (logged_orc orc) = request_team orc"
  "oc_services (logged_orc orc) = logged_services (oc_services orc)"
  by (simp_all add: logged_orc_def built_chat_def request_team_def fun_eq_iff)

text \<open>A turn ends before anything is called, or it is a run of the team.\<close>

lemma orc_Chat_cases:
  assumes "orc_Chat orc md request w = (r, w')"
  obtains (refused) "isl r" "w' = w"
  | (ran) tenant_id db gc out s where
      "orc_tenant_id md = Inr tenant_id" "oc_load orc w = Inr db" "built_chat orc tenant_id request db = Inr gc"
      "run_team (oc_services orc) gc (request_team orc request gc) (start_state gc w) = (out, s)" "w' = cs_world s"
      "r = (case out of Inl e \<Rightarrow> Inl (orc_abort e)
            | Inr result \<Rightarrow> (case orc_response (chat_result_of gc result s) of
                Inl e \<Rightarrow> Inl (orc_abort e) | Inr response \<Rightarrow> Inr response))"
  using assms
  by (auto simp: orc_Chat_def orc_handle_errors_def bindS_def run_chat_def built_chat_def request_team_def
      split: sum.splits prod.splits)

lemma orc_Chat_run:
  assumes "orc_tenant_id md = Inr tenant_id" and "oc_load orc w = Inr db" and "built_chat orc tenant_id request db = Inr gc"
    and "run_team (oc_services orc) gc (request_team orc request gc) (start_state gc w) = (Inr result, s)"
    and "orc_response (chat_result_of gc result s) = Inr response"
  shows "orc_Chat orc md request w = (Inr response, cs_world s)"
  using assms by (simp add: orc_Chat_def orc_handle_errors_def bindS_def run_chat_def built_chat_def request_team_def)

lemma start_pending [simp]: "cs_pending (start_state gc w) = map (\<lambda>_. []) (gc_workbenches gc)"
  by (simp add: start_state_def)

lemma start_world [simp]: "cs_world (start_state gc w) = w"
  by (simp add: start_state_def)

lemma start_totals: "client_totals (start_state gc w) = no_usage"
  by (simp add: client_totals_def start_state_def new_client_def no_usage_def o_def map_replicate_const sum_list_replicate)

text \<open>A turn of one agent with a harmless and a mutating tool, for the witnesses below.\<close>

definition turn_db :: aes_db where
  "turn_db = \<lparr>agents = [\<lparr>a_id = ''a1'', a_tenant_id = ''t'', a_name = ''clerk'', a_instructions = ''help'',
       a_llm_config_name = ''m'', a_llm_config_temperature = 0, a_version = 1, a_created_at = 0, a_updated_at = 0\<rparr>],
     tools = [\<lparr>t_id = ''q'', t_tenant_id = ''t'', t_name = ''query'', t_description = None, t_mutating = False,
         t_version = 1, t_created_at = 0, t_updated_at = 0\<rparr>,
       \<lparr>t_id = ''s'', t_tenant_id = ''t'', t_name = ''send'', t_description = None, t_mutating = True,
         t_version = 1, t_created_at = 0, t_updated_at = 0\<rparr>],
     agent_tools = [\<lparr>at_agent_id = ''a1'', at_tool_id = ''q''\<rparr>, \<lparr>at_agent_id = ''a1'', at_tool_id = ''s''\<rparr>],
     tasks = []\<rparr>"

definition turn_team :: team where
  "turn_team = Ask_Model 0 [System_Message ''help'', User_Message (Text_Content ''go'')] [] (Choice_Str ''auto'')
     (\<lambda>_. Call_Tool 0 ''query'' None (\<lambda>_. Call_Tool 0 ''send'' None (\<lambda>r.
        Team_Done [Chat_Text ''clerk'' (tr_content r)] None)))"

definition turn_services :: "unit services" where
  "turn_services =
     \<lparr>sv_float32 = (\<lambda>x. x),
      sv_gateway = (\<lambda>_. returnS \<lparr>pr_message = plain_message ''assistant'' ''ok'', pr_prompt_tokens = 3,
        pr_completion_tokens = 2, pr_total_tokens = 5, pr_finish_reason = ''stop'', pr_tool_calls = []\<rparr>),
      sv_mcp = \<lparr>mcp_list_tools = (\<lambda>_. returnS []),
                mcp_call_tool = (\<lambda>_ _ _. returnS \<lparr>mr_content = [Text_Block ''fine''], mr_is_error = False\<rparr>)\<rparr>\<rparr>"

definition turn_orc :: "unit orchestrator" where
  "turn_orc = \<lparr>oc_autogen = sample_autogen turn_team, oc_max_messages = 6, oc_rank = (\<lambda>_. 0),
     oc_load = (\<lambda>_. Inr turn_db), oc_services = turn_services\<rparr>"

definition turn_request :: "bool \<Rightarrow> chat_request" where
  "turn_request approved =
     \<lparr>cq_messages = [\<lparr>cm_role = ''user'', cm_content = ''go'', cm_agent = []\<rparr>], cq_approved = approved\<rparr>"

definition turn_outcome :: "bool \<Rightarrow> (rpc_error + chat_response) \<times> (unit \<times> service_call list)" where
  "turn_outcome approved = orc_Chat (logged_orc turn_orc) [(''x-tenant-id'', ''t'')] (turn_request approved) ((), [])"

lemma turn_specs:
  "list_agents_for_tenant (\<lambda>_. 0) ''t'' turn_db =
     [\<lparr>as_id = ''a1'', as_name = ''clerk'', as_instructions = ''help'', as_llm_config_name = ''m'',
       as_llm_config_temperature = 0, as_tool_names = [''query'', ''send''], as_mutating_tool_names = [''send'']\<rparr>]"
  by code_simp

lemma turn_built:
  obtains gc where "built_chat turn_orc ''t'' (turn_request approved) turn_db = Inr gc" "gc_wf gc"
    "gc_workbenches gc = [\<lparr>wb_tenant_id = ''t'', wb_allowed = [''query'', ''send''], wb_mutating = [''send''], wb_approved = approved\<rparr>]"
proof -
  let ?specs = "list_agents_for_tenant (\<lambda>_. 0) ''t'' turn_db"
  have "names_ok (map as_name ?specs)" unfolding turn_specs by (simp add: names_ok_def odd_numeric_def)
  then show ?thesis
    using group_chat_built [of ?specs "sample_autogen turn_team" 6 "''t''" approved False] that
    by (auto simp: sample_autogen_def turn_orc_def turn_request_def built_chat_def is_planning_turn_def
        turn_specs agent_workbench_def)
qed

lemma py_marker: "\<not> py_contains approval_marker ''fine''"
  by code_simp

lemma turn_runs:
  "\<exists>response. turn_outcome approved = (Inr response, ((),
     [Gateway_Call (Inr \<lparr>pr_message = plain_message ''assistant'' ''ok'', pr_prompt_tokens = 3,
        pr_completion_tokens = 2, pr_total_tokens = 5, pr_finish_reason = ''stop'', pr_tool_calls = []\<rparr>),
      Mcp_Call ''t'' ''query''] @ (if approved then [Mcp_Call ''t'' ''send''] else [])))"
proof -
  obtain gc where gc: "built_chat turn_orc ''t'' (turn_request approved) turn_db = Inr gc" "gc_wf gc"
    "gc_workbenches gc = [\<lparr>wb_tenant_id = ''t'', wb_allowed = [''query'', ''send''], wb_mutating = [''send''], wb_approved = approved\<rparr>]"
    by (rule turn_built)
  have clients: "gc_temperatures gc \<noteq> []" using gc(2) by (auto simp: gc_wf_def Let_def)
  then obtain temp temps where temps: "gc_temperatures gc = temp # temps" by (cases "gc_temperatures gc") auto
  let ?sv = "logged_services turn_services"
  obtain result s where run: "run_team ?sv gc turn_team (start_state gc ((), [])) = (Inr result, s)"
    "cs_world s = ((), [Gateway_Call (Inr \<lparr>pr_message = plain_message ''assistant'' ''ok'', pr_prompt_tokens = 3,
        pr_completion_tokens = 2, pr_total_tokens = 5, pr_finish_reason = ''stop'', pr_tool_calls = []\<rparr>),
      Mcp_Call ''t'' ''query''] @ (if approved then [Mcp_Call ''t'' ''send''] else []))"
    "client_totals s = \<lparr>ru_prompt_tokens = 3, ru_completion_tokens = 2\<rparr>"
    by (cases approved) (simp_all add: turn_team_def start_state_def client_create_def logged_services_def
        turn_services_def Let_def call_tool_def render_content_def temps gc(3) py_marker client_totals_def
        result_of_response_def add_usage_def new_client_def no_usage_def sum_list_replicate map_replicate_const)
  obtain response where "orc_response (chat_result_of gc result s) = Inr response"
    using run(3) by (simp add: orc_response_def chat_result_of_def Let_def client_totals_def fits_int64_def)
  then have "turn_outcome approved = (Inr response, cs_world s)"
    unfolding turn_outcome_def
    by (intro orc_Chat_run [where tenant_id = "''t''" and db = turn_db and gc = gc and result = result])
      (use gc(1) run(1) in \<open>simp_all add: orc_tenant_id_def turn_orc_def request_team_def sample_autogen_def\<close>)
  then show ?thesis using run(2) by simp
qed
text \<open>What a workbench of a turn lets through was granted.\<close>

lemma permitted_granted:
  assumes built: "built_chat orc tenant_id request db = Inr gc"
    and i: "i < length (gc_workbenches gc)" and let_through: "permitted (gc_workbenches gc ! i) name"
  shows "wb_tenant_id (gc_workbenches gc ! i) = tenant_id \<and>
    (\<exists>spec \<in> set (list_agents_for_tenant (oc_rank orc) tenant_id db). name \<in> set (as_tool_names spec)) \<and>
    (\<exists>t \<in> set (tools db). t_tenant_id t = tenant_id \<and> t_name t = name \<and> (t_mutating t \<longrightarrow> cq_approved request))"
proof -
  define spec where "spec = list_agents_for_tenant (oc_rank orc) tenant_id db ! i"
  have spec: "spec \<in> set (list_agents_for_tenant (oc_rank orc) tenant_id db)"
    "gc_workbenches gc ! i = agent_workbench tenant_id (cq_approved request) spec"
    using i by (simp_all add: spec_def built_workbenches [OF built])
  with let_through have name: "name \<in> set (as_tool_names spec)" "name \<in> set (as_mutating_tool_names spec) \<Longrightarrow> cq_approved request"
    and tenant: "wb_tenant_id (gc_workbenches gc ! i) = tenant_id" by (auto simp: permitted_def agent_workbench_def)
  then show ?thesis using agent_spec_tools(2) [OF spec(1) name(1)] spec(1) by auto
qed

lemma granted_calls:
  assumes run: "orc_Chat (logged_orc orc) md request (w, []) = (r, (w', calls))"
    and load: "oc_load orc w = Inr db"
    and call: "(tenant_id, name) \<in> set (mcp_calls calls)"
  shows "orc_tenant_id md = Inr tenant_id \<and>
    (\<exists>spec \<in> set (list_agents_for_tenant (oc_rank orc) tenant_id db). name \<in> set (as_tool_names spec)) \<and>
    (\<exists>t \<in> set (tools db). t_tenant_id t = tenant_id \<and> t_name t = name \<and> (t_mutating t \<longrightarrow> cq_approved request))"
  using run
proof (cases rule: orc_Chat_cases)
  case refused
  with call show ?thesis by simp
next
  case (ran caller db' gc out s)
  let ?sv = "logged_services (oc_services orc)"
  let ?calls = "team_calls ?sv gc (request_team orc request gc) (start_state gc (w, []))"
  have built: "built_chat orc caller request db = Inr gc" using ran(2,3) load by simp
  have "calls_let_through gc (start_state gc (w, [])) ?calls s"
    using ran(4) by (intro through.turn) simp
  then have "mcp_calls calls = map (as_mcp_call gc) (filter (let_through gc) ?calls)"
    using ran(5) [symmetric] by (simp add: calls_let_through_def)
  with call obtain i where i: "(i, name) \<in> set ?calls" "permitted (gc_workbenches gc ! i) name"
    "tenant_id = wb_tenant_id (gc_workbenches gc ! i)" by auto
  have "gated_calls_pend gc (start_state gc (w, [])) ?calls s" using ran(4) by (intro pend.turn) simp
  with i(1) have "i < length (gc_workbenches gc)" by (auto simp: gated_calls_pend_def)
  from permitted_granted [OF built this i(2)] i(3) ran(1) show ?thesis by simp
qed

text \<open>C13. Whatever AutoGen and the model decide in a turn, every tool call that reaches \<open>mcp_svc\<close> is made
  under the caller's tenant, names a tool that some agent of this tenant was granted, and, unless
  the turn was approved, a tool that does not mutate.\<close>

theorem chat_calls_only_granted_tools:
  assumes run: "orc_Chat (logged_orc orc) md request (w, []) = (r, (w', calls))"
    and load: "oc_load orc w = Inr db"
    and call: "(tenant_id, name) \<in> set (mcp_calls calls)"
  shows "orc_tenant_id md = Inr tenant_id \<and>
    (\<exists>spec \<in> set (list_agents_for_tenant (oc_rank orc) tenant_id db). name \<in> set (as_tool_names spec)) \<and>
    (\<exists>t \<in> set (tools db). t_tenant_id t = tenant_id \<and> t_name t = name \<and> (t_mutating t \<longrightarrow> cq_approved request))"
  using granted_calls [OF assms] .

theorem chat_calls_only_granted_tools_witness:
  "mcp_calls (snd (snd (turn_outcome False))) = [(''t'', ''query'')] \<and>
   (\<exists>t \<in> set (tools turn_db). t_tenant_id t = ''t'' \<and> t_name t = ''query'' \<and> \<not> t_mutating t)"
proof -
  obtain response calls where run: "turn_outcome False = (Inr response, ((), calls))" "mcp_calls calls = [(''t'', ''query'')]"
    using turn_runs [of False] by auto
  have "oc_load turn_orc () = Inr turn_db" by (simp add: turn_orc_def)
  from chat_calls_only_granted_tools [OF run(1) [unfolded turn_outcome_def] this, of "''t''" "''query''"] run
  show ?thesis by (auto simp: turn_request_def)
qed

text \<open>The tokens a turn reports are the tokens of all its answered model calls, those of the
  selector, the planner and the placeholder included, and nothing else; the total is their sum.\<close>

theorem chat_reports_all_tokens:
  assumes "orc_Chat (logged_orc orc) md request (w, []) = (Inr response, (w', calls))"
  shows "cr_prompt_tokens response = ru_prompt_tokens (answered_usage calls) \<and>
    cr_completion_tokens response = ru_completion_tokens (answered_usage calls) \<and>
    cr_total_tokens response = cr_prompt_tokens response + cr_completion_tokens response"
  using assms
proof (cases rule: orc_Chat_cases)
  case (ran tenant_id db gc out s)
  have "counts_usage (start_state gc (w, [])) s" using ran(4) by (intro tokens.turn) simp
  then have "answered_usage calls = client_totals s"
    using ran(5) [symmetric] by (auto simp: counts_usage_def start_totals)
  moreover obtain result where "orc_response (chat_result_of gc result s) = Inr response"
    using ran(6) by (auto split: sum.splits)
  ultimately show ?thesis
    by (auto simp: orc_response_def chat_result_of_def Let_def client_totals_def split: if_splits)
qed simp

theorem chat_reports_all_tokens_witness:
  "case turn_outcome True of (Inr response, _) \<Rightarrow> cr_total_tokens response = 5 | _ \<Rightarrow> False"
proof -
  obtain response calls where run: "turn_outcome True = (Inr response, ((), calls))"
    "answered_usage calls = \<lparr>ru_prompt_tokens = 3, ru_completion_tokens = 2\<rparr>"
    using turn_runs [of True] by (auto simp: result_of_response_def no_usage_def add_usage_def)
  from chat_reports_all_tokens [OF run(1) [unfolded turn_outcome_def]] run show ?thesis by simp
qed

text \<open>A turn in which a gated call was made is answered with the pause.\<close>

lemma gated_call_pauses_turn:
  assumes run: "orc_Chat orc md request w = (Inr response, w')"
    and "orc_tenant_id md = Inr tenant_id" and "oc_load orc w = Inr db"
    and "built_chat orc tenant_id request db = Inr gc"
    and call: "(i, name) \<in> set (team_calls (oc_services orc) gc (request_team orc request gc) (start_state gc w))"
    and gate: "gated (gc_workbenches gc ! i) name"
  shows "cr_finish_reason response = orc_approval_finish_reason"
  using run
proof (cases rule: orc_Chat_cases)
  case (ran tenant_id' db' gc' out s)
  with assms(2-4) have eq: "gc' = gc" by simp
  have "gated_calls_pend gc (start_state gc w) (team_calls (oc_services orc) gc (request_team orc request gc) (start_state gc w)) s"
    using ran(4) unfolding eq by (rule pend.turn)
  with call gate have "i < length (cs_pending s)" "gate_text name \<in> set (cs_pending s ! i)"
    using pending_grows_length [of "start_state gc w" s] by (auto simp: gated_calls_pend_def)
  then have "approval_sink s \<noteq> []" unfolding approval_sink_def by (metis empty_iff empty_set concat_eq_Nil_conv nth_mem)
  with ran(6) show ?thesis
    by (auto simp: chat_result_of_def orc_response_def Let_def split: sum.splits if_splits)
qed simp

text \<open>
  An agent whose name becomes the slug \<open>user\<close> makes the caller's own input a message that ends the
  execution turn: the slugs the callers' roles occupy are not reserved.
\<close>

lemma user_agent_ends_turn:
  assumes "built_chat orc tenant_id request db = Inr gc" and "\<not> is_planning_turn (cq_messages request)"
    and "''user'' \<in> set (slugify_all (map as_name (list_agents_for_tenant (oc_rank orc) tenant_id db)) [])"
    and "m \<in> set (cq_messages request)" and "cm_role m = ''user''"
  shows "(cm_content m, ''user'') \<in> set (team_task (cq_messages request))"
    and "''user'' \<in> set (stop_sources (gc_termination gc))"
proof -
  show "(cm_content m, ''user'') \<in> set (team_task (cq_messages request))"
    using assms(4,5) by (force simp: team_task_def)
  have "gc_termination gc = execution_termination (oc_max_messages orc)
      (slugify_all (map as_name (list_agents_for_tenant (oc_rank orc) tenant_id db)) [])"
    using assms(1,2) by (auto simp: built_chat_def build_group_chat_def Let_def simp del: list_all_append map_append split: if_splits)
  then show "''user'' \<in> set (stop_sources (gc_termination gc))"
    using assms(3) by (simp add: stop_sources_execution)
qed

end
