(* ===== verification/Orc_Gate.thy ===== *)
theory Orc_Gate
  imports Orc_Edge Job_Delivery
begin

text \<open>
  The approval gate end to end: the job runner over the orchestrator. The stub the runner calls is
  the orchestrator's handler \<open>Chat\<close>; a step whose turn makes a gated call leaves the job paused at
  this step, with nothing mutating executed.
\<close>

lemma chat_events:
  "chat w row ms a s =
     (client_chat (rw_stub w (rs_log s)) (j_tenant_id row) ms a,
      s\<lparr>rs_log := rs_log s @ [Ev_Chat ms a (client_chat (rw_stub w (rs_log s)) (j_tenant_id row) ms a)]\<rparr>)"
  by (simp add: chat_def Let_def)

lemma checkpoint_keeps_progress: "rs_progress (snd (checkpoint_progress w row s)) = rs_progress s"
  by (simp add: checkpoint_progress_def db_call_def Let_def split: prod.splits option.splits)

lemma execute_step_paused:
  assumes "\<not> step_done (rs_progress s) index"
    and "client_chat (rw_stub w (rs_log s)) (j_tenant_id row) (step_turns sub_prompt) (step_approved (rs_progress s) index) = Inr reply"
    and "ry_finish_reason reply = approval_finish_reason"
  shows "rs_progress (snd (execute_step w row index sub_prompt s)) = paused_at index sub_prompt reply (rs_progress s)"
    and "isl (fst (execute_step w row index sub_prompt s))"
proof -
  define s1 where "s1 = s\<lparr>rs_log := rs_log s @ [Ev_Chat (step_turns sub_prompt) (step_approved (rs_progress s) index) (Inr reply)],
    rs_progress := paused_at index sub_prompt reply (rs_progress s)\<rparr>"
  obtain r s2 where c: "checkpoint_progress w row s1 = (r, s2)" by fastforce
  have "execute_step w row index sub_prompt s =
      (case r of Inl e \<Rightarrow> (Inl e, s2) | Inr _ \<Rightarrow> (Inl ApprovalRequired, s2))"
    using assms c
    by (simp add: execute_step_def bindS_def get_progress_def chat_events set_progress_def s1_def split: sum.splits)
  then show "rs_progress (snd (execute_step w row index sub_prompt s)) = paused_at index sub_prompt reply (rs_progress s)"
    and "isl (fst (execute_step w row index sub_prompt s))"
    using checkpoint_keeps_progress [of w row s1] c by (auto simp: s1_def split: sum.splits)
qed

text \<open>The request a step's turn sends.\<close>

definition step_request :: "string \<Rightarrow> bool \<Rightarrow> chat_request" where
  "step_request sub_prompt approved =
     \<lparr>cq_messages = [\<lparr>cm_role = ''user'', cm_content = sub_prompt, cm_agent = []\<rparr>], cq_approved = approved\<rparr>"

lemma client_chat_step:
  "stub (md tenant) (step_request sub_prompt approved) = Inr response \<Longrightarrow>
     \<exists>reply. client_chat stub tenant (step_turns sub_prompt) approved = Inr reply \<and>
       ry_finish_reason reply = cr_finish_reason response"
  by (simp add: client_chat_def step_turns_def step_request_def Let_def)


text \<open>The turn of \<open>Orc_Edge\<close>, sent by a runner.\<close>

lemma turn_calls_send:
  assumes "gc_temperatures gc = temp # temps"
    and "gc_workbenches gc = [\<lparr>wb_tenant_id = ''t'', wb_allowed = [''query'', ''send''], wb_mutating = [''send''], wb_approved = False\<rparr>]"
  shows "(0, ''send'') \<in> set (team_calls (logged_services turn_services) gc turn_team (start_state gc ((), [])))"
  by (simp add: turn_team_def start_state_def client_create_def logged_services_def
      turn_services_def Let_def call_tool_def render_content_def assms py_marker)

definition gate_world :: runner_world where
  "gate_world = demo_world ''stop'' (\<lambda>_. False)
     \<lparr>rw_stub := (\<lambda>_ md request. fst (orc_Chat (logged_orc turn_orc) md request ((), [])))\<rparr>"

definition gate_row :: job_row where
  "gate_row = (demo_claimed demo_progress)\<lparr>j_tenant_id := ''t''\<rparr>"

definition gate_start :: runner_state where
  "gate_start = St [gate_row] [] demo_progress"


end
