(* ===== verification/Orc_Gateway.thy ===== *)
theory Orc_Gateway
  imports Orc_Client Gw_Servicer
begin

text \<open>
  The orchestrator's model client over the gateway: its stub is the gateway's handler \<open>Chat\<close>. What
  AutoGen says in a turn is what the model reads, with the identifiers redacted.
\<close>

section \<open>The conversation of AutoGen\<close>

definition llm_events :: "llm_message \<Rightarrow> wire_event list" where
  "llm_events m =
     (case m of
        System_Message s \<Rightarrow> [Wire_Text ''system'' s]
      | User_Message c \<Rightarrow> [Wire_Text ''user'' (content_str c)]
      | Assistant_Text s \<Rightarrow> [Wire_Text ''assistant'' s]
      | Assistant_Calls calls thought \<Rightarrow>
          (case thought of
             Some t \<Rightarrow> if t = [] \<and> calls \<noteq> [] then [] else [Wire_Text ''assistant'' t]
           | None \<Rightarrow> if calls \<noteq> [] then [] else [Wire_Text ''assistant'' []]) @
          map (\<lambda>tc. Wire_Call (tc_id tc) (tc_name tc) (tc_arguments tc)) calls
      | Function_Results results \<Rightarrow> map (\<lambda>(call_id, content). Wire_Result call_id content) results
      | Unknown_Message c \<Rightarrow> [Wire_Text ''user'' (content_str c)])"

fun redact_event :: "wire_event \<Rightarrow> wire_event" where
  "redact_event (Wire_Text role s) = Wire_Text role (redact_pii s)"
| "redact_event (Wire_Result call_id s) = Wire_Result call_id (redact_pii s)"
| "redact_event (Wire_Call call_id name args) = Wire_Call call_id name args"

abbreviation gateway_turns :: "llm_message list \<Rightarrow> gw_message list" where
  "gateway_turns ms \<equiv> map message_from_proto (concat (map to_gateway_messages ms))"

lemma message_from_proto_fields [simp]:
  "gm_role (message_from_proto m) = pm_role m" "gm_content (message_from_proto m) = pm_content m"
  "gm_tool_calls (message_from_proto m) = pm_tool_calls m" "gm_tool_call_id (message_from_proto m) = pm_tool_call_id m"
  by (simp_all add: message_from_proto_def)

lemma plain_message_fields [simp]:
  "pm_role (plain_message r s) = r" "pm_content (plain_message r s) = s"
  "pm_tool_calls (plain_message r s) = []" "pm_tool_call_id (plain_message r s) = None"
  by (simp_all add: plain_message_def)

lemma turn_of_message:
  assumes "m \<in> set (to_gateway_messages msg)"
  shows "turn_ok (message_from_proto m) \<and> pm_role m \<in> set allowed_roles"
  using assms
  by (auto simp: to_gateway_messages_def turn_ok_def allowed_roles_def split: llm_message.splits)

lemma gateway_turns_ok: "list_all turn_ok (gateway_turns ms)" "bad_role (gateway_turns ms) = None"
  using turn_of_message by (fastforce simp: list_all_iff bad_role_None)+

lemma events_of_message: "concat (map (turn_events \<circ> message_from_proto) (to_gateway_messages msg)) = llm_events msg"
  by (cases msg)
    (auto simp: to_gateway_messages_def turn_events_def llm_events_def str_or_def content_str_def o_def
      concat_map_singleton case_prod_unfold split: option.splits)

lemma events_of_turns: "concat (map turn_events (gateway_turns ms)) = concat (map llm_events ms)"
  by (induction ms) (simp_all add: events_of_message)

lemma redact_Nil_iff: "redact_pii s = [] \<longleftrightarrow> s = []"
  by (simp add: redact_steps rx_sub_Nil_iff)

lemma redacted_turns:
  "concat (map turn_events (map (\<lambda>m. m\<lparr>gm_content := redact_pii (gm_content m)\<rparr>) ms)) =
     map redact_event (concat (map turn_events ms))"
  by (induction ms) (simp_all add: turn_events_def redact_Nil_iff o_def)

section \<open>A model call\<close>

text \<open>C26. What AutoGen says is what the model reads. For every conversation of AutoGen messages sent
  through the model client, the gateway and either provider: the roles are always admissible and
  nothing is sent but, at most once, exactly the conversation's texts, tool calls and tool results
  in order, with texts and results redacted and each result still tied to its call; the client
  returns a result only then, with one of AutoGen's finish reasons, and counts the tokens of
  answered calls only.\<close>

theorem model_reads_the_conversation:
  assumes run: "client_create float32 (gw_Chat lib g (serve_provider name lib settings (logged oq_messages oa)
      (logged zq_input zen))) temperature ms schemas choice (st, (w, [])) = (r, (st', (w', convs)))"
  shows "(convs = [] \<or> (\<exists>conv. convs = [conv] \<and>
            read_events name conv = map redact_event (concat (map llm_events ms)))) \<and>
    (case r of
       Inl _ \<Rightarrow> st' = st
     | Inr result \<Rightarrow> convs \<noteq> [] \<and> rr_finish_reason result \<in> set finish_reasons \<and>
         actual_usage st' = rr_usage result \<and> total_usage st' = add_usage (total_usage st) (rr_usage result))"
proof -
  let ?stub = "gw_Chat lib g (serve_provider name lib settings (logged oq_messages oa) (logged zq_input zen))"
  let ?request = "gateway_request float32 temperature ms schemas choice"
  obtain x where chat: "?stub ?request (w, []) = (x, (w', convs))"
    and rest: "(case x of Inl e \<Rightarrow> r = Inl e \<and> st' = st
      | Inr response \<Rightarrow> r = Inr (result_of_response response) \<and>
          actual_usage st' = rr_usage (result_of_response response) \<and>
          total_usage st' = add_usage (total_usage st) (rr_usage (result_of_response response)))"
    using run by (auto simp: client_create_def Let_def split: prod.splits sum.splits)
  have msgs: "map message_from_proto (pq_messages ?request) = gateway_turns ms" by (simp add: gateway_request_def)
  have spec: "case screened g ?request of
      Inl e \<Rightarrow> x = Inl (INVALID_ARGUMENT, gw_message_of e) \<and> w' = w \<and> convs = []
    | Inr out \<Rightarrow>
        (convs = [] \<or>
         (\<exists>conv. convs = [conv] \<and> read_events name conv = concat (map turn_events out) \<and>
            (\<forall>ev \<in> set (read_events name conv). pii_free (event_text ev)))) \<and>
        (case x of Inl _ \<Rightarrow> True
         | Inr resp \<Rightarrow> convs \<noteq> [] \<and> pr_finish_reason resp \<noteq> [] \<and> pm_role (pr_message resp) = ''assistant'' \<and>
             pm_tool_calls (pr_message resp) = pr_tool_calls resp)"
    using gateway_turns_ok(1) msgs by (intro gateway_once [OF _ chat]) simp
  show ?thesis
  proof (cases "screened g ?request")
    case (Inl e)
    with spec rest show ?thesis by simp
  next
    case (Inr out)
    have "out = map (\<lambda>m. m\<lparr>gm_content := redact_pii (gm_content m)\<rparr>) (gateway_turns ms)"
      using screen_passes [OF Inr] msgs by simp
    then have "concat (map turn_events out) = map redact_event (concat (map llm_events ms))"
      by (simp only: redacted_turns events_of_turns)
    with spec rest Inr show ?thesis by (auto simp: result_finish_reason split: sum.splits)
  qed
qed

definition loop_messages :: "llm_message list" where
  "loop_messages =
     [User_Message (Text_Content ''hi''),
      Assistant_Calls [\<lparr>tc_id = ''c1'', tc_name = ''find'', tc_arguments = ''{}''\<rparr>] None,
      Function_Results [(''c1'', ''123-45-6789'')]]"

definition loop_call :: "(rpc_error + create_result) \<times> (client_state \<times> (unit \<times> json list list))" where
  "loop_call = client_create (\<lambda>x. x) (gw_Chat sample_lib sample_guardrails
     (serve_provider ''openai'' sample_lib \<lparr>ms_name = ''m'', ms_max_tokens = 10, ms_temperature = 0\<rparr>
       (logged oq_messages sample_upstream) (logged zq_input (\<lambda>_. raiseS (Zen_Other [])))))
     0 loop_messages [] (Choice_Str ''auto'') (new_client, ((), []))"

lemma loop_screened:
  "screened sample_guardrails (gateway_request (\<lambda>x. x) 0 loop_messages [] (Choice_Str ''auto'')) =
     Inr (map (\<lambda>m. m\<lparr>gm_content := redact_pii (gm_content m)\<rparr>) (gateway_turns loop_messages))"
proof -
  let ?ms = "gateway_turns loop_messages"
  have "combined_input ?ms = ''hi  123-45-6789''" "blocked_term [''jailbreak''] ?ms = None"
    by code_simp+
  then show ?thesis
    by (simp add: screen_and_sanitize_def gateway_request_def gateway_turns_ok(2) sample_guardrails_def)
qed

theorem model_reads_the_conversation_witness:
  "case snd (snd (snd loop_call)) of
     [conv] \<Rightarrow> read_events ''openai'' conv =
       [Wire_Text ''user'' ''hi'', Wire_Call ''c1'' ''find'' ''{}'', Wire_Result ''c1'' ''[SSN]'']
   | _ \<Rightarrow> False"
proof -
  have e: "map redact_event (concat (map llm_events loop_messages)) =
      [Wire_Text ''user'' ''hi'', Wire_Call ''c1'' ''find'' ''{}'', Wire_Result ''c1'' ''[SSN]'']"
  proof -
    have "redact_pii ''hi'' = ''hi''" "redact_pii ''123-45-6789'' = ''[SSN]''" by code_simp+
    then show ?thesis by (simp add: loop_messages_def llm_events_def content_str_def)
  qed
  obtain r st w convs where run: "loop_call = (r, (st, (w, convs)))" by (metis prod_cases4)
  have "convs \<noteq> []"
    using run loop_screened
    by (simp add: loop_call_def client_create_def gw_Chat_def gw_handle_errors_def bindS_def serve_provider_def
        openai_complete_def logged_apply sample_upstream_def gateway_request_def split: sum.splits prod.splits)
      (auto simp: Let_def)
  with model_reads_the_conversation [OF run [unfolded loop_call_def]] e
  obtain conv where "convs = [conv]" "read_events ''openai'' conv =
      [Wire_Text ''user'' ''hi'', Wire_Call ''c1'' ''find'' ''{}'', Wire_Result ''c1'' ''[SSN]'']" by auto
  then show ?thesis by (simp add: run)
qed

end
