(* ===== verification/Py_Url.thy ===== *)
theory Py_Url
  imports PyStr
begin

text \<open>
  The part of Python's \<open>urllib.parse\<close> and \<open>ipaddress\<close> (CPython 3.13) that decides which host a URL
  names and whether it is a special address: \<open>urlsplit(url).scheme\<close> and \<open>.hostname\<close>,
  \<open>ip_address(host)\<close> and the predicates on addresses. An address is the integer it stands for. No
  character below 256 normalizes to a delimiter, so the check of \<open>urlsplit\<close> on the network
  location's NFKC form never fails here.
\<close>

section \<open>Splitting\<close>

text \<open>\<open>s.split(sep)\<close> for a one-character separator.\<close>

fun split_on :: "char \<Rightarrow> string \<Rightarrow> string list" where
  "split_on c [] = [[]]"
| "split_on c (x # xs) =
     (if x = c then [] # split_on c xs
      else (case split_on c xs of [] \<Rightarrow> [[x]] | p # ps \<Rightarrow> (x # p) # ps))"

text \<open>\<open>s.partition(c)\<close>: before the first \<open>c\<close>, whether there is one, and after it.\<close>

definition part_before :: "char \<Rightarrow> string \<Rightarrow> string" where
  "part_before c s = takeWhile (\<lambda>x. x \<noteq> c) s"

definition part_after :: "char \<Rightarrow> string \<Rightarrow> string" where
  "part_after c s = tl (dropWhile (\<lambda>x. x \<noteq> c) s)"

lemma split_on_nonempty [simp]: "split_on c s \<noteq> []"
  by (cases s) (auto split: list.splits)

lemma split_on_free: "c \<notin> set s \<Longrightarrow> split_on c s = [s]"
  by (induction s) auto

lemma split_on_append: "c \<notin> set s \<Longrightarrow> split_on c (s @ c # t) = s # split_on c t"
  by (induction s) (auto split: list.splits)

section \<open>ipaddress\<close>

datatype ip = V4 int | V6 int

definition parse_octet :: "string \<Rightarrow> int option" where
  "parse_octet s =
     (if s = [] \<or> \<not> list_all ascii_digit s then None
      else if length s > 3 then None
      else if s \<noteq> ''0'' \<and> hd s = CHR ''0'' then None
      else (let n = foldl (\<lambda>a c. 10 * a + (of_char c - 48)) 0 s in if n > 255 then None else Some n))"

definition parse_ipv4 :: "string \<Rightarrow> int option" where
  "parse_ipv4 s =
     (if CHR ''/'' \<in> set s then None
      else (case map parse_octet (split_on (CHR ''.'') s) of
              [Some a, Some b, Some c, Some d] \<Rightarrow> Some (((a * 256 + b) * 256 + c) * 256 + d)
            | _ \<Rightarrow> None))"

definition hexit_value :: "char \<Rightarrow> int option" where
  "hexit_value c =
     (if ascii_digit c then Some (of_char c - 48)
      else if 65 \<le> ordc c \<and> ordc c \<le> 70 then Some (of_char c - 55)
      else if 97 \<le> ordc c \<and> ordc c \<le> 102 then Some (of_char c - 87) else None)"

definition parse_hextet :: "string \<Rightarrow> int option" where
  "parse_hextet s =
     (if s = [] \<or> length s > 4 \<or> list_ex (\<lambda>c. hexit_value c = None) s then None
      else Some (foldl (\<lambda>a c. 16 * a + the (hexit_value c)) 0 s))"

text \<open>\<open>'%x' % n\<close>.\<close>

fun hex_str :: "nat \<Rightarrow> string" where
  "hex_str n = (if n < 16 then [hex_digit n] else hex_str (n div 16) @ [hex_digit (n mod 16)])"

declare hex_str.simps [simp del]

text \<open>An IPv4 suffix becomes two hextets.\<close>

definition expand_v4_suffix :: "string list \<Rightarrow> string list option" where
  "expand_v4_suffix parts =
     (if CHR ''.'' \<notin> set (last parts) then Some parts
      else (case parse_ipv4 (last parts) of
              None \<Rightarrow> None
            | Some n \<Rightarrow> Some (butlast parts @ [hex_str (nat (n div 65536)), hex_str (nat (n mod 65536))])))"

text \<open>The positions, other than the first and last, of the empty parts.\<close>

definition skip_indices :: "string list \<Rightarrow> nat list" where
  "skip_indices parts = filter (\<lambda>i. parts ! i = []) [1..<length parts - 1]"

definition hextets :: "string list \<Rightarrow> int option" where
  "hextets parts =
     (if list_ex (\<lambda>p. parse_hextet p = None) parts then None
      else Some (foldl (\<lambda>a p. a * 65536 + the (parse_hextet p)) 0 parts))"

definition parse_v6_parts :: "string list \<Rightarrow> int option" where
  "parse_v6_parts parts =
     (case skip_indices parts of
        [] \<Rightarrow> if length parts = 8 then hextets parts else None
      | [skip] \<Rightarrow>
          (let hi = (if hd parts = [] then skip - 1 else skip);
               lo = (if last parts = [] then length parts - skip - 2 else length parts - skip - 1)
           in if (hd parts = [] \<and> hi \<noteq> 0) \<or> (last parts = [] \<and> lo \<noteq> 0) \<or> 8 < hi + lo + 1 then None
              else (case (hextets (take hi parts), hextets (drop (length parts - lo) parts)) of
                      (Some h, Some l) \<Rightarrow> Some (h * 65536 ^ (8 - hi) + l)
                    | _ \<Rightarrow> None))
      | _ \<Rightarrow> None)"

definition parse_ipv6 :: "string \<Rightarrow> int option" where
  "parse_ipv6 s =
     (let addr = part_before (CHR ''%'') s; scope_id = part_after (CHR ''%'') s;
          parts = split_on (CHR '':'') addr
      in if CHR ''/'' \<in> set s then None
         else if CHR ''%'' \<in> set s \<and> (scope_id = [] \<or> CHR ''%'' \<in> set scope_id) then None
         else if length parts < 3 then None
         else (case expand_v4_suffix parts of
                 None \<Rightarrow> None
               | Some ps \<Rightarrow> if length ps > 9 then None else parse_v6_parts ps))"

definition ip_address :: "string \<Rightarrow> ip option" where
  "ip_address s =
     (case parse_ipv4 s of
        Some n \<Rightarrow> Some (V4 n)
      | None \<Rightarrow> map_option V6 (parse_ipv6 s))"

section \<open>Networks\<close>

text \<open>The address \<open>n\<close> of \<open>width\<close> bits lies in the network of address \<open>base\<close> and prefix length \<open>p\<close>.\<close>

definition in_net :: "nat \<Rightarrow> int \<Rightarrow> int \<times> nat \<Rightarrow> bool" where
  "in_net width n net = (n div 2 ^ (width - snd net) = fst net div 2 ^ (width - snd net))"

definition v4 :: "int \<Rightarrow> int \<Rightarrow> int \<Rightarrow> int \<Rightarrow> int" where
  "v4 a b c d = ((a * 256 + b) * 256 + c) * 256 + d"

definition v4_private_networks :: "(int \<times> nat) list" where
  "v4_private_networks =
     [(v4 0 0 0 0, 8), (v4 10 0 0 0, 8), (v4 127 0 0 0, 8), (v4 169 254 0 0, 16), (v4 172 16 0 0, 12),
      (v4 192 0 0 0, 24), (v4 192 0 0 170, 31), (v4 192 0 2 0, 24), (v4 192 168 0 0, 16), (v4 198 18 0 0, 15),
      (v4 198 51 100 0, 24), (v4 203 0 113 0, 24), (v4 240 0 0 0, 4), (v4 255 255 255 255, 32)]"

definition v4_private_exceptions :: "(int \<times> nat) list" where
  "v4_private_exceptions = [(v4 192 0 0 9, 32), (v4 192 0 0 10, 32)]"

definition v4_is_private :: "int \<Rightarrow> bool" where
  "v4_is_private n \<longleftrightarrow>
     list_ex (in_net 32 n) v4_private_networks \<and> \<not> list_ex (in_net 32 n) v4_private_exceptions"

text \<open>\<open>is_private or is_loopback or is_link_local or is_reserved or is_multicast or is_unspecified\<close>.\<close>

definition v4_special :: "int \<Rightarrow> bool" where
  "v4_special n \<longleftrightarrow> v4_is_private n \<or> in_net 32 n (v4 127 0 0 0, 8) \<or> in_net 32 n (v4 169 254 0 0, 16) \<or>
     in_net 32 n (v4 240 0 0 0, 4) \<or> in_net 32 n (v4 224 0 0 0, 4) \<or> n = 0"

text \<open>The address with the first hextets \<open>hs\<close>, and with zeros behind them.\<close>

definition v6 :: "int list \<Rightarrow> int" where
  "v6 hs = foldl (\<lambda>a h. a * 65536 + h) 0 hs * 65536 ^ (8 - length hs)"

definition v6_private_networks :: "(int \<times> nat) list" where
  "v6_private_networks =
     [(1, 128), (0, 128), (v6 [0, 0, 0, 0, 0, 0xFFFF], 96), (v6 [0x64, 0xFF9B, 1], 48), (v6 [0x100], 64),
      (v6 [0x2001], 23), (v6 [0x2001, 0xDB8], 32), (v6 [0x2002], 16), (v6 [0xFC00], 7), (v6 [0xFE80], 10)]"

definition v6_private_exceptions :: "(int \<times> nat) list" where
  "v6_private_exceptions =
     [(v6 [0x2001, 1] + 1, 128), (v6 [0x2001, 1] + 2, 128), (v6 [0x2001, 3], 32), (v6 [0x2001, 4, 0x112], 48),
      (v6 [0x2001, 0x20], 28), (v6 [0x2001, 0x30], 28)]"

definition v6_reserved_networks :: "(int \<times> nat) list" where
  "v6_reserved_networks =
     [(0, 8), (v6 [0x100], 8), (v6 [0x200], 7), (v6 [0x400], 6), (v6 [0x800], 5), (v6 [0x1000], 4),
      (v6 [0x4000], 3), (v6 [0x6000], 3), (v6 [0x8000], 3), (v6 [0xA000], 3), (v6 [0xC000], 3),
      (v6 [0xE000], 4), (v6 [0xF000], 5), (v6 [0xF800], 6), (v6 [0xFE00], 9)]"

text \<open>For an IPv4-mapped address every predicate is that of the IPv4 address.\<close>

definition v6_special :: "int \<Rightarrow> bool" where
  "v6_special n \<longleftrightarrow>
     (if n div 2 ^ 32 = 0xFFFF then v4_special (n mod 2 ^ 32)
      else (list_ex (in_net 128 n) v6_private_networks \<and> \<not> list_ex (in_net 128 n) v6_private_exceptions) \<or>
           n = 1 \<or> in_net 128 n (v6 [0xFE80], 10) \<or> list_ex (in_net 128 n) v6_reserved_networks \<or>
           in_net 128 n (v6 [0xFF00], 8) \<or> n = 0)"

fun ip_special :: "ip \<Rightarrow> bool" where
  "ip_special (V4 n) = v4_special n"
| "ip_special (V6 n) = v6_special n"

section \<open>urlsplit\<close>

definition scheme_char :: "char \<Rightarrow> bool" where
  "scheme_char c \<longleftrightarrow> ascii_letter c \<or> ascii_digit c \<or> c \<in> set ''+-.''"

definition clean_url :: "string \<Rightarrow> string" where
  "clean_url url = filter (\<lambda>c. ordc c \<notin> {9, 10, 13}) (dropWhile (\<lambda>c. ordc c \<le> 32) url)"

text \<open>The scheme and what follows it.\<close>

definition split_scheme :: "string \<Rightarrow> string \<times> string" where
  "split_scheme url =
     (let p = part_before (CHR '':'') url
      in if CHR '':'' \<in> set url \<and> p \<noteq> [] \<and> ascii_letter (hd p) \<and> list_all scheme_char p
         then (py_lower p, part_after (CHR '':'') url) else ([], url))"

text \<open>The check of a bracketed host; an \<open>IPvFuture\<close> host begins with \<open>v\<close>.\<close>

definition ip_future :: "string \<Rightarrow> bool" where
  "ip_future h =
     (let v = tl h; digits = takeWhile (\<lambda>c. hexit_value c \<noteq> None) v; rest = dropWhile (\<lambda>c. hexit_value c \<noteq> None) v
      in digits \<noteq> [] \<and> (case rest of c # d # r \<Rightarrow> c = CHR ''.'' \<and> CHR 0x0A \<notin> set (d # r) | _ \<Rightarrow> False))"

definition bracketed_host_ok :: "string \<Rightarrow> bool" where
  "bracketed_host_ok h =
     (if h \<noteq> [] \<and> hd h = CHR ''v'' then ip_future h
      else (case ip_address h of Some (V6 _) \<Rightarrow> True | _ \<Rightarrow> False))"

definition host_info :: "string \<Rightarrow> string" where
  "host_info netloc = rev (takeWhile (\<lambda>c. c \<noteq> CHR ''@'') (rev netloc))"

definition bracketed_netloc_ok :: "string \<Rightarrow> bool" where
  "bracketed_netloc_ok netloc =
     (let info = host_info netloc in
      if CHR ''['' \<in> set info
      then part_before (CHR ''['') info = [] \<and>
           (let bracketed = part_after (CHR ''['') info; port = part_after (CHR '']'') bracketed
            in (port = [] \<or> hd port = CHR '':'') \<and> bracketed_host_ok (part_before (CHR '']'') bracketed))
      else bracketed_host_ok (part_before (CHR '':'') info))"

text \<open>\<open>urlsplit(url)\<close>, of which the scheme and the network location are used; \<open>None\<close> is the \<open>ValueError\<close>.\<close>

definition urlsplit :: "string \<Rightarrow> (string \<times> string) option" where
  "urlsplit url =
     (let (scheme, rest) = split_scheme (clean_url url);
          netloc = (if take 2 rest = ''//'' then takeWhile (\<lambda>c. c \<notin> set ''/?#'') (drop 2 rest) else []);
          opened = CHR ''['' \<in> set netloc; closed = CHR '']'' \<in> set netloc
      in if opened \<noteq> closed then None
         else if opened \<and> \<not> bracketed_netloc_ok netloc then None
         else Some (scheme, netloc))"

text \<open>\<open>.hostname\<close> of the result.\<close>

definition url_hostname :: "string \<Rightarrow> string option" where
  "url_hostname netloc =
     (let info = host_info netloc;
          hostname = (if CHR ''['' \<in> set info then part_before (CHR '']'') (part_after (CHR ''['') info)
                      else part_before (CHR '':'') info)
      in if hostname = [] then None
         else Some (py_lower (part_before (CHR ''%'') hostname) @ dropWhile (\<lambda>c. c \<noteq> CHR ''%'') hostname))"

end
