(* ===== verification/Mcp_Handlers.thy ===== *)
theory Mcp_Handlers
  imports Py_Url Py_Json
begin

text \<open>
  \<open>handlers.py\<close>: the code behind the tools of the catalog. A handler gets the decoded arguments of
  a call and the caller's tenant and returns text, or raises (the text of the exception is all
  that is kept of it). The HTTP client, the SQL parser and the database are parameters.
\<close>

section \<open>Parameters\<close>

text \<open>\<open>str.upper\<close> may leave the characters below 256, so it is a parameter.\<close>

datatype http_error = Http_Error string | Http_Other string

record http_request =
  hq_method :: string
  hq_url :: string
  hq_headers :: json
  hq_params :: json
  hq_json :: "json option"

record http_response =
  hr_status_code :: int
  hr_text :: string
  hr_json :: "json option"

datatype sqlglot_error = Sqlglot_Error string | Sqlglot_Other string

text \<open>
  A parsed statement, its outermost kind, whether it has a \<open>WITH\<close> anywhere, its table nodes (schema
  and name) in the order of \<open>find_all\<close>, the statement with other names at its table nodes, and its
  text.
\<close>

record 'st sqlglot =
  sg_parse :: "string \<Rightarrow> sqlglot_error + 'st option list"
  sg_is_select :: "'st \<Rightarrow> bool"
  sg_has_with :: "'st \<Rightarrow> bool"
  sg_tables :: "'st \<Rightarrow> (string \<times> string) list"
  sg_retarget :: "'st \<Rightarrow> string list \<Rightarrow> 'st"
  sg_sql :: "'st \<Rightarrow> string"

datatype db_error = Sqlalchemy_Error string | Db_Other string

text \<open>A row is the list of its columns, with the values as \<open>json.dumps(..., default=str)\<close> sees them.\<close>

type_synonym sql_row = "(string \<times> json) list"

record ('w, 'st) mcp_env =
  me_json :: pylib
  me_upper :: "string \<Rightarrow> string"
  me_max_response_chars :: int
  me_http :: "http_request \<Rightarrow> ('w, http_error, http_response) comp"
  me_sqlglot :: "'st sqlglot"
  me_execute :: "string \<Rightarrow> string \<Rightarrow> ('w, db_error, sql_row list) comp"

type_synonym 'w handler_run = "(string \<times> json) list \<Rightarrow> string \<Rightarrow> ('w, string, string) comp"

record 'w handler =
  hd_name :: string
  hd_description :: string
  hd_input_schema :: "(string \<times> json) list"
  hd_run :: "'w handler_run"

definition arg :: "(string \<times> json) list \<Rightarrow> string \<Rightarrow> json option" where
  "arg arguments k = obj_get arguments k"

text \<open>\<open>str(arguments.get(k, ""))\<close> and \<open>arguments.get(k) or {}\<close>.\<close>

definition str_arg :: "pylib \<Rightarrow> (string \<times> json) list \<Rightarrow> string \<Rightarrow> string" where
  "str_arg lib arguments k = (case arg arguments k of None \<Rightarrow> [] | Some v \<Rightarrow> py_str_json lib v)"

definition dict_arg :: "(string \<times> json) list \<Rightarrow> string \<Rightarrow> json" where
  "dict_arg arguments k = (case arg arguments k of None \<Rightarrow> JObj [] | Some v \<Rightarrow> if json_truthy v then v else JObj [])"

section \<open>http_request\<close>

definition http_allowed_schemes :: "string list" where
  "http_allowed_schemes = [''http'', ''https'']"

definition http_blocked_hostnames :: "string list" where
  "http_blocked_hostnames = [''localhost'', ''metadata'', ''metadata.google.internal'']"

definition ends_with :: "string \<Rightarrow> string \<Rightarrow> bool" where
  "ends_with suf s \<longleftrightarrow> length suf \<le> length s \<and> drop (length s - length suf) s = suf"

definition assert_url_is_public :: "string \<Rightarrow> string + unit" where
  "assert_url_is_public url =
     (case urlsplit url of
        None \<Rightarrow> Inl ''ValueError''
      | Some (scheme, netloc) \<Rightarrow>
          if py_lower scheme \<notin> set http_allowed_schemes then Inl (''unsupported URL scheme: '' @ py_repr scheme)
          else (case url_hostname netloc of
                  None \<Rightarrow> Inl ''URL must include a host''
                | Some host \<Rightarrow>
                    if py_lower host \<in> set http_blocked_hostnames \<or> ends_with ''.localhost'' (py_lower host)
                    then Inl (''requests to '' @ py_repr host @ '' are not allowed'')
                    else (case ip_address host of
                            None \<Rightarrow> Inr ()
                          | Some ip \<Rightarrow>
                              if ip_special ip then Inl (''requests to '' @ py_repr host @ '' are not allowed'')
                              else Inr ())))"

definition http_input_schema :: "(string \<times> json) list" where
  "http_input_schema =
     [(''type'', JStr ''object''),
      (''properties'', JObj
        [(''method'', JObj [(''type'', JStr ''string''),
            (''enum'', JArr [JStr ''GET'', JStr ''POST'', JStr ''PUT'', JStr ''PATCH'', JStr ''DELETE'']),
            (''description'', JStr ''HTTP method to use.'')]),
         (''url'', JObj [(''type'', JStr ''string''), (''description'', JStr ''Absolute URL to request.'')]),
         (''headers'', JObj [(''type'', JStr ''object''),
            (''additionalProperties'', JObj [(''type'', JStr ''string'')]),
            (''description'', JStr ''Optional request headers.'')]),
         (''query'', JObj [(''type'', JStr ''object''),
            (''additionalProperties'', JObj [(''type'', JStr ''string'')]),
            (''description'', JStr ''Optional query-string parameters.'')]),
         (''body'', JObj [(''type'', JStr ''object''), (''description'', JStr ''Optional JSON request body.'')])]),
      (''required'', JArr [JStr ''method'', JStr ''url'']),
      (''additionalProperties'', JBool False)]"

text \<open>The text given to the model for a response.\<close>

definition http_payload :: "('w, 'st) mcp_env \<Rightarrow> http_response \<Rightarrow> json" where
  "http_payload env response =
     JObj ((''status_code'', JInt (hr_status_code response)) #
       (case hr_json response of
          Some parsed \<Rightarrow> [(''json'', parsed)]
        | None \<Rightarrow>
            [(''text'', JStr (if me_max_response_chars env \<ge> 0 then take (nat (me_max_response_chars env)) (hr_text response)
                else take (nat (int (length (hr_text response)) + me_max_response_chars env)) (hr_text response))),
             (''truncated'', JBool (int (length (hr_text response)) > me_max_response_chars env))]))"

definition run_http_request :: "('w, 'st) mcp_env \<Rightarrow> 'w handler_run" where
  "run_http_request env arguments tenant_id =
     (let http_method = me_upper env (str_arg (me_json env) arguments ''method'');
          url = str_arg (me_json env) arguments ''url''
      in if http_method = [] \<or> url = [] then raiseS ''`method` and `url` are required''
         else
           bindS (liftS (assert_url_is_public url)) (\<lambda>_ w.
           case me_http env
               \<lparr>hq_method = http_method, hq_url = url, hq_headers = dict_arg arguments ''headers'',
                hq_params = dict_arg arguments ''query'',
                hq_json = (case arg arguments ''body'' of None \<Rightarrow> None | Some v \<Rightarrow> if v = JNull then None else Some v)\<rparr> w of
             (Inl (Http_Error exc), w') \<Rightarrow> (Inr (json_dumps (JObj [(''error'', JStr exc)])), w')
           | (Inl (Http_Other exc), w') \<Rightarrow> (Inl exc, w')
           | (Inr response, w') \<Rightarrow> (Inr (json_dumps (http_payload env response)), w')))"

section \<open>query_database\<close>

definition query_database_schema :: "(string \<times> json) list" where
  "query_database_schema =
     [(''type'', JStr ''object''),
      (''properties'', JObj [(''query'', JObj [(''type'', JStr ''string''),
         (''description'', JStr (''A single read-only SQL SELECT statement over the `customers` '' @
            ''and/or `invoices` tables.''))])]),
      (''required'', JArr [JStr ''query'']),
      (''additionalProperties'', JBool False)]"

definition query_allowed_tables :: "string list" where
  "query_allowed_tables = [''customers'', ''invoices'']"

definition query_max_rows :: nat where
  "query_max_rows = 100"

definition scoped_table_name :: "(string \<times> string) list" where
  "scoped_table_name = [(''customers'', ''__tenant_customers''), (''invoices'', ''__tenant_invoices'')]"

definition tenant_scope_cte :: string where
  "tenant_scope_cte =
     ''WITH __tenant_customers AS (SELECT * FROM customers WHERE tenant_id = :tenant_id), '' @
     ''__tenant_invoices AS (SELECT * FROM invoices WHERE tenant_id = :tenant_id) ''"

text \<open>\<open>Inl\<close> is the \<open>ValueError\<close> with its message, or another exception that escapes.\<close>

datatype sql_reject = Sql_Value_Error string | Sql_Other string

definition validate_query_database_sql :: "'st sqlglot \<Rightarrow> string \<Rightarrow> sql_reject + 'st" where
  "validate_query_database_sql sg query =
     (case sg_parse sg query of
        Inl (Sqlglot_Error exc) \<Rightarrow> Inl (Sql_Value_Error (''could not parse SQL: '' @ exc))
      | Inl (Sqlglot_Other exc) \<Rightarrow> Inl (Sql_Other exc)
      | Inr parsed \<Rightarrow>
          (case List.map_filter (\<lambda>s. s) parsed of
             [stmt] \<Rightarrow>
               if \<not> sg_is_select sg stmt then Inl (Sql_Value_Error ''only SELECT statements are allowed'')
               else if sg_has_with sg stmt
               then Inl (Sql_Value_Error ''queries may not define their own WITH/CTE clauses'')
               else if list_ex (\<lambda>t. fst t \<noteq> []) (sg_tables sg stmt)
               then Inl (Sql_Value_Error ''schema-qualified table references are not allowed'')
               else (let names = map (\<lambda>t. py_lower (snd t)) (sg_tables sg stmt) in
                 if names = [] \<or> \<not> list_all (\<lambda>n. n \<in> set query_allowed_tables) names
                 then Inl (Sql_Value_Error (''query may only reference: '' @ py_join '', '' query_allowed_tables))
                 else Inr (sg_retarget sg stmt (map (\<lambda>n. the (map_of scoped_table_name n)) names)))
           | _ \<Rightarrow> Inl (Sql_Value_Error ''only a single SQL statement is allowed'')))"

definition rows_payload :: "sql_row list \<Rightarrow> json" where
  "rows_payload fetched =
     (let rows = take query_max_rows fetched
      in JObj [(''rows'', JArr (map JObj rows)), (''count'', JInt (int (length rows))),
               (''truncated'', JBool (length fetched > query_max_rows))])"

definition run_query_database :: "('w, 'st) mcp_env \<Rightarrow> 'w handler_run" where
  "run_query_database env arguments tenant_id =
     (let query = py_strip (str_arg (me_json env) arguments ''query'') in
      if query = [] then raiseS ''`query` is required''
      else (case validate_query_database_sql (me_sqlglot env) query of
              Inl (Sql_Value_Error exc) \<Rightarrow> returnS (json_dumps (JObj [(''error'', JStr exc)]))
            | Inl (Sql_Other exc) \<Rightarrow> raiseS exc
            | Inr stmt \<Rightarrow> (\<lambda>w.
                case me_execute env (tenant_scope_cte @ sg_sql (me_sqlglot env) stmt) tenant_id w of
                  (Inl (Sqlalchemy_Error exc), w') \<Rightarrow> (Inr (json_dumps (JObj [(''error'', JStr exc)])), w')
                | (Inl (Db_Other exc), w') \<Rightarrow> (Inl exc, w')
                | (Inr result, w') \<Rightarrow> (Inr (json_dumps (rows_payload (take (query_max_rows + 1) result))), w'))))"

section \<open>The registry\<close>

definition handlers :: "('w, 'st) mcp_env \<Rightarrow> (string \<times> 'w handler) list" where
  "handlers env =
     [(''http_request'',
       \<lparr>hd_name = ''http_request'',
        hd_description = ''Make an outbound HTTP request to a URL and return the response status and body.'',
        hd_input_schema = http_input_schema, hd_run = run_http_request env\<rparr>),
      (''query_database'',
       \<lparr>hd_name = ''query_database'',
        hd_description = ''Run a read-only SQL SELECT query against the customers/invoices '' @
          ''tables and return the matching rows.'',
        hd_input_schema = query_database_schema, hd_run = run_query_database env\<rparr>)]"

definition get_handler :: "('w, 'st) mcp_env \<Rightarrow> string \<Rightarrow> 'w handler option" where
  "get_handler env name = map_of (handlers env) name"

end
