(* ===== verification/Mcp_Server.thy ===== *)
theory Mcp_Server
  imports Mcp_Handlers Orc_Workbench Aes_Model
begin

text \<open>
  \<open>mcp_svc\<close>'s server: \<open>tools.py\<close> (the reads of the catalog), \<open>auth.py\<close> and the two MCP handlers of
  \<open>server.py\<close>. The catalog is the \<open>tools\<close> table of \<open>agent_execution_service\<close>. Seen from the
  orchestrator the server is an MCP session, so that the types of \<open>Orc_Workbench\<close> are used for what
  it answers.
\<close>

section \<open>tools.py\<close>

definition list_tools_for_tenant :: "(string \<Rightarrow> int) \<Rightarrow> string \<Rightarrow> aes_db \<Rightarrow> tool_row list" where
  "list_tools_for_tenant rank tenant_id db =
     sort_key (\<lambda>t. rank (t_name t)) (select_where (\<lambda>t. t_tenant_id t = tenant_id) (tools db))"

definition get_tool_by_name :: "string \<Rightarrow> string \<Rightarrow> aes_db \<Rightarrow> tool_row option" where
  "get_tool_by_name tenant_id name db =
     (case select_where (\<lambda>t. t_tenant_id t = tenant_id \<and> t_name t = name) (tools db) of
        [] \<Rightarrow> None | t # _ \<Rightarrow> Some t)"

section \<open>auth.py\<close>

text \<open>The headers of the request, if there is one; names are lower case. An MCP error of code
  \<open>INVALID_REQUEST\<close> carries the message.\<close>

definition invalid_request :: int where
  "invalid_request = - 32600"

datatype mcp_error = Mcp_Error int string | Mcp_Exception string

definition tenant_id_from_context :: "metadata option \<Rightarrow> string + string" where
  "tenant_id_from_context headers =
     (case headers of
        None \<Rightarrow> Inl ''missing x-tenant-id header''
      | Some hs \<Rightarrow>
          (case md_get hs ''x-tenant-id'' of
             None \<Rightarrow> Inl ''missing x-tenant-id header''
           | Some tenant_id \<Rightarrow> if tenant_id = [] then Inl ''missing x-tenant-id header'' else Inr tenant_id))"

definition mcp_tenant_id :: "metadata option \<Rightarrow> mcp_error + string" where
  "mcp_tenant_id headers =
     (case tenant_id_from_context headers of Inl exc \<Rightarrow> Inl (Mcp_Error invalid_request exc) | Inr t \<Rightarrow> Inr t)"

section \<open>server.py\<close>

text \<open>\<open>ms_load\<close> opens a session and reads the tables; it may raise.\<close>

record ('w, 'st) mcp_server =
  mv_env :: "('w, 'st) mcp_env"
  mv_rank :: "string \<Rightarrow> int"
  mv_load :: "'w \<Rightarrow> string + aes_db"

definition empty_input_schema :: "(string \<times> json) list" where
  "empty_input_schema = [(''type'', JStr ''object''), (''properties'', JObj [])]"

definition tool_of_row :: "('w, 'st) mcp_env \<Rightarrow> tool_row \<Rightarrow> mcp_tool" where
  "tool_of_row env row =
     (let h = get_handler env (t_name row);
          fallback = (case h of None \<Rightarrow> [] | Some h \<Rightarrow> hd_description h)
      in \<lparr>mt_name = t_name row,
          mt_description = Some (case t_description row of None \<Rightarrow> fallback | Some d \<Rightarrow> if d = [] then fallback else d),
          mt_input_schema = Some (case h of None \<Rightarrow> empty_input_schema | Some h \<Rightarrow> hd_input_schema h)\<rparr>)"

definition on_list_tools :: "('w, 'st) mcp_server \<Rightarrow> metadata option \<Rightarrow> ('w, mcp_error, mcp_tool list) comp" where
  "on_list_tools sv headers =
     bindS (liftS (mcp_tenant_id headers)) (\<lambda>tenant_id w.
     case mv_load sv w of
       Inl exc \<Rightarrow> (Inl (Mcp_Exception exc), w)
     | Inr db \<Rightarrow> (Inr (map (tool_of_row (mv_env sv)) (list_tools_for_tenant (mv_rank sv) tenant_id db)), w))"

definition error_result :: "string \<Rightarrow> mcp_result" where
  "error_result s = \<lparr>mr_content = [Text_Block s], mr_is_error = True\<rparr>"

definition on_call_tool ::
    "('w, 'st) mcp_server \<Rightarrow> metadata option \<Rightarrow> string \<Rightarrow> (string \<times> json) list option \<Rightarrow> ('w, mcp_error, mcp_result) comp" where
  "on_call_tool sv headers name arguments =
     bindS (liftS (mcp_tenant_id headers)) (\<lambda>tenant_id w.
     case mv_load sv w of
       Inl exc \<Rightarrow> (Inl (Mcp_Exception exc), w)
     | Inr db \<Rightarrow>
         (case get_tool_by_name tenant_id name db of
            None \<Rightarrow> (Inr (error_result (''tool '' @ py_repr name @ '' not found in the catalog'')), w)
          | Some _ \<Rightarrow>
              (case get_handler (mv_env sv) name of
                 None \<Rightarrow> (Inr (error_result (''tool '' @ py_repr name @ '' has no execution binding configured'')), w)
               | Some h \<Rightarrow>
                   (case hd_run h (case arguments of None \<Rightarrow> [] | Some a \<Rightarrow> a) tenant_id w of
                      (Inl exc, w') \<Rightarrow> (Inr (error_result (''tool '' @ py_repr name @ '' failed: '' @ exc)), w')
                    | (Inr result, w') \<Rightarrow> (Inr \<lparr>mr_content = [Text_Block result], mr_is_error = False\<rparr>, w')))))"

text \<open>The session the orchestrator opens on this server; the text of an MCP error is its message.\<close>

definition mcp_error_str :: "mcp_error \<Rightarrow> string" where
  "mcp_error_str e = (case e of Mcp_Error _ m \<Rightarrow> m | Mcp_Exception m \<Rightarrow> m)"

definition str_errors :: "('w, mcp_error, 'a) comp \<Rightarrow> ('w, string, 'a) comp" where
  "str_errors m w = (case m w of (Inl e, w') \<Rightarrow> (Inl (mcp_error_str e), w') | (Inr a, w') \<Rightarrow> (Inr a, w'))"

definition session_on :: "('w, 'st) mcp_server \<Rightarrow> 'w mcp_session" where
  "session_on sv =
     \<lparr>mcp_list_tools = (\<lambda>tenant_id. str_errors (on_list_tools sv (Some [(''x-tenant-id'', tenant_id)]))),
      mcp_call_tool = (\<lambda>tenant_id name arguments.
        str_errors (on_call_tool sv (Some [(''x-tenant-id'', tenant_id)]) name (Some arguments)))\<rparr>"

section \<open>Lemmas\<close>

lemma get_tool_by_name_Some:
  "get_tool_by_name tenant_id name db = Some t \<Longrightarrow> t \<in> set (tools db) \<and> t_tenant_id t = tenant_id \<and> t_name t = name"
  by (auto simp: get_tool_by_name_def select_where_def filter_eq_Cons_iff split: list.splits)

lemma get_tool_by_name_None:
  "get_tool_by_name tenant_id name db = None \<longleftrightarrow> (\<forall>t \<in> set (tools db). t_tenant_id t = tenant_id \<longrightarrow> t_name t \<noteq> name)"
  by (auto simp: get_tool_by_name_def select_where_def filter_empty_conv filter_eq_Cons_iff split: list.splits)

lemma handler_names: "get_handler env name = Some h \<Longrightarrow> name \<in> {''http_request'', ''query_database''} \<and> hd_name h = name"
  by (auto simp: get_handler_def handlers_def split: if_splits)

lemma mcp_tenant_header [simp]: "mcp_tenant_id (Some [(''x-tenant-id'', t)]) =
    (if t = [] then Inl (Mcp_Error invalid_request ''missing x-tenant-id header'') else Inr t)"
  by (simp add: mcp_tenant_id_def tenant_id_from_context_def)

end
