(* ===== verification/Mcp_Edge.thy ===== *)
theory Mcp_Edge
  imports Mcp_Server
begin

text \<open>
  What a tool call of \<open>mcp_svc\<close> may do to the outside world: at most one HTTP request or one SQL
  statement, for a tool of the caller's catalog, to a host that is no internal address, or over
  the tenant's own rows. Every such effect is logged.
\<close>

section \<open>Internal addresses\<close>

lemma div_by_bounds:
  fixes n k q :: int
  assumes "q * k \<le> n" and "n < q * k + k"
  shows "n div k = q"
proof -
  have "0 < k" using assms by linarith
  moreover have "n = k * q + (n - q * k)" by (simp add: algebra_simps)
  ultimately show ?thesis using assms by (intro int_div_pos_eq [of n k q "n - q * k"]) auto
qed

definition dotted :: "nat \<Rightarrow> nat \<Rightarrow> nat \<Rightarrow> nat \<Rightarrow> string" where
  "dotted a b c d = py_join ''.'' [str_nat a, str_nat b, str_nat c, str_nat d]"

text \<open>Loopback, private, link-local (the cloud metadata endpoints), multicast, reserved and \<open>0.0.0.0/8\<close>.\<close>

definition internal_quad :: "nat \<Rightarrow> nat \<Rightarrow> bool" where
  "internal_quad a b \<longleftrightarrow> a \<in> {0, 10, 127} \<or> (a = 169 \<and> b = 254) \<or> (a = 172 \<and> 16 \<le> b \<and> b \<le> 31) \<or>
     (a = 192 \<and> b = 168) \<or> 224 \<le> a"

lemma foldl_int_digits:
  "\<forall>c \<in> set s. ascii_digit c \<Longrightarrow>
     foldl (\<lambda>a c. 10 * a + (of_char c - 48)) (int k) s = int (foldl (\<lambda>a c. 10 * a + (ordc c - 48)) k s)"
proof (induction s arbitrary: k)
  case (Cons c s)
  have "48 \<le> ordc c" using Cons.prems by (simp add: ascii_digit_def)
  then have "10 * int k + (of_char c - 48) = int (10 * k + (ordc c - 48))"
    by (simp add: of_nat_diff of_nat_of_char)
  then show ?case using Cons.IH [of "10 * k + (ordc c - 48)"] Cons.prems by simp
qed simp

lemma length_str_nat: "n < 1000 \<Longrightarrow> length (str_nat n) \<le> 3"
proof -
  assume "n < 1000"
  then have "n div 10 div 10 < 10" by simp
  then have "length (str_nat (n div 10 div 10)) = 1" by (subst str_nat.simps) simp
  moreover have "length (str_nat m) \<le> length (str_nat (m div 10)) + 1" for m
    by (subst str_nat.simps) (simp add: Suc_le_eq)
  ultimately show ?thesis using order_trans [of "length (str_nat n)" "length (str_nat (n div 10)) + 1"]
    by (metis add.commute add_le_mono numeral_3_eq_3 One_nat_def plus_1_eq_Suc Suc_le_mono)
qed

lemma parse_octet_str:
  assumes "n \<le> 255"
  shows "parse_octet (str_nat n) = Some (int n)"
proof -
  have "foldl (\<lambda>a c. 10 * a + (of_char c - 48)) 0 (str_nat n) = int n"
    using foldl_int_digits [of "str_nat n" 0] str_nat_digits [of n] by (simp add: foldl_str_nat)
  moreover have "hd (str_nat n) \<noteq> CHR ''0'' \<or> str_nat n = ''0''" using str_nat_leading_zero [of n] str_nat_0 by blast
  moreover have "length (str_nat n) \<le> 3" using assms by (intro length_str_nat) simp
  ultimately show ?thesis using assms str_nat_digits [of n] by (auto simp: parse_octet_def list_all_iff)
qed

lemma str_nat_free: "\<not> ascii_digit c \<Longrightarrow> c \<notin> set (str_nat n)"
  using str_nat_digits by blast

lemma parse_ipv4_dotted:
  assumes "a \<le> 255" "b \<le> 255" "c \<le> 255" "d \<le> 255"
  shows "parse_ipv4 (dotted a b c d) = Some (v4 (int a) (int b) (int c) (int d))"
proof -
  have dot: "CHR ''.'' \<notin> set (str_nat n)" "CHR ''/'' \<notin> set (str_nat n)" for n
    by (rule str_nat_free; simp add: ascii_digit_def)+
  have "split_on (CHR ''.'') (dotted a b c d) = [str_nat a, str_nat b, str_nat c, str_nat d]"
    by (simp add: dotted_def split_on_append split_on_free dot)
  moreover have "CHR ''/'' \<notin> set (dotted a b c d)" by (simp add: dotted_def dot)
  ultimately show ?thesis using assms by (simp add: parse_ipv4_def parse_octet_str v4_def)
qed

lemma v4_bounds:
  assumes "b \<le> 255" "c \<le> 255" "d \<le> 255" "0 \<le> b" "0 \<le> c" "0 \<le> d"
  shows "a * 16777216 + b * 65536 \<le> v4 a b c d \<and> v4 a b c d < a * 16777216 + b * 65536 + 65536"
  using assms by (simp add: v4_def)

lemma in_net_quad:
  assumes "b \<le> 255" "c \<le> 255" "d \<le> 255" "0 \<le> b" "0 \<le> c" "0 \<le> d"
  shows "in_net 32 (v4 a b c d) (v4 a 0 0 0, 8)" and "in_net 32 (v4 a b c d) (v4 a b 0 0, 16)"
proof -
  have "v4 a b c d div 16777216 = a" "v4 a 0 0 0 div 16777216 = a"
    using v4_bounds [OF assms, of a] v4_bounds [of 0 0 0 a] assms by (intro div_by_bounds; simp)+
  then show "in_net 32 (v4 a b c d) (v4 a 0 0 0, 8)" by (simp add: in_net_def)
  have "v4 a b c d div 65536 = a * 256 + b" "v4 a b 0 0 div 65536 = a * 256 + b"
    using v4_bounds [OF assms, of a] v4_bounds [of b 0 0 a] assms by (intro div_by_bounds; simp)+
  then show "in_net 32 (v4 a b c d) (v4 a b 0 0, 16)" by (simp add: in_net_def)
qed

lemma internal_special:
  assumes quad: "internal_quad a b" and "a \<le> 255" "b \<le> 255" "c \<le> 255" "d \<le> 255"
  shows "v4_special (v4 (int a) (int b) (int c) (int d))"
proof -
  let ?n = "v4 (int a) (int b) (int c) (int d)"
  note net = in_net_quad [of "int b" "int c" "int d" "int a"]
  note bounds = v4_bounds [of "int b" "int c" "int d" "int a"]
  have exc: "\<not> list_ex (in_net 32 ?n) v4_private_exceptions" if "a \<noteq> 192 \<or> b \<noteq> 0"
  proof -
    from that consider "a \<le> 191" | "a = 192" "1 \<le> b" | "193 \<le> a" by linarith
    then have "?n \<noteq> 3221225481 \<and> ?n \<noteq> 3221225482"
      using bounds assms by cases linarith+
    then show ?thesis by (auto simp: v4_private_exceptions_def in_net_def v4_def)
  qed
  from quad consider "a \<in> {0, 10, 127}" | "a = 169" "b = 254" | "a = 172" "16 \<le> b" "b \<le> 31" | "a = 192" "b = 168"
    | "224 \<le> a" unfolding internal_quad_def by blast
  then show ?thesis
  proof cases
    case 1
    then have "list_ex (in_net 32 ?n) v4_private_networks"
      using net(1) assms by (auto simp: v4_private_networks_def)
    then show ?thesis using exc 1 by (auto simp: v4_special_def v4_is_private_def)
  next
    case 2
    then show ?thesis using net(2) assms by (simp add: v4_special_def)
  next
    case 3
    have "?n div 1048576 = 2753" using bounds 3 assms by (intro div_by_bounds; simp)
    moreover have "v4 172 16 0 0 div 1048576 = 2753" by (simp add: v4_def)
    ultimately have "list_ex (in_net 32 ?n) v4_private_networks" by (simp add: v4_private_networks_def in_net_def)
    then show ?thesis using exc 3 by (auto simp: v4_special_def v4_is_private_def)
  next
    case 4
    then have "list_ex (in_net 32 ?n) v4_private_networks"
      using net(2) assms by (auto simp: v4_private_networks_def)
    then show ?thesis using exc 4 by (auto simp: v4_special_def v4_is_private_def)
  next
    case 5
    have "?n div 268435456 = 14 \<or> ?n div 268435456 = 15"
    proof (cases "a < 240")
      case True
      then have "?n div 268435456 = 14" using bounds 5 assms by (intro div_by_bounds; simp)
      then show ?thesis ..
    next
      case False
      then have "?n div 268435456 = 15" using bounds assms by (intro div_by_bounds; simp)
      then show ?thesis ..
    qed
    then show ?thesis by (auto simp: v4_special_def in_net_def v4_def)
  qed
qed

text \<open>The host an accepted URL names.\<close>

definition url_host :: "string \<Rightarrow> string option" where
  "url_host url = (case urlsplit url of None \<Rightarrow> None | Some (_, netloc) \<Rightarrow> url_hostname netloc)"

text \<open>C32. No URL that passes the check names an internal IPv4 literal: an accepted URL has the scheme
  http or https and a host that is not on the blocklist, not under \<open>.localhost\<close>, and no dotted quad
  of a loopback, private, link-local (cloud metadata), multicast, reserved or \<open>0.0.0.0/8\<close> address.\<close>

theorem public_url_is_not_internal:
  assumes "assert_url_is_public url = Inr ()"
  shows "\<exists>scheme netloc host. urlsplit url = Some (scheme, netloc) \<and> url_host url = Some host \<and>
    py_lower scheme \<in> {''http'', ''https''} \<and> py_lower host \<notin> set http_blocked_hostnames \<and>
    \<not> ends_with ''.localhost'' (py_lower host) \<and>
    (\<forall>a b c d. internal_quad a b \<and> a \<le> 255 \<and> b \<le> 255 \<and> c \<le> 255 \<and> d \<le> 255 \<longrightarrow> host \<noteq> dotted a b c d)"
proof -
  obtain scheme netloc where url: "urlsplit url = Some (scheme, netloc)"
    using assms by (auto simp: assert_url_is_public_def split: option.splits)
  with assms obtain host where host: "url_hostname netloc = Some host"
    by (auto simp: assert_url_is_public_def split: option.splits if_splits)
  have parts: "py_lower scheme \<in> {''http'', ''https''}" "py_lower host \<notin> set http_blocked_hostnames"
    "\<not> ends_with ''.localhost'' (py_lower host)" "\<And>i. ip_address host = Some i \<Longrightarrow> \<not> ip_special i"
    using assms by (auto simp: assert_url_is_public_def url host http_allowed_schemes_def split: option.splits if_splits)
  have "host \<noteq> dotted a b c d" if "internal_quad a b" "a \<le> 255" "b \<le> 255" "c \<le> 255" "d \<le> 255" for a b c d
    using parts(4) internal_special [OF that] parse_ipv4_dotted [OF that(2-5)] by (auto simp: ip_address_def)
  then show ?thesis using url host parts by (auto simp: url_host_def)
qed

theorem public_url_is_not_internal_witness:
  "assert_url_is_public ''https://93.184.216.34:443/x?y'' = Inr () \<and>
   url_host ''https://93.184.216.34:443/x?y'' \<noteq> Some (dotted 169 254 169 254) \<and>
   assert_url_is_public ''http://user@169.254.169.254/latest'' \<noteq> Inr ()"
proof -
  have ok: "assert_url_is_public ''https://93.184.216.34:443/x?y'' = Inr ()" by code_simp
  have no: "assert_url_is_public ''http://user@169.254.169.254/latest'' \<noteq> Inr ()" by code_simp
  obtain host where "url_host ''https://93.184.216.34:443/x?y'' = Some host" "host \<noteq> dotted 169 254 169 254"
    using public_url_is_not_internal [OF ok] by (auto simp: internal_quad_def)
  with ok no show ?thesis by simp
qed

text \<open>Other spellings of the loopback address are host names to the check.\<close>

lemma short_loopback_passes:
  "assert_url_is_public ''http://127.1/'' = Inr ()"
  "assert_url_is_public ''http://2130706433/'' = Inr ()"
  "assert_url_is_public ''http://0x7f.1/'' = Inr ()"
  "assert_url_is_public ''http://localhost./'' = Inr ()"
  by code_simp+

section \<open>Effects\<close>

datatype tool_effect = Http_Effect http_request | Sql_Effect string string

definition logged_env :: "('w, 'st) mcp_env \<Rightarrow> ('w \<times> tool_effect list, 'st) mcp_env" where
  "logged_env env =
     \<lparr>me_json = me_json env, me_upper = me_upper env, me_max_response_chars = me_max_response_chars env,
      me_http = (\<lambda>q (w, effects). let (r, w') = me_http env q w in (r, (w', effects @ [Http_Effect q]))),
      me_sqlglot = me_sqlglot env,
      me_execute = (\<lambda>sql tenant_id (w, effects).
        let (r, w') = me_execute env sql tenant_id w in (r, (w', effects @ [Sql_Effect sql tenant_id])))\<rparr>"

definition logged_server :: "('w, 'st) mcp_server \<Rightarrow> ('w \<times> tool_effect list, 'st) mcp_server" where
  "logged_server sv =
     \<lparr>mv_env = logged_env (mv_env sv), mv_rank = mv_rank sv, mv_load = (\<lambda>(w, _). mv_load sv w)\<rparr>"

text \<open>Setting the names of a statement's tables changes these names only.\<close>

definition retarget_ok :: "'st sqlglot \<Rightarrow> bool" where
  "retarget_ok sg \<longleftrightarrow> (\<forall>st ns. length ns = length (sg_tables sg st) \<longrightarrow>
     sg_tables sg (sg_retarget sg st ns) = zip (map fst (sg_tables sg st)) ns \<and>
     sg_is_select sg (sg_retarget sg st ns) = sg_is_select sg st \<and>
     sg_has_with sg (sg_retarget sg st ns) = sg_has_with sg st)"

text \<open>A plain SELECT whose tables are the tenant's views, and nothing else.\<close>

definition tenant_scoped :: "'st sqlglot \<Rightarrow> 'st \<Rightarrow> bool" where
  "tenant_scoped sg st \<longleftrightarrow> sg_is_select sg st \<and> \<not> sg_has_with sg st \<and> sg_tables sg st \<noteq> [] \<and>
     (\<forall>t \<in> set (sg_tables sg st). fst t = [] \<and> snd t \<in> {''__tenant_customers'', ''__tenant_invoices''})"

lemma validated_scoped:
  assumes ok: "retarget_ok sg" and v: "validate_query_database_sql sg query = Inr st"
  shows "tenant_scoped sg st"
proof -
  from v obtain stmt where s: "sg_is_select sg stmt" "\<not> sg_has_with sg stmt"
      "\<not> list_ex (\<lambda>t. fst t \<noteq> []) (sg_tables sg stmt)"
    and names: "map (\<lambda>t. py_lower (snd t)) (sg_tables sg stmt) \<noteq> []"
      "list_all (\<lambda>n. n \<in> set query_allowed_tables) (map (\<lambda>t. py_lower (snd t)) (sg_tables sg stmt))"
    and st: "st = sg_retarget sg stmt (map (\<lambda>n. the (map_of scoped_table_name n)) (map (\<lambda>t. py_lower (snd t)) (sg_tables sg stmt)))"
    by (auto simp: validate_query_database_sql_def Let_def split: sum.splits sqlglot_error.splits list.splits if_splits)
  have scoped: "the (map_of scoped_table_name n) \<in> {''__tenant_customers'', ''__tenant_invoices''}"
    if "n \<in> set query_allowed_tables" for n
    using that by (auto simp: query_allowed_tables_def scoped_table_name_def)
  have tables: "sg_tables sg st = zip (map fst (sg_tables sg stmt))
      (map (\<lambda>n. the (map_of scoped_table_name n)) (map (\<lambda>t. py_lower (snd t)) (sg_tables sg stmt)))"
    and keep: "sg_is_select sg st = sg_is_select sg stmt" "sg_has_with sg st = sg_has_with sg stmt"
    using ok unfolding st retarget_ok_def by simp_all
  have "fst t = [] \<and> snd t \<in> {''__tenant_customers'', ''__tenant_invoices''}" if "t \<in> set (sg_tables sg st)" for t
  proof -
    from that tables have z: "(fst t, snd t) \<in> set (zip (map fst (sg_tables sg stmt))
        (map (\<lambda>n. the (map_of scoped_table_name n)) (map (\<lambda>t. py_lower (snd t)) (sg_tables sg stmt))))"
      by simp
    have "fst t \<in> fst ` set (sg_tables sg stmt)" using set_zip_leftD [OF z] by simp
    moreover have "snd t \<in> (\<lambda>x. the (map_of scoped_table_name (py_lower (snd x)))) ` set (sg_tables sg stmt)"
      using set_zip_rightD [OF z] by simp
    moreover note s(3) names(2) scoped
    ultimately show ?thesis by (fastforce simp: list_ex_iff list_all_iff)
  qed
  moreover have "sg_tables sg st \<noteq> []" using tables names(1) by (cases "sg_tables sg stmt") auto
  ultimately show ?thesis using s keep by (simp add: tenant_scoped_def)
qed

text \<open>What a call of tool \<open>name\<close> by a tenant may do.\<close>

definition effect_ok :: "'st sqlglot \<Rightarrow> string \<Rightarrow> string \<Rightarrow> tool_effect \<Rightarrow> bool" where
  "effect_ok sg tenant_id name e \<longleftrightarrow>
     (case e of
        Http_Effect q \<Rightarrow> name = ''http_request'' \<and> assert_url_is_public (hq_url q) = Inr () \<and> hq_method q \<noteq> []
      | Sql_Effect sql t \<Rightarrow> name = ''query_database'' \<and> t = tenant_id \<and>
          (\<exists>st. sql = tenant_scope_cte @ sg_sql sg st \<and> tenant_scoped sg st))"

lemma http_effects:
  assumes "run_http_request (logged_env env) args tenant_id (w, effects) = (r, (w', effects'))"
  shows "(w' = w \<and> effects' = effects) \<or>
    (\<exists>e. effects' = effects @ [e] \<and> effect_ok (me_sqlglot env) tenant_id ''http_request'' e)"
  using assms
  by (auto simp: run_http_request_def logged_env_def Let_def bindS_def effect_ok_def
      split: if_splits sum.splits prod.splits http_error.splits)

lemma sql_effects:
  assumes ok: "retarget_ok (me_sqlglot env)"
    and run: "run_query_database (logged_env env) args tenant_id (w, effects) = (r, (w', effects'))"
  shows "(w' = w \<and> effects' = effects) \<or>
    (\<exists>e. effects' = effects @ [e] \<and> effect_ok (me_sqlglot env) tenant_id ''query_database'' e)"
proof -
  define query where "query = py_strip (str_arg (me_json env) args ''query'')"
  show ?thesis
  proof (cases "query = [] \<or> (\<nexists>st. validate_query_database_sql (me_sqlglot env) query = Inr st)")
    case True
    with run show ?thesis
      by (auto simp: run_query_database_def logged_env_def query_def [symmetric] split: if_splits sum.splits sql_reject.splits)
  next
    case False
    then obtain st where st: "query \<noteq> []" "validate_query_database_sql (me_sqlglot env) query = Inr st" by blast
    have "effect_ok (me_sqlglot env) tenant_id ''query_database''
        (Sql_Effect (tenant_scope_cte @ sg_sql (me_sqlglot env) st) tenant_id)"
      using validated_scoped [OF ok st(2)] by (auto simp: effect_ok_def)
    with run st show ?thesis
      by (auto simp: run_query_database_def logged_env_def query_def [symmetric] split: sum.splits prod.splits db_error.splits)
  qed
qed

lemma handler_effects:
  assumes "retarget_ok (me_sqlglot env)" and "get_handler (logged_env env) name = Some h"
    and "hd_run h args tenant_id (w, effects) = (r, (w', effects'))"
  shows "(w' = w \<and> effects' = effects) \<or>
    (\<exists>e. effects' = effects @ [e] \<and> effect_ok (me_sqlglot env) tenant_id name e)"
  using assms http_effects [of env args tenant_id w effects r w' effects']
    sql_effects [of env args tenant_id w effects r w' effects']
  by (auto simp: get_handler_def handlers_def split: if_splits)

lemma get_handler_logged: "(get_handler (logged_env env) name = None) = (get_handler env name = None)"
  by (simp add: get_handler_def handlers_def)

lemma call_effects:
  assumes ok: "retarget_ok (me_sqlglot (mv_env sv))"
    and run: "on_call_tool (logged_server sv) headers name args (w, effects) = (r, (w', effects'))"
  shows "(w' = w \<and> effects' = effects) \<or>
    (\<exists>tenant_id db t e. mcp_tenant_id headers = Inr tenant_id \<and> mv_load sv w = Inr db \<and>
       t \<in> set (tools db) \<and> t_tenant_id t = tenant_id \<and> t_name t = name \<and>
       effects' = effects @ [e] \<and> effect_ok (me_sqlglot (mv_env sv)) tenant_id name e)"
proof (cases "w' = w \<and> effects' = effects")
  case False
  with run obtain tenant_id db t h where
    c: "mcp_tenant_id headers = Inr tenant_id" "mv_load sv w = Inr db" "get_tool_by_name tenant_id name db = Some t"
      "get_handler (logged_env (mv_env sv)) name = Some h"
      "snd (hd_run h (case args of None \<Rightarrow> [] | Some a \<Rightarrow> a) tenant_id (w, effects)) = (w', effects')"
    by (auto simp: on_call_tool_def logged_server_def bindS_def split: sum.splits option.splits prod.splits)
  obtain r' where "hd_run h (case args of None \<Rightarrow> [] | Some a \<Rightarrow> a) tenant_id (w, effects) = (r', (w', effects'))"
    using c(5) by (metis prod.collapse)
  from handler_effects [OF ok c(4) this] False c(1-3) get_tool_by_name_Some [OF c(3)] show ?thesis by blast
qed simp

text \<open>C12. A tool call does at most one thing to the outside, and only for a tool of the caller's own
  catalog: one HTTP request to a URL that passed the check, for \<open>http_request\<close>, or one SQL statement
  for \<open>query_database\<close>, which is a plain SELECT without \<open>WITH\<close> over the views that hold the rows of
  the caller's tenant, run with the caller's tenant. A call without a tenant, of an unknown tool,
  or of a tool without a handler does nothing.\<close>

theorem mcp_calls_confined:
  assumes "retarget_ok (me_sqlglot (mv_env sv))"
    and "on_call_tool (logged_server sv) headers name args (w, []) = (r, (w', effects))"
  shows "effects = [] \<and> w' = w \<or>
    (\<exists>tenant_id db t e. mcp_tenant_id headers = Inr tenant_id \<and> mv_load sv w = Inr db \<and>
       t \<in> set (tools db) \<and> t_tenant_id t = tenant_id \<and> t_name t = name \<and>
       effects = [e] \<and> effect_ok (me_sqlglot (mv_env sv)) tenant_id name e)"
  using call_effects [OF assms] by auto

text \<open>A parser whose statements are their table nodes, and a catalog with one tool.\<close>

definition sample_sqlglot :: "(string \<times> string) list sqlglot" where
  "sample_sqlglot =
     \<lparr>sg_parse = (\<lambda>query. Inr [Some [([], query)]]), sg_is_select = (\<lambda>_. True), sg_has_with = (\<lambda>_. False),
      sg_tables = (\<lambda>st. st), sg_retarget = (\<lambda>st ns. zip (map fst st) ns),
      sg_sql = (\<lambda>st. ''SELECT * FROM '' @ py_join '', '' (map snd st))\<rparr>"

definition sample_catalog :: aes_db where
  "sample_catalog = \<lparr>agents = [\<lparr>a_id = ''a'', a_tenant_id = ''t'', a_name = ''clerk'',
     a_instructions = ''help'', a_llm_config_name = ''m'', a_llm_config_temperature = 0, a_version = 1,
     a_created_at = 0, a_updated_at = 0\<rparr>],
     tools = [\<lparr>t_id = ''q'', t_tenant_id = ''t'', t_name = ''query_database'',
     t_description = None, t_mutating = False, t_version = 1, t_created_at = 0, t_updated_at = 0\<rparr>],
     agent_tools = [\<lparr>at_agent_id = ''a'', at_tool_id = ''q''\<rparr>], tasks = []\<rparr>"

definition sample_mcp :: "(unit, (string \<times> string) list) mcp_server" where
  "sample_mcp =
     \<lparr>mv_env = \<lparr>me_json = \<lparr>wide_char = (\<lambda>_. CHR ''?''), float_str = (\<lambda>s. s)\<rparr>, me_upper = (\<lambda>s. s),
        me_max_response_chars = 20000, me_http = (\<lambda>_ w. (Inl (Http_Error []), w)), me_sqlglot = sample_sqlglot,
        me_execute = (\<lambda>_ _ w. (Inr [[(''id'', JInt 7)]], w))\<rparr>,
      mv_rank = (\<lambda>_. 0), mv_load = (\<lambda>_. Inr sample_catalog)\<rparr>"

lemma sample_retarget: "retarget_ok sample_sqlglot"
  by (simp add: retarget_ok_def sample_sqlglot_def)

lemma sample_call:
  obtains r where "on_call_tool (logged_server sample_mcp) (Some [(''x-tenant-id'', ''t'')]) ''query_database''
      (Some [(''query'', JStr ''Invoices'')]) ((), []) =
    (Inr r, ((), [Sql_Effect (tenant_scope_cte @ ''SELECT * FROM __tenant_invoices'') ''t'']))"
proof -
  have strip: "py_strip ''Invoices'' = ''Invoices''" by code_simp
  have valid: "validate_query_database_sql sample_sqlglot ''Invoices'' = Inr [([], ''__tenant_invoices'')]" by code_simp
  have str: "py_str_json lib (JStr s) = s" for lib s by (simp add: py_str_json_def)
  have sql: "sg_sql sample_sqlglot [([], ''__tenant_invoices'')] = ''SELECT * FROM __tenant_invoices''"
    by (simp add: sample_sqlglot_def)
  have env: "me_sqlglot (logged_env (mv_env sample_mcp)) = sample_sqlglot"
    "me_execute (logged_env (mv_env sample_mcp)) q t ((), []) = (Inr [[(''id'', JInt 7)]], ((), [Sql_Effect q t]))" for q t
    by (simp_all add: logged_env_def sample_mcp_def)
  obtain h where h: "get_handler (logged_env (mv_env sample_mcp)) ''query_database'' = Some h"
    "hd_run h = run_query_database (logged_env (mv_env sample_mcp))"
    by (simp add: get_handler_def handlers_def)
  obtain row where row: "get_tool_by_name ''t'' ''query_database'' sample_catalog = Some row"
    by (simp add: get_tool_by_name_def select_where_def sample_catalog_def)
  have server: "mv_load (logged_server sample_mcp) ((), []) = Inr sample_catalog"
    "mv_env (logged_server sample_mcp) = logged_env (mv_env sample_mcp)"
    by (simp_all add: logged_server_def sample_mcp_def)
  have call: "\<exists>r. run_query_database (logged_env (mv_env sample_mcp)) [(''query'', JStr ''Invoices'')] ''t'' ((), []) =
      (Inr r, ((), [Sql_Effect (tenant_scope_cte @ ''SELECT * FROM __tenant_invoices'') ''t'']))"
    by (simp add: run_query_database_def str_arg_def arg_def str strip valid env sql)
  then show ?thesis using that by (auto simp: on_call_tool_def bindS_def row h server)
qed

theorem mcp_calls_confined_witness:
  "case on_call_tool (logged_server sample_mcp) (Some [(''x-tenant-id'', ''t'')]) ''query_database''
      (Some [(''query'', JStr ''Invoices'')]) ((), []) of
     (_, (_, effects)) \<Rightarrow>
        effects = [Sql_Effect (tenant_scope_cte @ ''SELECT * FROM __tenant_invoices'') ''t''] \<and>
        effect_ok sample_sqlglot ''t'' ''query_database'' (hd effects)"
proof -
  obtain r where run: "on_call_tool (logged_server sample_mcp) (Some [(''x-tenant-id'', ''t'')]) ''query_database''
      (Some [(''query'', JStr ''Invoices'')]) ((), []) =
    (Inr r, ((), [Sql_Effect (tenant_scope_cte @ ''SELECT * FROM __tenant_invoices'') ''t'']))"
    by (rule sample_call)
  have "retarget_ok (me_sqlglot (mv_env sample_mcp))" by (simp add: sample_mcp_def sample_retarget)
  from mcp_calls_confined [OF this run] run show ?thesis by (auto simp: sample_mcp_def effect_ok_def)
qed

end
