(* ===== verification/Orc_Mcp.thy ===== *)
theory Orc_Mcp
  imports Orc_Edge Mcp_Edge
begin

text \<open>
  The orchestrator over \<open>mcp_svc\<close>: a turn of a group chat, down to the effects its tool calls have
  on the outside world. The session the workbenches use is the server of \<open>Mcp_Server\<close>.
\<close>

definition over_mcp :: "('w, 'st) mcp_server \<Rightarrow> 'w orchestrator \<Rightarrow> ('w \<times> tool_effect list) orchestrator" where
  "over_mcp sv orc =
     \<lparr>oc_autogen = oc_autogen orc, oc_max_messages = oc_max_messages orc, oc_rank = oc_rank orc,
      oc_load = (\<lambda>(w, _). oc_load orc w),
      oc_services =
        \<lparr>sv_float32 = sv_float32 (oc_services orc),
         sv_gateway = (\<lambda>request (w, effects).
           let (r, w') = sv_gateway (oc_services orc) request w in (r, (w', effects))),
         sv_mcp = session_on (logged_server sv)\<rparr>\<rparr>"

lemma over_mcp_simps [simp]:
  "oc_load (over_mcp sv orc) (w, effects) = oc_load orc w"
  "built_chat (over_mcp sv orc) = built_chat orc"
  "sv_mcp (oc_services (over_mcp sv orc)) = session_on (logged_server sv)"
  by (simp_all add: over_mcp_def built_chat_def fun_eq_iff)

text \<open>What the tool calls of a group chat may do.\<close>

definition chat_effect :: "('w, 'st) mcp_server \<Rightarrow> group_chat \<Rightarrow> tool_effect \<Rightarrow> bool" where
  "chat_effect sv gc e \<longleftrightarrow> (\<exists>i name. i < length (gc_workbenches gc) \<and> permitted (gc_workbenches gc ! i) name \<and>
     effect_ok (me_sqlglot (mv_env sv)) (wb_tenant_id (gc_workbenches gc ! i)) name e)"

lemma session_effects:
  assumes "retarget_ok (me_sqlglot (mv_env sv))"
    and "mcp_call_tool (session_on (logged_server sv)) tenant_id name args (w, effects) = (r, (w', effects'))"
  shows "effects' = effects \<or> (\<exists>e. effects' = effects @ [e] \<and> effect_ok (me_sqlglot (mv_env sv)) tenant_id name e)"
proof -
  obtain r0 where "on_call_tool (logged_server sv) (Some [(''x-tenant-id'', tenant_id)]) name (Some args) (w, effects) =
      (r0, (w', effects'))"
    using assms(2) by (auto simp: session_on_def str_errors_def split: prod.splits sum.splits)
  from call_effects [OF assms(1) this] show ?thesis by (auto split: if_splits)
qed

lemma call_tool_effects:
  assumes "retarget_ok (me_sqlglot (mv_env sv))" and "i < length (gc_workbenches gc)"
    and "call_tool (session_on (logged_server sv)) (gc_workbenches gc ! i) name args (p, (w, effects)) = (z, (p', (w', effects')))"
  shows "effects' = effects \<or> (\<exists>e. effects' = effects @ [e] \<and> chat_effect sv gc e)"
proof (cases "permitted (gc_workbenches gc ! i) name")
  case True
  then obtain r where "mcp_call_tool (session_on (logged_server sv)) (wb_tenant_id (gc_workbenches gc ! i)) name
      (case args of None \<Rightarrow> [] | Some a \<Rightarrow> a) (w, effects) = (r, (w', effects'))"
    using assms(3) by (auto simp: call_tool_def permitted_def Let_def split: if_splits prod.splits sum.splits)
  from session_effects [OF assms(1) this] True assms(2) show ?thesis unfolding chat_effect_def by blast
next
  case False
  with assms(3) show ?thesis by (auto simp: call_tool_def permitted_def split: if_splits)
qed

lemma list_tools_effects:
  "list_tools (session_on (logged_server sv)) wb (w, effects) = (y, (w', effects')) \<Longrightarrow> effects' = effects"
  by (auto simp: list_tools_def session_on_def str_errors_def on_list_tools_def bindS_def
      split: if_splits prod.splits sum.splits)

lemma client_effects:
  "client_create f (sv_gateway (oc_services (over_mcp sv orc))) temp ms schemas choice (c, (w, effects)) =
     (x, (c', (w', effects'))) \<Longrightarrow> effects' = effects"
  by (auto simp: client_create_def over_mcp_def Let_def split: prod.splits sum.splits)

definition effects_confined ::
    "('w, 'st) mcp_server \<Rightarrow> group_chat \<Rightarrow> ('w \<times> tool_effect list) chat_state \<Rightarrow> ('w \<times> tool_effect list) chat_state \<Rightarrow> bool" where
  "effects_confined sv gc s s' \<longleftrightarrow>
     (retarget_ok (me_sqlglot (mv_env sv)) \<and> length (cs_pending s) = length (gc_workbenches gc) \<longrightarrow>
        (\<forall>e \<in> set (snd (cs_world s')). e \<in> set (snd (cs_world s)) \<or> chat_effect sv gc e))"

interpretation effects: turn_invariant "oc_services (over_mcp sv orc)" gc "\<lambda>s _ s'. effects_confined sv gc s s'"
  for sv :: "('w, 'st) mcp_server" and orc :: "'w orchestrator" and gc
proof
  fix s s' :: "('w \<times> tool_effect list) chat_state" and i ms schemas choice x c w
  assume c: "client_create (sv_float32 (oc_services (over_mcp sv orc))) (sv_gateway (oc_services (over_mcp sv orc)))
      (gc_temperatures gc ! i) ms schemas choice (cs_clients s ! i, cs_world s) = (x, (c, w))"
    and rest: "effects_confined sv gc (s\<lparr>cs_clients := (cs_clients s)[i := c], cs_world := w\<rparr>) s'"
  have "snd w = snd (cs_world s)" using c by (cases "cs_world s"; cases w) (auto dest: client_effects)
  with rest show "effects_confined sv gc s s'" by (auto simp: effects_confined_def)
next
  fix s s' :: "('w \<times> tool_effect list) chat_state" and i y w
  assume c: "list_tools (sv_mcp (oc_services (over_mcp sv orc))) (gc_workbenches gc ! i) (cs_world s) = (y, w)"
    and rest: "effects_confined sv gc (s\<lparr>cs_world := w\<rparr>) s'"
  have "snd w = snd (cs_world s)" using c by (cases "cs_world s"; cases w) (auto dest: list_tools_effects)
  with rest show "effects_confined sv gc s s'" by (auto simp: effects_confined_def)
next
  fix s s' :: "('w \<times> tool_effect list) chat_state" and i name args z p w
  assume i: "i < length (cs_pending s)"
    and c: "call_tool (sv_mcp (oc_services (over_mcp sv orc))) (gc_workbenches gc ! i) name args
      (cs_pending s ! i, cs_world s) = (z, (p, w))"
    and rest: "effects_confined sv gc (s\<lparr>cs_pending := (cs_pending s)[i := p], cs_world := w\<rparr>) s'"
  have "snd w = snd (cs_world s) \<or> (\<exists>e. snd w = snd (cs_world s) @ [e] \<and> chat_effect sv gc e)"
    if "retarget_ok (me_sqlglot (mv_env sv))" "length (cs_pending s) = length (gc_workbenches gc)"
    using call_tool_effects [OF that(1), of i gc name args "cs_pending s ! i" "fst (cs_world s)" "snd (cs_world s)" z p
        "fst w" "snd w"] c i that(2) by simp
  with rest show "effects_confined sv gc s s'" by (fastforce simp: effects_confined_def)
qed (simp add: effects_confined_def)

text \<open>C1. Tenant isolation and the grants hold down to the outside world. Whatever AutoGen and the model
  decide in a turn of the orchestrator over \<open>mcp_svc\<close>, every SQL statement and HTTP request the turn
  causes is confined (\<open>effect_ok\<close>: a SELECT over the views of the caller's tenant, or a request to a
  URL that passed the check), and belongs to a tool that some agent of the caller's tenant was
  granted and that, unless the turn was approved, does not mutate.\<close>

theorem chat_effects_confined:
  assumes ok: "retarget_ok (me_sqlglot (mv_env sv))"
    and run: "orc_Chat (over_mcp sv orc) md request (w, []) = (r, (w', effects))"
    and load: "oc_load orc w = Inr db" and e: "e \<in> set effects"
  shows "\<exists>tenant_id name. orc_tenant_id md = Inr tenant_id \<and> effect_ok (me_sqlglot (mv_env sv)) tenant_id name e \<and>
    (\<exists>spec \<in> set (list_agents_for_tenant (oc_rank orc) tenant_id db). name \<in> set (as_tool_names spec)) \<and>
    (\<exists>t \<in> set (tools db). t_tenant_id t = tenant_id \<and> t_name t = name \<and> (t_mutating t \<longrightarrow> cq_approved request))"
  using run
proof (cases rule: orc_Chat_cases)
  case refused
  with e show ?thesis by simp
next
  case (ran tenant_id db' gc out s)
  have built: "built_chat orc tenant_id request db = Inr gc" using ran(2,3) load by simp
  have "effects_confined sv gc (start_state gc (w, [])) s" using ran(4) by (intro effects.turn)
  with e ok ran(5) have "chat_effect sv gc e" by (auto simp: effects_confined_def simp flip: ran(5))
  then obtain i name where "i < length (gc_workbenches gc)" "permitted (gc_workbenches gc ! i) name"
    "effect_ok (me_sqlglot (mv_env sv)) (wb_tenant_id (gc_workbenches gc ! i)) name e"
    by (auto simp: chat_effect_def)
  with permitted_granted [OF built this(1,2)] ran(1) show ?thesis by auto
qed

definition query_team :: team where
  "query_team = Call_Tool 0 ''query_database'' (Some [(''query'', JStr ''Invoices'')])
     (\<lambda>r. Team_Done [Chat_Text ''clerk'' (tr_content r)] None)"

definition query_orc :: "unit orchestrator" where
  "query_orc = \<lparr>oc_autogen = sample_autogen query_team, oc_max_messages = 6, oc_rank = (\<lambda>_. 0),
     oc_load = (\<lambda>_. Inr sample_catalog), oc_services = turn_services\<rparr>"

theorem chat_effects_confined_witness:
  "case orc_Chat (over_mcp sample_mcp query_orc) [(''x-tenant-id'', ''t'')] (turn_request False) ((), []) of
     (_, (_, effects)) \<Rightarrow>
        effects = [Sql_Effect (tenant_scope_cte @ ''SELECT * FROM __tenant_invoices'') ''t''] \<and>
        (\<exists>name. effect_ok sample_sqlglot ''t'' name (hd effects))"
proof -
  let ?specs = "list_agents_for_tenant (\<lambda>_. 0) ''t'' sample_catalog"
  have specs: "?specs = [\<lparr>as_id = ''a'', as_name = ''clerk'', as_instructions = ''help'', as_llm_config_name = ''m'',
      as_llm_config_temperature = 0, as_tool_names = [''query_database''], as_mutating_tool_names = []\<rparr>]"
    by code_simp
  have "names_ok (map as_name ?specs)" unfolding specs by (simp add: names_ok_def odd_numeric_def)
  then obtain gc where gc: "built_chat query_orc ''t'' (turn_request False) sample_catalog = Inr gc"
    "gc_workbenches gc = [\<lparr>wb_tenant_id = ''t'', wb_allowed = [''query_database''], wb_mutating = [], wb_approved = False\<rparr>]"
    using group_chat_built [of ?specs "sample_autogen query_team" 6 "''t''" False False]
    by (auto simp: sample_autogen_def query_orc_def turn_request_def built_chat_def is_planning_turn_def
        specs agent_workbench_def)
  let ?effects = "[Sql_Effect (tenant_scope_cte @ ''SELECT * FROM __tenant_invoices'') ''t'']"
  obtain z where z: "on_call_tool (logged_server sample_mcp) (Some [(''x-tenant-id'', ''t'')]) ''query_database''
      (Some [(''query'', JStr ''Invoices'')]) ((), []) = (Inr z, ((), ?effects))"
    by (rule sample_call)
  have call: "mcp_call_tool (session_on (logged_server sample_mcp)) ''t'' ''query_database''
      [(''query'', JStr ''Invoices'')] ((), []) = (Inr z, ((), ?effects))"
    by (simp only: session_on_def mcp_session.simps str_errors_def z prod.case sum.case)
  obtain result s where team: "run_team (oc_services (over_mcp sample_mcp query_orc)) gc query_team (start_state gc ((), [])) = (Inr result, s)"
    "cs_world s = ((), ?effects)" "client_totals s = no_usage"
    by (simp_all add: query_team_def start_state_def gc(2) call_tool_def call Let_def client_totals_def
        new_client_def no_usage_def sum_list_replicate map_replicate_const)
  obtain response where "orc_response (chat_result_of gc result s) = Inr response"
    using team(3) by (simp add: orc_response_def chat_result_of_def Let_def client_totals_def fits_int64_def no_usage_def)
  then have "orc_Chat (over_mcp sample_mcp query_orc) [(''x-tenant-id'', ''t'')] (turn_request False) ((), []) =
      (Inr response, cs_world s)"
    by (intro orc_Chat_run [where tenant_id = "''t''" and db = sample_catalog and gc = gc and result = result])
      (use gc(1) team(1) in \<open>simp_all add: orc_tenant_id_def query_orc_def over_mcp_def built_chat_def request_team_def sample_autogen_def\<close>)
  then have run: "orc_Chat (over_mcp sample_mcp query_orc) [(''x-tenant-id'', ''t'')] (turn_request False) ((), []) =
      (Inr response, ((), ?effects))" by (simp add: team(2))
  have "retarget_ok (me_sqlglot (mv_env sample_mcp))" "oc_load query_orc () = Inr sample_catalog"
    by (simp_all add: sample_mcp_def sample_retarget query_orc_def)
  from chat_effects_confined [OF this(1) run this(2)] run show ?thesis
    by (auto simp: orc_tenant_id_def sample_mcp_def)
qed

end
