(* ===== verification/Aes_Percent.thy ===== *)
theory Aes_Percent
  imports Complex_Main
begin

text \<open>
  The arithmetic of \<open>percent_complete\<close>. Python floats are IEEE doubles; the values here are
  the non-negative rationals a double stands for. \<open>fl x\<close> rounds a non-negative rational to the
  nearest double, ties to even: \<open>x\<close> is scaled by the power of two that makes its significand
  an integer of 53 bits. (No value below is small enough to be subnormal or large enough to
  overflow.) \<open>round(x, 1)\<close> rounds the exact value to one decimal, ties to even, and then to
  the nearest double.
\<close>

text \<open>Nearest integer, ties to even.\<close>

definition rhe :: "rat \<Rightarrow> int" where
  "rhe x =
     (let n = \<lfloor>x\<rfloor>; d = x - of_int n
      in if d < 1 / 2 then n else if 1 / 2 < d then n + 1 else if even n then n else n + 1)"

function scale :: "rat \<Rightarrow> nat" where
  "scale x = (if x \<le> 0 \<or> 2 ^ 52 \<le> x then 0 else Suc (scale (2 * x)))"
  by pat_completeness auto

lemma scale_measure:
  fixes x :: rat
  assumes "0 < x" and "x < 2 ^ 52"
  shows "nat \<lceil>2 ^ 52 / (2 * x)\<rceil> < nat \<lceil>2 ^ 52 / x\<rceil>"
proof -
  let ?v = "2 ^ 52 / x"
  have v: "1 < ?v" using assms by (simp add: field_simps)
  have "2 ^ 52 / (2 * x) = ?v / 2" by simp
  also have "\<lceil>?v / 2\<rceil> < \<lceil>?v\<rceil>"
  proof (cases "?v \<le> 2")
    case True
    with v have "\<lceil>?v / 2\<rceil> \<le> 1" "1 < \<lceil>?v\<rceil>" by (simp_all add: ceiling_le_iff less_ceiling_iff)
    then show ?thesis by linarith
  next
    case False
    then have "?v / 2 + 1 \<le> ?v" by simp
    then have "\<lceil>?v / 2\<rceil> + 1 \<le> \<lceil>?v\<rceil>" by (metis ceiling_add_one ceiling_mono)
    then show ?thesis by linarith
  qed
  finally show ?thesis using v assms by (simp add: zless_nat_conj less_ceiling_iff)
qed

termination scale
  by (relation "measure (\<lambda>x. nat \<lceil>2 ^ 52 / x\<rceil>)") (use scale_measure in auto)

declare scale.simps [simp del]

definition fl :: "rat \<Rightarrow> rat" where
  "fl x = of_int (rhe (x * 2 ^ scale x)) / 2 ^ scale x"

text \<open>\<open>round(x, 1)\<close>.\<close>

definition round1 :: "rat \<Rightarrow> rat" where
  "round1 x = fl (of_int (rhe (10 * x)) / 10)"

section \<open>Bounds\<close>

lemma rhe_of_int [simp]: "rhe (of_int n) = n"
  by (simp add: rhe_def)

lemma rhe_le:
  assumes "x \<le> of_int n"
  shows "rhe x \<le> n"
proof (cases "x = of_int n")
  case False
  with assms have "\<lfloor>x\<rfloor> < n" by (simp add: floor_less_iff)
  then show ?thesis by (simp add: rhe_def Let_def)
qed simp

lemma rhe_ge:
  assumes "of_int n \<le> x"
  shows "n \<le> rhe x"
proof -
  have "n \<le> \<lfloor>x\<rfloor>" using assms by (simp add: le_floor_iff)
  then show ?thesis by (simp add: rhe_def Let_def)
qed

text \<open>An integer bound survives rounding, since an integer is a multiple of the unit in the last place.\<close>

lemma fl_le:
  assumes "x \<le> of_int n"
  shows "fl x \<le> of_int n"
proof -
  have "x * 2 ^ scale x \<le> of_int (n * 2 ^ scale x)" using assms by simp
  from rhe_le [OF this] have "(of_int (rhe (x * 2 ^ scale x)) :: rat) \<le> of_int (n * 2 ^ scale x)"
    by (simp only: of_int_le_iff)
  then show ?thesis by (simp add: fl_def field_simps)
qed

lemma fl_ge:
  assumes "of_int n \<le> x"
  shows "of_int n \<le> fl x"
proof -
  have "of_int (n * 2 ^ scale x) \<le> x * 2 ^ scale x" using assms by simp
  from rhe_ge [OF this] have "(of_int (n * 2 ^ scale x) :: rat) \<le> of_int (rhe (x * 2 ^ scale x))"
    by (simp only: of_int_le_iff)
  then show ?thesis by (simp add: fl_def field_simps)
qed

lemma fl_of_int [simp]: "fl (of_int n) = of_int n"
  by (rule antisym) (auto intro: fl_le fl_ge)

lemma fl_numeral [simp]: "fl (numeral n) = numeral n" "fl 1 = 1" "fl 0 = 0"
  using fl_of_int [of "numeral n"] fl_of_int [of 1] fl_of_int [of 0] by simp_all

lemma round1_le:
  assumes "x \<le> of_int n"
  shows "round1 x \<le> of_int n"
proof -
  have "10 * x \<le> of_int (10 * n)" using assms by simp
  from rhe_le [OF this] have "(of_int (rhe (10 * x)) :: rat) \<le> of_int (10 * n)" by (simp only: of_int_le_iff)
  then show ?thesis unfolding round1_def by (intro fl_le) simp
qed

lemma round1_ge:
  assumes "of_int n \<le> x"
  shows "of_int n \<le> round1 x"
proof -
  have "of_int (10 * n) \<le> 10 * x" using assms by simp
  from rhe_ge [OF this] have "(of_int (10 * n) :: rat) \<le> of_int (rhe (10 * x))" by (simp only: of_int_le_iff)
  then show ?thesis unfolding round1_def by (intro fl_ge) simp
qed

end
