(* ===== verification/Aes_Tasks.thy ===== *)
theory Aes_Tasks
  imports Aes_Catalog Aes_Jobs Aes_Percent
begin

text \<open>
  \<open>TaskService\<close> (\<open>services/tasks.py\<close>): tasks as local handles onto jobs. An operation runs
  over the service's database and the state of the job side; the calls to \<open>job_svc\<close> go
  through the gateway. A database transaction is one step, a remote call another, in the order
  the code has them; the concurrent fetches of a refresh are made in row order.
\<close>

section \<open>Status\<close>

definition task_status :: "string \<Rightarrow> string" where
  "task_status job_status =
     (case map_of [(''queued'', ''pending''), (''running'', ''running''),
         (''waiting_approval'', ''waiting_approval''), (''succeeded'', ''completed''),
         (''failed'', ''failed''), (''dead'', ''failed''), (''cancelled'', ''failed'')] job_status of
        None \<Rightarrow> ''pending'' | Some s \<Rightarrow> s)"

definition terminal_statuses :: "string list" where
  "terminal_statuses = [''completed'', ''failed'']"

record task_progress_view =
  pv_task_id :: string
  pv_status :: string
  pv_percent_complete :: rat
  pv_steps_completed :: nat
  pv_steps_total :: nat
  pv_requires_approval :: bool
  pv_summary :: string
  pv_steps :: "job_step_ref list"
  pv_output :: string
  pv_error :: string
  pv_updated_at :: stamp

definition percent_complete :: "string \<Rightarrow> nat \<Rightarrow> nat \<Rightarrow> rat" where
  "percent_complete status completed planned =
     (if status = ''completed'' then 100
      else if planned \<le> 0 then 0
      else round1 (fl (min (fl (of_nat completed / of_nat planned)) 1 * 100)))"

definition task_summary :: "string \<Rightarrow> nat \<Rightarrow> nat \<Rightarrow> string \<Rightarrow> string" where
  "task_summary status completed planned err =
     (if status = ''running''
      then (if planned \<noteq> 0 then ''Running: '' @ str_nat completed @ '' of '' @ str_nat planned @ '' steps done''
            else ''Running: planning'')
      else if status = ''waiting_approval'' then ''Waiting for approval''
      else if status = ''completed'' then ''Completed''
      else if status = ''failed'' then (if err \<noteq> [] then ''Failed: '' @ err else ''Failed'')
      else ''Pending'')"

section \<open>TaskService\<close>

type_synonym ('j, 'a) task_op = "(aes_db \<times> 'j, aes_error, 'a) comp"

text \<open>A call to the gateway leaves the database alone, a transaction leaves the job side alone.\<close>

definition remote :: "('j, aes_error, 'a) comp \<Rightarrow> ('j, 'a) task_op" where
  "remote m = (\<lambda>(db, j). case m j of (r, j') \<Rightarrow> (r, (db, j')))"

definition local_tx :: "'a aes_op \<Rightarrow> ('j, 'a) task_op" where
  "local_tx m = (\<lambda>(db, j). case m db of (r, db') \<Rightarrow> (r, (db', j)))"

definition insert_task :: "task_row \<Rightarrow> unit aes_op" where
  "insert_task row = (\<lambda>db.
     if k_id row \<in> set (map k_id (tasks db)) then (Inl (Aes_Other ''IntegrityError''), db)
     else (Inr (), db\<lparr>tasks := insert_row row (tasks db)\<rparr>))"

definition task_create ::
    "'j job_gateway \<Rightarrow> string \<Rightarrow> (nat \<Rightarrow> stamp) \<Rightarrow> string \<Rightarrow> string \<Rightarrow> ('j, task_row) task_op" where
  "task_create gw new_id now tenant_id input =
     bindS (remote (gw_create_job gw tenant_id input)) (\<lambda>ref.
     let row = \<lparr>k_id = new_id, k_tenant_id = tenant_id, k_input = input, k_job_id = jr_id ref,
                k_status = task_status (jr_status ref), k_result = jr_result ref,
                k_created_at = now 0, k_updated_at = now 1\<rparr>
     in bindS (local_tx (insert_task row)) (\<lambda>_. returnS row))"

definition task_load :: "string \<Rightarrow> string list \<Rightarrow> aes_db \<Rightarrow> task_row list" where
  "task_load tenant_id ids db =
     (let rows = select_where (\<lambda>k. k_tenant_id k = tenant_id) (tasks db)
      in if ids \<noteq> [] then select_where (\<lambda>k. k_id k \<in> set ids) rows else rows)"

text \<open>\<open>fetch\<close>: what changed, or \<open>None\<close> when nothing did or the job cannot be read.\<close>

definition task_fetch ::
    "'j job_gateway \<Rightarrow> string \<Rightarrow> task_row \<Rightarrow> ('j, aes_error, (string \<times> string \<times> string) option) comp" where
  "task_fetch gw tenant_id row = (\<lambda>j.
     case gw_get_job gw tenant_id (k_job_id row) j of
       (Inl e, j') \<Rightarrow> (if aes_is_app_error e then Inr None else Inl e, j')
     | (Inr ref, j') \<Rightarrow>
         (let status = task_status (jr_status ref)
          in if status = k_status row \<and> jr_result ref = k_result row then (Inr None, j')
             else (Inr (Some (k_id row, status, jr_result ref)), j')))"

fun task_fetch_all ::
    "'j job_gateway \<Rightarrow> string \<Rightarrow> task_row list \<Rightarrow> ('j, aes_error, (string \<times> string \<times> string) option list) comp" where
  "task_fetch_all gw tenant_id [] = returnS []"
| "task_fetch_all gw tenant_id (row # rows) =
     bindS (task_fetch gw tenant_id row) (\<lambda>c.
     bindS (task_fetch_all gw tenant_id rows) (\<lambda>cs. returnS (c # cs)))"

definition task_values :: "stamp \<Rightarrow> string \<Rightarrow> string \<Rightarrow> task_row \<Rightarrow> task_row" where
  "task_values t status result k = k\<lparr>k_status := status, k_result := result, k_updated_at := t\<rparr>"

fun apply_changes ::
    "string \<Rightarrow> (nat \<Rightarrow> stamp) \<Rightarrow> (string \<times> string \<times> string) list \<Rightarrow> task_row list \<Rightarrow> task_row list" where
  "apply_changes tenant_id now [] tb = tb"
| "apply_changes tenant_id now ((task_id, status, result) # cs) tb =
     apply_changes tenant_id (\<lambda>i. now (Suc i)) cs
       (update_rows (\<lambda>k. k_id k = task_id \<and> k_tenant_id k = tenant_id) (task_values (now 0) status result) tb)"

definition task_refresh ::
    "'j job_gateway \<Rightarrow> (nat \<Rightarrow> stamp) \<Rightarrow> string \<Rightarrow> task_row list \<Rightarrow> ('j, bool) task_op" where
  "task_refresh gw now tenant_id rows =
     bindS (remote (task_fetch_all gw tenant_id rows)) (\<lambda>fetched.
     let changes = List.map_filter id fetched
     in if changes = [] then returnS False
        else local_tx (\<lambda>db. (Inr True, db\<lparr>tasks := apply_changes tenant_id now changes (tasks db)\<rparr>)))"

definition task_get ::
    "'j job_gateway \<Rightarrow> (nat \<Rightarrow> stamp) \<Rightarrow> string \<Rightarrow> string list \<Rightarrow> ('j, task_row list) task_op" where
  "task_get gw now tenant_id ids =
     bindS (local_tx (\<lambda>db. (Inr (task_load tenant_id ids db), db))) (\<lambda>rows.
     let stale = filter (\<lambda>row. k_status row \<notin> set terminal_statuses) rows
     in if stale = [] then returnS rows
        else bindS (task_refresh gw now tenant_id stale) (\<lambda>changed.
          if changed then local_tx (\<lambda>db. (Inr (task_load tenant_id ids db), db))
          else returnS rows))"

definition task_not_found :: "string \<Rightarrow> aes_error" where
  "task_not_found task_id = Aes_Not_Found (''task '' @ task_id @ '' not found'')"

definition own_task :: "string \<Rightarrow> string \<Rightarrow> task_row aes_op" where
  "own_task tenant_id task_id = (\<lambda>db.
     case get_row k_id task_id (tasks db) of
       None \<Rightarrow> (Inl (task_not_found task_id), db)
     | Some row \<Rightarrow> if k_tenant_id row \<noteq> tenant_id then (Inl (task_not_found task_id), db) else (Inr row, db))"

definition job_id_for :: "string \<Rightarrow> string \<Rightarrow> string aes_op" where
  "job_id_for tenant_id task_id = bindS (own_task tenant_id task_id) (\<lambda>row. returnS (k_job_id row))"

definition save_status ::
    "(nat \<Rightarrow> stamp) \<Rightarrow> string \<Rightarrow> string \<Rightarrow> job_ref \<Rightarrow> task_row aes_op" where
  "save_status now tenant_id task_id ref = (\<lambda>db.
     let (rows, tasks') = update_where (\<lambda>k. k_id k = task_id \<and> k_tenant_id k = tenant_id)
           (task_values (now 0) (task_status (jr_status ref)) (jr_result ref)) (tasks db)
     in case rows of
          [] \<Rightarrow> (Inl (task_not_found task_id), db)
        | [row] \<Rightarrow> (Inr row, db\<lparr>tasks := tasks'\<rparr>)
        | _ \<Rightarrow> (Inl (Aes_Other ''Multiple rows were found when one or none was required''), db))"

definition task_approve ::
    "'j job_gateway \<Rightarrow> (nat \<Rightarrow> stamp) \<Rightarrow> string \<Rightarrow> string \<Rightarrow> ('j, task_row) task_op" where
  "task_approve gw now tenant_id task_id =
     bindS (local_tx (job_id_for tenant_id task_id)) (\<lambda>job_id.
     bindS (remote (gw_start_job gw tenant_id job_id)) (\<lambda>ref.
     local_tx (save_status now tenant_id task_id ref)))"

definition task_retry ::
    "'j job_gateway \<Rightarrow> (nat \<Rightarrow> stamp) \<Rightarrow> string \<Rightarrow> string \<Rightarrow> ('j, task_row) task_op" where
  "task_retry gw now tenant_id task_id =
     bindS (local_tx (job_id_for tenant_id task_id)) (\<lambda>job_id.
     bindS (remote (gw_retry_job gw tenant_id job_id)) (\<lambda>ref.
     local_tx (save_status now tenant_id task_id ref)))"

definition progress_view :: "task_row \<Rightarrow> job_progress_ref \<Rightarrow> task_progress_view" where
  "progress_view row ref =
     (let status = task_status (jp_status ref);
          completed = length (jp_steps ref);
          planned = max (jp_steps_total ref) completed;
          err = (if status = ''failed'' then jp_error ref else [])
      in \<lparr>pv_task_id = k_id row, pv_status = status,
          pv_percent_complete = percent_complete status completed planned,
          pv_steps_completed = completed, pv_steps_total = planned,
          pv_requires_approval = (status = ''waiting_approval''),
          pv_summary = task_summary status completed planned err,
          pv_steps = jp_steps ref, pv_output = jp_result ref, pv_error = err,
          pv_updated_at = k_updated_at row\<rparr>)"

definition task_get_progress ::
    "'j job_gateway \<Rightarrow> string \<Rightarrow> string \<Rightarrow> ('j, task_progress_view) task_op" where
  "task_get_progress gw tenant_id task_id =
     bindS (local_tx (own_task tenant_id task_id)) (\<lambda>row.
     bindS (remote (gw_get_job_progress gw tenant_id (k_job_id row))) (\<lambda>ref.
     returnS (progress_view row ref)))"


section \<open>Refreshing\<close>

lemma list_all2_filter:
  assumes "list_all2 R xs ys" and "\<And>x y. R x y \<Longrightarrow> P x = P y"
  shows "list_all2 R (filter P xs) (filter P ys)"
  using assms(1) by (induction rule: list_all2_induct) (auto simp: assms(2))

text \<open>What a batch of changes makes of one row.\<close>

definition changed_row :: "string \<Rightarrow> (string \<times> string \<times> string) list \<Rightarrow> task_row \<Rightarrow> task_row \<Rightarrow> bool" where
  "changed_row t cs old new \<longleftrightarrow>
     k_id new = k_id old \<and> k_tenant_id new = k_tenant_id old \<and> k_input new = k_input old \<and>
     k_job_id new = k_job_id old \<and> k_created_at new = k_created_at old \<and>
     (case (if k_tenant_id old = t then map_of cs (k_id old) else None) of
        None \<Rightarrow> new = old
      | Some (s, r) \<Rightarrow> k_status new = s \<and> k_result new = r)"

lemma apply_changes_rows:
  assumes "distinct (map fst cs)"
  shows "list_all2 (changed_row t cs) tb (apply_changes t now cs tb)"
  using assms
proof (induction cs arbitrary: now tb)
  case Nil
  then show ?case by (auto simp: changed_row_def list_all2_same)
next
  case (Cons c cs)
  obtain k s r where c: "c = (k, s, r)" by (cases c)
  let ?f = "\<lambda>x. if k_id x = k \<and> k_tenant_id x = t then task_values (now 0) s r x else x"
  let ?tb = "update_rows (\<lambda>x. k_id x = k \<and> k_tenant_id x = t) (task_values (now 0) s r) tb"
  have IH: "list_all2 (changed_row t cs) ?tb (apply_changes t (\<lambda>i. now (Suc i)) cs ?tb)"
    using Cons by simp
  have no: "map_of cs k = None" using Cons.prems c by (simp add: map_of_eq_None_iff)
  have step: "changed_row t (c # cs) x y" if "changed_row t cs (?f x) y" for x y
    using that no by (auto simp: changed_row_def c task_values_def split: if_splits option.splits)
  have "list_all2 (changed_row t cs) (map ?f tb) (apply_changes t (\<lambda>i. now (Suc i)) cs ?tb)"
    using IH by (simp add: update_rows_def)
  then have "list_all2 (\<lambda>x. changed_row t cs (?f x)) tb (apply_changes t (\<lambda>i. now (Suc i)) cs ?tb)"
    by (simp add: list_all2_map1)
  then show ?case by (simp add: c list_all2_mono [OF _ step [unfolded c]])
qed

lemma map_of_map_filter:
  assumes "distinct (map k_id rows)" and "\<And>x c. f x = Some c \<Longrightarrow> fst c = k_id x"
  shows "map_of (List.map_filter f rows) k =
    (case get_row k_id k rows of None \<Rightarrow> None | Some row \<Rightarrow> map_option snd (f row))"
  using assms(1)
proof (induction rows)
  case (Cons x xs)
  have "get_row k_id (k_id x) xs = None" using Cons.prems by (auto simp: get_row_None)
  with Cons assms(2) show ?case
    by (cases "f x") (auto simp: List.map_filter_simps split: option.splits)
qed (simp add: List.map_filter_simps)

lemma distinct_map_filter_ids:
  assumes "distinct (map k_id rows)" and "\<And>x c. f x = Some c \<Longrightarrow> fst c = k_id x"
  shows "distinct (map fst (List.map_filter f rows)) \<and> fst ` set (List.map_filter f rows) \<subseteq> k_id ` set rows"
  using assms(1)
proof (induction rows)
  case (Cons x xs)
  then show ?case
    using assms(2) [of x] by (auto simp: List.map_filter_simps split: option.splits)
qed (simp add: List.map_filter_simps)

lemma task_load_filter:
  "task_load t ids db = filter (\<lambda>k. k_tenant_id k = t \<and> (ids = [] \<or> k_id k \<in> set ids)) (tasks db)"
  by (simp add: task_load_def select_where_def Let_def conj_commute)

text \<open>
  What a job side with view \<open>view\<close> changes of a row, and what the row must look like after a
  read.
\<close>

definition job_change ::
    "(string \<Rightarrow> string \<Rightarrow> 'j \<Rightarrow> job_ref option) \<Rightarrow> string \<Rightarrow> 'j \<Rightarrow> task_row \<Rightarrow> (string \<times> string \<times> string) option" where
  "job_change view t j row = (case view t (k_job_id row) j of
      None \<Rightarrow> None
    | Some ref \<Rightarrow>
        if task_status (jr_status ref) = k_status row \<and> jr_result ref = k_result row then None
        else Some (k_id row, task_status (jr_status ref), jr_result ref))"

definition mirrors :: "(string \<Rightarrow> string \<Rightarrow> 'j \<Rightarrow> job_ref option) \<Rightarrow> string \<Rightarrow> 'j \<Rightarrow> task_row \<Rightarrow> bool" where
  "mirrors view t j row \<longleftrightarrow> (\<exists>ref. view t (k_job_id row) j = Some ref \<and>
     k_status row = task_status (jr_status ref) \<and> k_result row = jr_result ref)"

definition refreshed ::
    "(string \<Rightarrow> string \<Rightarrow> 'j \<Rightarrow> job_ref option) \<Rightarrow> string \<Rightarrow> 'j \<Rightarrow> task_row \<Rightarrow> task_row \<Rightarrow> bool" where
  "refreshed view t j old new \<longleftrightarrow>
     k_id new = k_id old \<and> k_tenant_id new = k_tenant_id old \<and> k_input new = k_input old \<and>
     k_job_id new = k_job_id old \<and> k_created_at new = k_created_at old \<and>
     (if k_status old \<in> set terminal_statuses \<or> view t (k_job_id old) j = None then new = old
      else mirrors view t j new)"

lemma job_change_id: "job_change view t j x = Some c \<Longrightarrow> fst c = k_id x"
  by (auto simp: job_change_def split: option.splits if_splits)

lemma changed_row_refreshed:
  assumes "changed_row t cs old new" and "k_tenant_id old = t"
    and "map_of cs (k_id old) = (if k_status old \<in> set terminal_statuses then None
       else map_option snd (job_change view t j old))"
  shows "refreshed view t j old new"
  using assms
  by (auto simp: changed_row_def refreshed_def mirrors_def job_change_def split: option.splits if_splits)

context task_backend
begin

lemma task_fetch_eq: "inv j \<Longrightarrow> task_fetch gw t row j = (Inr (job_change view t j row), j)"
  using get_job_law [of j t "k_job_id row"] get_job_none [of j t "k_job_id row"]
  by (cases "view t (k_job_id row) j") (auto simp: task_fetch_def job_change_def Let_def)

lemma task_fetch_all_eq: "inv j \<Longrightarrow> task_fetch_all gw t rows j = (Inr (map (job_change view t j) rows), j)"
  by (induction rows) (simp_all add: bindS_def task_fetch_eq)

lemma map_filter_id: "List.map_filter id (map f xs) = List.map_filter f xs"
  by (simp add: List.map_filter_def filter_map o_def)

lemma task_get_refreshes:
  assumes "inv j" and "distinct (map k_id (tasks db))"
  shows "\<exists>rows db'. task_get gw now t ids (db, j) = (Inr rows, (db', j)) \<and> rows = task_load t ids db' \<and>
    list_all2 (refreshed view t j) (task_load t ids db) rows \<and>
    agents db' = agents db \<and> tools db' = tools db \<and> agent_tools db' = agent_tools db \<and>
    map k_id (tasks db') = map k_id (tasks db) \<and>
    (\<forall>u. u \<noteq> t \<longrightarrow> filter (\<lambda>k. k_tenant_id k = u) (tasks db') = filter (\<lambda>k. k_tenant_id k = u) (tasks db))"
proof -
  let ?rows = "task_load t ids db"
  let ?stale = "filter (\<lambda>row. k_status row \<notin> set terminal_statuses) ?rows"
  let ?cs = "List.map_filter (job_change view t j) ?stale"
  let ?db = "db\<lparr>tasks := apply_changes t now ?cs (tasks db)\<rparr>"
  have dist: "distinct (map k_id ?rows)"
    using assms(2) by (simp add: task_load_filter distinct_map_filter)
  then have dstale: "distinct (map k_id ?stale)" by (rule distinct_map_filter)
  have keys: "distinct (map fst ?cs)"
    using distinct_map_filter_ids [OF dstale job_change_id [of view t j]] by blast
  have lookup: "map_of ?cs (k_id old) = (if k_status old \<in> set terminal_statuses then None
       else map_option snd (job_change view t j old))" if "old \<in> set ?rows" for old
  proof (cases "k_status old \<in> set terminal_statuses")
    case False
    with that have "get_row k_id (k_id old) ?stale = Some old" by (intro get_row_in [OF dstale]) simp
    with False show ?thesis by (simp add: map_of_map_filter [OF dstale job_change_id [of view t j]])
  next
    case True
    have "get_row k_id (k_id old) ?stale = None"
    proof (rule ccontr)
      assume "get_row k_id (k_id old) ?stale \<noteq> None"
      then obtain x where "x \<in> set ?stale" "k_id x = k_id old" by (auto dest: get_row_Some)
      with distinct_key_eq [OF dist _ that, of x] True show False by simp
    qed
    with True show ?thesis by (simp add: map_of_map_filter [OF dstale job_change_id [of view t j]])
  qed
  have rel: "list_all2 (changed_row t ?cs) (tasks db) (tasks ?db)"
    using apply_changes_rows [OF keys] by simp
  then have "list_all2 (changed_row t ?cs) ?rows (task_load t ids ?db)"
    unfolding task_load_filter by (rule list_all2_filter) (simp add: changed_row_def)
  then have fresh: "list_all2 (refreshed view t j) ?rows (task_load t ids ?db)"
  proof (rule list.rel_mono_strong)
    fix old new
    assume old: "old \<in> set ?rows" and "changed_row t ?cs old new"
    then show "refreshed view t j old new"
    proof (intro changed_row_refreshed)
      show "k_tenant_id old = t" using old by (simp add: task_load_filter)
      show "map_of ?cs (k_id old) = (if k_status old \<in> set terminal_statuses then None
        else map_option snd (job_change view t j old))" using old by (rule lookup)
    qed
  qed
  have ids: "map k_id (tasks ?db) = map k_id (tasks db)"
    using rel by (induction rule: list_all2_induct) (auto simp: changed_row_def)
  have other: "filter (\<lambda>k. k_tenant_id k = u) (tasks ?db) = filter (\<lambda>k. k_tenant_id k = u) (tasks db)" if "u \<noteq> t" for u
    using rel that by (induction rule: list_all2_induct) (auto simp: changed_row_def)
  show ?thesis
  proof (cases "?cs = []")
    case True
    then have same: "?db = db" by simp
    have "task_get gw now t ids (db, j) = (Inr ?rows, (db, j))"
      using True assms(1)
      by (simp add: task_get_def bindS_def local_tx_def Let_def task_refresh_def remote_def
          task_fetch_all_eq map_filter_id)
    then show ?thesis using fresh unfolding same by (intro exI [of _ ?rows] exI [of _ db]) simp
  next
    case False
    then have "?stale \<noteq> []" by (auto simp: List.map_filter_simps)
    with False assms(1) have "task_get gw now t ids (db, j) = (Inr (task_load t ids ?db), (?db, j))"
      by (simp add: task_get_def bindS_def local_tx_def Let_def task_refresh_def remote_def
          task_fetch_all_eq map_filter_id)
    then show ?thesis using fresh ids other
      by (intro exI [of _ "task_load t ids ?db"] exI [of _ ?db]) simp
  qed
qed

end

section \<open>Creating, approving and retrying\<close>

lemma save_status_spec:
  assumes "distinct (map k_id (tasks db))" and "own_task t k db = (Inr row, db)"
  shows "save_status now t k ref db =
    (Inr (task_values (now 0) (task_status (jr_status ref)) (jr_result ref) row),
     db\<lparr>tasks := update_rows (\<lambda>x. k_id x = k \<and> k_tenant_id x = t)
       (task_values (now 0) (task_status (jr_status ref)) (jr_result ref)) (tasks db)\<rparr>)"
proof -
  have row: "row \<in> set (tasks db)" "k_id row = k" "k_tenant_id row = t"
    using assms(2) by (auto simp: own_task_def split: option.splits if_splits dest: get_row_Some)
  have "filter (\<lambda>x. k_id x = k \<and> k_tenant_id x = t) (tasks db) = [row]"
    by (rule filter_key_singleton [OF assms(1) row(1)]) (use row in auto)
  then show ?thesis by (simp add: save_status_def update_where_def)
qed

lemma own_task_cases: "(\<exists>row. own_task t k db = (Inr row, db)) \<or> own_task t k db = (Inl (task_not_found k), db)"
  by (simp add: own_task_def split: option.split)

lemma own_task_iff:
  "own_task t k db = (Inr row, db) \<longleftrightarrow> get_row k_id k (tasks db) = Some row \<and> k_tenant_id row = t"
  by (auto simp: own_task_def split: option.splits)

lemma get_row_task_values:
  assumes "get_row k_id k tb = Some row" and "k_tenant_id row = t"
  shows "get_row k_id k (update_rows (\<lambda>x. k_id x = k \<and> k_tenant_id x = t) (task_values u s r) tb) =
    Some (task_values u s r row)"
  using assms by (induction tb) (auto simp: task_values_def)

text \<open>An operation that asks the job side for a transition and stores what it answered.\<close>

definition task_transition ::
    "(string \<Rightarrow> string \<Rightarrow> ('j, aes_error, job_ref) comp) \<Rightarrow> (nat \<Rightarrow> stamp) \<Rightarrow> string \<Rightarrow> string \<Rightarrow> ('j, task_row) task_op" where
  "task_transition ask now tenant_id task_id =
     bindS (local_tx (job_id_for tenant_id task_id)) (\<lambda>job_id.
     bindS (remote (ask tenant_id job_id)) (\<lambda>ref.
     local_tx (save_status now tenant_id task_id ref)))"

lemma task_approve_transition: "task_approve gw = task_transition (gw_start_job gw)"
  by (simp add: fun_eq_iff task_approve_def task_transition_def)

lemma task_retry_transition: "task_retry gw = task_transition (gw_retry_job gw)"
  by (simp add: fun_eq_iff task_retry_def task_transition_def)

text \<open>Its outcome: the caller's own task, the job side's verdict, and the answer on the row.\<close>

lemma task_transition_spec:
  assumes "distinct (map k_id (tasks db))"
  shows "task_transition ask now t k (db, j) =
    (case get_row k_id k (tasks db) of
       None \<Rightarrow> (Inl (task_not_found k), (db, j))
     | Some row \<Rightarrow>
         if k_tenant_id row \<noteq> t then (Inl (task_not_found k), (db, j))
         else (case ask t (k_job_id row) j of
             (Inl e, j') \<Rightarrow> (Inl e, (db, j'))
           | (Inr ref, j') \<Rightarrow>
               (let f = task_values (now 0) (task_status (jr_status ref)) (jr_result ref)
                in (Inr (f row), (db\<lparr>tasks := update_rows (\<lambda>x. k_id x = k \<and> k_tenant_id x = t) f (tasks db)\<rparr>, j')))))"
proof (cases "\<exists>row. own_task t k db = (Inr row, db)")
  case True
  then obtain row where own: "own_task t k db = (Inr row, db)" by blast
  then have "get_row k_id k (tasks db) = Some row" "k_tenant_id row = t" by (simp_all add: own_task_iff)
  then show ?thesis
    by (simp add: task_transition_def local_tx_def remote_def bindS_def job_id_for_def Let_def own
        save_status_spec [OF assms own] split: sum.split prod.split)
next
  case False
  with own_task_cases [of t k db] have no: "own_task t k db = (Inl (task_not_found k), db)" by blast
  have "\<not> (\<exists>row. get_row k_id k (tasks db) = Some row \<and> k_tenant_id row = t)"
    using False by (simp add: own_task_iff)
  then show ?thesis
    by (auto simp: task_transition_def local_tx_def bindS_def job_id_for_def no split: option.split)
qed

context task_backend
begin

lemma task_transition_mirrors:
  assumes d: "distinct (map k_id (tasks db))"
    and ok: "\<And>r j'. ask t (k_job_id row) j = (Inr r, j') \<Longrightarrow> inv j' \<and> view t (k_job_id row) j' = Some r"
    and bad: "\<And>e j'. ask t (k_job_id row) j = (Inl e, j') \<Longrightarrow> j' = j"
    and row: "get_row k_id k (tasks db) = Some row" "k_tenant_id row = t"
  shows "case task_transition ask now t k (db, j) of
      (Inl e, s) \<Rightarrow> s = (db, j) \<and> fst (ask t (k_job_id row) j) = Inl e
    | (Inr row', (db', j')) \<Rightarrow> inv j' \<and> get_row k_id k (tasks db') = Some row' \<and> mirrors view t j' row' \<and>
        k_job_id row' = k_job_id row \<and> k_input row' = k_input row"
  using ok bad row
  by (auto simp: task_transition_spec [OF d] Let_def get_row_task_values mirrors_def
      split: prod.split sum.split) (simp_all add: task_values_def)

lemma task_create_mirrors:
  assumes "inv j" and "new_id \<notin> set (map k_id (tasks db))"
  shows "case task_create gw new_id now t input (db, j) of
      (Inl e, s) \<Rightarrow> s = (db, j)
    | (Inr row, (db', j')) \<Rightarrow> inv j' \<and> db' = db\<lparr>tasks := insert_row row (tasks db)\<rparr> \<and> mirrors view t j' row \<and>
        k_id row = new_id \<and> k_tenant_id row = t \<and> k_input row = input \<and> view t (k_job_id row) j = None"
proof (cases "gw_create_job gw t input j")
  case (Pair res j')
  show ?thesis
  proof (cases res)
    case (Inl e)
    with create_fails [OF assms(1)] Pair show ?thesis by (simp add: task_create_def bindS_def remote_def)
  next
    case (Inr ref)
    with create_law [OF assms(1)] Pair assms(2) show ?thesis
      by (auto simp: task_create_def bindS_def remote_def local_tx_def insert_task_def Let_def mirrors_def)
  qed
qed

end

end
