(* ===== verification/Aes_Rpc.thy ===== *)
theory Aes_Rpc
  imports Aes_Tasks
begin

text \<open>
  The RPC edge of \<open>agent_execution_service\<close>: tenant identity (\<open>auth.py\<close>), validation
  (\<open>validators.py\<close>), the conversion of rows to messages (\<open>mappers.py\<close>; enumerators are their
  numbers, timestamps are passed through) and the thirteen handlers of \<open>servicer.py\<close>.
\<close>

section \<open>auth.py and validators.py\<close>

definition aes_tenant_id :: "metadata \<Rightarrow> aes_error + string" where
  "aes_tenant_id md =
     (case md_get md ''x-tenant-id'' of
        None \<Rightarrow> Inl (Aes_Authentication ''missing x-tenant-id metadata'')
      | Some tenant_id \<Rightarrow>
          if tenant_id = [] then Inl (Aes_Authentication ''missing x-tenant-id metadata'')
          else Inr tenant_id)"

definition max_input_len :: nat where
  "max_input_len = 10000"

definition aes_max_filter_ids :: nat where
  "aes_max_filter_ids = 1000"

definition validate_task_input :: "string \<Rightarrow> aes_error + unit" where
  "validate_task_input value =
     (if py_blank value then Inl (Aes_Validation ''input must not be empty'')
      else if length value > max_input_len
      then Inl (Aes_Validation (''input must be at most '' @ str_nat max_input_len @ '' characters''))
      else Inr ())"

definition validate_task_id :: "string \<Rightarrow> aes_error + unit" where
  "validate_task_id value =
     (if py_blank value then Inl (Aes_Validation ''task_id must not be empty'') else Inr ())"

definition validate_agent_id :: "string \<Rightarrow> aes_error + unit" where
  "validate_agent_id value =
     (if py_blank value then Inl (Aes_Validation ''agent_id must not be empty'') else Inr ())"

definition validate_tool_id :: "string \<Rightarrow> aes_error + unit" where
  "validate_tool_id value =
     (if py_blank value then Inl (Aes_Validation ''tool_id must not be empty'') else Inr ())"

definition validate_name :: "string \<Rightarrow> aes_error + unit" where
  "validate_name value =
     (if py_blank value then Inl (Aes_Validation ''name must not be empty'') else Inr ())"

definition validate_instructions :: "string \<Rightarrow> aes_error + unit" where
  "validate_instructions value =
     (if py_blank value then Inl (Aes_Validation ''instructions must not be empty'') else Inr ())"

definition validate_agent_tool_ids :: "string list \<Rightarrow> aes_error + unit" where
  "validate_agent_tool_ids tool_ids =
     (if tool_ids = [] then Inl (Aes_Validation ''tool_config.ids must not be empty'') else Inr ())"

definition aes_validate_filter_ids :: "string list \<Rightarrow> aes_error + unit" where
  "aes_validate_filter_ids ids =
     (if length ids > aes_max_filter_ids
      then Inl (Aes_Validation (''filter may contain at most '' @ str_nat aes_max_filter_ids @ '' ids''))
      else if \<exists>task_id \<in> set ids. py_blank task_id
      then Inl (Aes_Validation ''filter ids must not be empty'')
      else Inr ())"

section \<open>mappers.py\<close>

record proto_agent =
  pa_id :: string
  pa_name :: string
  pa_instructions :: string
  pa_llm_name :: string
  pa_llm_temperature :: rat
  pa_tool_ids :: "string list"
  pa_version :: int
  pa_created_at :: stamp
  pa_updated_at :: stamp

record proto_tool =
  pt_id :: string
  pt_name :: string
  pt_description :: "string option"
  pt_mutating :: bool
  pt_version :: int
  pt_created_at :: stamp
  pt_updated_at :: stamp

record proto_task =
  pk_id :: string
  pk_input :: string
  pk_job_id :: string
  pk_status :: int
  pk_result :: "string option"
  pk_created_at :: stamp
  pk_updated_at :: stamp

record proto_task_progress =
  pr_task_id :: string
  pr_status :: int
  pr_percent_complete :: rat
  pr_steps_completed :: nat
  pr_steps_total :: nat
  pr_requires_approval :: bool
  pr_summary :: string
  pr_steps :: "job_step_ref list"
  pr_output :: string
  pr_error :: string
  pr_updated_at :: stamp

definition task_status_to_proto :: "string \<Rightarrow> int" where
  "task_status_to_proto s =
     (case map_of [(''pending'', 1), (''running'', 2), (''waiting_approval'', 3), (''completed'', 4),
        (''failed'', 5)] s of None \<Rightarrow> 0 | Some n \<Rightarrow> n)"

definition agent_to_proto :: "agent_row \<times> string list \<Rightarrow> proto_agent" where
  "agent_to_proto = (\<lambda>(row, tool_ids). \<lparr>pa_id = a_id row, pa_name = a_name row,
     pa_instructions = a_instructions row, pa_llm_name = a_llm_config_name row,
     pa_llm_temperature = a_llm_config_temperature row, pa_tool_ids = tool_ids,
     pa_version = a_version row, pa_created_at = a_created_at row, pa_updated_at = a_updated_at row\<rparr>)"

definition tool_to_proto :: "tool_row \<Rightarrow> proto_tool" where
  "tool_to_proto row = \<lparr>pt_id = t_id row, pt_name = t_name row, pt_description = t_description row,
     pt_mutating = t_mutating row, pt_version = t_version row, pt_created_at = t_created_at row,
     pt_updated_at = t_updated_at row\<rparr>"

definition task_to_proto :: "task_row \<Rightarrow> proto_task" where
  "task_to_proto row = \<lparr>pk_id = k_id row, pk_input = k_input row, pk_job_id = k_job_id row,
     pk_status = task_status_to_proto (k_status row),
     pk_result = (if k_result row = [] then None else Some (k_result row)),
     pk_created_at = k_created_at row, pk_updated_at = k_updated_at row\<rparr>"

definition task_progress_to_proto :: "task_progress_view \<Rightarrow> proto_task_progress" where
  "task_progress_to_proto view = \<lparr>pr_task_id = pv_task_id view,
     pr_status = task_status_to_proto (pv_status view), pr_percent_complete = pv_percent_complete view,
     pr_steps_completed = pv_steps_completed view, pr_steps_total = pv_steps_total view,
     pr_requires_approval = pv_requires_approval view, pr_summary = pv_summary view,
     pr_steps = pv_steps view, pr_output = pv_output view, pr_error = pv_error view,
     pr_updated_at = pv_updated_at view\<rparr>"

section \<open>servicer.py\<close>

definition aes_status_by_error :: "aes_error \<Rightarrow> grpc_status option" where
  "aes_status_by_error e =
     (case e of
        Aes_Not_Found _ \<Rightarrow> Some NOT_FOUND
      | Aes_Validation _ \<Rightarrow> Some INVALID_ARGUMENT
      | Aes_Authentication _ \<Rightarrow> Some UNAUTHENTICATED
      | Aes_Conflict _ \<Rightarrow> Some ALREADY_EXISTS
      | Aes_State _ \<Rightarrow> Some FAILED_PRECONDITION
      | _ \<Rightarrow> None)"

definition aes_abort :: "aes_error \<Rightarrow> rpc_error" where
  "aes_abort e =
     (if aes_is_app_error e
      then (case aes_status_by_error e of None \<Rightarrow> INTERNAL | Some code \<Rightarrow> code, aes_error_str e)
      else (INTERNAL, ''internal error''))"

definition aes_handle_errors :: "('s, aes_error, 'a) comp \<Rightarrow> ('s, rpc_error, 'a) comp" where
  "aes_handle_errors fn = (\<lambda>s.
     case fn s of
       (Inl e, s') \<Rightarrow> (Inl (aes_abort e), s')
     | (Inr a, s') \<Rightarrow> (Inr a, s'))"

record agent_request =
  rq_id :: string
  rq_name :: string
  rq_instructions :: string
  rq_llm_name :: string
  rq_llm_temperature :: rat
  rq_tool_ids :: "string list"

definition CreateAgent ::
    "string \<Rightarrow> (nat \<Rightarrow> stamp) \<Rightarrow> metadata \<Rightarrow> agent_request \<Rightarrow> (aes_db \<times> 'j, rpc_error, proto_agent) comp" where
  "CreateAgent new_id now md request = aes_handle_errors (
     bindS (liftS (aes_tenant_id md)) (\<lambda>tenant_id.
     bindS (liftS (validate_name (rq_name request))) (\<lambda>_.
     bindS (liftS (validate_instructions (rq_instructions request))) (\<lambda>_.
     bindS (liftS (validate_agent_tool_ids (rq_tool_ids request))) (\<lambda>_.
     bindS (local_tx (agent_create new_id now tenant_id (rq_name request) (rq_instructions request)
       (rq_llm_name request) (rq_llm_temperature request) (rq_tool_ids request))) (\<lambda>r.
     returnS (agent_to_proto r)))))))"

definition GetAgent ::
    "metadata \<Rightarrow> string list \<Rightarrow> (aes_db \<times> 'j, rpc_error, proto_agent list) comp" where
  "GetAgent md ids = aes_handle_errors (
     bindS (liftS (aes_tenant_id md)) (\<lambda>tenant_id.
     bindS (liftS (aes_validate_filter_ids ids)) (\<lambda>_.
     local_tx (\<lambda>db. (Inr (map agent_to_proto (agent_get tenant_id ids db)), db)))))"

definition UpdateAgent ::
    "(nat \<Rightarrow> stamp) \<Rightarrow> metadata \<Rightarrow> agent_request \<Rightarrow> (aes_db \<times> 'j, rpc_error, proto_agent) comp" where
  "UpdateAgent now md request = aes_handle_errors (
     bindS (liftS (aes_tenant_id md)) (\<lambda>tenant_id.
     bindS (liftS (validate_agent_id (rq_id request))) (\<lambda>_.
     bindS (liftS (validate_name (rq_name request))) (\<lambda>_.
     bindS (liftS (validate_instructions (rq_instructions request))) (\<lambda>_.
     bindS (liftS (validate_agent_tool_ids (rq_tool_ids request))) (\<lambda>_.
     bindS (local_tx (agent_update now tenant_id (rq_id request) (rq_name request)
       (rq_instructions request) (rq_llm_name request) (rq_llm_temperature request)
       (rq_tool_ids request))) (\<lambda>r.
     returnS (agent_to_proto r))))))))"

definition DeleteAgent :: "metadata \<Rightarrow> string \<Rightarrow> (aes_db \<times> 'j, rpc_error, bool) comp" where
  "DeleteAgent md request_id = aes_handle_errors (
     bindS (liftS (aes_tenant_id md)) (\<lambda>tenant_id.
     bindS (liftS (validate_agent_id request_id)) (\<lambda>_.
     bindS (local_tx (agent_delete tenant_id request_id)) (\<lambda>_. returnS True))))"

definition CreateTool ::
    "string \<Rightarrow> (nat \<Rightarrow> stamp) \<Rightarrow> metadata \<Rightarrow> string \<Rightarrow> string option \<Rightarrow> bool \<Rightarrow>
     (aes_db \<times> 'j, rpc_error, proto_tool) comp" where
  "CreateTool new_id now md name description mutating = aes_handle_errors (
     bindS (liftS (aes_tenant_id md)) (\<lambda>tenant_id.
     bindS (liftS (validate_name name)) (\<lambda>_.
     bindS (local_tx (tool_create new_id now tenant_id name description mutating)) (\<lambda>row.
     returnS (tool_to_proto row)))))"

definition GetTool :: "metadata \<Rightarrow> string list \<Rightarrow> (aes_db \<times> 'j, rpc_error, proto_tool list) comp" where
  "GetTool md ids = aes_handle_errors (
     bindS (liftS (aes_tenant_id md)) (\<lambda>tenant_id.
     bindS (liftS (aes_validate_filter_ids ids)) (\<lambda>_.
     local_tx (\<lambda>db. (Inr (map tool_to_proto (tool_get tenant_id ids db)), db)))))"

definition UpdateTool ::
    "(nat \<Rightarrow> stamp) \<Rightarrow> metadata \<Rightarrow> string \<Rightarrow> string \<Rightarrow> string \<Rightarrow> bool \<Rightarrow>
     (aes_db \<times> 'j, rpc_error, proto_tool) comp" where
  "UpdateTool now md request_id name description mutating = aes_handle_errors (
     bindS (liftS (aes_tenant_id md)) (\<lambda>tenant_id.
     bindS (liftS (validate_tool_id request_id)) (\<lambda>_.
     bindS (liftS (validate_name name)) (\<lambda>_.
     bindS (local_tx (tool_update now tenant_id request_id name description mutating)) (\<lambda>row.
     returnS (tool_to_proto row))))))"

definition DeleteTool :: "metadata \<Rightarrow> string \<Rightarrow> (aes_db \<times> 'j, rpc_error, bool) comp" where
  "DeleteTool md request_id = aes_handle_errors (
     bindS (liftS (aes_tenant_id md)) (\<lambda>tenant_id.
     bindS (liftS (validate_tool_id request_id)) (\<lambda>_.
     bindS (local_tx (tool_delete tenant_id request_id)) (\<lambda>_. returnS True))))"

text \<open>\<open>has_any\<close> and the submission are separate transactions.\<close>

definition CreateTask ::
    "'j job_gateway \<Rightarrow> string \<Rightarrow> (nat \<Rightarrow> stamp) \<Rightarrow> metadata \<Rightarrow> string \<Rightarrow>
     (aes_db \<times> 'j, rpc_error, proto_task) comp" where
  "CreateTask gw new_id now md input = aes_handle_errors (
     bindS (liftS (aes_tenant_id md)) (\<lambda>tenant_id.
     bindS (liftS (validate_task_input input)) (\<lambda>_.
     bindS (local_tx (\<lambda>db. (Inr (agent_has_any tenant_id db), db))) (\<lambda>has_any.
     if \<not> has_any
     then raiseS (Aes_State ''cannot submit a task: no agents are configured for this tenant'')
     else bindS (task_create gw new_id now tenant_id input) (\<lambda>row.
       returnS (task_to_proto row))))))"

definition GetTask ::
    "'j job_gateway \<Rightarrow> (nat \<Rightarrow> stamp) \<Rightarrow> metadata \<Rightarrow> string list \<Rightarrow>
     (aes_db \<times> 'j, rpc_error, proto_task list) comp" where
  "GetTask gw now md ids = aes_handle_errors (
     bindS (liftS (aes_tenant_id md)) (\<lambda>tenant_id.
     bindS (liftS (aes_validate_filter_ids ids)) (\<lambda>_.
     bindS (task_get gw now tenant_id ids) (\<lambda>rows. returnS (map task_to_proto rows)))))"

definition ApproveTask ::
    "'j job_gateway \<Rightarrow> (nat \<Rightarrow> stamp) \<Rightarrow> metadata \<Rightarrow> string \<Rightarrow> (aes_db \<times> 'j, rpc_error, bool) comp" where
  "ApproveTask gw now md task_id = aes_handle_errors (
     bindS (liftS (aes_tenant_id md)) (\<lambda>tenant_id.
     bindS (liftS (validate_task_id task_id)) (\<lambda>_.
     bindS (task_approve gw now tenant_id task_id) (\<lambda>_. returnS True))))"

definition RetryTask ::
    "'j job_gateway \<Rightarrow> (nat \<Rightarrow> stamp) \<Rightarrow> metadata \<Rightarrow> string \<Rightarrow> (aes_db \<times> 'j, rpc_error, bool) comp" where
  "RetryTask gw now md task_id = aes_handle_errors (
     bindS (liftS (aes_tenant_id md)) (\<lambda>tenant_id.
     bindS (liftS (validate_task_id task_id)) (\<lambda>_.
     bindS (task_retry gw now tenant_id task_id) (\<lambda>_. returnS True))))"

definition GetTaskProgress ::
    "'j job_gateway \<Rightarrow> metadata \<Rightarrow> string \<Rightarrow> (aes_db \<times> 'j, rpc_error, proto_task_progress) comp" where
  "GetTaskProgress gw md task_id = aes_handle_errors (
     bindS (liftS (aes_tenant_id md)) (\<lambda>tenant_id.
     bindS (liftS (validate_task_id task_id)) (\<lambda>_.
     bindS (task_get_progress gw tenant_id task_id) (\<lambda>view.
     returnS (task_progress_to_proto view)))))"

end
