(* ===== verification/Aes_Edge.thy ===== *)
theory Aes_Edge
  imports Aes_Rpc
begin

text \<open>
  The properties of \<open>agent_execution_service\<close>: the integrity of its database and the isolation
  of its tenants under every sequence of calls, whatever the job side answers; and the agreement
  of a task with its job, for the gateway that talks to the handlers of \<open>job_svc\<close>.
\<close>

section \<open>Frames\<close>

text \<open>An operation of tenant \<open>t\<close> keeps the database sound and the other tenants' view of it.\<close>

definition tenant_step :: "string \<Rightarrow> aes_db \<times> 'j \<Rightarrow> aes_db \<times> 'j \<Rightarrow> bool" where
  "tenant_step t s s' \<longleftrightarrow> (aes_db_ok (fst s) \<longrightarrow>
     aes_db_ok (fst s') \<and> (\<forall>u. u \<noteq> t \<longrightarrow> same_view u (fst s) (fst s')))"

lemma same_view_trans:
  assumes "same_view u a b" and "same_view u b c"
  shows "same_view u a c"
proof -
  have mem: "x \<in> set (agents b)" if "x \<in> set (agents a)" "a_tenant_id x = u" for x
  proof -
    from that have "x \<in> set (select_where (\<lambda>a. a_tenant_id a = u) (agents a))" by simp
    then have "x \<in> set (select_where (\<lambda>a. a_tenant_id a = u) (agents b))"
      using assms(1) by (simp add: same_view_def)
    then show ?thesis by simp
  qed
  show ?thesis using assms mem unfolding same_view_def by simp
qed

lemma tenant_step_refl: "reflp (tenant_step t)"
  by (simp add: reflp_def tenant_step_def)

lemma tenant_step_trans: "transp (tenant_step t)"
  unfolding transp_def tenant_step_def by (blast intro: same_view_trans)

lemmas tenant_step_bind = keepsS_bind [OF tenant_step_trans]

lemma keepsS_liftS: "reflp R \<Longrightarrow> keepsS R (liftS r)"
  by (simp add: keepsS_def reflp_def)

lemma keepsS_remote: "keepsS (tenant_step t) (remote m)"
  by (rule keepsSI) (simp add: remote_def tenant_step_def split: prod.split)

lemma keepsS_local_tx:
  assumes "\<And>db. aes_db_ok db \<Longrightarrow> aes_db_ok (snd (m db))"
    and "\<And>db u. aes_db_ok db \<Longrightarrow> u \<noteq> t \<Longrightarrow> same_view u db (snd (m db))"
  shows "keepsS (tenant_step t) (local_tx m)"
proof (rule keepsSI)
  fix s :: "aes_db \<times> 'j"
  obtain db j where s: "s = (db, j)" by (cases s)
  have "snd (local_tx m (db, j)) = (snd (m db), j)" by (simp add: local_tx_def split: prod.split)
  then show "tenant_step t s (snd (local_tx m s))" using assms by (simp add: s tenant_step_def)
qed

lemma keepsS_read: "keepsS (tenant_step t) (local_tx (\<lambda>db. (f db, db)))"
  by (rule keepsS_local_tx) simp_all

lemma keepsS_tasks:
  assumes "\<And>db. map k_id (tb db) = map k_id (tasks db)"
    and "\<And>db u. u \<noteq> t \<Longrightarrow> filter (\<lambda>x. k_tenant_id x = u) (tb db) = filter (\<lambda>x. k_tenant_id x = u) (tasks db)"
    and "\<And>db. snd (m db) = db \<or> snd (m db) = db\<lparr>tasks := tb db\<rparr>"
  shows "keepsS (tenant_step t) (local_tx m)"
proof (rule keepsS_local_tx)
  fix db
  assume ok: "aes_db_ok db"
  have "aes_db_ok (db\<lparr>tasks := tb db\<rparr>)" using ok assms(1) [of db] by (simp add: aes_db_ok_def)
  with ok assms(3) [of db] show "aes_db_ok (snd (m db))" by auto
  fix u
  assume "u \<noteq> t"
  then have "same_view u db (db\<lparr>tasks := tb db\<rparr>)"
    using assms(2) by (simp add: same_view_def select_where_def agent_tool_ids_def)
  then show "same_view u db (snd (m db))" using assms(3) [of db] by auto
qed

lemma task_rows_frame:
  "map k_id (update_rows (\<lambda>x. k_id x = k \<and> k_tenant_id x = t) (task_values u s r) tb) = map k_id tb"
  "v \<noteq> t \<Longrightarrow> filter (\<lambda>x. k_tenant_id x = v) (update_rows (\<lambda>x. k_id x = k \<and> k_tenant_id x = t) (task_values u s r) tb) =
     filter (\<lambda>x. k_tenant_id x = v) tb"
  by (induction tb) (auto simp: task_values_def)

lemma apply_changes_frame:
  "map k_id (apply_changes t now cs tb) = map k_id tb"
  "v \<noteq> t \<Longrightarrow> filter (\<lambda>x. k_tenant_id x = v) (apply_changes t now cs tb) = filter (\<lambda>x. k_tenant_id x = v) tb"
  by (induction cs arbitrary: tb now) (auto simp: task_rows_frame)

lemma keepsS_save_status: "keepsS (tenant_step t) (local_tx (save_status now t k ref))"
proof (rule keepsS_tasks)
  let ?tb = "\<lambda>db. update_rows (\<lambda>x. k_id x = k \<and> k_tenant_id x = t)
    (task_values (now 0) (task_status (jr_status ref)) (jr_result ref)) (tasks db)"
  show "map k_id (?tb db) = map k_id (tasks db)" for db by (rule task_rows_frame)
  show "filter (\<lambda>x. k_tenant_id x = u) (?tb db) = filter (\<lambda>x. k_tenant_id x = u) (tasks db)" if "u \<noteq> t" for db u
    using that by (rule task_rows_frame)
  show "snd (save_status now t k ref db) = db \<or> snd (save_status now t k ref db) = db\<lparr>tasks := ?tb db\<rparr>" for db
    by (simp add: save_status_def update_where_def split: list.split)
qed

lemma keepsS_insert_task:
  assumes "k_tenant_id row = t"
  shows "keepsS (tenant_step t) (local_tx (insert_task row))"
  using assms
  by (intro keepsS_local_tx)
    (auto simp: insert_task_def aes_db_ok_def insert_row_def same_view_def select_where_def agent_tool_ids_def)

lemma keepsS_own_task: "keepsS (tenant_step t) (local_tx (own_task t k))"
  by (rule keepsS_local_tx) (simp_all add: own_task_def split: option.split)

lemma keepsS_job_id_for: "keepsS (tenant_step t) (local_tx (job_id_for t k))"
  by (rule keepsS_local_tx) (simp_all add: job_id_for_def bindS_def own_task_def split: option.split)

lemma keepsS_transition: "keepsS (tenant_step t) (task_transition ask now t k)"
  unfolding task_transition_def by (intro tenant_step_bind keepsS_job_id_for keepsS_remote keepsS_save_status)

lemma keepsS_task_create: "keepsS (tenant_step t) (task_create gw new_id now t input)"
  unfolding task_create_def Let_def
  by (intro tenant_step_bind keepsS_remote keepsS_insert_task keepsS_return tenant_step_refl) simp

lemma keepsS_if: "keepsS R a \<Longrightarrow> keepsS R b \<Longrightarrow> keepsS R (if c then a else b)"
  by simp

lemma keepsS_apply_changes:
  "keepsS (tenant_step t) (local_tx (\<lambda>db. (Inr True, db\<lparr>tasks := apply_changes t now cs (tasks db)\<rparr>)))"
  by (rule keepsS_tasks [where tb = "\<lambda>db. apply_changes t now cs (tasks db)"])
    (auto simp: apply_changes_frame)

lemma keepsS_task_refresh: "keepsS (tenant_step t) (task_refresh gw now t rows)"
  unfolding task_refresh_def Let_def
  by (intro tenant_step_bind keepsS_remote keepsS_if keepsS_return tenant_step_refl keepsS_apply_changes)

lemma keepsS_task_get: "keepsS (tenant_step t) (task_get gw now t ids)"
  unfolding task_get_def Let_def
  by (intro tenant_step_bind keepsS_read) (simp add: keepsS_return tenant_step_refl keepsS_read keepsS_task_refresh tenant_step_bind)

lemma keepsS_task_get_progress: "keepsS (tenant_step t) (task_get_progress gw t k)"
  unfolding task_get_progress_def
  by (intro tenant_step_bind keepsS_own_task keepsS_remote keepsS_return tenant_step_refl)

lemma keepsS_catalog:
  "keepsS (tenant_step t) (local_tx (agent_create new_id now t name instructions llm temp ids))"
  "keepsS (tenant_step t) (local_tx (agent_update now t k name instructions llm temp ids))"
  "keepsS (tenant_step t) (local_tx (agent_delete t k))"
  "keepsS (tenant_step t) (local_tx (tool_create new_id now t name description mutating))"
  "keepsS (tenant_step t) (local_tx (tool_update now t k name text mutating))"
  "keepsS (tenant_step t) (local_tx (tool_delete t k))"
  by (rule keepsS_local_tx; simp add: agent_create_ok agent_update_ok agent_delete_ok tool_create_ok
      tool_update_ok tool_delete_ok agent_create_view agent_update_view agent_delete_view tool_create_view
      tool_update_view tool_delete_view)+

section \<open>Calls\<close>

lemma keepsS_handler:
  assumes "\<And>t. aes_tenant_id md = Inr t \<Longrightarrow> keepsS (tenant_step t) (f t)"
    and "aes_tenant_id md = Inr t"
  shows "keepsS (tenant_step t) (aes_handle_errors (bindS (liftS (aes_tenant_id md)) f))"
proof (rule keepsSI)
  fix s
  have "snd (aes_handle_errors (bindS (liftS (aes_tenant_id md)) f) s) = snd (f t s)"
    by (simp add: aes_handle_errors_def bindS_def assms(2) split: prod.split sum.split)
  moreover have "tenant_step t s (snd (f t s))"
    using assms(1) [OF assms(2)] unfolding keepsS_def by blast
  ultimately show "tenant_step t s (snd (aes_handle_errors (bindS (liftS (aes_tenant_id md)) f) s))" by simp
qed

lemma no_tenant_no_effect:
  "aes_tenant_id md = Inl e \<Longrightarrow> snd (aes_handle_errors (bindS (liftS (aes_tenant_id md)) f) s) = s"
  by (simp add: aes_handle_errors_def bindS_def)

text \<open>
  One call of the RPC surface, with any identifiers, clock and request, on the database and the
  job side.
\<close>

inductive aes_call :: "'j job_gateway \<Rightarrow> metadata \<Rightarrow> aes_db \<times> 'j \<Rightarrow> aes_db \<times> 'j \<Rightarrow> bool"
  for gw :: "'j job_gateway" and md :: metadata where
  call_CreateAgent: "aes_call gw md s (snd (CreateAgent new_id now md rq s))"
| call_GetAgent: "aes_call gw md s (snd (GetAgent md ids s))"
| call_UpdateAgent: "aes_call gw md s (snd (UpdateAgent now md rq s))"
| call_DeleteAgent: "aes_call gw md s (snd (DeleteAgent md k s))"
| call_CreateTool: "aes_call gw md s (snd (CreateTool new_id now md name description mutating s))"
| call_GetTool: "aes_call gw md s (snd (GetTool md ids s))"
| call_UpdateTool: "aes_call gw md s (snd (UpdateTool now md k name new_text mutating s))"
| call_DeleteTool: "aes_call gw md s (snd (DeleteTool md k s))"
| call_CreateTask: "aes_call gw md s (snd (CreateTask gw new_id now md input s))"
| call_GetTask: "aes_call gw md s (snd (GetTask gw now md ids s))"
| call_ApproveTask: "aes_call gw md s (snd (ApproveTask gw now md k s))"
| call_RetryTask: "aes_call gw md s (snd (RetryTask gw now md k s))"
| call_GetTaskProgress: "aes_call gw md s (snd (GetTaskProgress gw md k s))"

inductive_cases aes_callE: "aes_call gw md s s'"

lemmas handler_defs = CreateAgent_def GetAgent_def UpdateAgent_def DeleteAgent_def CreateTool_def GetTool_def
  UpdateTool_def DeleteTool_def CreateTask_def GetTask_def ApproveTask_def RetryTask_def GetTaskProgress_def

lemmas keepsS_parts = tenant_step_bind keepsS_liftS keepsS_return keepsS_raise tenant_step_refl keepsS_catalog
  keepsS_read keepsS_task_create keepsS_task_get keepsS_transition keepsS_task_get_progress

lemma keepsS_handlers:
  assumes "aes_tenant_id md = Inr t"
  shows "keepsS (tenant_step t) (CreateAgent new_id now md rq)"
    "keepsS (tenant_step t) (GetAgent md ids)"
    "keepsS (tenant_step t) (UpdateAgent now md rq)"
    "keepsS (tenant_step t) (DeleteAgent md k)"
    "keepsS (tenant_step t) (CreateTool new_id now md name description mutating)"
    "keepsS (tenant_step t) (GetTool md ids)"
    "keepsS (tenant_step t) (UpdateTool now md k name new_text mutating)"
    "keepsS (tenant_step t) (DeleteTool md k)"
    "keepsS (tenant_step t) (CreateTask gw new_id now md input)"
    "keepsS (tenant_step t) (GetTask gw now md ids)"
    "keepsS (tenant_step t) (ApproveTask gw now md k)"
    "keepsS (tenant_step t) (RetryTask gw now md k)"
    "keepsS (tenant_step t) (GetTaskProgress gw md k)"
  unfolding handler_defs task_approve_transition task_retry_transition
  by (rule keepsS_handler [OF _ assms], simp add: assms, intro keepsS_parts keepsS_if)+

lemma aes_call_tenant_step:
  assumes "aes_call gw md s s'" and "aes_tenant_id md = Inr t"
  shows "tenant_step t s s'"
  using assms(1)
  by (cases rule: aes_call.cases)
    (auto intro: keepsS_handlers [OF assms(2), unfolded keepsS_def, rule_format])

lemma aes_call_no_tenant:
  assumes "aes_call gw md s s'" and "aes_tenant_id md = Inl e"
  shows "s' = s"
  using assms(1)
  by (cases rule: aes_call.cases) (simp_all only: handler_defs no_tenant_no_effect [OF assms(2)])

section \<open>Integrity and isolation\<close>

text \<open>The states of the service: calls of any caller, and any activity on the job side between them.\<close>

inductive aes_reachable :: "'j job_gateway \<Rightarrow> aes_db \<times> 'j \<Rightarrow> bool" for gw :: "'j job_gateway" where
  reach_start: "aes_reachable gw (empty_aes_db, j)"
| reach_call: "aes_reachable gw s \<Longrightarrow> aes_call gw md s s' \<Longrightarrow> aes_reachable gw s'"
| reach_jobs: "aes_reachable gw (db, j) \<Longrightarrow> aes_reachable gw (db, j')"

lemma aes_reachable_ok: "aes_reachable gw s \<Longrightarrow> aes_db_ok (fst s)"
proof (induction rule: aes_reachable.induct)
  case (reach_call s md s')
  then show ?case
    by (cases "aes_tenant_id md") (auto dest: aes_call_no_tenant aes_call_tenant_step simp: tenant_step_def)
qed simp_all

definition demo_fresh :: "job_db \<Rightarrow> string" where
  "demo_fresh db = ''job'' @ concat (map j_id db)"

definition demo_stub :: "job_db job_stub" where
  "demo_stub = job_svc_stub demo_protobuf demo_service demo_fresh demo_clock"

definition demo_gateway :: "job_db job_gateway" where
  "demo_gateway = job_client demo_stub"

definition demo_md :: "string \<Rightarrow> metadata" where
  "demo_md t = [(''x-tenant-id'', t)]"

text \<open>C19. The catalog keeps its integrity: in every state the service can reach, whatever calls
  arrive in whatever order and whatever the job side does, agent, tool and task ids are unique, no
  tenant has two tools of one name, no grant is stored twice, and every grant joins an existing
  agent and an existing tool of the same tenant (deleting either removes it).\<close>

theorem aes_integrity:
  assumes "aes_reachable gw s"
  shows "distinct (map a_id (agents (fst s))) \<and> distinct (map t_id (tools (fst s))) \<and>
    distinct (map k_id (tasks (fst s))) \<and> distinct (map tool_key (tools (fst s))) \<and>
    distinct (map link_key (agent_tools (fst s))) \<and>
    (\<forall>l \<in> set (agent_tools (fst s)). \<exists>a \<in> set (agents (fst s)). \<exists>t \<in> set (tools (fst s)).
       a_id a = at_agent_id l \<and> t_id t = at_tool_id l \<and> a_tenant_id a = t_tenant_id t)"
  using aes_reachable_ok [OF assms] by (simp add: aes_db_ok_def link_ok_def)

definition demo_tools :: "aes_db \<times> job_db" where
  "demo_tools = snd (CreateTool ''tool1'' (\<lambda>_. 0) (demo_md ''t1'') ''search'' None True (empty_aes_db, []))"

definition demo_catalog :: "aes_db \<times> job_db" where
  "demo_catalog = snd (CreateAgent ''agent1'' (\<lambda>_. 0) (demo_md ''t1'')
     \<lparr>rq_id = [], rq_name = ''a'', rq_instructions = ''do'', rq_llm_name = ''m'', rq_llm_temperature = 0,
      rq_tool_ids = [''tool1'', ''other'']\<rparr> demo_tools)"

lemma demo_catalog_reachable: "aes_reachable demo_gateway demo_catalog"
  unfolding demo_catalog_def demo_tools_def
  by (intro reach_call [OF reach_call [OF reach_start call_CreateTool] call_CreateAgent])

theorem aes_integrity_witness:
  "distinct (map t_id (tools (fst demo_catalog))) \<and> agent_tools (fst demo_catalog) = [\<lparr>at_agent_id = ''agent1'', at_tool_id = ''tool1''\<rparr>]"
proof -
  have "agent_tools (fst demo_catalog) = [\<lparr>at_agent_id = ''agent1'', at_tool_id = ''tool1''\<rparr>]"
    by code_simp
  with aes_integrity [OF demo_catalog_reachable] show ?thesis by blast
qed

text \<open>Tenants are isolated: a call authenticated as one tenant never changes what another
  tenant's \<open>GetAgent\<close> and \<open>GetTool\<close> answer, nor the task rows another tenant's calls work on.\<close>

theorem aes_isolation:
  assumes "aes_reachable gw s" and "aes_call gw md s s'"
    and "aes_tenant_id md = Inr t" and "aes_tenant_id md' = Inr u" and "u \<noteq> t"
  shows "fst (GetAgent md' ids s') = fst (GetAgent md' ids s) \<and>
    fst (GetTool md' ids s') = fst (GetTool md' ids s) \<and>
    task_load u ids (fst s') = task_load u ids (fst s)"
proof -
  have v: "same_view u (fst s) (fst s')"
    using aes_call_tenant_step [OF assms(2,3)] aes_reachable_ok [OF assms(1)] assms(5)
    by (simp add: tenant_step_def)
  then have "task_load u ids (fst s') = task_load u ids (fst s)"
    by (simp add: task_load_def same_view_def)
  with same_view_agent_get [OF v] same_view_tool_get [OF v] show ?thesis
    by (simp add: GetAgent_def GetTool_def aes_handle_errors_def bindS_def local_tx_def assms(4) split_beta
        split: sum.split)
qed

theorem aes_isolation_witness:
  "fst (GetTool (demo_md ''t1'') [] (snd (DeleteTool (demo_md ''t2'') ''tool1'' demo_catalog))) =
   fst (GetTool (demo_md ''t1'') [] demo_catalog)"
  using aes_isolation [OF demo_catalog_reachable call_DeleteTool [where md = "demo_md ''t2''" and k = "''tool1''"],
      of "''t2''" "demo_md ''t1''" "''t1''" "[]"]
  by (simp add: aes_tenant_id_def demo_md_def)

section \<open>Tasks and jobs\<close>

abbreviation job_svc_gateway ::
    "protobuf \<Rightarrow> job_service \<Rightarrow> (job_db \<Rightarrow> string) \<Rightarrow> clock \<Rightarrow> job_db job_gateway" where
  "job_svc_gateway pb svc fresh jnow \<equiv> job_client (job_svc_stub pb svc fresh jnow)"

text \<open>C14. A task mirrors its job: when \<open>ApproveTask\<close>, \<open>RetryTask\<close> or \<open>CreateTask\<close>
  succeeds, the stored task row carries the status and result that its job has in \<open>job_svc\<close> at
  that moment, and when it is refused neither the task table nor the jobs table has changed (in
  particular a rejected submission leaves no task behind).\<close>

theorem task_mirrors_job:
  assumes "job_side_ok pb fresh j" and "distinct (map k_id (tasks db))"
    and "new_id \<notin> set (map k_id (tasks db))"
  shows "(case task_approve (job_svc_gateway pb svc fresh jnow) now t k (db, j) of
       (Inl e, s) \<Rightarrow> s = (db, j)
     | (Inr row, (db', j')) \<Rightarrow> get_row k_id k (tasks db') = Some row \<and> mirrors (job_view pb) t j' row) \<and>
   (case task_retry (job_svc_gateway pb svc fresh jnow) now t k (db, j) of
       (Inl e, s) \<Rightarrow> s = (db, j)
     | (Inr row, (db', j')) \<Rightarrow> get_row k_id k (tasks db') = Some row \<and> mirrors (job_view pb) t j' row) \<and>
   (case task_create (job_svc_gateway pb svc fresh jnow) new_id now t input (db, j) of
       (Inl e, s) \<Rightarrow> s = (db, j)
     | (Inr row, (db', j')) \<Rightarrow> get_row k_id new_id (tasks db') = Some row \<and> mirrors (job_view pb) t j' row)"
proof (intro conjI)
  let ?gw = "job_svc_gateway pb svc fresh jnow"
  have step: "case task_transition ask now t k (db, j) of
       (Inl e, s) \<Rightarrow> s = (db, j)
     | (Inr row, (db', j')) \<Rightarrow> get_row k_id k (tasks db') = Some row \<and> mirrors (job_view pb) t j' row"
    if "\<And>jk r j'. ask t jk j = (Inr r, j') \<Longrightarrow> job_side_ok pb fresh j' \<and> job_view pb t jk j' = Some r"
      and "\<And>jk e j'. ask t jk j = (Inl e, j') \<Longrightarrow> j' = j" for ask
  proof (cases "\<exists>row. get_row k_id k (tasks db) = Some row \<and> k_tenant_id row = t")
    case True
    then obtain row where row: "get_row k_id k (tasks db) = Some row" "k_tenant_id row = t" by blast
    from job_svc.task_transition_mirrors [OF assms(2) that row, where now = now and ask = ask] show ?thesis
      by (auto split: prod.splits sum.splits)
  next
    case False
    then show ?thesis
      by (auto simp: task_transition_spec [OF assms(2)] split: option.split)
  qed
  show "case task_approve ?gw now t k (db, j) of
       (Inl e, s) \<Rightarrow> s = (db, j)
     | (Inr row, (db', j')) \<Rightarrow> get_row k_id k (tasks db') = Some row \<and> mirrors (job_view pb) t j' row"
    unfolding task_approve_transition
    using job_svc.start_law [OF assms(1)] job_svc.start_fails [OF assms(1)] by (rule step)
  show "case task_retry ?gw now t k (db, j) of
       (Inl e, s) \<Rightarrow> s = (db, j)
     | (Inr row, (db', j')) \<Rightarrow> get_row k_id k (tasks db') = Some row \<and> mirrors (job_view pb) t j' row"
    unfolding task_retry_transition
    using job_svc.retry_law [OF assms(1)] job_svc.retry_fails [OF assms(1)] by (rule step)
  show "case task_create ?gw new_id now t input (db, j) of
       (Inl e, s) \<Rightarrow> s = (db, j)
     | (Inr row, (db', j')) \<Rightarrow> get_row k_id new_id (tasks db') = Some row \<and> mirrors (job_view pb) t j' row"
    using job_svc.task_create_mirrors [OF assms(1,3), where now = now and t = t and input = input and svc = svc and jnow = jnow] assms(3)
    by (auto simp: get_row_insert split: prod.splits sum.splits)
qed

definition demo_jobs :: "string \<Rightarrow> job_db" where
  "demo_jobs status = [(demo_job ''j1'')\<lparr>j_status := status\<rparr>]"

definition demo_task :: "string \<Rightarrow> task_row" where
  "demo_task status = \<lparr>k_id = ''k1'', k_tenant_id = ''t1'', k_input = ''go'', k_job_id = ''j1'',
     k_status = status, k_result = [], k_created_at = 0, k_updated_at = 0\<rparr>"

definition demo_tasks :: "string \<Rightarrow> aes_db" where
  "demo_tasks status = empty_aes_db\<lparr>tasks := [demo_task status]\<rparr>"

lemma demo_fresh_new: "demo_fresh db \<notin> set (map j_id db)"
proof
  assume "demo_fresh db \<in> set (map j_id db)"
  then obtain r where r: "r \<in> set db" "j_id r = demo_fresh db" by auto
  have "length (j_id r) \<le> length (concat (map j_id db))"
    using r(1) by (induction db) auto
  with r(2) show False by (simp add: demo_fresh_def)
qed

lemma demo_jobs_ok:
  assumes "status \<in> set job_statuses"
  shows "job_side_ok demo_protobuf demo_fresh (demo_jobs status)"
proof -
  have blank: "\<not> py_blank (demo_fresh db)" for db
    by (auto simp: demo_fresh_def py_blank_iff py_isspace_def)
  have "renderable demo_protobuf ((demo_job ''j1'')\<lparr>j_status := status\<rparr>)"
    using status_round_trip [OF assms]
    by (auto simp: renderable_def job_to_proto_def demo_job_def type_to_proto_def demo_protobuf_def
        progress_to_proto_def empty_progress_def)
  moreover have "\<not> py_blank ''j1''" by (simp add: py_blank_iff py_isspace_def)
  ultimately show ?thesis
    using demo_fresh_new blank
    by (simp add: job_side_ok_def demo_jobs_def demo_job_def demo_protobuf_def)
qed

theorem task_mirrors_job_witness:
  "mirrors (job_view demo_protobuf) ''t1''
     (snd (snd (task_approve demo_gateway (\<lambda>_. 0) ''t1'' ''k1'' (demo_tasks ''waiting_approval'', demo_jobs ''waiting_approval''))))
     (demo_task ''pending'')"
proof -
  have ok: "job_side_ok demo_protobuf demo_fresh (demo_jobs ''waiting_approval'')"
    by (rule demo_jobs_ok) (simp add: job_statuses_def)
  have d: "distinct (map k_id (tasks (demo_tasks ''waiting_approval'')))" by (simp add: demo_tasks_def)
  have n: "''k2'' \<notin> set (map k_id (tasks (demo_tasks ''waiting_approval'')))"
    by (simp add: demo_tasks_def demo_task_def)
  have run: "fst (task_approve demo_gateway (\<lambda>_. 0) ''t1'' ''k1'' (demo_tasks ''waiting_approval'', demo_jobs ''waiting_approval''))
      = Inr (demo_task ''pending'')" by code_simp
  from conjunct1 [OF task_mirrors_job [OF ok d n, where svc = demo_service and jnow = demo_clock and
      now = "\<lambda>_. 0" and t = "''t1''" and k = "''k1''"]] run
  show ?thesis by (auto simp: demo_gateway_def demo_stub_def split: prod.splits)
qed

text \<open>\<open>GetTask\<close> is fresh: it answers the caller's rows that match the filter; every
  non-terminal task whose job can be read shows the status and result its job has in
  \<open>job_svc\<close> now, and exactly that is stored; every terminal task, and every task whose job
  cannot be read, is answered unchanged. The jobs and all other tables and tenants are untouched.\<close>

theorem get_task_is_fresh:
  assumes "job_side_ok pb fresh j" and "distinct (map k_id (tasks db))"
  shows "\<exists>rows db'. task_get (job_svc_gateway pb svc fresh jnow) now t ids (db, j) = (Inr rows, (db', j)) \<and>
    rows = task_load t ids db' \<and> list_all2 (refreshed (job_view pb) t j) (task_load t ids db) rows \<and>
    agents db' = agents db \<and> tools db' = tools db \<and> agent_tools db' = agent_tools db \<and>
    map k_id (tasks db') = map k_id (tasks db) \<and>
    (\<forall>u. u \<noteq> t \<longrightarrow> filter (\<lambda>k. k_tenant_id k = u) (tasks db') = filter (\<lambda>k. k_tenant_id k = u) (tasks db))"
  by (rule job_svc.task_get_refreshes [OF assms])

theorem get_task_is_fresh_witness:
  "\<exists>row. fst (task_get demo_gateway (\<lambda>_. 0) ''t1'' [] (demo_tasks ''running'', demo_jobs ''dead'')) = Inr [row] \<and>
     k_status row = ''failed''"
proof -
  have ok: "job_side_ok demo_protobuf demo_fresh (demo_jobs ''dead'')"
    by (rule demo_jobs_ok) (simp add: job_statuses_def)
  have d: "distinct (map k_id (tasks (demo_tasks ''running'')))" by (simp add: demo_tasks_def)
  obtain rows db' where r: "task_get demo_gateway (\<lambda>_. 0) ''t1'' [] (demo_tasks ''running'', demo_jobs ''dead'')
      = (Inr rows, (db', demo_jobs ''dead''))"
    "list_all2 (refreshed (job_view demo_protobuf) ''t1'' (demo_jobs ''dead'')) (task_load ''t1'' [] (demo_tasks ''running'')) rows"
    using get_task_is_fresh [OF ok d, where svc = demo_service and jnow = demo_clock and
      now = "\<lambda>_. 0" and t = "''t1''" and ids = "[]"] unfolding demo_gateway_def demo_stub_def by blast
  have l: "task_load ''t1'' [] (demo_tasks ''running'') = [demo_task ''running'']" by code_simp
  have v: "map_option jr_status (job_view demo_protobuf ''t1'' ''j1'' (demo_jobs ''dead'')) = Some ''dead''" by code_simp
  from r(2) obtain row where row: "rows = [row]" "refreshed (job_view demo_protobuf) ''t1'' (demo_jobs ''dead'') (demo_task ''running'') row"
    unfolding l by (auto simp: list_all2_Cons1)
  with v have "k_status row = ''failed''"
    by (auto simp: refreshed_def mirrors_def demo_task_def terminal_statuses_def task_status_def)
  with r(1) row(1) show ?thesis by simp
qed

text \<open>What an approval does, in one step.\<close>

lemma approve_effect:
  assumes "job_side_ok pb fresh j" and "distinct (map k_id (tasks db))"
    and "get_row k_id k (tasks db) = Some task" and "k_tenant_id task = t"
    and "get_row j_id (k_job_id task) j = Some r" and "j_tenant_id r = t"
    and "j_status r \<in> {''waiting_approval'', ''failed'', ''dead'', ''cancelled''}"
  shows "\<exists>res. task_approve (job_svc_gateway pb svc fresh jnow) now t k (db, j) =
    (Inr (task_values (now 0) ''pending'' res task),
     (db\<lparr>tasks := update_rows (\<lambda>x. k_id x = k \<and> k_tenant_id x = t) (task_values (now 0) ''pending'' res) (tasks db)\<rparr>,
      update_rows (\<lambda>r. j_id r = k_job_id task) (overwrite_values (jnow 0) ''queued'') j))"
proof -
  have dj: "distinct (map j_id j)" using assms(1) by (simp add: job_side_ok_def)
  have nb: "t \<noteq> []" "\<not> py_blank (k_job_id task)" using job_side_row [OF assms(1,5)] assms(6) by auto
  let ?r = "overwrite_values (jnow 0) ''queued'' r"
  have "renderable pb ?r"
  proof (rule renderable_rewrite [OF _ overwrite.identity_upd])
    show "renderable pb r" using job_side_row [OF assms(1,5)] by (simp add: renderable_def)
  qed (simp_all add: job_statuses_def)
  then obtain pj where pj: "job_to_proto pb ?r = Inr pj" by (auto simp: renderable_def)
  have st: "job_status_str (pj_status pj) = ''queued''"
    using pj by (auto simp: job_to_proto_def status_to_proto_def job_status_str_def split: option.splits sum.splits)
  let ?j = "update_rows (\<lambda>r. j_id r = k_job_id task) (overwrite_values (jnow 0) ''queued'') j"
  have al: "j_status r \<in> set [''failed'', ''dead'', ''cancelled'', ''waiting_approval'']" using assms(7) by auto
  have gu: "guarded_update t (k_job_id task) [''failed'', ''dead'', ''cancelled'', ''waiting_approval'']
      (overwrite_values (jnow 0) ''queued'') j = (Inr ?r, ?j)"
    unfolding requeue.guarded_update_spec [OF dj] assms(5) option.case using al assms(6) by simp
  have ask: "gw_start_job (job_svc_gateway pb svc fresh jnow) t (k_job_id task) j = (Inr (to_ref pj), ?j)"
    using nb pj
    by (simp add: job_client_def client_start_job_def stub_UpdateJob_guarded guarded_rpc_def client_call_def
        job_handle_errors_def bindS_def gu)
  show ?thesis
    unfolding task_approve_transition task_transition_spec [OF assms(2)] assms(3) option.case
    using assms(4) st by (auto simp: ask Let_def to_ref_def task_status_def)
qed

text \<open>C38. \<open>ApproveTask\<close> is more than an approval: for a caller's own task it succeeds whenever
  the job is waiting for approval, failed, dead or cancelled, requeues the job with its attempt and
  retry counters unchanged, and shows the task as pending. So it also revives a job that was
  cancelled or whose automatic and manual budgets are both spent.\<close>

theorem approve_requeues_ended_jobs:
  assumes "job_side_ok pb fresh j" and "distinct (map k_id (tasks db))"
    and "get_row k_id k (tasks db) = Some task" and "k_tenant_id task = t"
    and "get_row j_id (k_job_id task) j = Some r" and "j_tenant_id r = t"
    and "j_status r \<in> {''waiting_approval'', ''failed'', ''dead'', ''cancelled''}"
  shows "case task_approve (job_svc_gateway pb svc fresh jnow) now t k (db, j) of (res, (db', j')) \<Rightarrow>
    (\<exists>row. res = Inr row \<and> k_status row = ''pending'' \<and> get_row k_id k (tasks db') = Some row) \<and>
    (\<exists>r'. get_row j_id (k_job_id task) j' = Some r' \<and> j_status r' = ''queued'' \<and>
       j_attempts r' = j_attempts r \<and> j_retry_count r' = j_retry_count r)"
proof -
  let ?j = "update_rows (\<lambda>r. j_id r = k_job_id task) (overwrite_values (jnow 0) ''queued'') j"
  have "get_row j_id (k_job_id task) ?j = Some (overwrite_values (jnow 0) ''queued'' r)"
    using assms(5) by (auto simp: overwrite.get_row_update dest: get_row_Some)
  with approve_effect [OF assms, of svc jnow now] get_row_task_values [OF assms(3,4)] show ?thesis
    by (auto simp: task_values_def)
qed

theorem approve_requeues_ended_jobs_witness:
  "case task_approve demo_gateway (\<lambda>_. 0) ''t1'' ''k1'' (demo_tasks ''failed'', demo_jobs ''dead'') of (res, (db', j')) \<Rightarrow>
     (\<exists>row. res = Inr row \<and> k_status row = ''pending'') \<and> map_option j_status (get_row j_id ''j1'' j') = Some ''queued''"
proof -
  have ok: "job_side_ok demo_protobuf demo_fresh (demo_jobs ''dead'')"
    by (rule demo_jobs_ok) (simp add: job_statuses_def)
  have d: "distinct (map k_id (tasks (demo_tasks ''failed'')))" by (simp add: demo_tasks_def)
  have g: "get_row k_id ''k1'' (tasks (demo_tasks ''failed'')) = Some (demo_task ''failed'')"
    "k_tenant_id (demo_task ''failed'') = ''t1''" by (simp_all add: demo_tasks_def demo_task_def)
  have r: "get_row j_id (k_job_id (demo_task ''failed'')) (demo_jobs ''dead'') = Some ((demo_job ''j1'')\<lparr>j_status := ''dead''\<rparr>)"
    "j_tenant_id ((demo_job ''j1'')\<lparr>j_status := ''dead''\<rparr>) = ''t1''"
    by (simp_all add: demo_jobs_def demo_job_def demo_task_def)
  from approve_requeues_ended_jobs [OF ok d g r, where svc = demo_service and jnow = demo_clock and now = "\<lambda>_. 0"]
  show ?thesis
    by (auto simp: demo_gateway_def demo_stub_def demo_task_def split: prod.splits)
qed

text \<open>Progress is well formed whatever the job reports: the percentage is between 0 and 100,
  it is 100 for a completed task and for one whose planned steps are all complete, 0 while nothing is
  planned; the completed steps never exceed the planned ones, every completed step is shown, and
  the view asks for approval exactly while the job waits for it.\<close>

theorem progress_view_well_formed:
  "0 \<le> pv_percent_complete (progress_view row ref) \<and> pv_percent_complete (progress_view row ref) \<le> 100 \<and>
   pv_steps_completed (progress_view row ref) \<le> pv_steps_total (progress_view row ref) \<and>
   pv_steps_completed (progress_view row ref) = length (pv_steps (progress_view row ref)) \<and>
   pv_requires_approval (progress_view row ref) = (jp_status ref = ''waiting_approval'') \<and>
   (if jp_status ref = ''succeeded'' then pv_percent_complete (progress_view row ref) = 100
    else if pv_steps_total (progress_view row ref) = 0 then pv_percent_complete (progress_view row ref) = 0
    else if pv_steps_completed (progress_view row ref) = pv_steps_total (progress_view row ref)
    then pv_percent_complete (progress_view row ref) = 100 else True)"
proof -
  have q: "0 \<le> fl (of_nat c / of_nat p)" for c p :: nat using fl_ge [of 0 "of_nat c / of_nat p"] by simp
  have lo: "0 \<le> percent_complete s c p" for s c p
    using q [of c p] fl_ge [of 0 "min (fl (of_nat c / of_nat p)) 1 * 100"]
      round1_ge [of 0 "fl (min (fl (of_nat c / of_nat p)) 1 * 100)"]
    by (simp add: percent_complete_def)
  have hi: "percent_complete s c p \<le> 100" for s c p
    using fl_le [of "min (fl (of_nat c / of_nat p)) 1 * 100" 100]
      round1_le [of "fl (min (fl (of_nat c / of_nat p)) 1 * 100)" 100]
    by (simp add: percent_complete_def)
  have "round1 100 = 100" using round1_le [of 100 100] round1_ge [of 100 100] by simp
  then have full: "c = p \<Longrightarrow> p \<noteq> 0 \<Longrightarrow> percent_complete s c p = 100" for s c p
    by (simp add: percent_complete_def)
  have succ: "task_status ''succeeded'' = ''completed''" by (simp add: task_status_def)
  have fin: "percent_complete ''completed'' c p = 100" for c p by (simp add: percent_complete_def)
  have none: "s \<noteq> ''completed'' \<Longrightarrow> percent_complete s c 0 = 0" for s c by (simp add: percent_complete_def)
  have st: "(task_status s = ''waiting_approval'') = (s = ''waiting_approval'')"
    "(task_status s = ''completed'') = (s = ''succeeded'')" for s
    by (auto simp: task_status_def)
  show ?thesis
    by (auto simp: progress_view_def Let_def st lo hi fin none succ intro: full)
qed

end
