(* ===== verification/Aes_Sessions.thy ===== *)
theory Aes_Sessions
  imports Aes_Edge
begin

text \<open>
  The task handlers of \<open>services/tasks.py\<close> one await at a time. A handler in flight is a
  \<open>task_session\<close>: what it has read and been answered so far, and the transaction or remote
  call it makes next. \<open>session_step\<close> makes that one transaction or call, so that a run of
  steps of many sessions, with anything else between them, is what the event loop of one pod
  and several pods of the service do. A session that runs alone computes what the functions of
  \<open>Aes_Tasks\<close> compute.
\<close>

section \<open>A handler in flight\<close>

datatype transition = Approve_Task | Retry_Task

definition asks :: "'j job_gateway \<Rightarrow> transition \<Rightarrow> string \<Rightarrow> string \<Rightarrow> ('j, aes_error, job_ref) comp" where
  "asks gw tr = (case tr of Approve_Task \<Rightarrow> gw_start_job gw | Retry_Task \<Rightarrow> gw_retry_job gw)"

datatype task_answer =
    A_Task task_row
  | A_Tasks "task_row list"
  | A_View task_progress_view

text \<open>
  Tenant first, then the request; the rows a \<open>get\<close> has loaded, those it has still to fetch and
  the changes it has collected.
\<close>

type_synonym change = "string \<times> string \<times> string"

datatype task_session =
    S_Create string string string
  | S_Insert task_row
  | S_Own transition string string
  | S_Ask transition string string string
  | S_Save string string job_ref
  | S_Load string "string list"
  | S_Fetch string "string list" "task_row list" "task_row list" "change list"
  | S_Write string "string list" "change list"
  | S_Reload string "string list"
  | S_Own_Progress string string
  | S_Ask_Progress string task_row
  | S_Done "aes_error + task_answer"

text \<open>The next state of a session whose await ended: an exception ends the handler.\<close>

definition after :: "('s, aes_error, 'a) comp \<Rightarrow> ('a \<Rightarrow> task_session) \<Rightarrow> 's \<Rightarrow> task_session \<times> 's" where
  "after m f s = (case m s of (Inl e, s') \<Rightarrow> (S_Done (Inl e), s') | (Inr a, s') \<Rightarrow> (f a, s'))"

definition new_task :: "string \<Rightarrow> (nat \<Rightarrow> stamp) \<Rightarrow> string \<Rightarrow> string \<Rightarrow> job_ref \<Rightarrow> task_row" where
  "new_task new_id now tenant_id input ref =
     \<lparr>k_id = new_id, k_tenant_id = tenant_id, k_input = input, k_job_id = jr_id ref,
      k_status = task_status (jr_status ref), k_result = jr_result ref,
      k_created_at = now 0, k_updated_at = now 1\<rparr>"

definition fetch_next ::
    "string \<Rightarrow> string list \<Rightarrow> task_row list \<Rightarrow> task_row list \<Rightarrow> change list \<Rightarrow> task_session" where
  "fetch_next tenant_id ids rows todo changes =
     (if todo \<noteq> [] then S_Fetch tenant_id ids rows todo changes
      else if changes = [] then S_Done (Inr (A_Tasks rows))
      else S_Write tenant_id ids changes)"

definition stale_rows :: "task_row list \<Rightarrow> task_row list" where
  "stale_rows rows = filter (\<lambda>row. k_status row \<notin> set terminal_statuses) rows"

definition write_changes :: "(nat \<Rightarrow> stamp) \<Rightarrow> string \<Rightarrow> change list \<Rightarrow> unit aes_op" where
  "write_changes now tenant_id changes = (\<lambda>db.
     (Inr (), db\<lparr>tasks := apply_changes tenant_id now changes (tasks db)\<rparr>))"

fun session_step ::
    "'j job_gateway \<Rightarrow> (nat \<Rightarrow> stamp) \<Rightarrow> task_session \<Rightarrow> aes_db \<times> 'j \<Rightarrow> task_session \<times> (aes_db \<times> 'j)" where
  "session_step gw now (S_Create new_id t input) =
     after (remote (gw_create_job gw t input)) (\<lambda>ref. S_Insert (new_task new_id now t input ref))"
| "session_step gw now (S_Insert row) =
     after (local_tx (insert_task row)) (\<lambda>_. S_Done (Inr (A_Task row)))"
| "session_step gw now (S_Own tr t k) = after (local_tx (job_id_for t k)) (S_Ask tr t k)"
| "session_step gw now (S_Ask tr t k job_id) = after (remote (asks gw tr t job_id)) (S_Save t k)"
| "session_step gw now (S_Save t k ref) =
     after (local_tx (save_status now t k ref)) (\<lambda>row. S_Done (Inr (A_Task row)))"
| "session_step gw now (S_Load t ids) =
     after (local_tx (\<lambda>db. (Inr (task_load t ids db), db)))
       (\<lambda>rows. fetch_next t ids rows (stale_rows rows) [])"
| "session_step gw now (S_Fetch t ids rows [] changes) = (\<lambda>s. (fetch_next t ids rows [] changes, s))"
| "session_step gw now (S_Fetch t ids rows (row # todo) changes) =
     after (remote (task_fetch gw t row))
       (\<lambda>c. fetch_next t ids rows todo (changes @ (case c of None \<Rightarrow> [] | Some c \<Rightarrow> [c])))"
| "session_step gw now (S_Write t ids changes) =
     after (local_tx (write_changes now t changes)) (\<lambda>_. S_Reload t ids)"
| "session_step gw now (S_Reload t ids) =
     after (local_tx (\<lambda>db. (Inr (task_load t ids db), db))) (\<lambda>rows. S_Done (Inr (A_Tasks rows)))"
| "session_step gw now (S_Own_Progress t k) = after (local_tx (own_task t k)) (S_Ask_Progress t)"
| "session_step gw now (S_Ask_Progress t row) =
     after (remote (gw_get_job_progress gw t (k_job_id row))) (\<lambda>ref. S_Done (Inr (A_View (progress_view row ref))))"
| "session_step gw now (S_Done r) = (\<lambda>s. (S_Done r, s))"

fun session_run ::
    "'j job_gateway \<Rightarrow> (nat \<Rightarrow> stamp) \<Rightarrow> nat \<Rightarrow> task_session \<Rightarrow> aes_db \<times> 'j \<Rightarrow> task_session \<times> (aes_db \<times> 'j)" where
  "session_run gw now 0 x s = (x, s)"
| "session_run gw now (Suc n) x s = (case session_step gw now x s of (x', s') \<Rightarrow> session_run gw now n x' s')"

section \<open>A session that runs alone\<close>

lemma session_run_done [simp]: "session_run gw now n (S_Done r) s = (S_Done r, s)"
  by (induction n) simp_all

text \<open>How a finished handler answers.\<close>

definition done_with :: "('a \<Rightarrow> task_answer) \<Rightarrow> (aes_error + 'a) \<times> 's \<Rightarrow> task_session \<times> 's" where
  "done_with f r = (S_Done (map_sum id f (fst r)), snd r)"

lemma session_run_after:
  "session_run gw now (Suc n) x s =
     (case session_step gw now x s of (x', s') \<Rightarrow> session_run gw now n x' s')"
  by simp

text \<open>The continuation of a bind and the continuation of a session agree.\<close>

lemma after_bind:
  assumes "session_step gw now x s = after m g s"
    and "\<And>a s'. session_run gw now n (g a) s' = done_with h (f a s')"
  shows "session_run gw now (Suc n) x s = done_with h (bindS m f s)"
  using assms
  by (auto simp: after_def bindS_def done_with_def split: prod.splits sum.splits)

lemma after_last:
  assumes "session_step gw now x s = after m (\<lambda>a. S_Done (Inr (h (g a)))) s"
  shows "session_run gw now (Suc n) x s = done_with h (bindS m (\<lambda>a. returnS (g a)) s)"
  by (rule after_bind [OF assms]) (simp add: done_with_def)

lemma after_end:
  assumes "session_step gw now x s = after m (\<lambda>a. S_Done (Inr (h a))) s"
  shows "session_run gw now (Suc n) x s = done_with h (m s)"
  using assms by (auto simp: after_def done_with_def split: prod.splits sum.splits)

lemma bindS_return [simp]: "bindS m returnS = m"
  by (auto simp: fun_eq_iff bindS_def split: prod.split sum.split)

lemma create_session:
  "session_run gw now (Suc (Suc n)) (S_Create new_id t input) s = done_with A_Task (task_create gw new_id now t input s)"
  unfolding task_create_def Let_def
proof (rule after_bind)
  show "session_run gw now (Suc n) (S_Insert (new_task new_id now t input ref)) s' = done_with A_Task
     (bindS (local_tx (insert_task \<lparr>k_id = new_id, k_tenant_id = t, k_input = input, k_job_id = jr_id ref,
        k_status = task_status (jr_status ref), k_result = jr_result ref, k_created_at = now 0, k_updated_at = now 1\<rparr>))
      (\<lambda>_. returnS \<lparr>k_id = new_id, k_tenant_id = t, k_input = input, k_job_id = jr_id ref,
        k_status = task_status (jr_status ref), k_result = jr_result ref, k_created_at = now 0, k_updated_at = now 1\<rparr>) s')"
    for ref s'
    by (rule after_last) (simp add: new_task_def)
qed simp

lemma transition_session:
  "session_run gw now (Suc (Suc (Suc n))) (S_Own tr t k) s =
     done_with A_Task (task_transition (asks gw tr) now t k s)"
  unfolding task_transition_def
proof (rule after_bind)
  fix job_id s'
  show "session_run gw now (Suc (Suc n)) (S_Ask tr t k job_id) s' = done_with A_Task
      (bindS (remote (asks gw tr t job_id)) (\<lambda>ref. local_tx (save_status now t k ref)) s')"
  proof (rule after_bind)
    fix ref s'
    show "session_run gw now (Suc n) (S_Save t k ref) s' = done_with A_Task (local_tx (save_status now t k ref) s')"
      by (rule after_end) simp
  qed simp
qed simp

lemma progress_session:
  "session_run gw now (Suc (Suc n)) (S_Own_Progress t k) s = done_with A_View (task_get_progress gw t k s)"
  unfolding task_get_progress_def
  by (rule after_bind, simp, rule after_last) simp

lemma fetch_session:
  "session_run gw now (length todo + Suc (Suc n)) (fetch_next t ids rows todo changes) s =
     done_with A_Tasks
       (bindS (remote (task_fetch_all gw t todo)) (\<lambda>fetched.
        let cs = changes @ List.map_filter id fetched
        in if cs = [] then returnS rows
           else bindS (local_tx (write_changes now t cs)) (\<lambda>_. local_tx (\<lambda>db. (Inr (task_load t ids db), db)))) s)"
proof (induction todo arbitrary: changes s)
  case Nil
  have reload: "session_run gw now (Suc n) (S_Reload t ids) s' = done_with A_Tasks (local_tx (\<lambda>db. (Inr (task_load t ids db), db)) s')" for s'
    by (rule after_end) simp
  have "session_run gw now (Suc (Suc n)) (S_Write t ids changes) s = done_with A_Tasks
      (bindS (local_tx (write_changes now t changes)) (\<lambda>_. local_tx (\<lambda>db. (Inr (task_load t ids db), db))) s)"
    by (rule after_bind [OF _ reload]) simp
  then show ?case
    by (cases s) (simp add: fetch_next_def remote_def bindS_def done_with_def List.map_filter_simps)
next
  case (Cons row todo)
  obtain db j where s: "s = (db, j)" by (cases s)
  show ?case
  proof (cases "task_fetch gw t row j")
    case (Pair res j')
    then show ?thesis
      using Cons.IH [of "changes @ (case res of Inr (Some c) \<Rightarrow> [c] | _ \<Rightarrow> [])" "(db, j')"]
      by (cases res) (auto simp: s fetch_next_def after_def remote_def bindS_def done_with_def
          List.map_filter_simps split: option.splits sum.splits prod.splits)
  qed
qed

lemma get_session:
  "session_run gw now (length (stale_rows (task_load t ids (fst s))) + Suc (Suc (Suc n))) (S_Load t ids) s =
     done_with A_Tasks (task_get gw now t ids s)"
proof -
  obtain db j where s: "s = (db, j)" by (cases s)
  let ?rows = "task_load t ids db"
  have run: "session_run gw now (length (stale_rows ?rows) + Suc (Suc (Suc n))) (S_Load t ids) s =
      session_run gw now (length (stale_rows ?rows) + Suc (Suc n)) (fetch_next t ids ?rows (stale_rows ?rows) []) s"
    by (simp add: s after_def local_tx_def)
  show ?thesis
    unfolding s fst_conv run [unfolded s] fetch_session
    by (simp add: task_get_def task_refresh_def local_tx_def remote_def bindS_def Let_def stale_rows_def
        write_changes_def returnS_def List.map_filter_simps split: prod.split sum.split)
qed

section \<open>Sessions and handlers\<close>


end
