(* ===== verification/Platform.thy ===== *)
theory Platform
  imports Aes_Sessions Job_Pods
begin

text \<open>
  The platform: the database of \<open>agent_execution_service\<close>, the jobs table of \<open>job_svc\<close> and
  any number of task handlers in flight, whose awaits interleave with each other, with the
  catalog's transactions and with everything that callers, pollers, runners and reapers do to
  the jobs table. The invariant ties a task to its job in every state the platform can reach.
\<close>

section \<open>What the gateway does to the jobs table\<close>

lemma keepsS_client_call: "keepsS R m \<Longrightarrow> keepsS R (client_call m)"
  by (auto simp: keepsS_def client_call_def split: prod.split sum.split) (metis snd_conv)+

lemma keepsS_job_handle_errors: "keepsS R m \<Longrightarrow> keepsS R (job_handle_errors m)"
  by (simp add: keepsS_def)

lemma keepsS_pure: "reflp R \<Longrightarrow> (\<And>s. snd (m s) = s) \<Longrightarrow> keepsS R m"
  by (simp add: keepsS_def reflp_def)

abbreviation job_steps :: "job_service \<Rightarrow> job_db \<Rightarrow> job_db \<Rightarrow> bool" where
  "job_steps svc \<equiv> (job_step svc)\<^sup>*\<^sup>*"

lemma job_steps_rel: "reflp (job_steps svc)" "transp (job_steps svc)"
  by (auto simp: reflp_def transp_def)

lemma keepsS_job_ops:
  "keepsS (job_steps svc) (job_update now t k st)"
  "keepsS (job_steps svc) (job_retry now t k)"
  "keepsS (job_steps svc) (job_create svc new_id now t ty spec None None)"
  by (auto simp: keepsS_def validate_max_attempts_def validate_max_retries_def intro!: r_into_rtranclp job_step.intros)

lemmas keepsS_job_calls = keepsS_job_handle_errors keepsS_client_call keepsS_bind [OF job_steps_rel(2)]
  keepsS_liftS [OF job_steps_rel(1)] keepsS_return [OF job_steps_rel(1)] keepsS_job_ops

lemma keepsS_gateway:
  "keepsS (job_steps svc) (gw_create_job (job_svc_gateway pb svc fresh jnow) t input)"
  "keepsS (job_steps svc) (gw_get_job (job_svc_gateway pb svc fresh jnow) t k)"
  "keepsS (job_steps svc) (gw_start_job (job_svc_gateway pb svc fresh jnow) t k)"
  "keepsS (job_steps svc) (gw_retry_job (job_svc_gateway pb svc fresh jnow) t k)"
  "keepsS (job_steps svc) (gw_get_job_progress (job_svc_gateway pb svc fresh jnow) t k)"
proof -
  have "keepsS (job_steps svc) (\<lambda>db. CreateJob pb svc (fresh db) jnow md
      \<lparr>cj_type = n, cj_spec = sp, cj_max_attempts = None, cj_max_retries = None\<rparr> db)" for md n sp
  proof (rule keepsSI)
    fix db
    have "keepsS (job_steps svc) (CreateJob pb svc (fresh db) jnow md
        \<lparr>cj_type = n, cj_spec = sp, cj_max_attempts = None, cj_max_retries = None\<rparr>)"
      unfolding CreateJob_def create_job_request.simps by (intro keepsS_job_calls)
    then show "job_steps svc db (snd (CreateJob pb svc (fresh db) jnow md
        \<lparr>cj_type = n, cj_spec = sp, cj_max_attempts = None, cj_max_retries = None\<rparr> db))"
      by (simp add: keepsS_def)
  qed
  then show "keepsS (job_steps svc) (gw_create_job (job_svc_gateway pb svc fresh jnow) t input)"
    unfolding job_client_def client_create_job_def job_svc_stub_def job_gateway.simps job_stub.simps
    by (intro keepsS_job_calls)
  have get: "keepsS (job_steps svc) (client_get (job_svc_stub pb svc fresh jnow) t k)"
    unfolding client_get_def job_svc_stub_def job_stub.simps GetJob_def
    by (intro keepsS_job_calls keepsS_pure [OF job_steps_rel(1)]) simp
  then show "keepsS (job_steps svc) (gw_get_job (job_svc_gateway pb svc fresh jnow) t k)"
    "keepsS (job_steps svc) (gw_get_job_progress (job_svc_gateway pb svc fresh jnow) t k)"
    unfolding job_client_def client_get_job_def client_get_job_progress_def job_gateway.simps
    by (intro keepsS_job_calls, assumption)+
  show "keepsS (job_steps svc) (gw_start_job (job_svc_gateway pb svc fresh jnow) t k)"
    "keepsS (job_steps svc) (gw_retry_job (job_svc_gateway pb svc fresh jnow) t k)"
    unfolding job_client_def client_start_job_def client_retry_job_def job_svc_stub_def job_gateway.simps
      job_stub.simps UpdateJob_def RetryJob_def
    by (intro keepsS_job_calls)+
qed

section \<open>What the gateway answers\<close>

text \<open>The spec that \<open>create_job\<close> submits for a task's input, as the jobs table stores it.\<close>

definition task_spec :: "protobuf \<Rightarrow> string \<Rightarrow> json" where
  "task_spec pb input = message_to_dict pb (Agent_Execution_Spec \<lparr>ae_name = [], ae_instructions = input,
     ae_llm_config = None, ae_tool_config = None\<rparr>)"

lemma job_status_str_of:
  "map_of status_to_proto s = Some n \<Longrightarrow> job_status_str n = s"
  by (auto simp: status_to_proto_def job_status_str_def split: if_splits)

lemma jr_status_to_ref:
  "job_to_proto pb r = Inr pj \<Longrightarrow> jr_status (to_ref pj) = j_status r \<and> jr_id (to_ref pj) = j_id r"
  by (auto simp: job_to_proto_def to_ref_def job_status_str_of split: option.splits sum.splits)

lemma create_inserts:
  assumes "gw_create_job (job_svc_gateway pb svc fresh jnow) t input j = (Inr ref, j')"
  shows "\<exists>r. j' = insert_row r j \<and> j_id r \<notin> j_id ` set j \<and> j_id r = fresh j \<and> j_tenant_id r = t \<and>
    j_type r = ''agent_execution'' \<and> j_spec r = task_spec pb input \<and> j_status r = ''queued'' \<and>
    j_progress r = empty_progress \<and> t \<noteq> [] \<and> py_strip input \<noteq> [] \<and>
    (\<exists>pj. job_to_proto pb r = Inr pj \<and> ref = to_ref pj)"
proof -
  from assms obtain r where r: "job_create svc (fresh j) jnow t ''agent_execution'' (task_spec pb input) None None j = (Inr r, j')"
    and pj: "\<exists>pj. job_to_proto pb r = Inr pj \<and> ref = to_ref pj" "t \<noteq> []" "py_strip input \<noteq> []"
    by (auto simp: job_client_def client_create_job_def job_svc_stub_def CreateJob_def monad_simps tenant_id_aes_md
        validate_type_def type_from_proto_def type_to_proto_def creatable_types_def task_spec_def validate_spec_def
        validate_max_attempts_def validate_max_retries_def split: if_splits sum.splits prod.splits)
  from r pj show ?thesis by (auto simp: job_create_def Let_def split: if_splits)
qed

lemma create_answer:
  assumes "gw_create_job (job_svc_gateway pb svc fresh jnow) t input j = (Inr ref, j')"
  shows "\<exists>r. get_row j_id (jr_id ref) j' = Some r \<and> j_tenant_id r = t \<and> j_type r = ''agent_execution'' \<and>
    j_spec r = task_spec pb input \<and> jr_id ref \<notin> j_id ` set j \<and> jr_status ref = ''queued''"
  using create_inserts [OF assms] jr_status_to_ref by (fastforce simp: get_row_insert)

lemma guarded_answer:
  assumes "guarded_rpc pb t k allowed upd j = (Inr pj, j')" and "job_rewrite upd" and "job_db_ok j"
    and "\<And>r. j_status (upd r) = ''queued''"
  shows "jr_status (to_ref pj) = ''queued''"
proof -
  have "distinct (map j_id j)" using assms(3) by simp
  with assms(1) obtain r where "job_to_proto pb (upd r) = Inr pj"
    by (auto simp: guarded_rpc_def job_handle_errors_def bindS_def
        job_rewrite.guarded_update_spec [OF assms(2)] split: option.splits sum.splits prod.splits if_splits)
  from jr_status_to_ref [OF this] assms(4) show ?thesis by simp
qed

lemma transition_answer:
  assumes "asks (job_svc_gateway pb svc fresh jnow) tr t k j = (Inr ref, j')" and "job_db_ok j"
  shows "jr_status ref = ''queued''"
proof (cases tr)
  case Approve_Task
  with assms(1) obtain pj where "ref = to_ref pj" "guarded_rpc pb t k [''failed'', ''dead'', ''cancelled'', ''waiting_approval'']
      (overwrite_values (jnow 0) ''queued'') j = (Inr pj, j')"
    by (auto simp: asks_def job_client_def client_start_job_def stub_UpdateJob_guarded bindS_def client_call_apply
        split: sum.splits prod.splits if_splits)
  with guarded_answer [OF _ overwrite.job_rewrite_axioms assms(2)] show ?thesis by simp
next
  case Retry_Task
  with assms(1) obtain pj where "ref = to_ref pj"
    "guarded_rpc pb t k [''failed''] (retry_values (jnow 0)) j = (Inr pj, j')"
    by (auto simp: asks_def job_client_def client_retry_job_def stub_RetryJob_guarded bindS_def client_call_apply
        split: sum.splits prod.splits if_splits)
  with guarded_answer [OF _ retry.job_rewrite_axioms assms(2)] show ?thesis by (simp add: retry_values_def)
qed

lemma get_answer:
  assumes "gw_get_job (job_svc_gateway pb svc fresh jnow) t k j = (Inr ref, j')" and "job_db_ok j"
  shows "\<exists>r. get_row j_id k j = Some r \<and> j_tenant_id r = t \<and> jr_status ref = j_status r"
proof -
  have d: "distinct (map j_id j)" using assms(2) by simp
  from assms(1) obtain r pj where "get_row j_id k j = Some r" "j_tenant_id r = t" "job_to_proto pb r = Inr pj" "ref = to_ref pj"
    by (auto simp: job_client_def client_get_job_def client_get_def client_call_def job_svc_stub_def GetJob_def
        tenant_id_aes_md monad_simps validate_filter_ids_def max_filter_ids_def job_get_one [OF d] first_job_def
        split: option.splits sum.splits prod.splits if_splits list.splits)
  with jr_status_to_ref show ?thesis by blast
qed

section \<open>The machine\<close>

record platform =
  pl_db :: aes_db
  pl_jobs :: job_db
  pl_sessions :: "task_session list"

abbreviation Pl :: "aes_db \<Rightarrow> job_db \<Rightarrow> task_session list \<Rightarrow> platform" where
  "Pl db jobs xs \<equiv> \<lparr>pl_db = db, pl_jobs = jobs, pl_sessions = xs\<rparr>"

fun is_start :: "task_session \<Rightarrow> bool" where
  "is_start (S_Create new_id t input) = True"
| "is_start (S_Own tr t k) = True"
| "is_start (S_Load t ids) = True"
| "is_start (S_Own_Progress t k) = True"
| "is_start _ = False"

inductive catalog_step :: "aes_db \<Rightarrow> aes_db \<Rightarrow> bool" where
  "catalog_step db (snd (agent_create new_id now t name instructions llm temp ids db))"
| "catalog_step db (snd (agent_update now t k name instructions llm temp ids db))"
| "catalog_step db (snd (agent_delete t k db))"
| "catalog_step db (snd (tool_create new_id now t name description mutating db))"
| "catalog_step db (snd (tool_update now t k name new_text mutating db))"
| "catalog_step db (snd (tool_delete t k db))"

text \<open>
  One step: an operation on the jobs table (by any caller or pod), a transaction of the catalog,
  a new request, or one await of a handler in flight, whose calls reach the handlers of
  \<open>job_svc\<close>. A handler may also never be resumed (its pod dies).
\<close>

inductive platform_step :: "protobuf \<Rightarrow> job_service \<Rightarrow> platform \<Rightarrow> platform \<Rightarrow> bool" for pb svc where
  jobs: "job_step svc jobs jobs' \<Longrightarrow> platform_step pb svc (Pl db jobs xs) (Pl db jobs' xs)"
| catalog: "catalog_step db db' \<Longrightarrow> platform_step pb svc (Pl db jobs xs) (Pl db' jobs xs)"
| request: "is_start x \<Longrightarrow> platform_step pb svc (Pl db jobs xs) (Pl db jobs (x # xs))"
| await: "session_step (job_svc_gateway pb svc fresh jnow) now x (db, jobs) = (x', (db', jobs')) \<Longrightarrow>
     platform_step pb svc (Pl db jobs (xs @ x # ys)) (Pl db' jobs' (xs @ x' # ys))"

definition empty_platform :: platform where
  "empty_platform = Pl empty_aes_db [] []"

abbreviation platform_reachable :: "protobuf \<Rightarrow> job_service \<Rightarrow> platform \<Rightarrow> bool" where
  "platform_reachable pb svc \<equiv> (platform_step pb svc)\<^sup>*\<^sup>* empty_platform"

section \<open>The invariant\<close>

definition succeeded :: "job_db \<Rightarrow> string \<Rightarrow> bool" where
  "succeeded jobs jid \<longleftrightarrow> (\<exists>r. get_row j_id jid jobs = Some r \<and> j_status r = ''succeeded'')"

text \<open>The job a task stands for: its tenant's, running its input, and done when the task says so.\<close>

definition task_backed :: "protobuf \<Rightarrow> job_db \<Rightarrow> task_row \<Rightarrow> bool" where
  "task_backed pb jobs task \<longleftrightarrow> (\<exists>r. get_row j_id (k_job_id task) jobs = Some r \<and>
     j_tenant_id r = k_tenant_id task \<and> j_type r = ''agent_execution'' \<and>
     j_spec r = task_spec pb (k_input task) \<and>
     (k_status task = ''completed'' \<longrightarrow> j_status r = ''succeeded''))"

definition known :: "task_row list \<Rightarrow> string \<Rightarrow> string \<Rightarrow> string \<Rightarrow> bool" where
  "known tb t k jid \<longleftrightarrow> (\<exists>task \<in> set tb. k_id task = k \<and> k_tenant_id task = t \<and> k_job_id task = jid)"

fun change_ok :: "task_row list \<Rightarrow> job_db \<Rightarrow> string \<Rightarrow> change \<Rightarrow> bool" where
  "change_ok tb jobs t (k, st, res) \<longleftrightarrow>
     (\<exists>jid. known tb t k jid \<and> (st = ''completed'' \<longrightarrow> succeeded jobs jid))"

fun session_ok :: "protobuf \<Rightarrow> task_row list \<Rightarrow> job_db \<Rightarrow> task_session \<Rightarrow> bool" where
  "session_ok pb tb jobs (S_Insert row) \<longleftrightarrow> task_backed pb jobs row"
| "session_ok pb tb jobs (S_Save t k ref) \<longleftrightarrow> jr_status ref = ''queued''"
| "session_ok pb tb jobs (S_Fetch t ids rows todo changes) \<longleftrightarrow>
     (\<forall>row \<in> set todo. known tb t (k_id row) (k_job_id row)) \<and> (\<forall>c \<in> set changes. change_ok tb jobs t c)"
| "session_ok pb tb jobs (S_Write t ids changes) \<longleftrightarrow> (\<forall>c \<in> set changes. change_ok tb jobs t c)"
| "session_ok pb tb jobs _ \<longleftrightarrow> True"

fun session_jobs :: "task_session \<Rightarrow> string list" where
  "session_jobs (S_Insert row) = [k_job_id row]"
| "session_jobs _ = []"

definition used_jobs :: "platform \<Rightarrow> string list" where
  "used_jobs pl = map k_job_id (tasks (pl_db pl)) @ concat (map session_jobs (pl_sessions pl))"

definition platform_ok :: "protobuf \<Rightarrow> platform \<Rightarrow> bool" where
  "platform_ok pb pl \<longleftrightarrow> aes_db_ok (pl_db pl) \<and> job_db_ok (pl_jobs pl) \<and>
     (\<forall>task \<in> set (tasks (pl_db pl)). task_backed pb (pl_jobs pl) task) \<and>
     (\<forall>x \<in> set (pl_sessions pl). session_ok pb (tasks (pl_db pl)) (pl_jobs pl) x) \<and>
     distinct (used_jobs pl)"

subsection \<open>Stability\<close>

text \<open>What the assertions rely on of a change to the jobs table, and of one to the tasks.\<close>

definition jobs_grow :: "job_db \<Rightarrow> job_db \<Rightarrow> bool" where
  "jobs_grow jobs jobs' \<longleftrightarrow> (\<forall>k r. get_row j_id k jobs = Some r \<longrightarrow>
     (\<exists>r'. get_row j_id k jobs' = Some r' \<and> job_identity r' = job_identity r \<and>
        (j_status r = ''succeeded'' \<longrightarrow> j_status r' = ''succeeded'')))"

definition tasks_grow :: "task_row list \<Rightarrow> task_row list \<Rightarrow> bool" where
  "tasks_grow tb tb' \<longleftrightarrow> (\<forall>t k jid. known tb t k jid \<longrightarrow> known tb' t k jid)"

lemma jobs_grow_refl [simp]: "jobs_grow jobs jobs"
  by (simp add: jobs_grow_def)

lemma tasks_grow_refl [simp]: "tasks_grow tb tb"
  by (simp add: tasks_grow_def)

lemma job_steps_grow:
  assumes "job_steps svc jobs jobs'" and "service_ok svc" and "job_db_ok jobs"
  shows "job_db_ok jobs' \<and> jobs_grow jobs jobs'"
  using assms(1)
proof (induction rule: rtranclp_induct)
  case base
  then show ?case using assms by simp
next
  case (step jobs1 jobs2)
  have evolve: "\<exists>r2. get_row j_id k jobs2 = Some r2 \<and> job_identity r2 = job_identity r1 \<and>
      (j_status r1 = ''succeeded'' \<longrightarrow> j_status r2 = ''succeeded'')" if "get_row j_id k jobs1 = Some r1" for k r1
    using job_step_evolves [OF step(2) _ that] step.IH by (auto simp: job_evolves_def job_edge_def job_edges_def)
  have "jobs_grow jobs jobs2"
    unfolding jobs_grow_def
  proof (intro allI impI)
    fix k r
    assume "get_row j_id k jobs = Some r"
    with step.IH obtain r1 where "get_row j_id k jobs1 = Some r1" "job_identity r1 = job_identity r"
      "j_status r = ''succeeded'' \<longrightarrow> j_status r1 = ''succeeded''" unfolding jobs_grow_def by blast
    with evolve [of k r1] show "\<exists>r'. get_row j_id k jobs2 = Some r' \<and> job_identity r' = job_identity r \<and>
        (j_status r = ''succeeded'' \<longrightarrow> j_status r' = ''succeeded'')" by auto
  qed
  with job_step_ok [OF step(2) assms(2)] step.IH show ?case by blast
qed

lemma succeeded_mono: "succeeded jobs jid \<Longrightarrow> jobs_grow jobs jobs' \<Longrightarrow> succeeded jobs' jid"
  by (auto simp: succeeded_def jobs_grow_def)

lemma task_backed_mono:
  assumes "task_backed pb jobs task" and "jobs_grow jobs jobs'"
  shows "task_backed pb jobs' task"
proof -
  from assms(1) obtain r where r: "get_row j_id (k_job_id task) jobs = Some r" "j_tenant_id r = k_tenant_id task"
    "j_type r = ''agent_execution''" "j_spec r = task_spec pb (k_input task)"
    "k_status task = ''completed'' \<longrightarrow> j_status r = ''succeeded''" by (auto simp: task_backed_def)
  from assms(2) r(1) obtain r' where "get_row j_id (k_job_id task) jobs' = Some r'" "job_identity r' = job_identity r"
    "j_status r = ''succeeded'' \<longrightarrow> j_status r' = ''succeeded''" unfolding jobs_grow_def by blast
  with r(2-) show ?thesis by (auto simp: task_backed_def job_identity_def)
qed

lemma change_ok_mono:
  "change_ok tb jobs t c \<Longrightarrow> tasks_grow tb tb' \<Longrightarrow> jobs_grow jobs jobs' \<Longrightarrow> change_ok tb' jobs' t c"
  by (cases c) (auto simp: tasks_grow_def intro: succeeded_mono)

lemma session_ok_mono:
  assumes "session_ok pb tb jobs x" and "tasks_grow tb tb'" and "jobs_grow jobs jobs'"
  shows "session_ok pb tb' jobs' x"
  using assms
  by (cases x) (auto intro: task_backed_mono change_ok_mono simp: tasks_grow_def)

lemma task_backed_succeeded:
  "task_backed pb jobs task \<Longrightarrow> st = ''completed'' \<longrightarrow> succeeded jobs (k_job_id task) \<Longrightarrow>
     task_backed pb jobs (task_values u st res task)"
  by (auto simp: task_backed_def task_values_def succeeded_def)

lemma known_update:
  "known (update_rows P (task_values u st res) tb) t k jid = known tb t k jid"
  unfolding known_def by (induction tb) (auto simp: task_values_def)

lemma known_apply_changes: "known (apply_changes t now cs tb) = known tb"
  by (induction cs arbitrary: now tb) (auto simp: known_update fun_eq_iff)

lemma update_backed:
  assumes "\<forall>task \<in> set tb. task_backed pb jobs task"
    and "\<And>task. task \<in> set tb \<Longrightarrow> P task \<Longrightarrow> st = ''completed'' \<Longrightarrow> succeeded jobs (k_job_id task)"
  shows "\<forall>task \<in> set (update_rows P (task_values u st res) tb). task_backed pb jobs task"
proof
  fix task'
  assume "task' \<in> set (update_rows P (task_values u st res) tb)"
  then obtain task where task: "task \<in> set tb"
    "P task \<and> task' = task_values u st res task \<or> task' = task" by (auto simp: in_update_rows)
  with assms(1) have "task_backed pb jobs task" by blast
  with task assms(2) [OF task(1)] show "task_backed pb jobs task'" by (auto intro: task_backed_succeeded)
qed

lemma change_ok_update: "change_ok (update_rows P (task_values u st res) tb) jobs t c = change_ok tb jobs t c"
  by (cases c) (simp add: known_update)

lemma apply_changes_backed:
  assumes "distinct (map k_id tb)" and "\<forall>task \<in> set tb. task_backed pb jobs task"
    and "\<forall>c \<in> set cs. change_ok tb jobs t c"
  shows "\<forall>task \<in> set (apply_changes t now cs tb). task_backed pb jobs task"
  using assms
proof (induction cs arbitrary: now tb)
  case (Cons c cs)
  obtain k st res where c: "c = (k, st, res)" by (cases c)
  let ?tb = "update_rows (\<lambda>x. k_id x = k \<and> k_tenant_id x = t) (task_values (now 0) st res) tb"
  have one: "k_job_id task = k_job_id task'" if "task \<in> set tb" "task' \<in> set tb" "k_id task = k_id task'" for task task'
    using distinct_key_eq [OF Cons.prems(1) that] by simp
  have "distinct (map k_id ?tb)" using Cons.prems(1) by (simp add: task_rows_frame)
  moreover have "\<forall>task \<in> set ?tb. task_backed pb jobs task"
  proof (rule update_backed [OF Cons.prems(2)])
    fix task
    assume task: "task \<in> set tb" "k_id task = k \<and> k_tenant_id task = t" "st = ''completed''"
    from Cons.prems(3) task(3) obtain task' where "task' \<in> set tb" "k_id task' = k" "succeeded jobs (k_job_id task')"
      by (auto simp: c known_def)
    with one [of task task'] task(1,2) show "succeeded jobs (k_job_id task)" by simp
  qed
  moreover have "\<forall>c \<in> set cs. change_ok ?tb jobs t c"
    using Cons.prems(3) by (simp add: change_ok_update)
  ultimately show ?case unfolding c apply_changes.simps by (rule Cons.IH)
qed simp

subsection \<open>One await\<close>

text \<open>The jobs that tasks and submissions in flight hold: handed on, dropped, or fresh.\<close>

definition used_effect :: "job_db \<Rightarrow> task_row list \<Rightarrow> task_session \<Rightarrow> task_row list \<Rightarrow> task_session \<Rightarrow> bool" where
  "used_effect jobs tb x tb' x' \<longleftrightarrow>
     map k_job_id tb' = map k_job_id tb \<and>
       (session_jobs x' = [] \<or> session_jobs x = [] \<and> (\<exists>k. session_jobs x' = [k] \<and> k \<notin> j_id ` set jobs)) \<or>
     (\<exists>k. session_jobs x = [k] \<and> session_jobs x' = [] \<and> map k_job_id tb' = map k_job_id tb @ [k])"

definition await_effect ::
    "protobuf \<Rightarrow> job_service \<Rightarrow> task_session \<Rightarrow> aes_db \<times> job_db \<Rightarrow> task_session \<times> (aes_db \<times> job_db) \<Rightarrow> bool" where
  "await_effect pb svc x s r \<longleftrightarrow> (case (s, r) of ((db, jobs), (x', (db', jobs'))) \<Rightarrow>
     job_steps svc jobs jobs' \<and> aes_db_ok db' \<and> tasks_grow (tasks db) (tasks db') \<and>
     (\<forall>task \<in> set (tasks db'). task_backed pb jobs' task) \<and> session_ok pb (tasks db') jobs' x' \<and>
     used_effect jobs (tasks db) x (tasks db') x')"

definition await_ready :: "protobuf \<Rightarrow> job_service \<Rightarrow> aes_db \<times> job_db \<Rightarrow> bool" where
  "await_ready pb svc s \<longleftrightarrow> service_ok svc \<and> aes_db_ok (fst s) \<and> job_db_ok (snd s) \<and>
     (\<forall>task \<in> set (tasks (fst s)). task_backed pb (snd s) task)"

lemma effect_remote:
  assumes "await_ready pb svc (db, jobs)" and "keepsS (job_steps svc) m"
    and "\<And>a jobs'. m jobs = (Inr a, jobs') \<Longrightarrow> jobs_grow jobs jobs' \<Longrightarrow> session_ok pb (tasks db) jobs' (f a) \<and>
      (session_jobs (f a) = [] \<or> session_jobs x = [] \<and> (\<exists>k. session_jobs (f a) = [k] \<and> k \<notin> j_id ` set jobs))"
  shows "await_effect pb svc x (db, jobs) (after (remote m) f (db, jobs))"
proof -
  obtain r jobs' where m: "m jobs = (r, jobs')" by fastforce
  have steps: "job_steps svc jobs jobs'" using keepsSD [OF assms(2) m] .
  with assms(1) have grow: "jobs_grow jobs jobs'" using job_steps_grow by (auto simp: await_ready_def)
  with assms(1) have "\<forall>task \<in> set (tasks db). task_backed pb jobs' task"
    by (auto simp: await_ready_def intro: task_backed_mono)
  with assms(1) m steps assms(3) [OF _ grow] show ?thesis
    by (cases r) (auto simp: await_effect_def after_def remote_def used_effect_def await_ready_def)
qed

text \<open>A read, and a rewriting of the tasks' snapshots.\<close>

lemma effect_read:
  assumes "await_ready pb svc (db, jobs)" and "snd (m db) = db"
    and "\<And>a. m db = (Inr a, db) \<Longrightarrow> session_ok pb (tasks db) jobs (f a) \<and> session_jobs (f a) = []"
  shows "await_effect pb svc x (db, jobs) (after (local_tx m) f (db, jobs))"
proof -
  obtain r where m: "m db = (r, db)" using assms(2) by (metis prod.collapse)
  with assms(1,3) show ?thesis
    by (cases r) (auto simp: await_effect_def after_def local_tx_def used_effect_def await_ready_def)
qed

lemma effect_write:
  assumes "await_ready pb svc (db, jobs)" and "snd (m db) = db \<or> snd (m db) = db\<lparr>tasks := tb\<rparr>"
    and "map k_id tb = map k_id (tasks db)" and "map k_job_id tb = map k_job_id (tasks db)"
    and "known tb = known (tasks db)" and "\<forall>task \<in> set tb. task_backed pb jobs task"
    and "\<And>a. session_jobs (f a) = []" and "\<And>a tb. session_ok pb tb jobs (f a)"
  shows "await_effect pb svc x (db, jobs) (after (local_tx m) f (db, jobs))"
proof -
  obtain r db' where m: "m db = (r, db')" by fastforce
  have db': "db' = db \<or> db' = db\<lparr>tasks := tb\<rparr>" using assms(2) m by simp
  then have "aes_db_ok db'" using assms(1,3) by (auto simp: await_ready_def aes_db_ok_def)
  moreover have "tasks_grow (tasks db) (tasks db')" using db' assms(5) by (auto simp: tasks_grow_def)
  moreover have "\<forall>task \<in> set (tasks db'). task_backed pb jobs task" using db' assms(1,6) by (auto simp: await_ready_def)
  moreover have "map k_job_id (tasks db') = map k_job_id (tasks db)" using db' assms(4) by auto
  ultimately show ?thesis
    using m assms(7,8) by (cases r) (auto simp: await_effect_def after_def local_tx_def used_effect_def)
qed

lemma update_job_ids: "map k_job_id (update_rows P (task_values u st res) tb) = map k_job_id tb"
  by (induction tb) (auto simp: task_values_def)

lemma apply_changes_job_ids: "map k_job_id (apply_changes t now cs tb) = map k_job_id tb"
  by (induction cs arbitrary: now tb) (auto simp: update_job_ids)

lemma effect_insert:
  assumes "await_ready pb svc (db, jobs)" and "task_backed pb jobs row"
  shows "await_effect pb svc (S_Insert row) (db, jobs) (session_step gw now (S_Insert row) (db, jobs))"
proof (cases "k_id row \<in> set (map k_id (tasks db))")
  case True
  with assms show ?thesis
    by (auto simp: after_def local_tx_def insert_task_def await_effect_def await_ready_def used_effect_def)
next
  case False
  have "tasks_grow (tasks db) (tasks db @ [row])" by (auto simp: tasks_grow_def known_def)
  with False assms show ?thesis
    by (auto simp: after_def local_tx_def insert_task_def await_effect_def await_ready_def used_effect_def
        insert_row_def aes_db_ok_def)
qed

lemma session_ok_next:
  "session_ok pb tb jobs (S_Fetch t ids rows todo changes) \<Longrightarrow>
     session_ok pb tb jobs (fetch_next t ids rows todo changes) \<and> session_jobs (fetch_next t ids rows todo changes) = []"
  by (simp add: fetch_next_def)

text \<open>A fetched change is backed by the job it was read from.\<close>

lemma fetched_change_ok:
  assumes "task_fetch (job_svc_gateway pb svc fresh jnow) t row jobs = (Inr (Some c), jobs')" and "job_db_ok jobs"
    and "known tb t (k_id row) (k_job_id row)" and "jobs_grow jobs jobs'"
  shows "change_ok tb jobs' t c"
proof -
  from assms(1) obtain ref where ref: "gw_get_job (job_svc_gateway pb svc fresh jnow) t (k_job_id row) jobs = (Inr ref, jobs')"
    "c = (k_id row, task_status (jr_status ref), jr_result ref)"
    by (auto simp: task_fetch_def Let_def split: prod.splits sum.splits if_splits)
  from get_answer [OF ref(1) assms(2)] obtain r where r: "get_row j_id (k_job_id row) jobs = Some r"
    "jr_status ref = j_status r" by blast
  have "j_status r = ''succeeded''" if "task_status (j_status r) = ''completed''"
    using that by (auto simp: task_status_def split: if_splits)
  with r have "task_status (jr_status ref) = ''completed'' \<longrightarrow> succeeded jobs (k_job_id row)"
    by (auto simp: succeeded_def)
  with assms(3,4) ref(2) show ?thesis by (auto intro: succeeded_mono)
qed

lemma keepsS_task_fetch: "keepsS (job_steps svc) (task_fetch (job_svc_gateway pb svc fresh jnow) t row)"
proof (rule keepsSI)
  fix j
  have "snd (task_fetch (job_svc_gateway pb svc fresh jnow) t row j) =
      snd (gw_get_job (job_svc_gateway pb svc fresh jnow) t (k_job_id row) j)"
    by (simp add: task_fetch_def Let_def split: prod.split sum.split)
  then show "job_steps svc j (snd (task_fetch (job_svc_gateway pb svc fresh jnow) t row j))"
    using keepsS_gateway(2) [of svc pb fresh jnow t "k_job_id row"] by (simp add: keepsS_def)
qed

lemma keepsS_asks: "keepsS (job_steps svc) (asks (job_svc_gateway pb svc fresh jnow) tr t k)"
  using keepsS_gateway(3,4) by (cases tr) (simp_all add: asks_def)

lemma load_known: "row \<in> set (task_load t ids db) \<Longrightarrow> known (tasks db) t (k_id row) (k_job_id row)"
  by (auto simp: task_load_filter known_def)

lemma session_effect:
  assumes ready: "await_ready pb svc (db, jobs)" and ok: "session_ok pb (tasks db) jobs x"
  shows "await_effect pb svc x (db, jobs) (session_step (job_svc_gateway pb svc fresh jnow) now x (db, jobs))"
proof -
  let ?gw = "job_svc_gateway pb svc fresh jnow"
  have jok: "job_db_ok jobs" and dist: "distinct (map k_id (tasks db))"
    and backed: "\<forall>task \<in> set (tasks db). task_backed pb jobs task"
    using ready by (simp_all add: await_ready_def aes_db_ok_def)
  show ?thesis
  proof (cases x)
    case (S_Create new_id t input)
    have "task_backed pb jobs' (new_task new_id now t input ref) \<and> jr_id ref \<notin> j_id ` set jobs"
      if create: "gw_create_job ?gw t input jobs = (Inr ref, jobs')" for ref jobs'
      using create_answer [OF create] by (auto simp: task_backed_def new_task_def task_status_def)
    then show ?thesis
      unfolding S_Create session_step.simps
      by (intro effect_remote [OF ready keepsS_gateway(1)]) (auto simp: new_task_def)
  next
    case (S_Insert row)
    with ok effect_insert [OF ready] show ?thesis by simp
  next
    case (S_Own tr t k)
    show ?thesis
      unfolding S_Own session_step.simps
      by (rule effect_read [OF ready]) (simp_all add: job_id_for_def own_task_def bindS_def split: option.split)
  next
    case (S_Ask tr t k jid)
    show ?thesis
      unfolding S_Ask session_step.simps
      by (rule effect_remote [OF ready keepsS_asks]) (simp add: transition_answer [OF _ jok])
  next
    case (S_Save t k ref)
    let ?f = "task_values (now 0) (task_status (jr_status ref)) (jr_result ref)"
    have st: "task_status (jr_status ref) \<noteq> ''completed''" using ok S_Save by (simp add: task_status_def)
    show ?thesis
      unfolding S_Save session_step.simps
    proof (rule effect_write [OF ready, where tb = "update_rows (\<lambda>x. k_id x = k \<and> k_tenant_id x = t) ?f (tasks db)"])
      show "snd (save_status now t k ref db) = db \<or> snd (save_status now t k ref db) =
          db\<lparr>tasks := update_rows (\<lambda>x. k_id x = k \<and> k_tenant_id x = t) ?f (tasks db)\<rparr>"
        by (simp add: save_status_def update_where_def split: list.split)
      show "\<forall>task \<in> set (update_rows (\<lambda>x. k_id x = k \<and> k_tenant_id x = t) ?f (tasks db)). task_backed pb jobs task"
        by (rule update_backed [OF backed]) (simp add: st)
    qed (simp_all add: task_rows_frame update_job_ids known_update fun_eq_iff)
  next
    case (S_Load t ids)
    show ?thesis
      unfolding S_Load session_step.simps
      by (rule effect_read [OF ready]) (auto intro!: session_ok_next simp: stale_rows_def load_known)
  next
    case (S_Fetch t ids rows todo changes)
    show ?thesis
    proof (cases todo)
      case Nil
      have "job_steps svc jobs jobs" by simp
      with session_ok_next [of pb "tasks db" jobs t ids rows "[]" changes] ok ready show ?thesis
        by (simp add: S_Fetch Nil await_effect_def used_effect_def await_ready_def)
    next
      case (Cons row todo')
      have known: "known (tasks db) t (k_id row) (k_job_id row)" using ok by (simp add: S_Fetch Cons)
      have ok_next: "session_ok pb (tasks db) jobs' (fetch_next t ids rows todo'
            (changes @ (case c of None \<Rightarrow> [] | Some c \<Rightarrow> [c]))) \<and>
          session_jobs (fetch_next t ids rows todo' (changes @ (case c of None \<Rightarrow> [] | Some c \<Rightarrow> [c]))) = []"
        if fetch: "task_fetch ?gw t row jobs = (Inr c, jobs')" and grow: "jobs_grow jobs jobs'" for c jobs'
      proof (rule session_ok_next)
        have "\<forall>c \<in> set changes. change_ok (tasks db) jobs' t c"
          using ok grow by (auto simp: S_Fetch intro: change_ok_mono)
        with ok fetched_change_ok [OF _ jok known grow] fetch
        show "session_ok pb (tasks db) jobs' (S_Fetch t ids rows todo'
            (changes @ (case c of None \<Rightarrow> [] | Some c \<Rightarrow> [c])))"
          by (auto simp: S_Fetch Cons split: option.split)
      qed
      show ?thesis
        unfolding S_Fetch Cons session_step.simps
        by (rule effect_remote [OF ready keepsS_task_fetch]) (simp add: ok_next)
    qed
  next
    case (S_Write t ids changes)
    show ?thesis
      unfolding S_Write session_step.simps
    proof (rule effect_write [OF ready, where tb = "apply_changes t now changes (tasks db)"])
      show "\<forall>task \<in> set (apply_changes t now changes (tasks db)). task_backed pb jobs task"
        using ok by (intro apply_changes_backed [OF dist backed]) (simp add: S_Write)
    qed (simp_all add: write_changes_def apply_changes_frame apply_changes_job_ids known_apply_changes)
  next
    case (S_Reload t ids)
    show ?thesis unfolding S_Reload session_step.simps by (rule effect_read [OF ready]) simp_all
  next
    case (S_Own_Progress t k)
    show ?thesis
      unfolding S_Own_Progress session_step.simps
      by (rule effect_read [OF ready]) (simp_all add: own_task_def split: option.split)
  next
    case (S_Ask_Progress t row)
    show ?thesis
      unfolding S_Ask_Progress session_step.simps by (rule effect_remote [OF ready keepsS_gateway(5)]) simp
  next
    case (S_Done r)
    with ready show ?thesis by (simp add: await_effect_def used_effect_def await_ready_def)
  qed
qed

section \<open>Reachable platforms\<close>

lemma catalog_step_frame:
  assumes "catalog_step db db'" and "aes_db_ok db"
  shows "aes_db_ok db' \<and> tasks db' = tasks db"
  using assms(1)
proof cases
  case 1
  then show ?thesis using assms(2)
    by (simp add: agent_create_ok) (simp add: agent_create_def link_tools_def Let_def)
next
  case 2
  then show ?thesis using assms(2)
    by (simp add: agent_update_ok) (simp add: agent_update_def link_tools_def Let_def split: option.split)
next
  case 3
  then show ?thesis using assms(2)
    by (simp add: agent_delete_ok) (simp add: agent_delete_def split: option.split)
next
  case 4
  then show ?thesis using assms(2)
    by (simp add: tool_create_ok) (simp add: tool_create_def flush_or_conflict_def Let_def)
next
  case 5
  then show ?thesis using assms(2)
    by (simp add: tool_update_ok) (simp add: tool_update_def flush_or_conflict_def Let_def split: option.split)
next
  case 6
  then show ?thesis using assms(2)
    by (simp add: tool_delete_ok) (simp add: tool_delete_def split: option.split)
qed

lemma session_jobs_iff: "k \<in> set (session_jobs x) \<longleftrightarrow> (\<exists>row. x = S_Insert row \<and> k_job_id row = k)"
  by (cases x) auto

lemma distinct_handed_on:
  assumes "distinct (A @ B @ u @ C)" and "set (A @ B @ u @ C) \<subseteq> D"
    and "A' = A \<and> (u' = [] \<or> u = [] \<and> (\<exists>k. u' = [k] \<and> k \<notin> D)) \<or> (\<exists>k. u = [k] \<and> u' = [] \<and> A' = A @ [k])"
  shows "distinct (A' @ B @ u' @ C)"
  using assms by auto

lemma used_in_jobs:
  assumes "platform_ok pb pl"
  shows "set (used_jobs pl) \<subseteq> j_id ` set (pl_jobs pl)"
proof
  fix k
  assume "k \<in> set (used_jobs pl)"
  then have "\<exists>task. task_backed pb (pl_jobs pl) task \<and> k_job_id task = k"
  proof -
    consider task where "task \<in> set (tasks (pl_db pl))" "k_job_id task = k"
      | row where "S_Insert row \<in> set (pl_sessions pl)" "k_job_id row = k"
      using \<open>k \<in> set (used_jobs pl)\<close> by (auto simp: used_jobs_def session_jobs_iff)
    then show ?thesis using assms by cases (auto simp: platform_ok_def dest!: bspec)
  qed
  then show "k \<in> j_id ` set (pl_jobs pl)" by (auto simp: task_backed_def image_iff dest!: get_row_Some) metis+
qed

lemma platform_step_ok:
  assumes "platform_step pb svc pl pl'" and "service_ok svc" and "platform_ok pb pl"
  shows "platform_ok pb pl'"
  using assms(1)
proof cases
  case (jobs jobs jobs' db xs)
  have "job_db_ok jobs' \<and> jobs_grow jobs jobs'"
    using job_steps_grow [OF r_into_rtranclp [of "job_step svc", OF jobs(3)] assms(2)] assms(3)
    by (simp add: jobs(1) platform_ok_def)
  with assms(3) jobs(1,2) show ?thesis
    by (auto simp: platform_ok_def used_jobs_def intro: task_backed_mono session_ok_mono)
next
  case (catalog db db' jobs xs)
  with assms(3) catalog_step_frame [OF catalog(3)] show ?thesis by (simp add: platform_ok_def used_jobs_def)
next
  case (request x db jobs xs)
  from request(3) have "session_jobs x = [] \<and> session_ok pb (tasks db) jobs x" by (cases x) simp_all
  with assms(3) request(1,2) show ?thesis by (simp add: platform_ok_def used_jobs_def)
next
  case (await fresh jnow now x db jobs x' db' jobs' xs ys)
  have ready: "await_ready pb svc (db, jobs)" and x: "session_ok pb (tasks db) jobs x"
    using assms(2,3) by (simp_all add: await(1) await_ready_def platform_ok_def)
  from session_effect [OF ready x, of fresh jnow now] have eff: "job_steps svc jobs jobs'" "aes_db_ok db'"
    "tasks_grow (tasks db) (tasks db')" "\<forall>task \<in> set (tasks db'). task_backed pb jobs' task"
    "session_ok pb (tasks db') jobs' x'" "used_effect jobs (tasks db) x (tasks db') x'"
    by (simp_all add: await(3) await_effect_def)
  have jobs': "job_db_ok jobs' \<and> jobs_grow jobs jobs'"
    using job_steps_grow [OF eff(1) assms(2)] assms(3) by (simp add: await(1) platform_ok_def)
  have "distinct (used_jobs pl)" and fresh: "set (used_jobs pl) \<subseteq> j_id ` set jobs"
    using assms(3) used_in_jobs [OF assms(3)] by (simp_all add: await(1) platform_ok_def)
  then have "distinct (used_jobs pl')"
    using distinct_handed_on [OF _ _ eff(6) [unfolded used_effect_def], of "concat (map session_jobs xs)"
        "concat (map session_jobs ys)"]
    by (simp add: await(1,2) used_jobs_def)
  moreover have "session_ok pb (tasks db') jobs' y" if "y \<in> set xs \<union> set ys" for y
  proof (rule session_ok_mono [OF _ eff(3)])
    show "session_ok pb (tasks db) jobs y" using that assms(3) by (auto simp: await(1) platform_ok_def)
    show "jobs_grow jobs jobs'" using jobs' ..
  qed
  ultimately show ?thesis using eff(2,4,5) jobs' by (auto simp: await(2) platform_ok_def)
qed

lemma platform_reachable_ok:
  assumes "platform_reachable pb svc pl" and "service_ok svc"
  shows "platform_ok pb pl"
  using assms(1)
proof (induction rule: rtranclp_induct)
  case base
  show ?case
    by (simp add: platform_ok_def empty_platform_def used_jobs_def job_db_ok_def) (simp add: empty_aes_db_def)
next
  case (step pl pl')
  then show ?case using platform_step_ok [OF _ assms(2)] by blast
qed

text \<open>C4. A task is backed by a job of its own, in every state the platform can reach by any
  interleaving of the awaits of any number of handlers with the catalog's transactions and with
  everything callers and pods do to the jobs table: the job exists, belongs to the task's
  tenant, runs the task's input, is the job of no other task, and has succeeded if the task says
  completed. Both databases keep their integrity.\<close>

theorem tasks_are_backed:
  assumes "platform_reachable pb svc pl" and "service_ok svc" and "task \<in> set (tasks (pl_db pl))"
  shows "(\<exists>r. get_row j_id (k_job_id task) (pl_jobs pl) = Some r \<and> j_tenant_id r = k_tenant_id task \<and>
      j_type r = ''agent_execution'' \<and> j_spec r = task_spec pb (k_input task) \<and>
      (k_status task = ''completed'' \<longrightarrow> j_status r = ''succeeded'')) \<and>
    (\<forall>task' \<in> set (tasks (pl_db pl)). k_job_id task' = k_job_id task \<longrightarrow> task' = task) \<and>
    aes_db_ok (pl_db pl) \<and> job_db_ok (pl_jobs pl)"
proof -
  have ok: "platform_ok pb pl" by (rule platform_reachable_ok [OF assms(1,2)])
  then have "distinct (map k_job_id (tasks (pl_db pl)))" by (simp add: platform_ok_def used_jobs_def)
  with assms(3) have "\<forall>task' \<in> set (tasks (pl_db pl)). k_job_id task' = k_job_id task \<longrightarrow> task' = task"
    by (blast intro: distinct_key_eq)
  with ok assms(3) show ?thesis unfolding platform_ok_def task_backed_def by blast
qed

end
