(* ===== verification/Platform_Race.thy ===== *)
theory Platform_Race
  imports Platform
begin

text \<open>
  Concrete runs of the platform: sessions that run without interruption, and the race between a
  refresh of a task and a retry of it that the interleaving leaves open.
\<close>

section \<open>Runs\<close>

text \<open>A session that runs for some awaits without interruption, in particular an atomic handler.\<close>

lemma session_run_reaches:
  assumes "platform_reachable pb svc (Pl (fst s) (snd s) (xs @ x # ys))"
    and "session_run (job_svc_gateway pb svc fresh jnow) now n x s = r"
  shows "platform_reachable pb svc (Pl (fst (snd r)) (snd (snd r)) (xs @ fst r # ys))"
  using assms
proof (induction n arbitrary: x s r)
  case 0
  then show ?case by (auto simp: prod_eq_iff)
next
  case (Suc n)
  obtain x1 db1 jobs1 where step: "session_step (job_svc_gateway pb svc fresh jnow) now x s = (x1, (db1, jobs1))"
    by (metis prod.exhaust)
  then have "platform_step pb svc (Pl (fst s) (snd s) (xs @ x # ys)) (Pl db1 jobs1 (xs @ x1 # ys))"
    by (intro platform_step.await [where fresh = fresh and jnow = jnow and now = now]) simp
  with Suc.prems(1) have "platform_reachable pb svc (Pl db1 jobs1 (xs @ x1 # ys))" by simp
  with Suc.IH [of "(db1, jobs1)" x1 r] Suc.prems(2) step show ?case by simp
qed

lemma request_reaches:
  "platform_reachable pb svc (Pl db jobs xs) \<Longrightarrow> is_start x \<Longrightarrow> platform_reachable pb svc (Pl db jobs (x # xs))"
  by (rule rtranclp.rtrancl_into_rtrancl) (auto intro: platform_step.request)

lemma jobs_reach:
  "platform_reachable pb svc (Pl db jobs xs) \<Longrightarrow> job_step svc jobs jobs' \<Longrightarrow> platform_reachable pb svc (Pl db jobs' xs)"
  by (rule rtranclp.rtrancl_into_rtrancl) (auto intro: platform_step.jobs)

section \<open>A refresh that loses a retry\<close>

text \<open>
  Two calls of one tenant: a \<open>GetTask\<close> that has read that the job failed and has not stored it
  yet, and a \<open>RetryTask\<close> that requeues the job and stores that the task is pending. The
  first one then stores what it has read, and the job goes on to succeed.
\<close>

definition race_service :: job_service where
  "race_service = \<lparr>svc_default_max_attempts = 1, svc_default_max_retries = 3\<rparr>"

definition race_gateway :: "job_db job_gateway" where
  "race_gateway = job_svc_gateway demo_protobuf race_service demo_fresh demo_clock"

definition race_end_of_run :: "string \<Rightarrow> job_db \<Rightarrow> job_db" where
  "race_end_of_run status jobs =
     snd (job_update demo_clock ''t1'' ''job'' status (snd (claim_batch [] demo_clock 5 ''pod'' jobs)))"

definition race_submitted :: "task_session \<times> (aes_db \<times> job_db)" where
  "race_submitted = session_run race_gateway (\<lambda>_. 0) 2 (S_Create ''k1'' ''t1'' ''go'') (empty_aes_db, [])"

definition race_read :: "task_session \<times> (aes_db \<times> job_db)" where
  "race_read = (case race_submitted of (x, (db, jobs)) \<Rightarrow>
     session_run race_gateway (\<lambda>_. 0) 2 (S_Load ''t1'' []) (db, race_end_of_run ''failed'' jobs))"

definition race_retried :: "task_session \<times> (aes_db \<times> job_db)" where
  "race_retried = session_run race_gateway (\<lambda>_. 0) 3 (S_Own Retry_Task ''t1'' ''k1'') (snd race_read)"

definition race_stored :: "task_session \<times> (aes_db \<times> job_db)" where
  "race_stored = session_run race_gateway (\<lambda>_. 0) 2 (fst race_read) (snd race_retried)"

definition race_end :: platform where
  "race_end = Pl (fst (snd race_stored)) (race_end_of_run ''succeeded'' (snd (snd race_stored)))
     [fst race_retried, fst race_stored, fst race_submitted]"

lemma end_of_run_reaches:
  assumes "platform_reachable pb svc (Pl db jobs xs)"
  shows "platform_reachable pb svc (Pl db (race_end_of_run status jobs) xs)"
  unfolding race_end_of_run_def
  by (rule jobs_reach [OF jobs_reach [OF assms job_step.claim] job_step.update])

lemma race_reachable: "platform_reachable demo_protobuf race_service race_end"
proof -
  let ?R = "platform_reachable demo_protobuf race_service"
  note run = session_run_reaches [where fresh = demo_fresh and jnow = demo_clock and now = "\<lambda>_. 0" and pb = demo_protobuf
      and svc = race_service, folded race_gateway_def]
  have "?R (Pl empty_aes_db [] [S_Create ''k1'' ''t1'' ''go''])"
    by (rule request_reaches) (simp_all add: empty_platform_def)
  then have "?R (Pl (fst (snd race_submitted)) (snd (snd race_submitted)) [fst race_submitted])"
    using run [where xs = "[]" and ys = "[]" and s = "(empty_aes_db, [])" and n = 2 and r = race_submitted and
        x = "S_Create ''k1'' ''t1'' ''go''"] race_submitted_def by simp
  then have "?R (Pl (fst (snd race_submitted)) (race_end_of_run ''failed'' (snd (snd race_submitted)))
      [S_Load ''t1'' [], fst race_submitted])"
    by (intro request_reaches [OF end_of_run_reaches]) simp_all
  then have "?R (Pl (fst (snd race_read)) (snd (snd race_read)) [fst race_read, fst race_submitted])"
    using run [where xs = "[]" and ys = "[fst race_submitted]" and x = "S_Load ''t1'' []" and n = 2 and
        s = "(fst (snd race_submitted), race_end_of_run ''failed'' (snd (snd race_submitted)))"]
    by (simp add: race_read_def split_beta)
  then have "?R (Pl (fst (snd race_read)) (snd (snd race_read)) [S_Own Retry_Task ''t1'' ''k1'', fst race_read, fst race_submitted])"
    by (rule request_reaches) simp
  then have "?R (Pl (fst (snd race_retried)) (snd (snd race_retried)) [fst race_retried, fst race_read, fst race_submitted])"
    using run [where xs = "[]" and ys = "[fst race_read, fst race_submitted]" and s = "snd race_read" and n = 3]
    by (simp add: race_retried_def)
  then have "?R (Pl (fst (snd race_stored)) (snd (snd race_stored)) [fst race_retried, fst race_stored, fst race_submitted])"
    using run [where xs = "[fst race_retried]" and ys = "[fst race_submitted]" and s = "snd race_retried" and x = "fst race_read" and n = 2]
    by (simp add: race_stored_def)
  then show ?thesis unfolding race_end_def by (rule end_of_run_reaches)
qed

definition race_task :: "string \<Rightarrow> task_row" where
  "race_task status = \<lparr>k_id = ''k1'', k_tenant_id = ''t1'', k_input = ''go'', k_job_id = ''job'',
     k_status = status, k_result = [], k_created_at = 0, k_updated_at = 0\<rparr>"

definition race_job :: job_row where
  "race_job = \<lparr>j_id = ''job'', j_tenant_id = ''t1'', j_type = ''agent_execution'', j_spec = JObj [],
     j_status = ''succeeded'', j_attempts = 1, j_max_attempts = 1, j_retry_count = 1, j_max_retries = 3,
     j_progress = empty_progress, j_locked_at = Some 100, j_locked_by = Some ''pod'',
     j_created_at = 100, j_updated_at = 100\<rparr>"

lemma race_end_state:
  "race_end = Pl (empty_aes_db\<lparr>tasks := [race_task ''failed'']\<rparr>) [race_job]
     [S_Done (Inr (A_Task (race_task ''pending''))), S_Done (Inr (A_Tasks [race_task ''failed''])),
      S_Done (Inr (A_Task (race_task ''pending'')))]"
  by code_simp


theorem tasks_are_backed_witness:
  "race_task ''failed'' \<in> set (tasks (pl_db race_end)) \<and>
   (\<exists>r. get_row j_id ''job'' (pl_jobs race_end) = Some r \<and> j_spec r = task_spec demo_protobuf ''go'')"
proof -
  have svc: "service_ok race_service" by (simp add: service_ok_def race_service_def)
  have task: "race_task ''failed'' \<in> set (tasks (pl_db race_end))" by (simp add: race_end_state)
  from conjunct1 [OF tasks_are_backed [OF race_reachable svc task]] obtain r where
    r: "get_row j_id (k_job_id (race_task ''failed'')) (pl_jobs race_end) = Some r"
    "j_spec r = task_spec demo_protobuf (k_input (race_task ''failed''))" by blast
  have "k_job_id (race_task ''failed'') = ''job''" "k_input (race_task ''failed'') = ''go''"
    by (simp_all add: race_task_def)
  with r task show ?thesis by metis
qed

end
