(* ===== verification/Platform_Delivery.thy ===== *)
theory Platform_Delivery
  imports Platform_Race
begin

text \<open>
  Delivery from end to end: a task submitted to an idle platform whose orchestrator answers is
  claimed by the next tick of a poller, run to the end, and shown as completed with the output of
  its last step by the next \<open>GetTask\<close>.
\<close>

section \<open>An idle platform\<close>

definition idle_jobs :: "job_db \<Rightarrow> bool" where
  "idle_jobs jobs \<longleftrightarrow> (\<forall>r \<in> set jobs. j_status r \<noteq> ''queued'' \<and> j_status r \<noteq> ''running'')"

text \<open>One pod at work: its database calls succeed and the orchestrator answers each of its calls.\<close>

definition answering :: "runner_world \<Rightarrow> bool" where
  "answering w \<longleftrightarrow> (\<forall>l. rw_fault w l = None) \<and> (\<forall>l db. rw_others w l db = db) \<and> (\<forall>l. rw_locked w l = []) \<and>
     (\<forall>l m req. \<exists>resp. rw_stub w l m req = Inr resp \<and> cr_finish_reason resp \<noteq> approval_finish_reason \<and>
        parse_plan (rw_lib w) (cm_content (final_message resp)) \<noteq> [])"

text \<open>\<open>MessageToDict\<close> renders a spec as the object the runner reads the instructions from.\<close>

definition spec_readable :: "protobuf \<Rightarrow> bool" where
  "spec_readable pb \<longleftrightarrow> (\<forall>input. \<exists>ms ms'. task_spec pb input = JObj ms \<and>
     obj_get ms ''agent_execution_spec'' = Some (JObj ms') \<and> obj_get ms' ''instructions'' = Some (JStr input))"

lemma answering_calm: "answering w \<Longrightarrow> calm w row"
  by (simp add: answering_def calm_def)

lemma answering_lawful: "answering w \<Longrightarrow> lawful_world svc w"
  by (simp add: answering_def lawful_world_def)

lemma answering_db_call:
  assumes "answering w"
  shows "db_call w op ev (St db l p) =
    (fst (op (rw_clock w l) db), St (snd (op (rw_clock w l) db)) (l @ [ev (fst (op (rw_clock w l) db))]) p)"
  using assms by (simp add: db_call_def answering_def split_beta Let_def)

lemma obj_get_truthy: "obj_get ms k = Some v \<Longrightarrow> ms \<noteq> []"
  by (auto simp: obj_get_def)

lemma task_prompt:
  assumes "spec_readable pb" and "j_spec r = task_spec pb input" and "py_strip input \<noteq> []"
  shows "prompt_of r = Inr input"
proof -
  from assms(1) obtain ms ms' where ms: "task_spec pb input = JObj ms"
    "obj_get ms ''agent_execution_spec'' = Some (JObj ms')" "obj_get ms' ''instructions'' = Some (JStr input)"
    unfolding spec_readable_def by blast
  have "input \<noteq> []" using assms(3) by (auto simp: py_strip_def py_lstrip_def py_rstrip_def)
  with ms assms(2,3) obj_get_truthy [OF ms(2)] obj_get_truthy [OF ms(3)] show ?thesis
    by (simp add: prompt_of_def get_or_def or_empty_def)
qed

section \<open>One tick\<close>

text \<open>One job is queued and no other job is running: the tick runs this one.\<close>

definition sole_queued :: "job_row \<Rightarrow> job_db \<Rightarrow> bool" where
  "sole_queued r jobs \<longleftrightarrow> distinct (map j_id jobs) \<and> r \<in> set jobs \<and> j_status r = ''queued'' \<and>
     (\<forall>x \<in> set jobs. j_id x \<noteq> j_id r \<longrightarrow> j_status x \<noteq> ''queued'' \<and> j_status x \<noteq> ''running'')"

lemma sole_row:
  assumes "sole_queued r jobs" and "x \<in> set jobs" and "j_id x = j_id r"
  shows "x = r"
  using assms distinct_key_eq [of j_id jobs x r] by (simp add: sole_queued_def)

lemma sole_reap:
  assumes "sole_queued r jobs"
  shows "snd (reap_expired now lease jobs) = jobs"
  unfolding snd_reap_expired
proof (rule update_rows_no_match)
  fix x assume "x \<in> set jobs"
  with assms sole_row [OF assms, of x] have "j_status x \<noteq> ''running''"
    by (cases "j_id x = j_id r") (auto simp: sole_queued_def)
  then show "\<not> lease_expired (now 0 - lease) x" by (simp add: lease_expired_def)
qed

lemma sole_claim:
  assumes "sole_queued r jobs" and "0 < n"
  shows "claim_batch [] now n owner jobs =
    (Inr [claim_values now owner r], update_rows (\<lambda>x. j_id x = j_id r) (claim_values now owner) jobs)"
proof -
  have d: "distinct (map j_id jobs)" "r \<in> set jobs" using assms(1) by (simp_all add: sole_queued_def)
  have same: "filter (\<lambda>x. j_status x = ''queued'') jobs = filter (\<lambda>x. j_id x = j_id r) jobs"
    using assms(1) sole_row [OF assms(1)] by (intro filter_cong) (auto simp: sole_queued_def)
  have one: "filter (\<lambda>x. j_id x = j_id r) jobs = [r]"
    by (rule filter_key_singleton [OF d]) auto
  have "claim_candidates [] n jobs = [j_id r]"
    using assms(2) by (simp add: claim_candidates_def select_where_def same one)
  then show ?thesis by (simp add: claim_batch_def Let_def update_where_def one)
qed

lemma sole_tick:
  assumes "answering w" and "sole_queued r jobs"
    and "serve_poller settings w owner = Some po" and "0 < ps_batch_size settings" and "j_type r = ''agent_execution''"
  shows "\<exists>now l. poller_tick w po (St jobs [] p0) =
    (Inr 1, snd (runner_run w (claim_values now owner r)
       (St (update_rows (\<lambda>x. j_id x = j_id r) (claim_values now owner) jobs) l p0))) \<and> chat_calls l = []"
proof -
  from assms(3) have po: "po_runner po = Some (pod_runner w)" "po_batch po = ps_batch_size settings"
    "po_owner po = owner" by (auto simp: serve_poller_def split: if_splits)
  let ?l1 = "[Ev_Reap (fst (reap_expired (rw_clock w []) (po_lease po) jobs))]"
  let ?now = "rw_clock w ?l1"
  let ?row = "claim_values ?now owner r" and ?db = "update_rows (\<lambda>x. j_id x = j_id r) (claim_values ?now owner) jobs"
  have "claim_batch (rw_locked w ?l1) ?now (po_batch po) (po_owner po) jobs = (Inr [?row], ?db)"
    using sole_claim [OF assms(2,4)] assms(1) po by (simp add: answering_def)
  moreover have "pod_runner w ?row = runner_run w ?row"
    using assms(5) by (simp add: pod_runner_def dispatcher_run_def claim_values_def)
  moreover have "fst (reap_expired (rw_clock w []) (po_lease po) jobs) \<noteq> Inl e" for e
    by (simp add: reap_expired_def Let_def split_beta)
  ultimately have "poller_tick w po (St jobs [] p0) =
      (Inr 1, snd (runner_run w ?row (St ?db (?l1 @ [Ev_Claim (Inr [?row])]) p0)))"
    using sole_reap [OF assms(2), of "rw_clock w []" "po_lease po"]
    by (auto simp: poller_tick_def po bindS_def answering_db_call [OF assms(1)] poller_dispatch_def catchS_def
        split: prod.split sum.split)
  then show ?thesis by (intro exI [of _ ?now] exI [of _ "?l1 @ [Ev_Claim (Inr [?row])]"]) simp
qed

lemma sole_running:
  assumes "sole_queued r jobs"
  shows "running_here (claim_values now owner r) (update_rows (\<lambda>x. j_id x = j_id r) (claim_values now owner) jobs)"
proof -
  have "get_row j_id (j_id r) jobs = Some r" using assms by (simp add: sole_queued_def get_row_iff)
  then have "get_row j_id (j_id r) (update_rows (\<lambda>x. j_id x = j_id r) (claim_values now owner) jobs) =
      Some (claim_values now owner r)" by (simp add: claim.get_row_update)
  moreover have "j_id (claim_values now owner r) = j_id r" by (simp add: claim_values_def)
  ultimately show ?thesis
    using assms by (simp add: running_here_def claim.keys_update sole_queued_def) (simp add: claim_values_def)
qed

section \<open>The next \<open>GetTask\<close>\<close>

lemma int_keys_total: "\<forall>k \<in> fst ` set kvs. \<exists>i. k = str_nat i \<Longrightarrow> \<exists>ivs. int_keys kvs = Inr ivs"
  by (induction kvs) (auto split: sum.splits)

lemma progress_renders:
  "\<forall>k \<in> fst ` set (steps_of p). \<exists>i. k = str_nat i \<Longrightarrow> \<exists>pp. progress_to_proto p = Inr pp"
  using int_keys_total [of "steps_of p"] by (auto simp: progress_to_proto_def steps_of_def split: sum.split)

text \<open>A readable job answers \<open>get_job\<close> with its status and its result.\<close>

lemma get_job_answers:
  assumes "distinct (map j_id j)" and "get_row j_id k j = Some r" and "j_tenant_id r = t"
    and "t \<noteq> []" and "\<not> py_blank k" and "job_to_proto pb r = Inr pj"
  shows "gw_get_job (job_svc_gateway pb svc fresh jnow) t k j = (Inr (to_ref pj), j)"
  using assms
  by (simp add: job_client_def client_get_job_def client_get_def client_call_def job_svc_stub_def GetJob_def
      tenant_id_aes_md monad_simps validate_filter_ids_def max_filter_ids_def job_get_one first_job_def)

lemma ref_of_success:
  assumes "j_type r = ''agent_execution''" and "parse_dict pb (j_spec r) = Inr sp" and "j_status r = ''succeeded''"
    and "progress_to_proto (j_progress r) = Inr pp" and "pg_result (j_progress r) = Some out"
  shows "\<exists>pj. job_to_proto pb r = Inr pj \<and> jr_status (to_ref pj) = ''succeeded'' \<and> jr_result (to_ref pj) = out"
proof -
  obtain pj where pj: "job_to_proto pb r = Inr pj"
    using assms by (simp add: job_to_proto_def type_to_proto_def status_to_proto_def)
  moreover have "pj_result pj = result_to_proto r" using pj by (auto simp: job_to_proto_def split: option.splits sum.splits)
  then have "jr_result (to_ref pj) = out"
    using assms(5) by (simp add: to_ref_def job_result_str_def result_to_proto_def)
  ultimately show ?thesis using jr_status_to_ref [OF pj] assms(3) by auto
qed

lemma get_one_task:
  assumes "distinct (map k_id (tasks db))" and "row \<in> set (tasks db)" and "k_tenant_id row = t"
    and "k_status row \<notin> set terminal_statuses" and "gw_get_job gw t (k_job_id row) j = (Inr ref, j)"
    and "task_status (jr_status ref) \<noteq> k_status row"
  shows "\<exists>db'. task_get gw now t [k_id row] (db, j) =
    (Inr [task_values (now 0) (task_status (jr_status ref)) (jr_result ref) row], (db', j))"
proof -
  let ?f = "task_values (now 0) (task_status (jr_status ref)) (jr_result ref)"
  let ?P = "\<lambda>x. k_id x = k_id row \<and> k_tenant_id x = t"
  let ?tb = "update_rows ?P ?f (tasks db)"
  have one: "filter ?P (tasks db) = [row]"
    by (rule filter_key_singleton [OF assms(1,2)]) (use assms(3) in auto)
  have "filter (\<lambda>x. k_tenant_id x = t \<and> k_id x = k_id row) tb = filter ?P tb" for tb
    by (rule filter_cong) auto
  then have load: "task_load t [k_id row] d = filter ?P (tasks d)" for d by (simp add: task_load_filter)
  have "filter ?P (update_rows ?P ?f tb) = map ?f (filter ?P tb)" for tb
    by (induction tb) (auto simp: task_values_def)
  with one have new: "filter ?P ?tb = [?f row]" by simp
  have fetch: "task_fetch_all gw t [row] j = (Inr [Some (k_id row, task_status (jr_status ref), jr_result ref)], j)"
    using assms(5,6) by (simp add: bindS_def task_fetch_def Let_def)
  show ?thesis
    using one new assms(4)
    by (simp add: task_get_def task_refresh_def bindS_def local_tx_def remote_def Let_def load fetch
        List.map_filter_simps del: task_fetch_all.simps)
qed

section \<open>Delivery\<close>

lemma run_log_append: "rs_log (snd (runner_run w row s)) = rs_log s @ run_log w row s"
proof (cases s)
  case (fields db l p0)
  from runner_run_trace [of w row db l p0] obtain res db' evs p' where
    "runner_run w row s = (res, St db' (l @ evs) p')" unfolding fields by blast
  then show ?thesis by (simp add: run_log_def fields)
qed

text \<open>
  The task of the one queued job: the next tick runs the job, from its checkpoint, to the end,
  and the next \<open>GetTask\<close> shows the task completed.
\<close>

lemma queued_task_is_delivered:
  assumes "sole_queued r jobs" and "job_db_ok jobs" and "service_ok svc" and "answering w"
    and "j_type r = ''agent_execution''" and "parse_dict pb (j_spec r) = Inr sp" and "prompt_of r = Inr prompt"
    and "checkpoint_ok (j_progress r)" and "\<not> py_blank (j_id r)" and "j_tenant_id r \<noteq> []"
    and "serve_poller settings w owner = Some po" and "0 < ps_batch_size settings"
    and "poller_tick w po (St jobs [] p0) = (res, s)"
    and "distinct (map k_id (tasks db))" and "row \<in> set (tasks db)" and "k_status row = ''pending''"
    and "k_job_id row = j_id r" and "k_tenant_id row = j_tenant_id r"
  shows "res = Inr 1 \<and>
    (\<exists>task db2 r' st. task_get (job_svc_gateway pb svc fresh jnow) now (j_tenant_id r) [k_id row] (db, rs_db s) =
        (Inr [task], (db2, rs_db s)) \<and>
      k_status task = ''completed'' \<and> k_input task = k_input row \<and> k_job_id task = j_id r \<and>
      get_row j_id (j_id r) (rs_db s) = Some r' \<and> existing_plan (j_progress r') \<noteq> [] \<and>
      (existing_plan (j_progress r) \<noteq> [] \<longrightarrow> existing_plan (j_progress r') = existing_plan (j_progress r)) \<and>
      map_of (steps_of (j_progress r')) (str_nat (length (existing_plan (j_progress r')) - 1)) = Some st \<and>
      k_result task = st_output st \<and>
      chat_calls (rs_log s) =
        (if existing_plan (j_progress r) = [] then [(planner_turns prompt, False)] else []) @
        step_calls (j_progress r) (existing_plan (j_progress r'))
          (pending_indices (j_progress r) (existing_plan (j_progress r'))))"
proof -
  let ?gw = "job_svc_gateway pb svc fresh jnow" and ?t = "j_tenant_id r"
  obtain jnow' l where tick: "poller_tick w po (St jobs [] p0) = (Inr 1, snd (runner_run w (claim_values jnow' owner r)
      (St (update_rows (\<lambda>x. j_id x = j_id r) (claim_values jnow' owner) jobs) l p0)))" "chat_calls l = []"
    using sole_tick [OF assms(4,1,11,12,5)] by blast
  let ?row = "claim_values jnow' owner r" and ?s = "St (update_rows (\<lambda>x. j_id x = j_id r) (claim_values jnow' owner) jobs) l p0"
  have job: "j_id ?row = j_id r" "j_progress ?row = j_progress r" "j_spec ?row = j_spec r" by (simp_all add: claim_values_def)
  have prompt: "prompt_of ?row = Inr prompt" using assms(7) by (simp only: prompt_of_def job)
  have s: "s = snd (runner_run w ?row ?s)" using tick(1) assms(13) by simp
  have "running_here ?row (rs_db ?s)" using sole_running [OF assms(1)] by simp
  then obtain r' st where r': "get_row j_id (j_id r) (rs_db s) = Some r'" "j_status r' = ''succeeded''"
    "existing_plan (j_progress r') \<noteq> []"
    "map_of (steps_of (j_progress r')) (str_nat (length (existing_plan (j_progress r')) - 1)) = Some st"
    "pg_result (j_progress r') = Some (st_output st)" "\<forall>k \<in> fst ` set (steps_of (j_progress r')). \<exists>i. k = str_nat i"
    "chat_calls (run_log w ?row ?s) = (if existing_plan (j_progress r) = [] then [(planner_turns prompt, False)] else []) @
        step_calls (j_progress r) (existing_plan (j_progress r')) (pending_indices (j_progress r) (existing_plan (j_progress r')))"
    "existing_plan (j_progress r) \<noteq> [] \<longrightarrow> existing_plan (j_progress r') = existing_plan (j_progress r)"
    using run_delivers_keyed [OF answering_calm [OF assms(4)], of ?row ?s prompt] prompt job assms(8) s by auto
  have calls: "chat_calls (rs_log s) = chat_calls (run_log w ?row ?s)" by (simp add: s run_log_append tick(2))
  obtain pp where pp: "progress_to_proto (j_progress r') = Inr pp" using progress_renders [OF r'(6)] by blast
  have "po_runner po \<in> {None, Some (pod_runner w)}" using assms(11) by (auto simp: serve_poller_def split: if_splits)
  from pods_refine [OF answering_lawful [OF assms(4)] this] have "job_steps svc jobs (rs_db s)"
    using assms(13) by (metis runner_state.select_convs(1) snd_conv)
  then have end_ok: "job_db_ok (rs_db s)" "jobs_grow jobs (rs_db s)"
    using job_steps_grow [OF _ assms(3,2)] by blast+
  have "get_row j_id (j_id r) jobs = Some r" using assms(1) by (simp add: sole_queued_def get_row_iff)
  with end_ok(2) r'(1) have id: "job_identity r' = job_identity r" by (force simp: jobs_grow_def)
  then obtain pj' where pj': "job_to_proto pb r' = Inr pj'" "jr_status (to_ref pj') = ''succeeded''"
    "jr_result (to_ref pj') = st_output st"
    using ref_of_success [OF _ _ r'(2) pp r'(5)] assms(5,6) by (force simp: job_identity_def)
  have get: "gw_get_job ?gw ?t (k_job_id row) (rs_db s) = (Inr (to_ref pj'), rs_db s)"
    using get_job_answers [OF _ _ _ assms(10) _ pj'(1)] end_ok(1) r'(1) id assms(9,17) by (simp add: job_identity_def)
  then obtain db2 where "task_get ?gw now ?t [k_id row] (db, rs_db s) =
      (Inr [task_values (now 0) (task_status (jr_status (to_ref pj'))) (jr_result (to_ref pj')) row], (db2, rs_db s))"
    using get_one_task [OF assms(14,15,18) _ get, of now] assms(16) pj'(2)
    by (auto simp: terminal_statuses_def task_status_def)
  then show ?thesis
    using tick(1) assms(13,17) r' pj'(2,3) calls
    by (intro conjI exI [of _ "task_values (now 0) (task_status (jr_status (to_ref pj'))) (jr_result (to_ref pj')) row"]
        exI [of _ db2] exI [of _ r'] exI [of _ st]) (simp_all add: task_values_def task_status_def)
qed

text \<open>C2. A submitted task is delivered: on an idle platform (no job queued or running, database calls
  succeeding, an orchestrator that answers every call without asking for approval), after an
  accepted \<open>CreateTask\<close> the next tick of a poller runs exactly this one job, and the next
  \<open>GetTask\<close> shows the task completed, with the output of the last step of the plan the job was
  given as its result.\<close>

theorem submitted_task_is_delivered:
  assumes "job_side_ok pb fresh jobs" and "job_db_ok jobs" and "idle_jobs jobs" and "spec_readable pb"
    and "service_ok svc" and "answering w" and "distinct (map k_id (tasks db))"
    and "task_create (job_svc_gateway pb svc fresh jnow) new_id now t input (db, jobs) = (Inr row, (db1, jobs1))"
    and "serve_poller settings w owner = Some po" and "0 < ps_batch_size settings"
    and "poller_tick w po (St jobs1 [] p0) = (res, s)"
  shows "res = Inr 1 \<and>
    (\<exists>task db2 r st. task_get (job_svc_gateway pb svc fresh jnow) now' t [new_id] (db1, rs_db s) = (Inr [task], (db2, rs_db s)) \<and>
      k_status task = ''completed'' \<and> k_input task = input \<and> k_job_id task = k_job_id row \<and>
      get_row j_id (k_job_id row) (rs_db s) = Some r \<and> existing_plan (j_progress r) \<noteq> [] \<and>
      map_of (steps_of (j_progress r)) (str_nat (length (existing_plan (j_progress r)) - 1)) = Some st \<and>
      k_result task = st_output st)"
proof -
  let ?gw = "job_svc_gateway pb svc fresh jnow"
  obtain ref where ref: "gw_create_job ?gw t input jobs = (Inr ref, jobs1)"
    "row = new_task new_id now t input ref" "new_id \<notin> set (map k_id (tasks db))"
    "db1 = db\<lparr>tasks := insert_row row (tasks db)\<rparr>"
    using assms(8)
    by (auto simp: task_create_def bindS_def remote_def local_tx_def insert_task_def Let_def new_task_def
        split: prod.splits sum.splits if_splits)
  obtain r pj where r: "jobs1 = insert_row r jobs" "j_id r \<notin> j_id ` set jobs" "j_id r = fresh jobs" "j_tenant_id r = t"
    "j_type r = ''agent_execution''" "j_spec r = task_spec pb input" "j_status r = ''queued''"
    "j_progress r = empty_progress" "t \<noteq> []" "py_strip input \<noteq> []" "job_to_proto pb r = Inr pj" "ref = to_ref pj"
    using create_inserts [OF ref(1)] by blast
  have row: "k_job_id row = j_id r" "k_status row = ''pending''" "k_id row = new_id" "k_tenant_id row = t" "k_input row = input"
    using jr_status_to_ref [OF r(11)] r(7,12) by (simp_all add: ref(2) new_task_def task_status_def)
  have sole: "sole_queued r jobs1"
    using assms(2,3) r(1,2,7) by (auto simp: sole_queued_def insert_row_def idle_jobs_def)
  have ok: "job_db_ok jobs1" using job_steps_grow [OF keepsSD [OF keepsS_gateway(1) ref(1)] assms(5,2)] ..
  obtain sp where sp: "parse_dict pb (j_spec r) = Inr sp"
    using assms(1) r(6) unfolding job_side_ok_def task_spec_def by metis
  have fresh: "checkpoint_ok (j_progress r)" "\<not> py_blank (j_id r)" "j_tenant_id r \<noteq> []"
    using assms(1) r(3,4,8,9) by (simp_all add: checkpoint_ok_def empty_progress_def steps_of_def job_side_ok_def)
  have task: "distinct (map k_id (tasks db1))" "row \<in> set (tasks db1)" "k_tenant_id row = j_tenant_id r"
    using assms(7) ref(3,4) row(3,4) r(4) by (simp_all add: insert_row_def)
  from queued_task_is_delivered [OF sole ok assms(5,6) r(5) sp task_prompt [OF assms(4) r(6,10)] fresh assms(9-11)
      task(1,2) row(2,1) task(3), of fresh jnow now']
  show ?thesis using row r(4) by auto
qed

definition delivery_protobuf :: protobuf where
  "delivery_protobuf = \<lparr>message_to_dict = (\<lambda>sp. case sp of
       Agent_Execution_Spec a \<Rightarrow> JObj [(''agent_execution_spec'', JObj [(''instructions'', JStr (ae_instructions a))])]
     | _ \<Rightarrow> JObj []), parse_dict = (\<lambda>_. Inr demo_spec)\<rparr>"

abbreviation delivery_gateway :: "job_db job_gateway" where
  "delivery_gateway \<equiv> job_svc_gateway delivery_protobuf demo_service demo_fresh demo_clock"

abbreviation delivery_world :: runner_world where
  "delivery_world \<equiv> demo_world ''stop'' (\<lambda>_. False)"

lemma delivery_spec_readable: "spec_readable delivery_protobuf"
  by (simp add: spec_readable_def task_spec_def delivery_protobuf_def obj_get_def)

lemma delivery_answering: "answering delivery_world"
proof -
  have "parse_plan demo_lib ''ok'' = [''ok'']" by code_simp
  then show ?thesis
    by (simp add: answering_def demo_world_def demo_answer_def approval_finish_reason_def final_message_def)
qed

lemma delivery_side_ok: "job_side_ok delivery_protobuf demo_fresh []"
proof -
  have "\<not> py_blank (demo_fresh db)" for db
    by (auto simp: demo_fresh_def py_blank_iff py_isspace_def)
  then show ?thesis using demo_fresh_new by (simp add: job_side_ok_def delivery_protobuf_def)
qed

theorem submitted_task_is_delivered_witness:
  "case task_create delivery_gateway ''k1'' (\<lambda>_. 0) ''t1'' ''go'' (empty_aes_db, []) of (_, (db1, jobs1)) \<Rightarrow>
     \<exists>task. fst (task_get delivery_gateway (\<lambda>_. 1) ''t1'' [''k1'']
         (db1, rs_db (snd (poller_tick delivery_world (the (serve_poller demo_settings delivery_world ''pod1'')) (St jobs1 [] empty_progress)))))
       = Inr [task] \<and> k_status task = ''completed'' \<and> k_input task = ''go''"
proof -
  have "fst (task_create delivery_gateway ''k1'' (\<lambda>_. 0) ''t1'' ''go'' (empty_aes_db, [])) = Inr (race_task ''pending'')"
    by code_simp
  then obtain db1 jobs1 where created: "task_create delivery_gateway ''k1'' (\<lambda>_. 0) ''t1'' ''go'' (empty_aes_db, []) =
      (Inr (race_task ''pending''), (db1, jobs1))" by (metis prod.collapse)
  let ?po = "the (serve_poller demo_settings delivery_world ''pod1'')"
  have po: "serve_poller demo_settings delivery_world ''pod1'' = Some ?po" "0 < ps_batch_size demo_settings"
    by (simp_all add: serve_poller_def demo_settings_def)
  have db: "job_db_ok []" "idle_jobs []" "distinct (map k_id (tasks empty_aes_db))"
    by (simp_all add: job_db_ok_def idle_jobs_def empty_aes_db_def)
  from submitted_task_is_delivered [OF delivery_side_ok db(1,2) delivery_spec_readable service_ok_demo delivery_answering
      db(3) created po, where now' = "\<lambda>_. 1" and ?p0.0 = empty_progress]
  show ?thesis by (force simp: created prod_eq_iff)
qed

end
