(* ===== verification/Platform_Approval.thy ===== *)
theory Platform_Approval
  imports Platform_Delivery
begin

text \<open>
  Human approval from end to end: a task whose job paused before a gated call is approved, its
  job is requeued, the next tick resumes it from the checkpoint and repeats the paused step, this
  time approved, and the next \<open>GetTask\<close> shows the task completed.
\<close>

section \<open>A paused job\<close>

text \<open>The job waits for approval of step \<open>i\<close>, the first of its plan that is not done; \<open>later\<close> are the others.\<close>

definition paused_before :: "job_row \<Rightarrow> nat \<Rightarrow> nat list \<Rightarrow> bool" where
  "paused_before r i later \<longleftrightarrow> j_status r = ''waiting_approval'' \<and> checkpoint_ok (j_progress r) \<and>
     existing_plan (j_progress r) \<noteq> [] \<and> step_approved (j_progress r) i \<and>
     pending_indices (j_progress r) (existing_plan (j_progress r)) = i # later"

lemma requeue_simps [simp]:
  "j_id (overwrite_values u st r) = j_id r" "j_tenant_id (overwrite_values u st r) = j_tenant_id r"
  "j_type (overwrite_values u st r) = j_type r" "j_spec (overwrite_values u st r) = j_spec r"
  "j_progress (overwrite_values u st r) = j_progress r" "j_status (overwrite_values u st r) = st"
  by (simp_all add: overwrite_values_def Let_def)

lemma update_task_ids: "map k_id (update_rows P (task_values u st out) tb) = map k_id tb"
  by (induction tb) (auto simp: task_values_def)

lemma requeued_sole:
  assumes "distinct (map j_id jobs)" and "idle_jobs jobs" and "get_row j_id k jobs = Some r"
  shows "sole_queued (overwrite_values u ''queued'' r) (update_rows (\<lambda>x. j_id x = k) (overwrite_values u ''queued'') jobs)"
proof -
  have r: "r \<in> set jobs" "j_id r = k" using assms(3) by (auto dest: get_row_Some)
  then have "overwrite_values u ''queued'' r \<in> set (update_rows (\<lambda>x. j_id x = k) (overwrite_values u ''queued'') jobs)"
    by (auto simp: in_update_rows)
  with assms(1,2) r(2) show ?thesis
    by (auto simp: sole_queued_def overwrite.keys_update in_update_rows idle_jobs_def split: if_splits)
qed

lemma requeued_ok:
  assumes "job_db_ok jobs" and "get_row j_id k jobs = Some r" and "j_status r = ''waiting_approval''"
  shows "job_db_ok (update_rows (\<lambda>x. j_id x = k) (overwrite_values u ''queued'') jobs)"
proof (rule requeue.update_rows_ok [OF assms(1)])
  fix x assume "x \<in> set jobs" "j_id x = k"
  with assms have "x = r" using get_row_iff [of j_id jobs k x] by (simp add: job_db_ok_def)
  with assms(3) show "j_status x \<in> set [''failed'', ''dead'', ''cancelled'', ''waiting_approval'']" by simp
qed

section \<open>Approval\<close>

text \<open>C3. An approved task is carried on and delivered: when the job of a task waits for the approval of
  a step and nothing else is queued or running, \<open>ApproveTask\<close> succeeds and shows the task pending; the
  next tick of a poller makes no planning call and repeats no completed step, but calls the
  orchestrator for the paused step with approval and for every later step without, in plan order;
  and, if the orchestrator answers these calls, the next \<open>GetTask\<close> shows the task completed with the
  output of the last step of the plan as its result.\<close>

theorem approved_task_is_delivered:
  assumes "job_side_ok pb fresh jobs" and "job_db_ok jobs" and "idle_jobs jobs" and "service_ok svc"
    and "answering w" and "distinct (map k_id (tasks db))"
    and "get_row k_id k (tasks db) = Some task" and "k_tenant_id task = t"
    and "get_row j_id (k_job_id task) jobs = Some r" and "j_tenant_id r = t" and "j_type r = ''agent_execution''"
    and "prompt_of r = Inr prompt" and "paused_before r i later"
    and "serve_poller settings w owner = Some po" and "0 < ps_batch_size settings"
  shows "case task_approve (job_svc_gateway pb svc fresh jnow) now t k (db, jobs) of (approved, (db1, jobs1)) \<Rightarrow>
    (\<exists>row. approved = Inr row \<and> k_status row = ''pending'' \<and> k_input row = k_input task) \<and>
    (case poller_tick w po (St jobs1 [] p0) of (res, s) \<Rightarrow>
      res = Inr 1 \<and>
      chat_calls (rs_log s) = (step_turns (existing_plan (j_progress r) ! i), True) #
        map (\<lambda>j. (step_turns (existing_plan (j_progress r) ! j), False)) later \<and>
      (\<exists>done db2 r' st. task_get (job_svc_gateway pb svc fresh jnow) now' t [k] (db1, rs_db s) = (Inr [done], (db2, rs_db s)) \<and>
        k_status done = ''completed'' \<and> k_input done = k_input task \<and>
        get_row j_id (k_job_id task) (rs_db s) = Some r' \<and>
        map_of (steps_of (j_progress r')) (str_nat (length (existing_plan (j_progress r)) - 1)) = Some st \<and>
        k_result done = st_output st))"
proof -
  let ?gw = "job_svc_gateway pb svc fresh jnow" and ?r = "overwrite_values (jnow 0) ''queued'' r"
  let ?jobs = "update_rows (\<lambda>r. j_id r = k_job_id task) (overwrite_values (jnow 0) ''queued'') jobs"
  note paused = assms(13) [unfolded paused_before_def]
  have d: "distinct (map j_id jobs)" using assms(2) by (simp add: job_db_ok_def)
  obtain out where approve: "task_approve ?gw now t k (db, jobs) = (Inr (task_values (now 0) ''pending'' out task),
     (db\<lparr>tasks := update_rows (\<lambda>x. k_id x = k \<and> k_tenant_id x = t) (task_values (now 0) ''pending'' out) (tasks db)\<rparr>, ?jobs))"
    using approve_effect [OF assms(1,6-10)] paused by blast
  let ?row = "task_values (now 0) ''pending'' out task"
  let ?db = "db\<lparr>tasks := update_rows (\<lambda>x. k_id x = k \<and> k_tenant_id x = t) (task_values (now 0) ''pending'' out) (tasks db)\<rparr>"
  have row: "k_id ?row = k" "k_job_id ?row = k_job_id task" "k_tenant_id ?row = t" "k_status ?row = ''pending''"
    "k_input ?row = k_input task"
    using assms(7,8) by (auto simp: task_values_def dest: get_row_Some)
  have in_db: "?row \<in> set (tasks ?db)" "distinct (map k_id (tasks ?db))"
    using get_row_task_values [OF assms(7,8), of "now 0" "''pending''" out] assms(6)
    by (auto simp: update_task_ids dest: get_row_Some)
  have idr: "j_id r = k_job_id task" using assms(9) by (auto dest: get_row_Some)
  obtain sp where "parse_dict pb (j_spec r) = Inr sp"
    using job_side_row [OF assms(1,9)] by (auto simp: job_to_proto_def split: option.splits sum.splits)
  then have r: "parse_dict pb (j_spec ?r) = Inr sp" "checkpoint_ok (j_progress ?r)"
    "\<not> py_blank (j_id ?r)" "j_tenant_id ?r \<noteq> []" "j_type ?r = ''agent_execution''"
    using assms(11,12) paused job_side_row [OF assms(1,9)] idr by simp_all
  have prompt: "prompt_of ?r = Inr prompt" using assms(12) by (simp only: prompt_of_def requeue_simps)
  obtain res s where tick: "poller_tick w po (St ?jobs [] p0) = (res, s)" by fastforce
  from queued_task_is_delivered [OF requeued_sole [OF d assms(3,9)] requeued_ok [OF assms(2,9)] assms(4,5) r(5,1) prompt r(2-4)
      assms(14,15) tick in_db(2,1) row(4), of fresh jnow now'] paused
  show ?thesis
    unfolding approve prod.case tick using row idr assms(10) by (auto simp: step_calls_def)
qed

section \<open>Witness\<close>

definition paused_job :: job_row where
  "paused_job = (demo_claimed (demo_progress\<lparr>pg_pending := Some \<lparr>pa_step = 1, pa_prompt = ''b'', pa_detail = ''ok?''\<rparr>\<rparr>))
     \<lparr>j_status := ''waiting_approval'', j_locked_at := None, j_locked_by := None\<rparr>"

lemma paused_job_simps:
  "j_id paused_job = ''j1''" "j_tenant_id paused_job = ''t1''" "j_type paused_job = ''agent_execution''"
  "j_status paused_job = ''waiting_approval''" "existing_plan (j_progress paused_job) = [''a'', ''b'']"
  "prompt_of paused_job = Inr ''go''"
  by code_simp+

lemma paused_job_paused: "paused_before paused_job 1 []"
proof -
  have "str_nat 0 = ''0''" "str_nat (Suc 0) = ''1''" by code_simp+
  then have "checkpoint_ok (j_progress paused_job)"
    by (auto simp: paused_job_def demo_claimed_def demo_progress_def checkpoint_ok_def steps_of_def existing_plan_def
        step_done_def eval_nat_numeral intro!: exI [of _ 0])
  moreover have "step_approved (j_progress paused_job) 1" by code_simp
  moreover have "pending_indices (j_progress paused_job) (existing_plan (j_progress paused_job)) = [1]" by code_simp
  ultimately show ?thesis by (simp add: paused_before_def paused_job_simps)
qed

lemma paused_job_renders: "job_side_ok delivery_protobuf demo_fresh [paused_job]"
proof -
  have "\<not> isl (job_to_proto delivery_protobuf paused_job)" by code_simp
  then have "renderable delivery_protobuf paused_job"
    by (cases "job_to_proto delivery_protobuf paused_job") (simp_all add: renderable_def)
  moreover have "\<not> py_blank (demo_fresh db)" for db
    by (auto simp: demo_fresh_def py_blank_iff py_isspace_def)
  moreover have "\<not> py_blank (j_id paused_job)" by code_simp
  ultimately show ?thesis
    using demo_fresh_new by (simp add: job_side_ok_def delivery_protobuf_def paused_job_simps)
qed

theorem approved_task_is_delivered_witness:
  "case task_approve delivery_gateway (\<lambda>_. 0) ''t1'' ''k1'' (demo_tasks ''waiting_approval'', [paused_job]) of (_, (db1, jobs1)) \<Rightarrow>
    (case poller_tick delivery_world (the (serve_poller demo_settings delivery_world ''pod1'')) (St jobs1 [] empty_progress) of (_, s) \<Rightarrow>
      chat_calls (rs_log s) = [(step_turns ''b'', True)] \<and>
      (\<exists>done. fst (task_get delivery_gateway (\<lambda>_. 1) ''t1'' [''k1''] (db1, rs_db s)) = Inr [done] \<and> k_status done = ''completed''))"
proof -
  let ?po = "the (serve_poller demo_settings delivery_world ''pod1'')"
  have po: "serve_poller demo_settings delivery_world ''pod1'' = Some ?po" "0 < ps_batch_size demo_settings"
    by (simp_all add: serve_poller_def demo_settings_def)
  have jobs: "job_db_ok [paused_job]" "idle_jobs [paused_job]" by code_simp+
  have task: "distinct (map k_id (tasks (demo_tasks ''waiting_approval'')))"
    "get_row k_id ''k1'' (tasks (demo_tasks ''waiting_approval'')) = Some (demo_task ''waiting_approval'')"
    "k_tenant_id (demo_task ''waiting_approval'') = ''t1''"
    "get_row j_id (k_job_id (demo_task ''waiting_approval'')) [paused_job] = Some paused_job"
    by (simp_all add: demo_tasks_def demo_task_def paused_job_simps)
  from approved_task_is_delivered [OF paused_job_renders jobs service_ok_demo delivery_answering task
      paused_job_simps(2,3,6) paused_job_paused po, where jnow = demo_clock and now = "\<lambda>_. 0" and ?p0.0 = empty_progress and now' = "\<lambda>_. 1"]
  show ?thesis by (auto simp: paused_job_simps split: prod.splits)
qed

end
