(* ===== verification/Aes_Locality.thy ===== *)
theory Aes_Locality
  imports Aes_Edge Orc_Repo
begin

text \<open>
  What one tenant owns of the database of \<open>agent_execution_service\<close>, and that every transaction of
  the catalog and of the tasks is local to the tenant it runs for: its answer and its effect on the
  tenant's rows are those it has on a database holding only these rows, and no row of another tenant
  changes.
\<close>

section \<open>The rows of a tenant\<close>

text \<open>A grant belongs to the tenant of its agent.\<close>

definition grant_of :: "string \<Rightarrow> agent_row list \<Rightarrow> agent_tool_row \<Rightarrow> bool" where
  "grant_of t ags l \<longleftrightarrow> (case get_row a_id (at_agent_id l) ags of None \<Rightarrow> False | Some a \<Rightarrow> a_tenant_id a = t)"

definition aes_view :: "string \<Rightarrow> aes_db \<Rightarrow> aes_db" where
  "aes_view t db = \<lparr>agents = select_where (\<lambda>a. a_tenant_id a = t) (agents db),
     tools = select_where (\<lambda>x. t_tenant_id x = t) (tools db),
     agent_tools = select_where (grant_of t (agents db)) (agent_tools db),
     tasks = select_where (\<lambda>k. k_tenant_id k = t) (tasks db)\<rparr>"

definition aes_local :: "string \<Rightarrow> 'a aes_op \<Rightarrow> aes_db \<Rightarrow> bool" where
  "aes_local t m db \<longleftrightarrow> m (aes_view t db) = (fst (m db), aes_view t (snd (m db))) \<and>
     (\<forall>u. u \<noteq> t \<longrightarrow> aes_view u (snd (m db)) = aes_view u db)"

lemma aes_view_fields [simp]:
  "agents (aes_view t db) = select_where (\<lambda>a. a_tenant_id a = t) (agents db)"
  "tools (aes_view t db) = select_where (\<lambda>x. t_tenant_id x = t) (tools db)"
  "agent_tools (aes_view t db) = select_where (grant_of t (agents db)) (agent_tools db)"
  "tasks (aes_view t db) = select_where (\<lambda>k. k_tenant_id k = t) (tasks db)"
  by (simp_all add: aes_view_def)

lemma aes_db_eqI:
  "agents db = agents db' \<Longrightarrow> tools db = tools db' \<Longrightarrow> agent_tools db = agent_tools db' \<Longrightarrow> tasks db = tasks db' \<Longrightarrow>
     db = (db' :: aes_db)"
  by (cases db, cases db') simp

lemma aes_localI:
  assumes "fst (m (aes_view t db)) = fst (m db)" and "snd (m (aes_view t db)) = aes_view t (snd (m db))"
    and "\<And>u. u \<noteq> t \<Longrightarrow> aes_view u (snd (m db)) = aes_view u db"
  shows "aes_local t m db"
  using assms by (auto simp: aes_local_def prod_eq_iff)

text \<open>The row with a key, among the rows of a tenant.\<close>

lemma get_row_filter:
  assumes "distinct (map key tb)"
  shows "get_row key k (filter P tb) = (case get_row key k tb of None \<Rightarrow> None | Some r \<Rightarrow> if P r then Some r else None)"
  using assms
proof (induction tb)
  case (Cons x xs)
  have "get_row key (key x) (filter P xs) = None"
    using Cons.prems by (auto simp: get_row_None)
  with Cons show ?case by auto
qed simp

section \<open>Tasks\<close>

lemma tasks_update_view: "aes_view t (db\<lparr>tasks := tb\<rparr>) = (aes_view t db)\<lparr>tasks := select_where (\<lambda>k. k_tenant_id k = t) tb\<rparr>"
  by (simp add: aes_view_def)

lemma same_tasks_view: "(aes_view t db)\<lparr>tasks := select_where (\<lambda>k. k_tenant_id k = t) (tasks db)\<rparr> = aes_view t db"
  by (simp add: aes_view_def)

lemma task_load_view: "task_load t ids (aes_view t db) = task_load t ids db"
  by (simp add: task_load_filter select_where_def conj_commute)

lemma own_task_local: "distinct (map k_id (tasks db)) \<Longrightarrow> aes_local t (own_task t k) db"
  by (auto simp: aes_local_def own_task_def select_where_def get_row_filter split: option.split)

lemma job_id_for_local: "distinct (map k_id (tasks db)) \<Longrightarrow> aes_local t (job_id_for t k) db"
  using own_task_local [of db t k]
  by (auto simp: aes_local_def job_id_for_def bindS_def split_beta split: sum.split)

lemma insert_task_local:
  assumes "k_tenant_id row = t" and "k_id row \<notin> set (map k_id (tasks db))"
  shows "aes_local t (insert_task row) db"
  using assms
  by (auto simp: aes_local_def insert_task_def select_where_def insert_row_def aes_view_def)

text \<open>An update of rows of the tenant alone.\<close>

lemma tenant_of_values [simp]: "k_tenant_id (task_values s st out r) = k_tenant_id r"
  by (simp add: task_values_def)

lemma view_of_update:
  "select_where (\<lambda>k. k_tenant_id k = u) (update_rows (\<lambda>x. P x \<and> k_tenant_id x = t) (task_values s st out) tb) =
    (if u = t then update_rows (\<lambda>x. P x \<and> k_tenant_id x = t) (task_values s st out) (select_where (\<lambda>k. k_tenant_id k = t) tb)
     else select_where (\<lambda>k. k_tenant_id k = u) tb)"
  by (induction tb) (auto simp: select_where_def)

lemma filter_of_view: "filter (\<lambda>x. P x \<and> k_tenant_id x = t) (select_where (\<lambda>k. k_tenant_id k = t) tb) =
    filter (\<lambda>x. P x \<and> k_tenant_id x = t) tb"
  by (simp add: select_where_def) (rule filter_cong, auto)

lemma save_status_local: "aes_local t (save_status now t k ref) db"
  by (auto simp: aes_local_def save_status_def update_where_def Let_def filter_of_view view_of_update tasks_update_view
      same_tasks_view split: list.split)

lemma view_of_changes:
  "select_where (\<lambda>k. k_tenant_id k = u) (apply_changes t now cs tb) =
    (if u = t then apply_changes t now cs (select_where (\<lambda>k. k_tenant_id k = t) tb)
     else select_where (\<lambda>k. k_tenant_id k = u) tb)"
proof (induction cs arbitrary: now tb)
  case (Cons c cs)
  then show ?case by (cases c) (simp add: view_of_update)
qed simp

lemma apply_changes_local: "aes_local t (\<lambda>db. (Inr (), db\<lparr>tasks := apply_changes t now cs (tasks db)\<rparr>)) db"
  by (simp add: aes_local_def tasks_update_view view_of_changes same_tasks_view)

section \<open>Agents\<close>

text \<open>Grants name agents and tools of one tenant.\<close>

lemma grant_rows:
  assumes "aes_db_ok db" and "l \<in> set (agent_tools db)"
  shows "\<exists>a x. get_row a_id (at_agent_id l) (agents db) = Some a \<and> get_row t_id (at_tool_id l) (tools db) = Some x \<and>
    t_tenant_id x = a_tenant_id a"
proof -
  have "link_ok (agents db) (tools db) l" and "distinct (map a_id (agents db))" and "distinct (map t_id (tools db))"
    using assms by (simp_all add: aes_db_ok_def)
  then show ?thesis by (force simp: link_ok_def get_row_iff)
qed

abbreviation link_rows :: "string \<Rightarrow> string list \<Rightarrow> agent_tool_row list" where
  "link_rows agent_id ids \<equiv> map (\<lambda>k. \<lparr>at_agent_id = agent_id, at_tool_id = k\<rparr>) ids"

lemma link_tools_eq:
  "link_tools t agent_id ids db = (Inr (valid_tool_ids t ids db),
     db\<lparr>agent_tools := agent_tools db @ link_rows agent_id (valid_tool_ids t ids db)\<rparr>)"
  by (simp add: link_tools_def valid_tool_ids_def select_where_def)

lemma valid_tool_ids_view [simp]: "valid_tool_ids t ids (aes_view t db) = valid_tool_ids t ids db"
  by (simp add: valid_tool_ids_def select_where_def)

lemma valid_tool_ids_tools [simp]:
  "valid_tool_ids t ids (db\<lparr>agents := ags\<rparr>) = valid_tool_ids t ids db"
  "valid_tool_ids t ids (db\<lparr>agents := ags, agent_tools := lks\<rparr>) = valid_tool_ids t ids db"
  by (simp_all add: valid_tool_ids_def)

lemma grants_of_link_rows:
  "filter (grant_of t ags) (link_rows k ids) =
     (case get_row a_id k ags of None \<Rightarrow> [] | Some a \<Rightarrow> if a_tenant_id a = t then link_rows k ids else [])"
  by (auto simp: grant_of_def filter_map o_def split: option.split)

lemma agent_create_local:
  assumes ok: "aes_db_ok db" and fresh: "new_id \<notin> set (map a_id (agents db))"
  shows "aes_local t (agent_create new_id now t name instructions llm temp ids) db"
proof -
  let ?row = "\<lparr>a_id = new_id, a_tenant_id = t, a_name = name, a_instructions = instructions,
      a_llm_config_name = llm, a_llm_config_temperature = temp, a_version = 1, a_created_at = now 0, a_updated_at = now 1\<rparr>"
  have eq: "agent_create new_id now t name instructions llm temp ids d =
      (Inr (?row, valid_tool_ids t ids d), d\<lparr>agents := agents d @ [?row],
        agent_tools := agent_tools d @ link_rows new_id (valid_tool_ids t ids d)\<rparr>)"
    if "new_id \<notin> set (map a_id (agents d))" for d
    using that by (simp add: agent_create_def Let_def link_tools_eq insert_row_def)
  have fresh': "new_id \<notin> set (map a_id (agents (aes_view t db)))" using fresh by auto
  have get: "get_row a_id k (agents db @ [?row]) = (if k = new_id then Some ?row else get_row a_id k (agents db))" for k
    using get_row_insert [of a_id ?row "agents db" k] fresh by (simp add: insert_row_def)
  have old: "filter (grant_of u (agents db @ [?row])) (agent_tools db) = filter (grant_of u (agents db)) (agent_tools db)" for u
  proof (rule filter_cong)
    fix l
    assume "l \<in> set (agent_tools db)"
    from grant_rows [OF ok this] have "at_agent_id l \<noteq> new_id" using fresh by (metis get_row_Some image_eqI list.set_map)
    then show "grant_of u (agents db @ [?row]) l = grant_of u (agents db) l" by (simp add: grant_of_def get del: One_nat_def)
  qed simp
  show ?thesis
    unfolding aes_local_def eq [OF fresh] eq [OF fresh']
    by (auto simp: select_where_def old grants_of_link_rows get simp del: One_nat_def intro!: aes_db_eqI)
qed

text \<open>Agents and grants after the agent \<open>k\<close> of tenant \<open>t\<close> was rewritten or removed.\<close>

lemma others_grants:
  assumes "get_row a_id k (agents db) = Some row" and "a_tenant_id row \<noteq> u"
  shows "delete_where (\<lambda>l. at_agent_id l = k) (filter (grant_of u (agents db)) lks) = filter (grant_of u (agents db)) lks"
  using assms by (auto simp: delete_where_def grant_of_def intro!: filter_cong)

lemma filter_delete_where: "filter P (delete_where Q lks) = delete_where Q (filter P lks)"
  by (simp add: delete_where_def) (rule filter_cong, auto)

lemma grant_of_replace:
  assumes "get_row a_id k ags = Some row" and "a_tenant_id row' = a_tenant_id row" and "a_id row' = k"
  shows "grant_of u (update_rows (\<lambda>a. a_id a = k) (\<lambda>_. row') ags) = grant_of u ags"
proof -
  from assms(1) have "k \<in> a_id ` set ags" by (auto dest!: get_row_Some)
  with assms show ?thesis
    by (auto simp: fun_eq_iff grant_of_def get_row_replace [where key = a_id and r = row' and j = k, OF assms(3)])
qed

lemma view_of_replace:
  assumes "get_row key k tb = Some row" and "distinct (map key tb)" and "ten row' = ten row"
  shows "filter (\<lambda>a. ten a = u) (update_rows (\<lambda>a. key a = k) (\<lambda>_. row') tb) =
    (if u = ten row then update_rows (\<lambda>a. key a = k) (\<lambda>_. row') (filter (\<lambda>a. ten a = u) tb)
     else filter (\<lambda>a. ten a = u) tb)"
proof -
  have "a = row" if "a \<in> set tb" "key a = k" for a
    using that assms(1) get_row_in [OF assms(2) that(1)] by simp
  then have "\<forall>a \<in> set tb. key a = k \<longrightarrow> ten a = ten row'" using assms(3) by auto
  then show ?thesis using assms(3) by (induction tb) auto
qed

lemma view_of_delete:
  assumes "get_row key k tb = Some row" and "distinct (map key tb)" and "ten row \<noteq> u"
  shows "delete_where (\<lambda>a. key a = k) (filter (\<lambda>a. ten a = u) tb) = filter (\<lambda>a. ten a = u) tb"
proof -
  have "ten a = ten row" if "a \<in> set tb" "key a = k" for a
    using that assms(1) get_row_in [OF assms(2) that(1)] by simp
  with assms(3) show ?thesis by (auto simp: delete_where_def intro!: filter_cong)
qed

lemma agent_of_view:
  "distinct (map a_id (agents db)) \<Longrightarrow> get_row a_id k (agents (aes_view t db)) =
     (case get_row a_id k (agents db) of None \<Rightarrow> None | Some r \<Rightarrow> if a_tenant_id r = t then Some r else None)"
  by (simp add: select_where_def get_row_filter)

lemma agent_update_local:
  assumes ok: "aes_db_ok db"
  shows "aes_local t (agent_update now t k name instructions llm temp ids) db"
proof (cases "\<exists>row. get_row a_id k (agents db) = Some row \<and> a_tenant_id row = t")
  case True
  then obtain row where row: "get_row a_id k (agents db) = Some row" "a_tenant_id row = t" by blast
  let ?row = "row\<lparr>a_name := name, a_instructions := instructions, a_llm_config_name := llm,
      a_llm_config_temperature := temp, a_version := a_version row + 1, a_updated_at := now 0\<rparr>"
  have d: "distinct (map a_id (agents db))" using ok by (simp add: aes_db_ok_def)
  have eq: "agent_update now t k name instructions llm temp ids e = (Inr (?row, valid_tool_ids t ids e),
      e\<lparr>agents := update_rows (\<lambda>a. a_id a = k) (\<lambda>_. ?row) (agents e),
        agent_tools := delete_where (\<lambda>l. at_agent_id l = k) (agent_tools e) @ link_rows k (valid_tool_ids t ids e)\<rparr>)"
    if "get_row a_id k (agents e) = Some row" for e
    using that row(2) by (simp add: agent_update_def Let_def link_tools_eq)
  have eq': "get_row a_id k (agents (aes_view t db)) = Some row" using row by (simp only: agent_of_view [OF d]) simp
  have grants: "grant_of u (update_rows (\<lambda>a. a_id a = k) (\<lambda>_. ?row) (agents db)) = grant_of u (agents db)" for u
    using row(1) get_row_Some [OF row(1)] by (intro grant_of_replace) auto
  have rows: "filter (\<lambda>a. a_tenant_id a = u) (update_rows (\<lambda>a. a_id a = k) (\<lambda>_. ?row) (agents db)) =
      (if u = t then update_rows (\<lambda>a. a_id a = k) (\<lambda>_. ?row) (filter (\<lambda>a. a_tenant_id a = u) (agents db))
       else filter (\<lambda>a. a_tenant_id a = u) (agents db))" for u
    using view_of_replace [where ten = a_tenant_id and row' = ?row, OF row(1) d, of u] row(2) by simp
  have others: "u \<noteq> t \<Longrightarrow> delete_where (\<lambda>l. at_agent_id l = k) (filter (grant_of u (agents db)) (agent_tools db)) =
      filter (grant_of u (agents db)) (agent_tools db)" for u
    using others_grants [OF row(1)] row(2) by simp
  show ?thesis
    unfolding aes_local_def eq [OF row(1)] eq [OF eq']
    by (auto simp: select_where_def grants rows others filter_delete_where grants_of_link_rows row intro!: aes_db_eqI)
next
  case False
  have none: "agent_update now t k name instructions llm temp ids e = (Inl (agent_not_found k), e)"
    if "\<And>row. get_row a_id k (agents e) = Some row \<Longrightarrow> a_tenant_id row \<noteq> t" for e
    using that by (simp add: agent_update_def split: option.split)
  have "\<And>row. get_row a_id k (agents (aes_view t db)) = Some row \<Longrightarrow> a_tenant_id row \<noteq> t"
    using False ok by (auto simp: agent_of_view aes_db_ok_def simp del: aes_view_fields split: option.splits if_splits)
  from none [of "aes_view t db", OF this] none [of db] False show ?thesis by (simp add: aes_local_def)
qed

lemma agent_delete_local:
  assumes ok: "aes_db_ok db"
  shows "aes_local t (agent_delete t k) db"
proof (cases "\<exists>row. get_row a_id k (agents db) = Some row \<and> a_tenant_id row = t")
  case True
  then obtain row where row: "get_row a_id k (agents db) = Some row" "a_tenant_id row = t" by blast
  have d: "distinct (map a_id (agents db))" using ok by (simp add: aes_db_ok_def)
  have eq: "agent_delete t k e = (Inr (), e\<lparr>agents := delete_where (\<lambda>a. a_id a = k) (agents e),
        agent_tools := delete_where (\<lambda>l. at_agent_id l = k) (agent_tools e)\<rparr>)"
    if "get_row a_id k (agents e) = Some row" for e
    using that row(2) by (simp add: agent_delete_def)
  have eq': "get_row a_id k (agents (aes_view t db)) = Some row" using row by (simp only: agent_of_view [OF d]) simp
  have rows: "u \<noteq> t \<Longrightarrow> delete_where (\<lambda>a. a_id a = k) (filter (\<lambda>a. a_tenant_id a = u) (agents db)) =
      filter (\<lambda>a. a_tenant_id a = u) (agents db)" for u
    using view_of_delete [where ten = a_tenant_id, OF row(1) d, of u] row(2) by simp
  have grants: "delete_where (\<lambda>l. at_agent_id l = k) (filter (grant_of u (delete_where (\<lambda>a. a_id a = k) (agents db))) lks) =
      delete_where (\<lambda>l. at_agent_id l = k) (filter (grant_of u (agents db)) lks)" for u lks
    by (simp add: delete_where_def) (rule filter_cong, auto simp: grant_of_def get_row_delete [unfolded delete_where_def])
  have others: "u \<noteq> t \<Longrightarrow> delete_where (\<lambda>l. at_agent_id l = k) (filter (grant_of u (agents db)) (agent_tools db)) =
      filter (grant_of u (agents db)) (agent_tools db)" for u
    using others_grants [OF row(1)] row(2) by simp
  show ?thesis
    unfolding aes_local_def eq [OF row(1)] eq [OF eq']
    by (auto simp: select_where_def grants rows others filter_delete_where intro!: aes_db_eqI)
next
  case False
  have none: "agent_delete t k e = (Inl (agent_not_found k), e)"
    if "\<And>row. get_row a_id k (agents e) = Some row \<Longrightarrow> a_tenant_id row \<noteq> t" for e
    using that by (simp add: agent_delete_def split: option.split)
  have "\<And>row. get_row a_id k (agents (aes_view t db)) = Some row \<Longrightarrow> a_tenant_id row \<noteq> t"
    using False ok by (auto simp: agent_of_view aes_db_ok_def simp del: aes_view_fields split: option.splits if_splits)
  from none [of "aes_view t db", OF this] none [of db] False show ?thesis by (simp add: aes_local_def)
qed

section \<open>Tools\<close>

text \<open>The unique constraint on tenant and name is one constraint per tenant.\<close>

lemma distinct_by_tenant:
  "distinct (map tool_key tls) \<longleftrightarrow> (\<forall>u. distinct (map tool_key (filter (\<lambda>x. t_tenant_id x = u) tls)))"
proof (induction tls)
  case (Cons x xs)
  have "tool_key x \<in> tool_key ` set xs \<longleftrightarrow> tool_key x \<in> tool_key ` set (filter (\<lambda>y. t_tenant_id y = t_tenant_id x) xs)"
    by (auto simp: tool_key_def image_iff) metis
  moreover have "(\<forall>u. distinct (map tool_key (filter (\<lambda>y. t_tenant_id y = u) (x # xs)))) \<longleftrightarrow>
      tool_key x \<notin> tool_key ` set (filter (\<lambda>y. t_tenant_id y = t_tenant_id x) xs) \<and>
      (\<forall>u. distinct (map tool_key (filter (\<lambda>y. t_tenant_id y = u) xs)))"
    by (simp only: filter.simps) (auto split: if_splits)
  ultimately show ?case using Cons by simp
qed simp

lemma flush_local:
  assumes ok: "aes_db_ok db" and ids: "distinct (map t_id tls)"
    and others: "\<And>u. u \<noteq> t \<Longrightarrow> filter (\<lambda>x. t_tenant_id x = u) tls = filter (\<lambda>x. t_tenant_id x = u) (tools db)"
    and full: "m db = flush_or_conflict name a (db\<lparr>tools := tls\<rparr>) db"
    and own: "m (aes_view t db) =
      flush_or_conflict name a ((aes_view t db)\<lparr>tools := filter (\<lambda>x. t_tenant_id x = t) tls\<rparr>) (aes_view t db)"
  shows "aes_local t m db"
proof -
  have old: "distinct (map tool_key (filter (\<lambda>x. t_tenant_id x = u) (tools db)))" for u
    using ok by (simp add: aes_db_ok_def distinct_map_filter)
  have keys: "distinct (map tool_key tls) \<longleftrightarrow> distinct (map tool_key (filter (\<lambda>x. t_tenant_id x = t) tls))"
    using others old unfolding distinct_by_tenant [of tls] by (metis distinct_map_filter)
  have "aes_view u (db\<lparr>tools := tls\<rparr>) = (aes_view u db)\<lparr>tools := filter (\<lambda>x. t_tenant_id x = u) tls\<rparr>" for u
    by (simp add: aes_view_def select_where_def)
  moreover have "(aes_view u db)\<lparr>tools := filter (\<lambda>x. t_tenant_id x = u) tls\<rparr> = aes_view u db" if "u \<noteq> t" for u
    using others [OF that] by (simp add: aes_view_def select_where_def)
  ultimately show ?thesis
    using ids keys by (auto simp: aes_local_def full own flush_or_conflict_def distinct_map_filter)
qed

lemma tool_create_local:
  assumes ok: "aes_db_ok db" and fresh: "new_id \<notin> set (map t_id (tools db))"
  shows "aes_local t (tool_create new_id now t name description mutating) db"
proof -
  let ?row = "\<lparr>t_id = new_id, t_tenant_id = t, t_name = name, t_description = description,
      t_mutating = mutating, t_version = 1, t_created_at = now 0, t_updated_at = now 1\<rparr>"
  show ?thesis
    by (rule flush_local [OF ok, where name = name and a = ?row and tls = "tools db @ [?row]"])
      (use fresh ok in \<open>auto simp: tool_create_def Let_def insert_row_def select_where_def aes_db_ok_def\<close>)
qed

lemma tool_of_view:
  "distinct (map t_id (tools db)) \<Longrightarrow> get_row t_id k (tools (aes_view t db)) =
     (case get_row t_id k (tools db) of None \<Rightarrow> None | Some r \<Rightarrow> if t_tenant_id r = t then Some r else None)"
  by (simp add: select_where_def get_row_filter)

lemma tool_update_local:
  assumes ok: "aes_db_ok db"
  shows "aes_local t (tool_update now t k name description mutating) db"
proof (cases "\<exists>row. get_row t_id k (tools db) = Some row \<and> t_tenant_id row = t")
  case True
  then obtain row where row: "get_row t_id k (tools db) = Some row" "t_tenant_id row = t" by blast
  let ?row = "row\<lparr>t_name := name, t_description := (if description = [] then None else Some description),
      t_mutating := mutating, t_version := t_version row + 1, t_updated_at := now 0\<rparr>"
  let ?tls = "update_rows (\<lambda>x. t_id x = k) (\<lambda>_. ?row) (tools db)"
  have d: "distinct (map t_id (tools db))" using ok by (simp add: aes_db_ok_def)
  have eq: "tool_update now t k name description mutating e = flush_or_conflict name ?row
      (e\<lparr>tools := update_rows (\<lambda>x. t_id x = k) (\<lambda>_. ?row) (tools e)\<rparr>) e"
    if "get_row t_id k (tools e) = Some row" for e
    using that row(2) by (simp add: tool_update_def Let_def)
  have eq': "get_row t_id k (tools (aes_view t db)) = Some row" using row by (simp only: tool_of_view [OF d]) simp
  have rows: "filter (\<lambda>x. t_tenant_id x = u) ?tls = (if u = t then update_rows (\<lambda>x. t_id x = k) (\<lambda>_. ?row)
        (filter (\<lambda>x. t_tenant_id x = u) (tools db)) else filter (\<lambda>x. t_tenant_id x = u) (tools db))" for u
    using view_of_replace [where ten = t_tenant_id and row' = ?row, OF row(1) d, of u] row(2) by simp
  have "map t_id ?tls = map t_id (tools db)" using row by (auto simp: update_rows_def dest!: get_row_Some)
  with d have ids: "distinct (map t_id ?tls)" by simp
  show ?thesis
  proof (rule flush_local [OF ok ids])
    show "tool_update now t k name description mutating db = flush_or_conflict name ?row (db\<lparr>tools := ?tls\<rparr>) db"
      by (rule eq [OF row(1)])
    show "tool_update now t k name description mutating (aes_view t db) = flush_or_conflict name ?row
        ((aes_view t db)\<lparr>tools := filter (\<lambda>x. t_tenant_id x = t) ?tls\<rparr>) (aes_view t db)"
      unfolding eq [OF eq'] rows by (simp add: select_where_def)
  qed (simp add: rows)
next
  case False
  have none: "tool_update now t k name description mutating e = (Inl (tool_not_found k), e)"
    if "\<And>row. get_row t_id k (tools e) = Some row \<Longrightarrow> t_tenant_id row \<noteq> t" for e
    using that by (simp add: tool_update_def split: option.split)
  have "\<And>row. get_row t_id k (tools (aes_view t db)) = Some row \<Longrightarrow> t_tenant_id row \<noteq> t"
    using False ok by (auto simp: tool_of_view aes_db_ok_def simp del: aes_view_fields split: option.splits if_splits)
  from none [of "aes_view t db", OF this] none [of db] False show ?thesis by (simp add: aes_local_def)
qed

text \<open>The grants of a tool are its tenant's, so the cascade deletes no other tenant's.\<close>

lemma tool_delete_local:
  assumes ok: "aes_db_ok db"
  shows "aes_local t (tool_delete t k) db"
proof (cases "\<exists>row. get_row t_id k (tools db) = Some row \<and> t_tenant_id row = t")
  case True
  then obtain row where row: "get_row t_id k (tools db) = Some row" "t_tenant_id row = t" by blast
  have d: "distinct (map t_id (tools db))" using ok by (simp add: aes_db_ok_def)
  have eq: "tool_delete t k e = (Inr (), e\<lparr>tools := delete_where (\<lambda>x. t_id x = k) (tools e),
        agent_tools := delete_where (\<lambda>l. at_tool_id l = k) (agent_tools e)\<rparr>)"
    if "get_row t_id k (tools e) = Some row" for e
    using that row(2) by (simp add: tool_delete_def)
  have eq': "get_row t_id k (tools (aes_view t db)) = Some row" using row by (simp only: tool_of_view [OF d]) simp
  have rows: "u \<noteq> t \<Longrightarrow> delete_where (\<lambda>x. t_id x = k) (filter (\<lambda>x. t_tenant_id x = u) (tools db)) =
      filter (\<lambda>x. t_tenant_id x = u) (tools db)" for u
    using view_of_delete [where ten = t_tenant_id, OF row(1) d, of u] row(2) by simp
  have grants: "delete_where (\<lambda>l. at_tool_id l = k) (filter (grant_of u (agents db)) (agent_tools db)) =
      filter (grant_of u (agents db)) (agent_tools db)" if "u \<noteq> t" for u
  proof -
    have "at_tool_id l \<noteq> k" if "l \<in> set (agent_tools db)" "grant_of u (agents db) l" for l
      using grant_rows [OF ok that(1)] that(2) row \<open>u \<noteq> t\<close> by (auto simp: grant_of_def)
    then show ?thesis by (auto simp: delete_where_def intro!: filter_cong)
  qed
  show ?thesis
    unfolding aes_local_def eq [OF row(1)] eq [OF eq']
    by (auto simp: select_where_def rows grants filter_delete_where intro!: aes_db_eqI)
next
  case False
  have none: "tool_delete t k e = (Inl (tool_not_found k), e)"
    if "\<And>row. get_row t_id k (tools e) = Some row \<Longrightarrow> t_tenant_id row \<noteq> t" for e
    using that by (simp add: tool_delete_def split: option.split)
  have "\<And>row. get_row t_id k (tools (aes_view t db)) = Some row \<Longrightarrow> t_tenant_id row \<noteq> t"
    using False ok by (auto simp: tool_of_view aes_db_ok_def simp del: aes_view_fields split: option.splits if_splits)
  from none [of "aes_view t db", OF this] none [of db] False show ?thesis by (simp add: aes_local_def)
qed

section \<open>Reads\<close>

lemma tool_get_view: "tool_get t ids (aes_view t db) = tool_get t ids db"
  by (simp add: tool_get_def select_where_def)

text \<open>The grants of the tenant's own agents.\<close>

lemma agent_tool_ids_view:
  assumes "distinct (map a_id (agents db))" and "a \<in> set (agents db)" and "a_tenant_id a = t"
  shows "agent_tool_ids (a_id a) (aes_view t db) = agent_tool_ids (a_id a) db"
proof -
  have "get_row a_id (a_id a) (agents db) = Some a" by (rule get_row_in [OF assms(1,2)])
  with assms(3) have "filter (\<lambda>l. at_agent_id l = a_id a) (filter (grant_of t (agents db)) (agent_tools db)) =
      filter (\<lambda>l. at_agent_id l = a_id a) (agent_tools db)"
    by (auto simp: grant_of_def intro!: filter_cong)
  then show ?thesis by (simp add: agent_tool_ids_def select_where_def)
qed

lemma agent_get_view:
  assumes "distinct (map a_id (agents db))"
  shows "agent_get t ids (aes_view t db) = agent_get t ids db"
  by (auto simp: agent_get_def Let_def select_where_def agent_tool_ids_view [OF assms])

lemma list_agents_view:
  assumes "distinct (map a_id (agents db))"
  shows "list_agents_for_tenant rank t (aes_view t db) = list_agents_for_tenant rank t db"
proof -
  let ?rows = "sort_key (\<lambda>a. rank (a_name a)) (filter (\<lambda>a. a_tenant_id a = t) (agents db))"
  have links: "map (\<lambda>a. agent_tool_ids (a_id a) (aes_view t db)) ?rows = map (\<lambda>a. agent_tool_ids (a_id a) db) ?rows"
    by (simp add: agent_tool_ids_view [OF assms])
  then have ids: "concat (map (\<lambda>a. agent_tool_ids (a_id a) (aes_view t db)) ?rows) =
      concat (map (\<lambda>a. agent_tool_ids (a_id a) db) ?rows)"
    by (rule arg_cong)
  have tools: "tools_by_id t ids (aes_view t db) = tools_by_id t ids db" for ids
    by (simp add: tools_by_id_def select_where_def)
  show ?thesis
    unfolding list_agents_for_tenant_def Let_def
    by (simp add: select_where_def tools ids agent_tool_ids_view [OF assms])
qed

end
