(* ===== verification/Platform_Isolation.thy ===== *)
theory Platform_Isolation
  imports Platform Aes_Locality
begin

text \<open>
  Noninterference of tenants on the whole platform. A run is a sequence of events: requests of
  tenants, single awaits of their task handlers, calls of the catalog, reports and checkpoints of
  runs, claims and reaps of pods. What one tenant can observe, the answers to its requests and
  its rows in both databases, is the same as in the run in which only its own events happen. The
  argument is the unwinding of two local conditions, stated as a locale.
\<close>

section \<open>Unwinding\<close>

text \<open>
  \<open>view d s\<close> is the part of \<open>s\<close> domain \<open>d\<close> can observe, as a state of its own; \<open>concerns d e\<close>
  says that event \<open>e\<close> is one of \<open>d\<close>; \<open>fits e s\<close> that it may happen in \<open>s\<close>.
\<close>

text \<open>Every event of a run may happen when it happens.\<close>

fun fitting :: "('e \<Rightarrow> 's \<Rightarrow> 's) \<Rightarrow> ('e \<Rightarrow> 's \<Rightarrow> bool) \<Rightarrow> 'e list \<Rightarrow> 's \<Rightarrow> bool" where
  "fitting step fits [] s \<longleftrightarrow> True"
| "fitting step fits (e # es) s \<longleftrightarrow> fits e s \<and> fitting step fits es (step e s)"

locale unwinding =
  fixes step :: "'e \<Rightarrow> 's \<Rightarrow> 's" and view :: "'d \<Rightarrow> 's \<Rightarrow> 's" and concerns :: "'d \<Rightarrow> 'e \<Rightarrow> bool"
    and ok :: "'s \<Rightarrow> bool" and fits :: "'e \<Rightarrow> 's \<Rightarrow> bool"
  assumes ok_step: "ok s \<Longrightarrow> fits e s \<Longrightarrow> ok (step e s)"
    and locally_respects: "ok s \<Longrightarrow> fits e s \<Longrightarrow> \<not> concerns d e \<Longrightarrow> view d (step e s) = view d s"
    and step_consistent: "ok s \<Longrightarrow> fits e s \<Longrightarrow> concerns d e \<Longrightarrow> step e (view d s) = view d (step e s)"
begin

lemma purged_run:
  assumes "ok s" and "fitting step fits es s"
  shows "fold step (filter (concerns d) es) (view d s) = view d (fold step es s)"
  using assms
proof (induction es arbitrary: s)
  case (Cons e es)
  then have "fold step (filter (concerns d) es) (view d (step e s)) = view d (fold step es (step e s))"
    using ok_step by simp
  with Cons.prems show ?case using locally_respects step_consistent by (cases "concerns d e") auto
qed simp

lemma same_view_runs:
  assumes "ok s1" "ok s2" and "fitting step fits es1 s1" "fitting step fits es2 s2"
    and "view d s1 = view d s2" and "filter (concerns d) es1 = filter (concerns d) es2"
  shows "view d (fold step es1 s1) = view d (fold step es2 s2)"
  using purged_run [OF assms(1,3), of d] purged_run [OF assms(2,4), of d] assms(5,6) by simp

end

section \<open>Calls of the gateway\<close>

lemma tenant_local_client_call: "tenant_local t m db \<Longrightarrow> tenant_local t (client_call m) db"
  by (auto simp: tenant_local_def client_call_def split_beta split: sum.split)

lemma tenant_local_answer: "tenant_local t m db \<Longrightarrow> tenant_local t (bindS m (\<lambda>a. returnS (g a))) db"
  by (auto simp: tenant_local_def bindS_def split_beta split: sum.split)

text \<open>Without a tenant the handlers of \<open>job_svc\<close> refuse the call.\<close>

lemma unauthenticated_local:
  "tenant_local t (CreateJob pb svc new_id now (aes_md []) rq) db"
  "tenant_local t (GetJob pb (aes_md []) grq) db"
  "tenant_local t (UpdateJob pb now (aes_md []) k st) db"
  "tenant_local t (RetryJob pb now (aes_md []) k) db"
  by (simp_all add: tenant_local_def CreateJob_def GetJob_def UpdateJob_def RetryJob_def tenant_id_aes_md
      job_handle_errors_def bindS_def split: sum.split)

lemma stub_local:
  assumes "job_db_ok db" and "jid \<notin> set (map j_id db)"
  shows "tenant_local t (CreateJob pb svc jid now (aes_md t) rq) db"
    "tenant_local t (GetJob pb (aes_md t) grq) db"
    "tenant_local t (UpdateJob pb now (aes_md t) k st) db"
    "tenant_local t (RetryJob pb now (aes_md t) k) db"
proof -
  have "tenant_local t (CreateJob pb svc jid now (aes_md t) rq) db \<and> tenant_local t (GetJob pb (aes_md t) grq) db \<and>
    tenant_local t (UpdateJob pb now (aes_md t) k st) db \<and> tenant_local t (RetryJob pb now (aes_md t) k) db"
  proof (cases "t = []")
    case False
    then show ?thesis using job_handlers_local [OF assms(1) _ assms(2)] by (simp add: tenant_id_aes_md)
  qed (simp add: unauthenticated_local)
  then show "tenant_local t (CreateJob pb svc jid now (aes_md t) rq) db"
    "tenant_local t (GetJob pb (aes_md t) grq) db"
    "tenant_local t (UpdateJob pb now (aes_md t) k st) db"
    "tenant_local t (RetryJob pb now (aes_md t) k) db" by blast+
qed

text \<open>One await with a given fresh job id, clock and libraries.\<close>

abbreviation gateway_with :: "protobuf \<Rightarrow> job_service \<Rightarrow> string \<Rightarrow> clock \<Rightarrow> job_db job_gateway" where
  "gateway_with pb svc jid jnow \<equiv> job_svc_gateway pb svc (\<lambda>_. jid) jnow"

lemma gateway_local:
  assumes "job_db_ok db" and "jid \<notin> set (map j_id db)"
  shows "tenant_local t (gw_create_job (gateway_with pb svc jid jnow) t input) db"
    "tenant_local t (gw_get_job (gateway_with pb svc jid jnow) t k) db"
    "tenant_local t (gw_start_job (gateway_with pb svc jid jnow) t k) db"
    "tenant_local t (gw_retry_job (gateway_with pb svc jid jnow) t k) db"
    "tenant_local t (gw_get_job_progress (gateway_with pb svc jid jnow) t k) db"
proof -
  note calls = stub_local [OF assms, of t pb]
  have get: "tenant_local t (client_get (job_svc_stub pb svc (\<lambda>_. jid) jnow) t k) db"
    by (simp add: client_get_def job_svc_stub_def tenant_local_bind_pure tenant_local_client_call calls)
  show "tenant_local t (gw_create_job (gateway_with pb svc jid jnow) t input) db"
    by (simp add: job_client_def client_create_job_def job_svc_stub_def tenant_local_answer tenant_local_client_call calls)
  show "tenant_local t (gw_get_job (gateway_with pb svc jid jnow) t k) db"
    by (simp add: job_client_def client_get_job_def tenant_local_answer get)
  show "tenant_local t (gw_start_job (gateway_with pb svc jid jnow) t k) db"
    by (simp add: job_client_def client_start_job_def job_svc_stub_def tenant_local_answer tenant_local_client_call calls)
  show "tenant_local t (gw_retry_job (gateway_with pb svc jid jnow) t k) db"
    by (simp add: job_client_def client_retry_job_def job_svc_stub_def tenant_local_answer tenant_local_client_call calls)
  show "tenant_local t (gw_get_job_progress (gateway_with pb svc jid jnow) t k) db"
    by (simp add: job_client_def client_get_job_progress_def tenant_local_answer get)
qed

lemma task_fetch_local:
  assumes "job_db_ok db" and "jid \<notin> set (map j_id db)"
  shows "tenant_local t (task_fetch (gateway_with pb svc jid jnow) t row) db"
  using gateway_local(2) [OF assms, of t pb svc jnow "k_job_id row"]
  by (auto simp: tenant_local_def task_fetch_def Let_def split_beta split: sum.split)

section \<open>One await of a handler\<close>

definition both_view :: "string \<Rightarrow> aes_db \<times> job_db \<Rightarrow> aes_db \<times> job_db" where
  "both_view t s = (aes_view t (fst s), tenant_view t (snd s))"

lemma write_changes_local: "aes_local t (write_changes now t cs) db"
  unfolding write_changes_def by (rule apply_changes_local)

text \<open>The tenant a handler in flight acts for.\<close>

fun session_for :: "string \<Rightarrow> task_session \<Rightarrow> bool" where
  "session_for u (S_Create new_id t input) \<longleftrightarrow> t = u"
| "session_for u (S_Insert row) \<longleftrightarrow> k_tenant_id row = u"
| "session_for u (S_Own tr t k) \<longleftrightarrow> t = u"
| "session_for u (S_Ask tr t k jid) \<longleftrightarrow> t = u"
| "session_for u (S_Save t k ref) \<longleftrightarrow> t = u"
| "session_for u (S_Load t ids) \<longleftrightarrow> t = u"
| "session_for u (S_Fetch t ids rows todo cs) \<longleftrightarrow> t = u"
| "session_for u (S_Write t ids cs) \<longleftrightarrow> t = u"
| "session_for u (S_Reload t ids) \<longleftrightarrow> t = u"
| "session_for u (S_Own_Progress t k) \<longleftrightarrow> t = u"
| "session_for u (S_Ask_Progress t row) \<longleftrightarrow> t = u"
| "session_for u (S_Done r) \<longleftrightarrow> True"

text \<open>No \<open>uuid4\<close> collides: the id of a task that is inserted, and of a job that is created, are new.\<close>

fun new_ids :: "task_session \<Rightarrow> string \<Rightarrow> aes_db \<times> job_db \<Rightarrow> bool" where
  "new_ids (S_Insert row) jid s \<longleftrightarrow> k_id row \<notin> set (map k_id (tasks (fst s))) \<and> jid \<notin> set (map j_id (snd s))"
| "new_ids x jid s \<longleftrightarrow> jid \<notin> set (map j_id (snd s))"

definition step_local :: "string \<Rightarrow> (aes_db \<times> job_db \<Rightarrow> task_session \<times> (aes_db \<times> job_db)) \<Rightarrow> aes_db \<times> job_db \<Rightarrow> bool" where
  "step_local t f s \<longleftrightarrow> f (both_view t s) = (fst (f s), both_view t (snd (f s))) \<and>
     (\<forall>u. u \<noteq> t \<longrightarrow> both_view u (snd (f s)) = both_view u s)"

lemma step_local_remote: "tenant_local t m (snd s) \<Longrightarrow> step_local t (after (remote m) g) s"
  by (cases s) (auto simp: step_local_def tenant_local_def after_def remote_def both_view_def split_beta split: sum.split)

lemma step_local_tx: "aes_local t m (fst s) \<Longrightarrow> step_local t (after (local_tx m) g) s"
  by (cases s) (auto simp: step_local_def aes_local_def after_def local_tx_def both_view_def split_beta split: sum.split)

lemma step_local_read: "step_local t (after (local_tx (\<lambda>db. (Inr (task_load t ids db), db))) g) s"
  by (rule step_local_tx) (simp add: aes_local_def task_load_view)

lemma step_local_pure: "step_local t (\<lambda>s. (x, s)) s"
  by (simp add: step_local_def)

lemma session_step_local:
  assumes "job_db_ok (snd s)" and "distinct (map k_id (tasks (fst s)))" and "new_ids x jid s" and "session_for t x"
  shows "step_local t (session_step (gateway_with pb svc jid jnow) now x) s"
proof -
  have jid: "jid \<notin> set (map j_id (snd s))" using assms(3) by (cases x) auto
  note calls = gateway_local [OF assms(1) jid] task_fetch_local [OF assms(1) jid]
  show ?thesis
  proof (cases x)
    case (S_Ask tr u k job)
    with assms(4) calls(3,4) show ?thesis by (cases tr) (auto simp: asks_def intro!: step_local_remote)
  next
    case (S_Fetch u ids rows todo cs)
    with assms(4) calls(6) show ?thesis
      by (cases todo) (auto intro!: step_local_remote step_local_pure)
  qed (use assms in \<open>auto intro!: step_local_remote step_local_tx step_local_read step_local_pure calls
      insert_task_local job_id_for_local save_status_local write_changes_local own_task_local\<close>)
qed

section \<open>Calls of the catalog\<close>

text \<open>
  The operations of \<open>AgentService\<close> and \<open>ToolService\<close>, one transaction each, and the orchestrator's
  read of a tenant's agents, with their answers.
\<close>

datatype catalog_op =
    O_Create_Agent string "nat \<Rightarrow> stamp" string string string rat "string list"
  | O_Update_Agent "nat \<Rightarrow> stamp" string string string string rat "string list"
  | O_Delete_Agent string
  | O_Get_Agents "string list"
  | O_Create_Tool string "nat \<Rightarrow> stamp" string "string option" bool
  | O_Update_Tool "nat \<Rightarrow> stamp" string string string bool
  | O_Delete_Tool string
  | O_Get_Tools "string list"
  | O_List_Agents "string \<Rightarrow> int"

datatype catalog_answer =
    R_Agent "aes_error + agent_row \<times> string list"
  | R_Agents "(agent_row \<times> string list) list"
  | R_Tool "aes_error + tool_row"
  | R_Tools "tool_row list"
  | R_Deleted "aes_error + unit"
  | R_Specs "agent_spec list"

fun catalog_call :: "string \<Rightarrow> catalog_op \<Rightarrow> aes_db \<Rightarrow> catalog_answer \<times> aes_db" where
  "catalog_call u (O_Create_Agent new_id now name instructions llm temp ids) db =
     apfst R_Agent (agent_create new_id now u name instructions llm temp ids db)"
| "catalog_call u (O_Update_Agent now k name instructions llm temp ids) db =
     apfst R_Agent (agent_update now u k name instructions llm temp ids db)"
| "catalog_call u (O_Delete_Agent k) db = apfst R_Deleted (agent_delete u k db)"
| "catalog_call u (O_Get_Agents ids) db = (R_Agents (agent_get u ids db), db)"
| "catalog_call u (O_Create_Tool new_id now name description mutating) db =
     apfst R_Tool (tool_create new_id now u name description mutating db)"
| "catalog_call u (O_Update_Tool now k name new_text mutating) db =
     apfst R_Tool (tool_update now u k name new_text mutating db)"
| "catalog_call u (O_Delete_Tool k) db = apfst R_Deleted (tool_delete u k db)"
| "catalog_call u (O_Get_Tools ids) db = (R_Tools (tool_get u ids db), db)"
| "catalog_call u (O_List_Agents rank) db = (R_Specs (list_agents_for_tenant rank u db), db)"

fun catalog_fresh :: "catalog_op \<Rightarrow> aes_db \<Rightarrow> bool" where
  "catalog_fresh (O_Create_Agent new_id now name instructions llm temp ids) db \<longleftrightarrow> new_id \<notin> set (map a_id (agents db))"
| "catalog_fresh (O_Create_Tool new_id now name description mutating) db \<longleftrightarrow> new_id \<notin> set (map t_id (tools db))"
| "catalog_fresh _ db \<longleftrightarrow> True"

lemma answered_local:
  assumes "aes_local u m db"
  shows "apfst R (m (aes_view u db)) = apsnd (aes_view u) (apfst R (m db)) \<and>
    (t \<noteq> u \<longrightarrow> aes_view t (snd (apfst R (m db))) = aes_view t db)"
  using assms by (cases "m db") (simp add: aes_local_def)

lemma catalog_call_local:
  assumes "aes_db_ok db" and "catalog_fresh c db"
  shows "catalog_call u c (aes_view u db) = apsnd (aes_view u) (catalog_call u c db) \<and>
    (t \<noteq> u \<longrightarrow> aes_view t (snd (catalog_call u c db)) = aes_view t db)"
proof -
  have d: "distinct (map a_id (agents db))" using assms(1) by (simp add: aes_db_ok_def)
  note ops = agent_create_local agent_update_local agent_delete_local tool_create_local tool_update_local tool_delete_local
  show ?thesis
  proof (cases c)
    case (O_Create_Agent new_id now name instructions llm temp ids)
    with assms show ?thesis by (simp only: catalog_call.simps catalog_fresh.simps) (rule answered_local, rule ops)
  next
    case (O_Create_Tool new_id now name description mutating)
    with assms show ?thesis by (simp only: catalog_call.simps catalog_fresh.simps) (rule answered_local, rule ops)
  qed (simp_all only: catalog_call.simps answered_local ops [OF assms(1)],
    simp_all add: agent_get_view [OF d] tool_get_view list_agents_view [OF d] ops [OF assms(1), unfolded aes_local_def])
qed

lemma catalog_call_ok: "aes_db_ok db \<Longrightarrow> aes_db_ok (snd (catalog_call u c db))"
  by (cases c) (simp_all add: agent_create_ok agent_update_ok agent_delete_ok tool_create_ok tool_update_ok tool_delete_ok)

section \<open>The system as a function of its events\<close>

text \<open>
  The two databases, the handlers in flight, each with the tenant that made the request, and the
  answers of the catalog in order. The answer of a task handler is its last state.
\<close>

record system =
  sy_db :: aes_db
  sy_jobs :: job_db
  sy_sessions :: "nat \<Rightarrow> (string \<times> task_session) option"
  sy_answers :: "(string \<times> catalog_answer) list"

text \<open>
  The events. \<open>E_Await\<close> is one await of handler \<open>i\<close>, with the clocks of both services and the
  id a created job gets. \<open>E_Create\<close>, \<open>E_Update\<close> and \<open>E_Retry\<close> are calls of \<open>job_svc\<close> by
  anyone else, among them the runners; \<open>E_Save\<close> and \<open>E_Renew\<close> are what a runner writes for the
  job of tenant \<open>u\<close> it works on. \<open>E_Claim\<close> is the claim of the chosen jobs by one pod, \<open>E_Reap\<close>
  the recovery of expired leases, \<open>E_Catalog\<close> a call of the catalog.
\<close>

datatype system_event =
    E_Request string nat task_session
  | E_Await string nat "nat \<Rightarrow> stamp" string clock
  | E_Create string string clock string json "int option" "int option"
  | E_Update string clock string string
  | E_Retry string clock string
  | E_Save string clock string progress
  | E_Renew string clock string
  | E_Claim "string list" clock string
  | E_Reap clock time
  | E_Catalog string catalog_op

text \<open>Pods serve all tenants, so what they claim and reap concerns each of them.\<close>

fun event_concerns :: "string \<Rightarrow> system_event \<Rightarrow> bool" where
  "event_concerns t (E_Request u i x) \<longleftrightarrow> u = t"
| "event_concerns t (E_Await u i now jid jnow) \<longleftrightarrow> u = t"
| "event_concerns t (E_Create u new_id now ty spec ma mr) \<longleftrightarrow> u = t"
| "event_concerns t (E_Update u now k st) \<longleftrightarrow> u = t"
| "event_concerns t (E_Retry u now k) \<longleftrightarrow> u = t"
| "event_concerns t (E_Save u now k p) \<longleftrightarrow> u = t"
| "event_concerns t (E_Renew u now k) \<longleftrightarrow> u = t"
| "event_concerns t (E_Claim ks now owner) \<longleftrightarrow> True"
| "event_concerns t (E_Reap now lease) \<longleftrightarrow> True"
| "event_concerns t (E_Catalog u c) \<longleftrightarrow> u = t"

definition claim_rows :: "string list \<Rightarrow> clock \<Rightarrow> string \<Rightarrow> job_db \<Rightarrow> job_db" where
  "claim_rows ks now owner = update_rows (\<lambda>r. j_id r \<in> set ks) (claim_values now owner)"

lemma claim_batch_chooses:
  "snd (claim_batch skip now limit owner db) = claim_rows (claim_candidates skip limit db) now owner db"
  by (simp add: snd_claim_batch claim_rows_def)

fun await_step :: "protobuf \<Rightarrow> job_service \<Rightarrow> string \<Rightarrow> nat \<Rightarrow> (nat \<Rightarrow> stamp) \<Rightarrow> string \<Rightarrow> clock \<Rightarrow> system \<Rightarrow> system" where
  "await_step pb svc u i now jid jnow s = (case sy_sessions s i of
     Some (v, x) \<Rightarrow>
       if v = u then (case session_step (gateway_with pb svc jid jnow) now x (sy_db s, sy_jobs s) of
         (x', (db', jobs')) \<Rightarrow>
           s\<lparr>sy_db := db', sy_jobs := jobs', sy_sessions := (sy_sessions s)(i \<mapsto> (v, x'))\<rparr>)
       else s
   | None \<Rightarrow> s)"

fun system_step :: "protobuf \<Rightarrow> job_service \<Rightarrow> system_event \<Rightarrow> system \<Rightarrow> system" where
  "system_step pb svc (E_Request u i x) s = s\<lparr>sy_sessions := (sy_sessions s)(i \<mapsto> (u, x))\<rparr>"
| "system_step pb svc (E_Await u i now jid jnow) s = await_step pb svc u i now jid jnow s"
| "system_step pb svc (E_Create u new_id now ty spec ma mr) s =
     s\<lparr>sy_jobs := snd (job_create svc new_id now u ty spec ma mr (sy_jobs s))\<rparr>"
| "system_step pb svc (E_Update u now k st) s = s\<lparr>sy_jobs := snd (job_update now u k st (sy_jobs s))\<rparr>"
| "system_step pb svc (E_Retry u now k) s = s\<lparr>sy_jobs := snd (job_retry now u k (sy_jobs s))\<rparr>"
| "system_step pb svc (E_Save u now k p) s = s\<lparr>sy_jobs := snd (save_progress now k p (sy_jobs s))\<rparr>"
| "system_step pb svc (E_Renew u now k) s = s\<lparr>sy_jobs := snd (renew_lease now k (sy_jobs s))\<rparr>"
| "system_step pb svc (E_Claim ks now owner) s = s\<lparr>sy_jobs := claim_rows ks now owner (sy_jobs s)\<rparr>"
| "system_step pb svc (E_Reap now lease) s = s\<lparr>sy_jobs := snd (reap_expired now lease (sy_jobs s))\<rparr>"
| "system_step pb svc (E_Catalog u c) s = (case catalog_call u c (sy_db s) of
     (a, db) \<Rightarrow> s\<lparr>sy_db := db, sy_answers := sy_answers s @ [(u, a)]\<rparr>)"

text \<open>
  What tenant \<open>t\<close> can observe: its agents, tools, grants, tasks and jobs, its handlers with their
  answers, and the answers of its calls of the catalog.
\<close>

definition system_view :: "string \<Rightarrow> system \<Rightarrow> system" where
  "system_view t s = \<lparr>sy_db = aes_view t (sy_db s), sy_jobs = tenant_view t (sy_jobs s),
     sy_sessions = (\<lambda>i. case sy_sessions s i of Some (u, x) \<Rightarrow> if u = t then Some (u, x) else None | None \<Rightarrow> None),
     sy_answers = filter (\<lambda>(u, a). u = t) (sy_answers s)\<rparr>"

definition system_ok :: "system \<Rightarrow> bool" where
  "system_ok s \<longleftrightarrow> job_db_ok (sy_jobs s) \<and> aes_db_ok (sy_db s) \<and>
     (\<forall>i u x. sy_sessions s i = Some (u, x) \<longrightarrow> session_for u x)"

text \<open>
  When an event may happen: a request starts a handler of its own for its tenant, no \<open>uuid4\<close>
  collides, the budgets of a new job are valid, a runner writes to jobs of the tenant it works
  for, a claim chooses queued jobs.
\<close>

definition of_tenant :: "string \<Rightarrow> string \<Rightarrow> job_db \<Rightarrow> bool" where
  "of_tenant u k db \<longleftrightarrow> (\<forall>r \<in> set db. j_id r = k \<longrightarrow> j_tenant_id r = u)"

fun event_fits :: "system_event \<Rightarrow> system \<Rightarrow> bool" where
  "event_fits (E_Request u i x) s \<longleftrightarrow> sy_sessions s i = None \<and> is_start x \<and> session_for u x"
| "event_fits (E_Await u i now jid jnow) s \<longleftrightarrow>
     (\<exists>x. sy_sessions s i = Some (u, x) \<and> new_ids x jid (sy_db s, sy_jobs s))"
| "event_fits (E_Create u new_id now ty spec ma mr) s \<longleftrightarrow> new_id \<notin> set (map j_id (sy_jobs s)) \<and>
     validate_max_attempts ma = Inr () \<and> validate_max_retries mr = Inr ()"
| "event_fits (E_Save u now k p) s \<longleftrightarrow> of_tenant u k (sy_jobs s)"
| "event_fits (E_Renew u now k) s \<longleftrightarrow> of_tenant u k (sy_jobs s)"
| "event_fits (E_Claim ks now owner) s \<longleftrightarrow> (\<forall>r \<in> set (sy_jobs s). j_id r \<in> set ks \<longrightarrow> j_status r = ''queued'')"
| "event_fits (E_Catalog u c) s \<longleftrightarrow> catalog_fresh c (sy_db s)"
| "event_fits _ s \<longleftrightarrow> True"

section \<open>The system keeps its invariant\<close>

definition step_ok :: "string \<Rightarrow> task_session \<times> (aes_db \<times> job_db) \<Rightarrow> bool" where
  "step_ok u r \<longleftrightarrow> session_for u (fst r) \<and> aes_db_ok (fst (snd r)) \<and> job_db_ok (snd (snd r))"

lemma step_ok_remote:
  assumes "aes_db_ok db" "job_db_ok jobs" "service_ok svc" and "keepsS (job_steps svc) m" and "\<And>a. session_for u (g a)"
  shows "step_ok u (after (remote m) g (db, jobs))"
proof -
  obtain r jobs' where m: "m jobs = (r, jobs')" by fastforce
  with job_steps_grow [OF keepsSD [OF assms(4) m] assms(3,2)] assms(1,5) show ?thesis
    by (cases r) (simp_all add: step_ok_def after_def remote_def)
qed

lemma step_ok_tx:
  assumes "job_db_ok jobs" and "aes_db_ok (snd (m db))" and "\<And>a. session_for u (g a)"
  shows "step_ok u (after (local_tx m) g (db, jobs))"
  using assms by (auto simp: step_ok_def after_def local_tx_def split: prod.split sum.split)

lemma step_ok_same: "aes_db_ok db \<Longrightarrow> job_db_ok jobs \<Longrightarrow> session_for u x \<Longrightarrow> step_ok u (x, (db, jobs))"
  by (simp add: step_ok_def)

lemma session_for_next: "session_for u (fetch_next t ids rows todo cs) \<longleftrightarrow> (todo = [] \<and> cs = []) \<or> t = u"
  by (simp add: fetch_next_def)

lemma tx_ok:
  assumes "aes_db_ok db"
  shows "aes_db_ok (snd (insert_task row db))" "aes_db_ok (snd (own_task t k db))" "aes_db_ok (snd (job_id_for t k db))"
    "aes_db_ok (snd (save_status now t k ref db))" "aes_db_ok (snd (write_changes now t cs db))"
  using assms
  by (auto simp: aes_db_ok_def insert_task_def insert_row_def own_task_def job_id_for_def bindS_def save_status_def
      update_where_def write_changes_def task_rows_frame apply_changes_frame split: option.split list.split)

lemma session_step_ok:
  assumes "service_ok svc" and "aes_db_ok db" and "job_db_ok jobs" and "session_for u x"
  shows "step_ok u (session_step (gateway_with pb svc jid jnow) now x (db, jobs))"
proof -
  note remote = step_ok_remote [OF assms(2,3,1)]
  note calls = keepsS_gateway keepsS_task_fetch keepsS_asks
  note pure = step_ok_same [OF assms(2,3)]
  show ?thesis
  proof (cases x)
    case (S_Fetch t ids rows todo cs)
    with assms(4) show ?thesis by (cases todo) (auto intro!: remote pure calls simp: session_for_next)
  qed (use assms in \<open>auto intro!: remote step_ok_tx pure calls tx_ok simp: session_for_next new_task_def\<close>)
qed

section \<open>Rows of one tenant\<close>

text \<open>A statement whose condition looks at one row alone acts on each tenant's rows apart.\<close>

lemma view_of_row_update:
  assumes "job_rewrite f"
  shows "tenant_view t (update_rows P f db) = update_rows P f (tenant_view t db)"
  using job_rewrite.identity_upd [OF assms]
  by (induction db) (auto simp: tenant_view_def select_where_def job_identity_def)

lemma view_of_other_update:
  assumes "job_rewrite f" and "\<And>r. r \<in> set db \<Longrightarrow> P r \<Longrightarrow> j_tenant_id r \<noteq> t"
  shows "tenant_view t (update_rows P f db) = tenant_view t db"
  using assms(2) job_rewrite.identity_upd [OF assms(1)]
  by (induction db) (auto simp: tenant_view_def select_where_def job_identity_def)

text \<open>What an event does to the jobs table, seen by tenant \<open>t\<close>.\<close>

definition table_local :: "string \<Rightarrow> (job_db \<Rightarrow> job_db) \<Rightarrow> job_db \<Rightarrow> bool" where
  "table_local u f db \<longleftrightarrow> f (tenant_view u db) = tenant_view u (f db) \<and>
     (\<forall>t. t \<noteq> u \<longrightarrow> tenant_view t (f db) = tenant_view t db)"

lemma table_local_op: "tenant_local u m db \<Longrightarrow> table_local u (\<lambda>db. snd (m db)) db"
  by (simp add: tenant_local_def table_local_def)

lemma table_local_update:
  assumes "job_rewrite f" and "\<And>r. r \<in> set db \<Longrightarrow> P r \<Longrightarrow> j_tenant_id r = u"
  shows "table_local u (update_rows P f) db"
  using view_of_other_update [OF assms(1), of db P] assms(2)
  by (auto simp: table_local_def view_of_row_update [OF assms(1)])

lemma distinct_tenant_view: "distinct (map j_id db) \<Longrightarrow> distinct (map j_id (tenant_view u db))"
  by (simp add: tenant_view_def select_where_def distinct_map_filter)

lemma table_local_renew:
  assumes "distinct (map j_id db)" and "of_tenant u k db"
  shows "table_local u (\<lambda>db. snd (renew_lease now k db)) db"
  using table_local_update [OF renew.job_rewrite_axioms, of db "\<lambda>r. j_id r = k \<and> j_status r = ''running''" u now]
    assms(2) snd_renew_lease [OF assms(1)] snd_renew_lease [OF distinct_tenant_view [OF assms(1)]]
  by (simp add: table_local_def of_tenant_def)

lemma snd_save_progress:
  assumes "distinct (map j_id db)"
  shows "snd (save_progress now k p db) = update_rows (\<lambda>r. j_id r = k) (progress_values (now 0) p) db"
  by (auto simp: save_progress_spec [OF assms] intro!: update_rows_no_match [symmetric])

lemma table_local_save:
  assumes "distinct (map j_id db)" and "of_tenant u k db"
  shows "table_local u (\<lambda>db. snd (save_progress now k p db)) db"
  using table_local_update [OF checkpoint.job_rewrite_axioms, of db "\<lambda>r. j_id r = k" u "now 0" p]
    assms(2) snd_save_progress [OF assms(1)] snd_save_progress [OF distinct_tenant_view [OF assms(1)]]
  by (simp add: table_local_def of_tenant_def)

lemma view_of_claim: "tenant_view t (claim_rows ks now owner db) = claim_rows ks now owner (tenant_view t db)"
  unfolding claim_rows_def by (rule view_of_row_update [OF claim.job_rewrite_axioms])

lemma view_of_reap: "tenant_view t (snd (reap_expired now lease db)) = snd (reap_expired now lease (tenant_view t db))"
  unfolding snd_reap_expired by (rule view_of_row_update [OF fail.job_rewrite_axioms])

section \<open>Events of the system\<close>

lemma view_fields [simp]:
  "sy_db (system_view t s) = aes_view t (sy_db s)" "sy_jobs (system_view t s) = tenant_view t (sy_jobs s)"
  "sy_answers (system_view t s) = filter (\<lambda>(u, a). u = t) (sy_answers s)"
  by (simp_all add: system_view_def)

lemma view_sessions:
  "sy_sessions (system_view t s) i = (case sy_sessions s i of Some (u, x) \<Rightarrow> if u = t then Some (u, x) else None | None \<Rightarrow> None)"
  by (simp add: system_view_def)

lemma system_eqI:
  "sy_db s = sy_db s' \<Longrightarrow> sy_jobs s = sy_jobs s' \<Longrightarrow> sy_answers s = sy_answers s' \<Longrightarrow> (\<And>i. sy_sessions s i = sy_sessions s' i) \<Longrightarrow> s = (s' :: system)"
  by (cases s, cases s') auto

lemma view_jobs_update: "system_view t (s\<lparr>sy_jobs := jobs\<rparr>) = (system_view t s)\<lparr>sy_jobs := tenant_view t jobs\<rparr>"
  by (simp add: system_view_def)

lemma jobs_event_local:
  assumes "table_local u f (sy_jobs s)"
  shows "(system_view u s)\<lparr>sy_jobs := f (sy_jobs (system_view u s))\<rparr> = system_view u (s\<lparr>sy_jobs := f (sy_jobs s)\<rparr>)"
    and "t \<noteq> u \<Longrightarrow> system_view t (s\<lparr>sy_jobs := f (sy_jobs s)\<rparr>) = system_view t s"
  using assms by (auto simp: table_local_def view_jobs_update intro!: system_eqI)

text \<open>\<open>E_Await\<close>.\<close>

lemma await_step_eq:
  assumes "sy_sessions s i = Some (u, x)"
    and "session_step (gateway_with pb svc jid jnow) now x (sy_db s, sy_jobs s) = (x', (db', jobs'))"
  shows "await_step pb svc u i now jid jnow s =
    s\<lparr>sy_db := db', sy_jobs := jobs', sy_sessions := (sy_sessions s)(i \<mapsto> (u, x'))\<rparr>"
  using assms by simp

lemma await_local:
  assumes ok: "system_ok s" and fits: "event_fits (E_Await u i now jid jnow) s"
  shows "await_step pb svc u i now jid jnow (system_view u s) = system_view u (await_step pb svc u i now jid jnow s)"
    and "t \<noteq> u \<Longrightarrow> system_view t (await_step pb svc u i now jid jnow s) = system_view t s"
proof -
  from fits obtain x where x: "sy_sessions s i = Some (u, x)" "new_ids x jid (sy_db s, sy_jobs s)" by auto
  let ?f = "session_step (gateway_with pb svc jid jnow) now x"
  obtain x' db' jobs' where step: "?f (sy_db s, sy_jobs s) = (x', (db', jobs'))" by (metis prod.exhaust)
  have "session_for u x" and "job_db_ok (sy_jobs s)" and "distinct (map k_id (tasks (sy_db s)))"
    using ok x(1) by (auto simp: system_ok_def aes_db_ok_def)
  then have "step_local u ?f (sy_db s, sy_jobs s)"
    using x(2) by (intro session_step_local) auto
  then have own: "?f (aes_view u (sy_db s), tenant_view u (sy_jobs s)) = (x', (aes_view u db', tenant_view u jobs'))"
    and other: "t \<noteq> u \<Longrightarrow> aes_view t db' = aes_view t (sy_db s) \<and> tenant_view t jobs' = tenant_view t (sy_jobs s)" for t
    by (auto simp: step_local_def both_view_def step)
  have "sy_sessions (system_view u s) i = Some (u, x)" by (simp add: view_sessions x(1))
  from await_step_eq [OF this, of pb svc jid jnow now] await_step_eq [OF x(1) step] own
  show "await_step pb svc u i now jid jnow (system_view u s) = system_view u (await_step pb svc u i now jid jnow s)"
    by (auto simp: view_sessions intro!: system_eqI)
  show "system_view t (await_step pb svc u i now jid jnow s) = system_view t s" if "t \<noteq> u"
    using other [OF that] that x(1) await_step_eq [OF x(1) step]
    by (auto simp: view_sessions intro!: system_eqI)
qed

lemma await_ok:
  assumes "system_ok s" and "service_ok svc" and "event_fits (E_Await u i now jid jnow) s"
  shows "system_ok (await_step pb svc u i now jid jnow s)"
proof -
  from assms(3) obtain x where x: "sy_sessions s i = Some (u, x)" by auto
  obtain x' db' jobs' where step: "session_step (gateway_with pb svc jid jnow) now x (sy_db s, sy_jobs s) = (x', (db', jobs'))"
    by (metis prod.exhaust)
  have "session_for u x" using assms(1) x by (auto simp: system_ok_def)
  then have "step_ok u (session_step (gateway_with pb svc jid jnow) now x (sy_db s, sy_jobs s))"
    using assms(1,2) by (intro session_step_ok) (auto simp: system_ok_def)
  with assms(1) show ?thesis
    unfolding await_step_eq [OF x step] by (auto simp: step step_ok_def system_ok_def)
qed

text \<open>The three conditions of the unwinding.\<close>

lemma claim_rows_ok:
  "job_db_ok db \<Longrightarrow> (\<And>r. r \<in> set db \<Longrightarrow> j_id r \<in> set ks \<Longrightarrow> j_status r = ''queued'') \<Longrightarrow> job_db_ok (claim_rows ks now owner db)"
  unfolding claim_rows_def by (rule claim.update_rows_ok) auto

lemma system_step_ok:
  assumes "service_ok svc" and "system_ok s" and "event_fits e s"
  shows "system_ok (system_step pb svc e s)"
proof (cases e)
  case (E_Await u i now jid jnow)
  with await_ok [OF assms(2,1)] assms(3) show ?thesis by simp
next
  case (E_Catalog u c)
  with assms(2) catalog_call_ok [of "sy_db s" u c] show ?thesis by (simp add: system_ok_def split_beta)
qed (use assms in \<open>auto simp: system_ok_def inv_intros claim_rows_ok\<close>)

lemma event_table_local:
  assumes "job_db_ok db"
  shows "new_id \<notin> set (map j_id db) \<Longrightarrow> table_local u (\<lambda>db. snd (job_create svc new_id now u ty spec ma mr db)) db"
    "table_local u (\<lambda>db. snd (job_update now u k st db)) db"
    "table_local u (\<lambda>db. snd (job_retry now u k db)) db"
    "of_tenant u k db \<Longrightarrow> table_local u (\<lambda>db. snd (save_progress now k p db)) db"
    "of_tenant u k db \<Longrightarrow> table_local u (\<lambda>db. snd (renew_lease now k db)) db"
  using assms
  by (simp_all add: table_local_op tenant_local_job_create tenant_local_job_update tenant_local_job_retry
      table_local_save table_local_renew)

text \<open>The events of a tenant that change the jobs table alone.\<close>

definition jobs_event :: "protobuf \<Rightarrow> job_service \<Rightarrow> string \<Rightarrow> (job_db \<Rightarrow> job_db) \<Rightarrow> system_event \<Rightarrow> bool" where
  "jobs_event pb svc u f e \<longleftrightarrow> (\<forall>s. system_step pb svc e s = s\<lparr>sy_jobs := f (sy_jobs s)\<rparr>) \<and>
     (\<forall>t. event_concerns t e \<longleftrightarrow> u = t)"

lemma jobs_events:
  "jobs_event pb svc u (\<lambda>db. snd (job_create svc new_id now u ty spec ma mr db)) (E_Create u new_id now ty spec ma mr)"
  "jobs_event pb svc u (\<lambda>db. snd (job_update now u k st db)) (E_Update u now k st)"
  "jobs_event pb svc u (\<lambda>db. snd (job_retry now u k db)) (E_Retry u now k)"
  "jobs_event pb svc u (\<lambda>db. snd (save_progress now k p db)) (E_Save u now k p)"
  "jobs_event pb svc u (\<lambda>db. snd (renew_lease now k db)) (E_Renew u now k)"
  by (simp_all add: jobs_event_def)

lemma event_cases:
  assumes "system_ok s" and "event_fits e s"
  shows "(\<exists>u f. jobs_event pb svc u f e \<and> table_local u f (sy_jobs s)) \<or>
    (\<exists>u i x. e = E_Request u i x) \<or> (\<exists>u i now jid jnow. e = E_Await u i now jid jnow) \<or>
    (\<exists>ks now owner. e = E_Claim ks now owner) \<or> (\<exists>now lease. e = E_Reap now lease) \<or> (\<exists>u c. e = E_Catalog u c)"
proof -
  have "job_db_ok (sy_jobs s)" using assms(1) by (simp add: system_ok_def)
  note local = event_table_local [OF this]
  show ?thesis
    using assms(2) by (cases e) (fastforce intro: jobs_events local)+
qed

text \<open>\<open>E_Catalog\<close>.\<close>

lemma catalog_event_local:
  assumes "aes_db_ok (sy_db s)" and "catalog_fresh c (sy_db s)"
  shows "system_step pb svc (E_Catalog u c) (system_view u s) = system_view u (system_step pb svc (E_Catalog u c) s)"
    and "t \<noteq> u \<Longrightarrow> system_view t (system_step pb svc (E_Catalog u c) s) = system_view t s"
proof -
  obtain a db where call: "catalog_call u c (sy_db s) = (a, db)" by fastforce
  have own: "catalog_call u c (aes_view u (sy_db s)) = (a, aes_view u db)"
    using catalog_call_local [OF assms, of u] by (simp add: call)
  show "system_step pb svc (E_Catalog u c) (system_view u s) = system_view u (system_step pb svc (E_Catalog u c) s)"
    by (simp add: call own) (auto simp: view_sessions intro!: system_eqI)
  show "system_view t (system_step pb svc (E_Catalog u c) s) = system_view t s" if "t \<noteq> u"
    using catalog_call_local [OF assms, of u t] that by (auto simp: call view_sessions intro!: system_eqI)
qed

lemma system_locally_respects:
  assumes "system_ok s" and "event_fits e s" and "\<not> event_concerns t e"
  shows "system_view t (system_step pb svc e s) = system_view t s"
  using event_cases [OF assms(1,2), of pb svc]
proof (elim disjE exE conjE)
  fix u f
  assume "jobs_event pb svc u f e" and "table_local u f (sy_jobs s)"
  with jobs_event_local(2) assms(3) show ?thesis by (auto simp: jobs_event_def)
next
  fix u i now jid jnow
  assume "e = E_Await u i now jid jnow"
  with await_local(2) [OF assms(1)] assms(2,3) show ?thesis by simp
next
  fix u c
  assume "e = E_Catalog u c"
  with catalog_event_local(2) assms show ?thesis by (auto simp: system_ok_def simp del: system_step.simps)
qed (use assms in \<open>auto simp: view_sessions intro!: system_eqI\<close>)

lemma system_step_consistent:
  assumes "system_ok s" and "event_fits e s" and "event_concerns t e"
  shows "system_step pb svc e (system_view t s) = system_view t (system_step pb svc e s)"
  using event_cases [OF assms(1,2), of pb svc]
proof (elim disjE exE conjE)
  fix u f
  assume f: "jobs_event pb svc u f e" and l: "table_local u f (sy_jobs s)"
  from jobs_event_local(1) [OF l] f assms(3) show ?thesis by (auto simp: jobs_event_def)
next
  fix u i now jid jnow
  assume "e = E_Await u i now jid jnow"
  with await_local(1) [OF assms(1)] assms(2,3) show ?thesis by simp
next
  fix u c
  assume "e = E_Catalog u c"
  with catalog_event_local(1) assms show ?thesis by (auto simp: system_ok_def simp del: system_step.simps)
qed (use assms in \<open>auto simp: view_sessions view_jobs_update view_of_claim view_of_reap intro!: system_eqI\<close>)

text \<open>The platform is an instance of the unwinding.\<close>

interpretation platform_unwinding:
  unwinding "system_step pb svc" system_view event_concerns "\<lambda>s. service_ok svc \<and> system_ok s" event_fits for pb svc
  by unfold_locales (auto intro: system_step_ok system_locally_respects system_step_consistent)

text \<open>C5. Tenants do not interfere with each other on the whole platform. Take two runs of the two
  services with any interleaving of requests, single awaits of task handlers, calls of the catalog,
  calls and runner writes on the jobs table, claims and reaps, in which one tenant makes the same
  calls and the pods claim and reap alike, and whatever the other tenants do: if what the tenant
  owns (agents, tools, grants, tasks, jobs, handlers in flight) agrees at the start, it agrees at
  the end, so that its handlers and its catalog calls have given the same answers and its rows hold
  the same values.\<close>

theorem platform_noninterference:
  assumes "service_ok svc" and "system_ok s1" and "system_ok s2"
    and "fitting (system_step pb svc) event_fits es1 s1" and "fitting (system_step pb svc) event_fits es2 s2"
    and "system_view t s1 = system_view t s2"
    and "filter (event_concerns t) es1 = filter (event_concerns t) es2"
  shows "system_view t (fold (system_step pb svc) es1 s1) = system_view t (fold (system_step pb svc) es2 s2)"
  by (rule platform_unwinding.same_view_runs) (use assms in auto)

definition iso_task :: "string \<Rightarrow> string \<Rightarrow> task_row" where
  "iso_task t k = \<lparr>k_id = k, k_tenant_id = t, k_input = ''go'', k_job_id = ''job-'' @ k, k_status = ''completed'',
     k_result = ''done'', k_created_at = 1, k_updated_at = 1\<rparr>"

definition iso_start :: "task_row list \<Rightarrow> system" where
  "iso_start tb = \<lparr>sy_db = empty_aes_db\<lparr>tasks := tb\<rparr>, sy_jobs = [], sy_sessions = (\<lambda>_. None), sy_answers = []\<rparr>"

definition iso_create :: "string \<Rightarrow> string \<Rightarrow> system_event" where
  "iso_create t k = E_Create t k (\<lambda>_. 1) ''agent_execution'' (JObj []) None None"

definition iso_tool :: "string \<Rightarrow> string \<Rightarrow> system_event" where
  "iso_tool t k = E_Catalog t (O_Create_Tool k (\<lambda>_. 1) ''search'' None False)"

definition iso_own :: "system_event list" where
  "iso_own = [iso_create ''t1'' ''a'', iso_tool ''t1'' ''w1'', E_Request ''t1'' 0 (S_Load ''t1'' []), E_Claim [''a''] (\<lambda>_. 2) ''pod'',
     E_Await ''t1'' 0 (\<lambda>_. 2) ''x'' (\<lambda>_. 2)]"

definition iso_both :: "system_event list" where
  "iso_both = [iso_create ''t1'' ''a'', iso_create ''t2'' ''b'', iso_tool ''t2'' ''w2'', iso_tool ''t1'' ''w1'',
     E_Request ''t1'' 0 (S_Load ''t1'' []),
     E_Request ''t2'' 1 (S_Load ''t2'' []), E_Claim [''a''] (\<lambda>_. 2) ''pod'', E_Update ''t2'' (\<lambda>_. 2) ''b'' ''cancelled'',
     E_Await ''t1'' 0 (\<lambda>_. 2) ''x'' (\<lambda>_. 2)]"

text \<open>
  The other tenant has a task and a job, cancels the job, has a handler in flight, and has a tool
  with the name of the tenant's.
\<close>

theorem platform_noninterference_witness:
  "fitting (system_step demo_protobuf demo_service) event_fits iso_both (iso_start [iso_task ''t2'' ''k2'', iso_task ''t1'' ''k1'']) \<and>
   fitting (system_step demo_protobuf demo_service) event_fits iso_own (iso_start [iso_task ''t1'' ''k1'']) \<and>
   system_view ''t1'' (fold (system_step demo_protobuf demo_service) iso_both
       (iso_start [iso_task ''t2'' ''k2'', iso_task ''t1'' ''k1''])) =
     system_view ''t1'' (fold (system_step demo_protobuf demo_service) iso_own (iso_start [iso_task ''t1'' ''k1''])) \<and>
   sy_sessions (fold (system_step demo_protobuf demo_service) iso_own (iso_start [iso_task ''t1'' ''k1''])) 0 =
     Some (''t1'', S_Done (Inr (A_Tasks [iso_task ''t1'' ''k1''])))"
proof -
  let ?tb = "[iso_task ''t2'' ''k2'', iso_task ''t1'' ''k1'']"
  have t: "iso_task ''t1'' ''k1'' \<noteq> iso_task ''t2'' ''k2''" by (simp add: iso_task_def)
  have both: "fitting (system_step demo_protobuf demo_service) event_fits iso_both (iso_start ?tb)"
    by (simp add: iso_both_def iso_create_def iso_tool_def iso_start_def empty_aes_db_def job_create_def Let_def insert_row_def claim_rows_def tool_create_def flush_or_conflict_def tool_key_def
        claim_values_def validate_max_attempts_def validate_max_retries_def job_update_cases guarded_update_def
        update_where_def job_matches_def overwrite_values_def)
  have own: "fitting (system_step demo_protobuf demo_service) event_fits iso_own (iso_start [iso_task ''t1'' ''k1''])"
    by (simp add: iso_own_def iso_create_def iso_tool_def iso_start_def empty_aes_db_def job_create_def Let_def insert_row_def claim_rows_def tool_create_def flush_or_conflict_def tool_key_def
        claim_values_def validate_max_attempts_def validate_max_retries_def)
  have ok: "system_ok (iso_start ?tb)" "system_ok (iso_start [iso_task ''t1'' ''k1''])"
    by (simp_all add: system_ok_def iso_start_def iso_task_def job_db_ok_def aes_db_ok_def empty_aes_db_def)
  have view: "system_view ''t1'' (iso_start ?tb) = system_view ''t1'' (iso_start [iso_task ''t1'' ''k1''])"
    by (simp add: system_view_def iso_start_def aes_view_def empty_aes_db_def select_where_def iso_task_def)
  have events: "filter (event_concerns ''t1'') iso_both = filter (event_concerns ''t1'') iso_own"
    by (simp add: iso_both_def iso_own_def iso_create_def iso_tool_def)
  have answer: "sy_sessions (fold (system_step demo_protobuf demo_service) iso_own (iso_start [iso_task ''t1'' ''k1''])) 0 =
      Some (''t1'', S_Done (Inr (A_Tasks [iso_task ''t1'' ''k1''])))"
    by (simp add: iso_own_def iso_create_def iso_tool_def iso_start_def empty_aes_db_def tool_key_def after_def local_tx_def task_load_filter iso_task_def
        tool_create_def Let_def flush_or_conflict_def insert_row_def fetch_next_def stale_rows_def terminal_statuses_def)
  show ?thesis
    using platform_noninterference [OF service_ok_demo ok both own view events] both own answer by simp
qed

end
