(* ===== verification/Grpc_Copies.thy ===== *)
theory Grpc_Copies
  imports Grpc_Services
begin

text \<open>
  The rest of the generated modules: each service that calls or serves a gRPC service has its own
  copy of the module, with the stub, the base servicer, the handler table and a class of static
  methods that open a channel for one call. \<open>Grpc_Services\<close> has the half of each copy that its
  service imports; here are the other halves, the static classes (after the service whose copy it
  is: \<open>_job\<close>, \<open>_aes\<close>, \<open>_orc\<close>, \<open>_gw\<close>) and the version check that runs when a copy is imported.
  Whichever copies the two ends of a link use, they agree.
\<close>

section \<open>Static methods\<close>

text \<open>The optional arguments of a static method; what the code passes on unread is named by strings.\<close>

record invocation =
  iv_options :: "(string \<times> string) list"
  iv_channel_credentials :: "string option"
  iv_call_credentials :: "string option"
  iv_insecure :: bool
  iv_compression :: "string option"
  iv_wait_for_ready :: "bool option"
  iv_timeout :: "int option"
  iv_metadata :: "metadata option"

text \<open>
  \<open>grpc.experimental.unary_unary\<close>, a parameter: request, target, path, serializer, deserializer,
  options, channel credentials, insecure, call credentials, compression, wait for ready, timeout
  and metadata, in this order.
\<close>

type_synonym ('s, 'm) experimental =
  "'m \<Rightarrow> string \<Rightarrow> string \<Rightarrow> string \<Rightarrow> string \<Rightarrow> (string \<times> string) list \<Rightarrow> string option \<Rightarrow> bool \<Rightarrow> string option \<Rightarrow>
   string option \<Rightarrow> bool option \<Rightarrow> int option \<Rightarrow> metadata option \<Rightarrow> ('s, rpc_error, 'm) comp"

type_synonym ('s, 'm) static_method = "'m \<Rightarrow> string \<Rightarrow> invocation \<Rightarrow> ('s, rpc_error, 'm) comp"

definition static_call :: "('s, 'm) experimental \<Rightarrow> rpc_method \<Rightarrow> ('s, 'm) static_method" where
  "static_call unary m request target iv =
     unary request target (mt_path m) (mt_request m) (mt_response m) (iv_options iv) (iv_channel_credentials iv)
       (iv_insecure iv) (iv_call_credentials iv) (iv_compression iv) (iv_wait_for_ready iv) (iv_timeout iv) (iv_metadata iv)"

text \<open>What the library documents: over an insecure channel to the target, the call of a stub.\<close>

definition experimental_ok :: "('m, 'b) wire \<Rightarrow> (string \<Rightarrow> ('s, 'm) handlers list) \<Rightarrow> ('s, 'm) experimental \<Rightarrow> bool" where
  "experimental_ok wire servers unary \<longleftrightarrow>
     (\<forall>request target path serializer deserializer options compression wait timeout mdata.
        unary request target path serializer deserializer options None True None compression wait timeout mdata =
          unary_unary wire (servers target) \<lparr>mt_path = path, mt_request = serializer, mt_response = deserializer\<rparr>
            (case mdata of None \<Rightarrow> [] | Some md \<Rightarrow> md) request)"

section \<open>The job service\<close>

definition JobServiceStub_job :: "(string \<times> rpc_method) list" where
  "JobServiceStub_job =
     [(''CreateJob'', \<lparr>mt_path = ''/aep.job.v1.JobService/CreateJob'',
        mt_request = ''CreateJobRequest'', mt_response = ''CreateJobResponse''\<rparr>),
      (''GetJob'', \<lparr>mt_path = ''/aep.job.v1.JobService/GetJob'',
        mt_request = ''GetJobRequest'', mt_response = ''GetJobResponse''\<rparr>),
      (''UpdateJob'', \<lparr>mt_path = ''/aep.job.v1.JobService/UpdateJob'',
        mt_request = ''UpdateJobRequest'', mt_response = ''UpdateJobResponse''\<rparr>),
      (''RetryJob'', \<lparr>mt_path = ''/aep.job.v1.JobService/RetryJob'',
        mt_request = ''RetryJobRequest'', mt_response = ''RetryJobResponse''\<rparr>)]"

definition JobServiceServicer_aes :: "(string \<times> ('s, 'm) behaviour) list" where
  "JobServiceServicer_aes =
     [(''CreateJob'', unimplemented), (''GetJob'', unimplemented), (''UpdateJob'', unimplemented),
      (''RetryJob'', unimplemented)]"

definition add_JobServiceServicer_to_server_aes :: "('s, 'm) servicer \<Rightarrow> ('s, 'm) handlers" where
  "add_JobServiceServicer_to_server_aes servicer =
     (''aep.job.v1.JobService'',
      [(''CreateJob'', \<lparr>hd_behaviour = servicer ''CreateJob'',
         hd_request = ''CreateJobRequest'', hd_response = ''CreateJobResponse''\<rparr>),
       (''GetJob'', \<lparr>hd_behaviour = servicer ''GetJob'',
         hd_request = ''GetJobRequest'', hd_response = ''GetJobResponse''\<rparr>),
       (''UpdateJob'', \<lparr>hd_behaviour = servicer ''UpdateJob'',
         hd_request = ''UpdateJobRequest'', hd_response = ''UpdateJobResponse''\<rparr>),
       (''RetryJob'', \<lparr>hd_behaviour = servicer ''RetryJob'',
         hd_request = ''RetryJobRequest'', hd_response = ''RetryJobResponse''\<rparr>)])"

definition JobService_job :: "('s, 'm) experimental \<Rightarrow> (string \<times> ('s, 'm) static_method) list" where
  "JobService_job unary =
     [(''CreateJob'', static_call unary \<lparr>mt_path = ''/aep.job.v1.JobService/CreateJob'',
        mt_request = ''CreateJobRequest'', mt_response = ''CreateJobResponse''\<rparr>),
      (''GetJob'', static_call unary \<lparr>mt_path = ''/aep.job.v1.JobService/GetJob'',
        mt_request = ''GetJobRequest'', mt_response = ''GetJobResponse''\<rparr>),
      (''UpdateJob'', static_call unary \<lparr>mt_path = ''/aep.job.v1.JobService/UpdateJob'',
        mt_request = ''UpdateJobRequest'', mt_response = ''UpdateJobResponse''\<rparr>),
      (''RetryJob'', static_call unary \<lparr>mt_path = ''/aep.job.v1.JobService/RetryJob'',
        mt_request = ''RetryJobRequest'', mt_response = ''RetryJobResponse''\<rparr>)]"

definition JobService_aes :: "('s, 'm) experimental \<Rightarrow> (string \<times> ('s, 'm) static_method) list" where
  "JobService_aes unary =
     [(''CreateJob'', static_call unary \<lparr>mt_path = ''/aep.job.v1.JobService/CreateJob'',
        mt_request = ''CreateJobRequest'', mt_response = ''CreateJobResponse''\<rparr>),
      (''GetJob'', static_call unary \<lparr>mt_path = ''/aep.job.v1.JobService/GetJob'',
        mt_request = ''GetJobRequest'', mt_response = ''GetJobResponse''\<rparr>),
      (''UpdateJob'', static_call unary \<lparr>mt_path = ''/aep.job.v1.JobService/UpdateJob'',
        mt_request = ''UpdateJobRequest'', mt_response = ''UpdateJobResponse''\<rparr>),
      (''RetryJob'', static_call unary \<lparr>mt_path = ''/aep.job.v1.JobService/RetryJob'',
        mt_request = ''RetryJobRequest'', mt_response = ''RetryJobResponse''\<rparr>)]"

section \<open>The orchestrator service\<close>

definition OrchestratorServiceStub_orc :: "(string \<times> rpc_method) list" where
  "OrchestratorServiceStub_orc =
     [(''Chat'', \<lparr>mt_path = ''/aep.orchestrator.v1.OrchestratorService/Chat'',
        mt_request = ''ChatRequest'', mt_response = ''ChatResponse''\<rparr>)]"

definition OrchestratorServiceServicer_job :: "(string \<times> ('s, 'm) behaviour) list" where
  "OrchestratorServiceServicer_job =
     [(''Chat'', unimplemented)]"

definition add_OrchestratorServiceServicer_to_server_job :: "('s, 'm) servicer \<Rightarrow> ('s, 'm) handlers" where
  "add_OrchestratorServiceServicer_to_server_job servicer =
     (''aep.orchestrator.v1.OrchestratorService'',
      [(''Chat'', \<lparr>hd_behaviour = servicer ''Chat'',
         hd_request = ''ChatRequest'', hd_response = ''ChatResponse''\<rparr>)])"

definition OrchestratorService_orc :: "('s, 'm) experimental \<Rightarrow> (string \<times> ('s, 'm) static_method) list" where
  "OrchestratorService_orc unary =
     [(''Chat'', static_call unary \<lparr>mt_path = ''/aep.orchestrator.v1.OrchestratorService/Chat'',
        mt_request = ''ChatRequest'', mt_response = ''ChatResponse''\<rparr>)]"

definition OrchestratorService_job :: "('s, 'm) experimental \<Rightarrow> (string \<times> ('s, 'm) static_method) list" where
  "OrchestratorService_job unary =
     [(''Chat'', static_call unary \<lparr>mt_path = ''/aep.orchestrator.v1.OrchestratorService/Chat'',
        mt_request = ''ChatRequest'', mt_response = ''ChatResponse''\<rparr>)]"

section \<open>The gateway service\<close>

definition GatewayServiceStub_gw :: "(string \<times> rpc_method) list" where
  "GatewayServiceStub_gw =
     [(''Chat'', \<lparr>mt_path = ''/aep.gateway.v1.GatewayService/Chat'',
        mt_request = ''ChatRequest'', mt_response = ''ChatResponse''\<rparr>)]"

definition GatewayServiceServicer_orc :: "(string \<times> ('s, 'm) behaviour) list" where
  "GatewayServiceServicer_orc =
     [(''Chat'', unimplemented)]"

definition add_GatewayServiceServicer_to_server_orc :: "('s, 'm) servicer \<Rightarrow> ('s, 'm) handlers" where
  "add_GatewayServiceServicer_to_server_orc servicer =
     (''aep.gateway.v1.GatewayService'',
      [(''Chat'', \<lparr>hd_behaviour = servicer ''Chat'',
         hd_request = ''ChatRequest'', hd_response = ''ChatResponse''\<rparr>)])"

definition GatewayService_gw :: "('s, 'm) experimental \<Rightarrow> (string \<times> ('s, 'm) static_method) list" where
  "GatewayService_gw unary =
     [(''Chat'', static_call unary \<lparr>mt_path = ''/aep.gateway.v1.GatewayService/Chat'',
        mt_request = ''ChatRequest'', mt_response = ''ChatResponse''\<rparr>)]"

definition GatewayService_orc :: "('s, 'm) experimental \<Rightarrow> (string \<times> ('s, 'm) static_method) list" where
  "GatewayService_orc unary =
     [(''Chat'', static_call unary \<lparr>mt_path = ''/aep.gateway.v1.GatewayService/Chat'',
        mt_request = ''ChatRequest'', mt_response = ''ChatResponse''\<rparr>)]"

section \<open>The agent execution service\<close>

definition AgentExecutionService_CreateTool :: "('s, 'm) experimental \<Rightarrow> ('s, 'm) static_method" where
  "AgentExecutionService_CreateTool unary = static_call unary \<lparr>mt_path = ''/aep.agent_execution.v1.AgentExecutionService/CreateTool'',
     mt_request = ''CreateToolRequest'', mt_response = ''CreateToolResponse''\<rparr>"

definition AgentExecutionService_GetTool :: "('s, 'm) experimental \<Rightarrow> ('s, 'm) static_method" where
  "AgentExecutionService_GetTool unary = static_call unary \<lparr>mt_path = ''/aep.agent_execution.v1.AgentExecutionService/GetTool'',
     mt_request = ''GetToolRequest'', mt_response = ''GetToolResponse''\<rparr>"

definition AgentExecutionService_UpdateTool :: "('s, 'm) experimental \<Rightarrow> ('s, 'm) static_method" where
  "AgentExecutionService_UpdateTool unary = static_call unary \<lparr>mt_path = ''/aep.agent_execution.v1.AgentExecutionService/UpdateTool'',
     mt_request = ''UpdateToolRequest'', mt_response = ''UpdateToolResponse''\<rparr>"

definition AgentExecutionService_DeleteTool :: "('s, 'm) experimental \<Rightarrow> ('s, 'm) static_method" where
  "AgentExecutionService_DeleteTool unary = static_call unary \<lparr>mt_path = ''/aep.agent_execution.v1.AgentExecutionService/DeleteTool'',
     mt_request = ''DeleteToolRequest'', mt_response = ''DeleteToolResponse''\<rparr>"

definition AgentExecutionService_CreateAgent :: "('s, 'm) experimental \<Rightarrow> ('s, 'm) static_method" where
  "AgentExecutionService_CreateAgent unary = static_call unary \<lparr>mt_path = ''/aep.agent_execution.v1.AgentExecutionService/CreateAgent'',
     mt_request = ''CreateAgentRequest'', mt_response = ''CreateAgentResponse''\<rparr>"

definition AgentExecutionService_GetAgent :: "('s, 'm) experimental \<Rightarrow> ('s, 'm) static_method" where
  "AgentExecutionService_GetAgent unary = static_call unary \<lparr>mt_path = ''/aep.agent_execution.v1.AgentExecutionService/GetAgent'',
     mt_request = ''GetAgentRequest'', mt_response = ''GetAgentResponse''\<rparr>"

definition AgentExecutionService_UpdateAgent :: "('s, 'm) experimental \<Rightarrow> ('s, 'm) static_method" where
  "AgentExecutionService_UpdateAgent unary = static_call unary \<lparr>mt_path = ''/aep.agent_execution.v1.AgentExecutionService/UpdateAgent'',
     mt_request = ''UpdateAgentRequest'', mt_response = ''UpdateAgentResponse''\<rparr>"

definition AgentExecutionService_DeleteAgent :: "('s, 'm) experimental \<Rightarrow> ('s, 'm) static_method" where
  "AgentExecutionService_DeleteAgent unary = static_call unary \<lparr>mt_path = ''/aep.agent_execution.v1.AgentExecutionService/DeleteAgent'',
     mt_request = ''DeleteAgentRequest'', mt_response = ''DeleteAgentResponse''\<rparr>"

definition AgentExecutionService_CreateTask :: "('s, 'm) experimental \<Rightarrow> ('s, 'm) static_method" where
  "AgentExecutionService_CreateTask unary = static_call unary \<lparr>mt_path = ''/aep.agent_execution.v1.AgentExecutionService/CreateTask'',
     mt_request = ''CreateTaskRequest'', mt_response = ''CreateTaskResponse''\<rparr>"

definition AgentExecutionService_GetTask :: "('s, 'm) experimental \<Rightarrow> ('s, 'm) static_method" where
  "AgentExecutionService_GetTask unary = static_call unary \<lparr>mt_path = ''/aep.agent_execution.v1.AgentExecutionService/GetTask'',
     mt_request = ''GetTaskRequest'', mt_response = ''GetTaskResponse''\<rparr>"

definition AgentExecutionService_ApproveTask :: "('s, 'm) experimental \<Rightarrow> ('s, 'm) static_method" where
  "AgentExecutionService_ApproveTask unary = static_call unary \<lparr>mt_path = ''/aep.agent_execution.v1.AgentExecutionService/ApproveTask'',
     mt_request = ''ApproveTaskRequest'', mt_response = ''ApproveTaskResponse''\<rparr>"

definition AgentExecutionService_RetryTask :: "('s, 'm) experimental \<Rightarrow> ('s, 'm) static_method" where
  "AgentExecutionService_RetryTask unary = static_call unary \<lparr>mt_path = ''/aep.agent_execution.v1.AgentExecutionService/RetryTask'',
     mt_request = ''RetryTaskRequest'', mt_response = ''RetryTaskResponse''\<rparr>"

definition AgentExecutionService_GetTaskProgress :: "('s, 'm) experimental \<Rightarrow> ('s, 'm) static_method" where
  "AgentExecutionService_GetTaskProgress unary = static_call unary \<lparr>mt_path = ''/aep.agent_execution.v1.AgentExecutionService/GetTaskProgress'',
     mt_request = ''GetTaskProgressRequest'', mt_response = ''GetTaskProgressResponse''\<rparr>"

definition AgentExecutionService :: "('s, 'm) experimental \<Rightarrow> (string \<times> ('s, 'm) static_method) list" where
  "AgentExecutionService unary =
     [(''CreateTool'', AgentExecutionService_CreateTool unary),
      (''GetTool'', AgentExecutionService_GetTool unary),
      (''UpdateTool'', AgentExecutionService_UpdateTool unary),
      (''DeleteTool'', AgentExecutionService_DeleteTool unary),
      (''CreateAgent'', AgentExecutionService_CreateAgent unary),
      (''GetAgent'', AgentExecutionService_GetAgent unary),
      (''UpdateAgent'', AgentExecutionService_UpdateAgent unary),
      (''DeleteAgent'', AgentExecutionService_DeleteAgent unary),
      (''CreateTask'', AgentExecutionService_CreateTask unary),
      (''GetTask'', AgentExecutionService_GetTask unary),
      (''ApproveTask'', AgentExecutionService_ApproveTask unary),
      (''RetryTask'', AgentExecutionService_RetryTask unary),
      (''GetTaskProgress'', AgentExecutionService_GetTaskProgress unary)]"

section \<open>The version check\<close>

text \<open>
  \<open>lower\<close> is \<open>grpc._utilities.first_version_is_lower\<close>, \<open>None\<close> where the installed package has no
  such function; a refused import raises \<open>RuntimeError\<close> with the message.
\<close>

definition version_check ::
    "string \<Rightarrow> string \<Rightarrow> (string \<Rightarrow> string \<Rightarrow> bool) option \<Rightarrow> string \<Rightarrow> string + unit" where
  "version_check file generated lower installed =
     (if (case lower of None \<Rightarrow> True | Some f \<Rightarrow> f installed generated)
      then Inl (''The grpc package installed is at version '' @ installed @ '','' @
        '' but the generated code in '' @ file @ '' depends on'' @
        '' grpcio>='' @ generated @ ''.'' @
        '' Please upgrade your grpc module to grpcio>='' @ generated @
        '' or downgrade your generated code using grpcio-tools<='' @ installed @ ''.'')
      else Inr ())"

type_synonym import_check = "(string \<Rightarrow> string \<Rightarrow> bool) option \<Rightarrow> string \<Rightarrow> string + unit"

definition import_aes_agent_execution :: import_check where
  "import_aes_agent_execution = version_check ''aep/agent_execution/v1/service_pb2_grpc.py'' ''1.83.1''"

definition import_aes_job :: import_check where
  "import_aes_job = version_check ''aep/job/v1/service_pb2_grpc.py'' ''1.83.1''"

definition import_job_job :: import_check where
  "import_job_job = version_check ''aep/job/v1/service_pb2_grpc.py'' ''1.83.1''"

definition import_job_orchestrator :: import_check where
  "import_job_orchestrator = version_check ''aep/orchestrator/v1/service_pb2_grpc.py'' ''1.83.1''"

definition import_orc_orchestrator :: import_check where
  "import_orc_orchestrator = version_check ''aep/orchestrator/v1/service_pb2_grpc.py'' ''1.69.0''"

definition import_orc_gateway :: import_check where
  "import_orc_gateway = version_check ''aep/gateway/v1/service_pb2_grpc.py'' ''1.69.0''"

definition import_gw_gateway :: import_check where
  "import_gw_gateway = version_check ''aep/gateway/v1/service_pb2_grpc.py'' ''1.83.1''"

lemmas import_defs = version_check_def import_aes_agent_execution_def import_aes_job_def import_job_job_def import_job_orchestrator_def import_orc_orchestrator_def import_orc_gateway_def import_gw_gateway_def

text \<open>
  The locked version 1.83.1 passes in every service. Version 1.75.0, which the requirement
  \<open>grpcio>=1.75\<close> of the four gRPC services allows, passes in the orchestrator, and makes the import of every
  generated module of the other services raise; so does a package without the comparison.
\<close>

lemma locked_grpc_passes:
  assumes "\<not> lower ''1.83.1'' ''1.83.1''" and "\<not> lower ''1.83.1'' ''1.69.0''"
    and "check \<in> {import_aes_agent_execution, import_aes_job, import_job_job, import_job_orchestrator,
      import_orc_orchestrator, import_orc_gateway, import_gw_gateway}"
  shows "check (Some lower) ''1.83.1'' = Inr ()"
  using assms by (auto simp: import_defs)

lemma allowed_grpc_refused:
  assumes "lower ''1.75.0'' ''1.83.1''" and "\<not> lower ''1.75.0'' ''1.69.0''"
    and "check \<in> {import_aes_agent_execution, import_aes_job, import_job_job, import_job_orchestrator, import_gw_gateway}"
  shows "\<not> isl (import_orc_orchestrator (Some lower) ''1.75.0'') \<and> \<not> isl (import_orc_gateway (Some lower) ''1.75.0'') \<and>
    isl (check (Some lower) ''1.75.0'')"
  using assms by (auto simp: import_defs)

lemma no_comparison_refused:
  "check \<in> {import_aes_agent_execution, import_aes_job, import_job_job, import_job_orchestrator,
      import_orc_orchestrator, import_orc_gateway, import_gw_gateway} \<Longrightarrow> isl (check None installed)"
  by (auto simp: import_defs)

section \<open>All copies agree\<close>

text \<open>Every choice of the copy of the stub, of the server's half and of the static class.\<close>

type_synonym ('s, 'm) copy =
  "(string \<times> rpc_method) list \<times> string list \<times> (('s, 'm) servicer \<Rightarrow> ('s, 'm) handlers) \<times>
   (('s, 'm) experimental \<Rightarrow> (string \<times> ('s, 'm) static_method) list)"

definition method_names :: "(string \<times> (unit, unit) behaviour) list \<Rightarrow> string list" where
  "method_names = map fst"

definition generated_copies :: "('s, 'm) copy list" where
  "generated_copies =
     [(stub, method_names base, add, static).
        stub \<leftarrow> [JobServiceStub, JobServiceStub_job],
        base \<leftarrow> [JobServiceServicer, JobServiceServicer_aes],
        add \<leftarrow> [add_JobServiceServicer_to_server, add_JobServiceServicer_to_server_aes],
        static \<leftarrow> [JobService_job, JobService_aes]] @
     [(stub, method_names base, add, static).
        stub \<leftarrow> [OrchestratorServiceStub, OrchestratorServiceStub_orc],
        base \<leftarrow> [OrchestratorServiceServicer, OrchestratorServiceServicer_job],
        add \<leftarrow> [add_OrchestratorServiceServicer_to_server, add_OrchestratorServiceServicer_to_server_job],
        static \<leftarrow> [OrchestratorService_orc, OrchestratorService_job]] @
     [(stub, method_names base, add, static).
        stub \<leftarrow> [GatewayServiceStub, GatewayServiceStub_gw],
        base \<leftarrow> [GatewayServiceServicer, GatewayServiceServicer_orc],
        add \<leftarrow> [add_GatewayServiceServicer_to_server, add_GatewayServiceServicer_to_server_orc],
        static \<leftarrow> [GatewayService_gw, GatewayService_orc]] @
     [(AgentExecutionServiceStub, method_names AgentExecutionServiceServicer,
       add_AgentExecutionServiceServicer_to_server, AgentExecutionService)]"

lemma same_stubs:
  "JobServiceStub_job = JobServiceStub" "OrchestratorServiceStub_orc = OrchestratorServiceStub"
  "GatewayServiceStub_gw = GatewayServiceStub"
  by (simp_all only: JobServiceStub_job_def JobServiceStub_def OrchestratorServiceStub_orc_def
      OrchestratorServiceStub_def GatewayServiceStub_gw_def GatewayServiceStub_def)

lemma same_servicers:
  "JobServiceServicer_aes = JobServiceServicer" "OrchestratorServiceServicer_job = OrchestratorServiceServicer"
  "GatewayServiceServicer_orc = GatewayServiceServicer"
  by (simp_all only: JobServiceServicer_aes_def JobServiceServicer_def OrchestratorServiceServicer_job_def
      OrchestratorServiceServicer_def GatewayServiceServicer_orc_def GatewayServiceServicer_def)

lemma same_tables:
  "add_JobServiceServicer_to_server_aes = add_JobServiceServicer_to_server"
  "add_OrchestratorServiceServicer_to_server_job = add_OrchestratorServiceServicer_to_server"
  "add_GatewayServiceServicer_to_server_orc = add_GatewayServiceServicer_to_server"
  by (simp_all add: fun_eq_iff add_JobServiceServicer_to_server_aes_def add_JobServiceServicer_to_server_def
      add_OrchestratorServiceServicer_to_server_job_def add_OrchestratorServiceServicer_to_server_def
      add_GatewayServiceServicer_to_server_orc_def add_GatewayServiceServicer_to_server_def)

text \<open>A static class has the methods of the stub.\<close>

definition static_of :: "(string \<times> rpc_method) list \<Rightarrow> ('s, 'm) experimental \<Rightarrow> (string \<times> ('s, 'm) static_method) list" where
  "static_of stub unary = map (\<lambda>(name, m). (name, static_call unary m)) stub"

lemma statics:
  "JobService_job = static_of JobServiceStub" "JobService_aes = static_of JobServiceStub"
  "OrchestratorService_orc = static_of OrchestratorServiceStub" "OrchestratorService_job = static_of OrchestratorServiceStub"
  "GatewayService_gw = static_of GatewayServiceStub" "GatewayService_orc = static_of GatewayServiceStub"
  "AgentExecutionService = static_of AgentExecutionServiceStub"
  by (simp_all add: fun_eq_iff static_of_def JobService_job_def JobService_aes_def JobServiceStub_def
      OrchestratorService_orc_def OrchestratorService_job_def OrchestratorServiceStub_def
      GatewayService_gw_def GatewayService_orc_def GatewayServiceStub_def
      AgentExecutionService_def AgentExecutionServiceStub_def
      AgentExecutionService_CreateTool_def AgentExecutionService_GetTool_def AgentExecutionService_UpdateTool_def
      AgentExecutionService_DeleteTool_def AgentExecutionService_CreateAgent_def AgentExecutionService_GetAgent_def
      AgentExecutionService_UpdateAgent_def AgentExecutionService_DeleteAgent_def AgentExecutionService_CreateTask_def
      AgentExecutionService_GetTask_def AgentExecutionService_ApproveTask_def AgentExecutionService_RetryTask_def
      AgentExecutionService_GetTaskProgress_def)

lemma copy_link:
  assumes "(stub, names, add, static) \<in> set generated_copies"
  shows "(stub, add, names) \<in> set links \<and> static = static_of stub"
  using assms
  by (simp add: generated_copies_def links_def same_stubs same_servicers same_tables statics method_names_def) blast

lemma static_call_insecure:
  assumes "experimental_ok wire servers unary"
    and "iv_insecure iv" "iv_channel_credentials iv = None" "iv_call_credentials iv = None"
  shows "static_call unary m request target iv =
    unary_unary wire (servers target) m (case iv_metadata iv of None \<Rightarrow> [] | Some md \<Rightarrow> md) request"
  using assms by (cases m) (simp add: static_call_def experimental_ok_def)

text \<open>C30. The generated modules agree, whichever copies the two ends of a link use: each method of the
  stub reaches, over a channel to a server with the handler table, the servicer's method of the
  same name with the request sent, and brings its response or its status back; the static class
  has the same methods, and a call of one with an insecure channel to the server's address does the
  same with its metadata; the stub, the base servicer, the table and the static class have the same
  methods; and the stub of \<open>JobClient\<close> connected to \<open>JobServicer\<close> in this way is the stub the model
  of \<open>agent_execution_service\<close> is built on.\<close>

theorem generated_code_agrees:
  fixes servicer :: "('s, 'm) servicer"
  assumes "parses_back wire" and "parses_back jobs_wire" and "experimental_ok wire servers unary"
    and "(stub, names, add, static) \<in> set generated_copies" and "(name, m) \<in> set stub"
    and "servers target = [add servicer]"
    and "iv_insecure iv" "iv_channel_credentials iv = None" "iv_call_credentials iv = None"
  shows "unary_unary wire [add servicer] m = servicer name \<and>
    (name, static_call unary m) \<in> set (static unary) \<and>
    static_call unary m request target iv = servicer name (case iv_metadata iv of None \<Rightarrow> [] | Some md \<Rightarrow> md) request \<and>
    map fst stub = names \<and> map fst (snd (add servicer)) = names \<and> map fst (static unary) = names \<and>
    wire_job_stub jobs_wire [add_JobServiceServicer_to_server (JobServicer pb svc fresh now)] = job_svc_stub pb svc fresh now"
proof -
  have link: "(stub, add, names) \<in> set links" and static: "static = static_of stub"
    using copy_link [OF assms(4)] by blast+
  note agree = generated_stubs_agree [OF assms(1,2) link assms(5), of servicer pb svc fresh now]
  have "map fst (static unary) = map fst stub" by (simp add: static static_of_def split_beta o_def)
  moreover have "(name, static_call unary m) \<in> set (static unary)"
    using assms(5) by (force simp: static static_of_def)
  ultimately show ?thesis
    using agree static_call_insecure [OF assms(3,7-9), of m request target] assms(6) by simp
qed

definition plain_call :: "invocation" where
  "plain_call = \<lparr>iv_options = [], iv_channel_credentials = None, iv_call_credentials = None, iv_insecure = True,
     iv_compression = None, iv_wait_for_ready = None, iv_timeout = None, iv_metadata = Some [(''x-tenant-id'', ''t1'')]\<rparr>"

definition echo_servicer :: "(nat, string) servicer" where
  "echo_servicer name mdata m = returnS (name @ m @ snd (hd mdata))"

definition echo_servers :: "string \<Rightarrow> (nat, string) handlers list" where
  "echo_servers target = [add_GatewayServiceServicer_to_server_orc echo_servicer]"

definition plain_unary :: "(nat, string) experimental" where
  "plain_unary request target path serializer deserializer options cc insecure call compression wait timeout mdata =
     unary_unary plain_wire (echo_servers target) \<lparr>mt_path = path, mt_request = serializer, mt_response = deserializer\<rparr>
       (case mdata of None \<Rightarrow> [] | Some md \<Rightarrow> md) request"

theorem generated_code_agrees_witness:
  "static_call plain_unary (snd (hd GatewayServiceStub_gw)) ''!'' ''gateway:50053'' plain_call 0 = (Inr ''Chat!t1'', 0)"
proof -
  have plain: "parses_back (plain_wire :: (string, string) wire)" "parses_back (plain_wire :: (job_message, job_message) wire)"
    by (simp_all add: parses_back_def plain_wire_def)
  have unary: "experimental_ok plain_wire echo_servers plain_unary" by (simp add: experimental_ok_def plain_unary_def)
  have copy: "(GatewayServiceStub_gw, method_names GatewayServiceServicer, add_GatewayServiceServicer_to_server_orc ::
      (nat, string) servicer \<Rightarrow> (nat, string) handlers, GatewayService_orc) \<in> set generated_copies"
    by (simp add: generated_copies_def)
  have m: "(''Chat'', snd (hd GatewayServiceStub_gw)) \<in> set GatewayServiceStub_gw" by (simp add: GatewayServiceStub_gw_def)
  have servers: "echo_servers ''gateway:50053'' = [add_GatewayServiceServicer_to_server_orc echo_servicer]"
    by (simp add: echo_servers_def)
  have iv: "iv_insecure plain_call" "iv_channel_credentials plain_call = None" "iv_call_credentials plain_call = None"
    "iv_metadata plain_call = Some [(''x-tenant-id'', ''t1'')]"
    by (simp_all add: plain_call_def)
  from generated_code_agrees [OF plain unary copy m servers iv(1-3), of "''!''"]
  show ?thesis by (simp add: iv(4) echo_servicer_def returnS_def)
qed

end
