(* ===== verification/Orc_Session.thy ===== *)
theory Orc_Session
  imports Processes
begin

text \<open>
  The session the workbench of the orchestrator opens for each listing of tools and each
  call (\<open>_mcp_session\<close> in \<open>mcp_workbench.py\<close>): an HTTP client that carries the tenant, a transport to
  the configured URL, a client session that is initialized, and the two context managers left again
  in reverse order. Each step may raise, depending on all that was done before.
\<close>

datatype session_event =
    Se_Client "metadata"
  | Se_Transport string
  | Se_Session
  | Se_Initialize
  | Se_Use string
  | Se_Leave_Session
  | Se_Leave_Transport

type_synonym session_world = "session_event list \<Rightarrow> session_event \<Rightarrow> string option"

type_synonym session_log = "(session_event list, string, unit) comp"

text \<open>\<open>async with\<close>: the manager is left whatever the body raises, and an exception on leaving wins.\<close>

definition async_with :: "session_world \<Rightarrow> session_event \<Rightarrow> session_event \<Rightarrow> session_log \<Rightarrow> session_log" where
  "async_with w enter leave body = bindS (act w enter) (\<lambda>_. finallyS body (act w leave))"

definition with_mcp_session :: "session_world \<Rightarrow> string \<Rightarrow> string \<Rightarrow> session_log \<Rightarrow> session_log" where
  "with_mcp_session w url tenant_id body =
     bindS (act w (Se_Client [(''x-tenant-id'', tenant_id)])) (\<lambda>_.
     async_with w (Se_Transport url) Se_Leave_Transport
       (async_with w Se_Session Se_Leave_Session
         (bindS (act w Se_Initialize) (\<lambda>_. body))))"

text \<open>The requests of one session, in order, up to the first that raises.\<close>

fun uses :: "session_world \<Rightarrow> string list \<Rightarrow> session_log" where
  "uses w [] = returnS ()"
| "uses w (n # ns) = bindS (act w (Se_Use n)) (\<lambda>_. uses w ns)"

lemma act_cases: "act w e l = (if w l e = None then (Inr (), l @ [e]) else (Inl (the (w l e)), l))"
  by (simp add: act_def split: option.split)

lemma uses_log:
  "\<exists>k r. uses w ns l = (r, l @ map Se_Use (take k ns)) \<and> (r = Inr () \<longrightarrow> length ns \<le> k)"
proof (induction ns arbitrary: l)
  case (Cons n ns)
  show ?case
  proof (cases "w l (Se_Use n) = None")
    case True
    obtain k r where "uses w ns (l @ [Se_Use n]) = (r, (l @ [Se_Use n]) @ map Se_Use (take k ns)) \<and>
        (r = Inr () \<longrightarrow> length ns \<le> k)"
      using Cons.IH by blast
    with True show ?thesis by (intro exI [of _ "Suc k"] exI [of _ r]) (simp add: act_cases bindS_def)
  next
    case False
    then show ?thesis by (auto simp: act_cases bindS_def intro!: exI [of _ 0])
  qed
qed (simp add: returnS_def)

text \<open>
  A session: its requests carry the tenant of the turn to the configured URL, are made only after
  the session is initialized, and the session is left before the transport; when nothing raises on
  leaving, both are left if they were entered, and an error is the first one raised.
\<close>

definition session_prelude :: "string \<Rightarrow> string \<Rightarrow> session_event list" where
  "session_prelude url tenant_id = [Se_Client [(''x-tenant-id'', tenant_id)], Se_Transport url, Se_Session, Se_Initialize]"

theorem session_is_bracketed:
  assumes "\<And>l. w l Se_Leave_Session = None" and "\<And>l. w l Se_Leave_Transport = None"
  shows "\<exists>k. snd (with_mcp_session w url t (uses w ns) []) \<in>
     {[], [Se_Client [(''x-tenant-id'', t)]],
      [Se_Client [(''x-tenant-id'', t)], Se_Transport url, Se_Leave_Transport],
      [Se_Client [(''x-tenant-id'', t)], Se_Transport url, Se_Session, Se_Leave_Session, Se_Leave_Transport],
      session_prelude url t @ map Se_Use (take k ns) @ [Se_Leave_Session, Se_Leave_Transport]} \<and>
    (fst (with_mcp_session w url t (uses w ns) []) = Inr () \<longrightarrow>
       snd (with_mcp_session w url t (uses w ns) []) =
         session_prelude url t @ map Se_Use ns @ [Se_Leave_Session, Se_Leave_Transport])"
proof -
  obtain k r where uses: "uses w ns (session_prelude url t) = (r, session_prelude url t @ map Se_Use (take k ns))"
    and all: "r = Inr () \<longrightarrow> length ns \<le> k"
    using uses_log by blast
  show ?thesis
    using uses all
    by (intro exI [of _ k])
      (auto simp: with_mcp_session_def async_with_def finallyS_def act_cases bindS_def assms session_prelude_def)
qed

end
