(* ===== verification/Schema.thy ===== *)
theory Schema
  imports Aes_Model Job_Model
begin

text \<open>
  The tables as the \<open>models.py\<close> of each service declares them to SQLAlchemy, and their creation
  (\<open>init_models\<close> in \<open>db.py\<close>). \<open>agent_execution_service\<close> and \<open>job_svc\<close> create theirs; the
  orchestrator and \<open>mcp_svc\<close> only read tables of the former through declarations of their own,
  which the comments call mirrors. They are: what a reader declares exists once the writer has
  started, and every row the writer stores reads back through it with the declared types.
\<close>

section \<open>Columns and tables\<close>

datatype column_type = C_Text | C_Integer | C_Float | C_Boolean | C_Timestamp | C_Json

datatype column_default = D_New_Id | D_Now | D_Text string | D_Integer int | D_Boolean bool | D_Dict | D_None

record column =
  co_name :: string
  co_type :: column_type
  co_nullable :: bool
  co_primary :: bool
  co_index :: bool
  co_references :: "(string \<times> string) option"
  co_cascade :: bool
  co_default :: "column_default option"
  co_onupdate :: "column_default option"

record sql_table =
  sc_name :: string
  sc_columns :: "column list"
  sc_unique :: "string list list"

definition plain :: "string \<Rightarrow> column_type \<Rightarrow> column" where
  "plain name ty = \<lparr>co_name = name, co_type = ty, co_nullable = False, co_primary = False, co_index = False,
     co_references = None, co_cascade = False, co_default = None, co_onupdate = None\<rparr>"

text \<open>\<open>mapped_column(primary_key=True)\<close>, \<open>index=True\<close>, \<open>ForeignKey\<close>, \<open>default\<close>.\<close>

definition primary :: "column \<Rightarrow> column" where "primary c = c\<lparr>co_primary := True\<rparr>"
definition indexed :: "column \<Rightarrow> column" where "indexed c = c\<lparr>co_index := True\<rparr>"
definition nullable :: "column \<Rightarrow> column" where "nullable c = c\<lparr>co_nullable := True\<rparr>"
definition references :: "string \<times> string \<Rightarrow> bool \<Rightarrow> column \<Rightarrow> column" where
  "references target cascade c = c\<lparr>co_references := Some target, co_cascade := cascade\<rparr>"
definition defaults :: "column_default \<Rightarrow> column \<Rightarrow> column" where "defaults d c = c\<lparr>co_default := Some d\<rparr>"
definition on_update :: "column_default \<Rightarrow> column \<Rightarrow> column" where "on_update d c = c\<lparr>co_onupdate := Some d\<rparr>"

lemmas column_defs = plain_def primary_def indexed_def nullable_def references_def defaults_def on_update_def

section \<open>The declarations\<close>

subsection \<open>\<open>agent_execution_service\<close>\<close>

definition AgentRow_aes :: sql_table where
  "AgentRow_aes = \<lparr>sc_name = ''agents'', sc_columns =
     [primary (defaults D_New_Id (plain ''id'' C_Text)), indexed (plain ''tenant_id'' C_Text), plain ''name'' C_Text,
      plain ''instructions'' C_Text, plain ''llm_config_name'' C_Text, plain ''llm_config_temperature'' C_Float,
      defaults (D_Integer 1) (plain ''version'' C_Integer), defaults D_Now (plain ''created_at'' C_Timestamp),
      on_update D_Now (defaults D_Now (plain ''updated_at'' C_Timestamp))],
     sc_unique = []\<rparr>"

definition ToolRow_aes :: sql_table where
  "ToolRow_aes = \<lparr>sc_name = ''tools'', sc_columns =
     [primary (defaults D_New_Id (plain ''id'' C_Text)), indexed (plain ''tenant_id'' C_Text), plain ''name'' C_Text,
      nullable (plain ''description'' C_Text), defaults (D_Boolean False) (plain ''mutating'' C_Boolean),
      defaults (D_Integer 1) (plain ''version'' C_Integer), defaults D_Now (plain ''created_at'' C_Timestamp),
      on_update D_Now (defaults D_Now (plain ''updated_at'' C_Timestamp))],
     sc_unique = [[''tenant_id'', ''name'']]\<rparr>"

definition AgentToolRow_aes :: sql_table where
  "AgentToolRow_aes = \<lparr>sc_name = ''agent_tools'', sc_columns =
     [primary (references (''agents'', ''id'') True (plain ''agent_id'' C_Text)),
      primary (references (''tools'', ''id'') True (plain ''tool_id'' C_Text))],
     sc_unique = []\<rparr>"

definition TaskRow_aes :: sql_table where
  "TaskRow_aes = \<lparr>sc_name = ''tasks'', sc_columns =
     [primary (defaults D_New_Id (plain ''id'' C_Text)), indexed (plain ''tenant_id'' C_Text), plain ''input'' C_Text,
      indexed (plain ''job_id'' C_Text), defaults (D_Text ''pending'') (plain ''status'' C_Text),
      defaults (D_Text '''') (plain ''result'' C_Text), defaults D_Now (plain ''created_at'' C_Timestamp),
      on_update D_Now (defaults D_Now (plain ''updated_at'' C_Timestamp))],
     sc_unique = []\<rparr>"

definition aes_metadata :: "sql_table list" where
  "aes_metadata = [AgentRow_aes, ToolRow_aes, AgentToolRow_aes, TaskRow_aes]"

subsection \<open>\<open>job_svc\<close>\<close>

definition JobRow_job :: sql_table where
  "JobRow_job = \<lparr>sc_name = ''jobs'', sc_columns =
     [primary (defaults D_New_Id (plain ''id'' C_Text)), indexed (plain ''tenant_id'' C_Text), indexed (plain ''type'' C_Text),
      plain ''spec'' C_Json, indexed (defaults (D_Text ''queued'') (plain ''status'' C_Text)),
      defaults (D_Integer 0) (plain ''attempts'' C_Integer),
      defaults (D_Integer default_max_attempts_const) (plain ''max_attempts'' C_Integer),
      defaults (D_Integer 0) (plain ''retry_count'' C_Integer),
      defaults (D_Integer default_max_retries_const) (plain ''max_retries'' C_Integer),
      defaults D_Dict (plain ''progress'' C_Json), nullable (defaults D_None (plain ''locked_at'' C_Timestamp)),
      nullable (defaults D_None (plain ''locked_by'' C_Text)), defaults D_Now (plain ''created_at'' C_Timestamp),
      on_update D_Now (defaults D_Now (plain ''updated_at'' C_Timestamp))],
     sc_unique = []\<rparr>"

definition job_metadata :: "sql_table list" where
  "job_metadata = [JobRow_job]"

subsection \<open>The orchestrator\<close>

definition AgentRow_orc :: sql_table where
  "AgentRow_orc = \<lparr>sc_name = ''agents'', sc_columns =
     [primary (plain ''id'' C_Text), indexed (plain ''tenant_id'' C_Text), plain ''name'' C_Text,
      plain ''instructions'' C_Text, plain ''llm_config_name'' C_Text, plain ''llm_config_temperature'' C_Float,
      plain ''version'' C_Integer, plain ''created_at'' C_Timestamp, plain ''updated_at'' C_Timestamp],
     sc_unique = []\<rparr>"

definition ToolRow_orc :: sql_table where
  "ToolRow_orc = \<lparr>sc_name = ''tools'', sc_columns =
     [primary (plain ''id'' C_Text), indexed (plain ''tenant_id'' C_Text), plain ''name'' C_Text,
      nullable (plain ''description'' C_Text), plain ''mutating'' C_Boolean, plain ''version'' C_Integer,
      plain ''created_at'' C_Timestamp, plain ''updated_at'' C_Timestamp],
     sc_unique = []\<rparr>"

definition AgentToolRow_orc :: sql_table where
  "AgentToolRow_orc = \<lparr>sc_name = ''agent_tools'', sc_columns =
     [primary (references (''agents'', ''id'') False (plain ''agent_id'' C_Text)),
      primary (references (''tools'', ''id'') False (plain ''tool_id'' C_Text))],
     sc_unique = []\<rparr>"

subsection \<open>\<open>mcp_svc\<close>\<close>

definition ToolRow_mcp :: sql_table where
  "ToolRow_mcp = \<lparr>sc_name = ''tools'', sc_columns =
     [primary (plain ''id'' C_Text), indexed (plain ''tenant_id'' C_Text), plain ''name'' C_Text,
      nullable (plain ''description'' C_Text)],
     sc_unique = []\<rparr>"

definition reader_tables :: "sql_table list" where
  "reader_tables = [AgentRow_orc, ToolRow_orc, AgentToolRow_orc, ToolRow_mcp]"

lemmas schema_defs = AgentRow_aes_def ToolRow_aes_def AgentToolRow_aes_def TaskRow_aes_def JobRow_job_def
  AgentRow_orc_def ToolRow_orc_def AgentToolRow_orc_def ToolRow_mcp_def

section \<open>Creation\<close>

text \<open>\<open>create_all\<close>: the tables that the database does not have yet, by name.\<close>

definition create_all :: "sql_table list \<Rightarrow> sql_table list \<Rightarrow> sql_table list" where
  "create_all tables db = db @ filter (\<lambda>t. sc_name t \<notin> set (map sc_name db)) tables"

definition init_models_aes :: "sql_table list \<Rightarrow> sql_table list" where
  "init_models_aes = create_all aes_metadata"

definition init_models_job :: "sql_table list \<Rightarrow> sql_table list" where
  "init_models_job = create_all job_metadata"

definition table_of :: "string \<Rightarrow> sql_table list \<Rightarrow> sql_table option" where
  "table_of name db = find (\<lambda>t. sc_name t = name) db"

text \<open>A declaration is sound when its names are distinct and its references are primary keys it declares.\<close>

definition reference_ok :: "sql_table list \<Rightarrow> column \<Rightarrow> bool" where
  "reference_ok tables c = (case co_references c of None \<Rightarrow> True | Some (t, k) \<Rightarrow>
     (case table_of t tables of None \<Rightarrow> False
      | Some target \<Rightarrow> list_ex (\<lambda>d. co_name d = k \<and> co_primary d \<and> co_type d = co_type c) (sc_columns target)))"

definition metadata_ok :: "sql_table list \<Rightarrow> bool" where
  "metadata_ok tables = (distinct (map sc_name tables) \<and>
     list_all (\<lambda>t. distinct (map co_name (sc_columns t)) \<and> list_all (reference_ok tables) (sc_columns t) \<and>
       list_all (\<lambda>key. set key \<subseteq> set (map co_name (sc_columns t))) (sc_unique t)) tables)"

lemma declarations_sound: "metadata_ok aes_metadata" "metadata_ok job_metadata"
  by (simp_all add: metadata_ok_def aes_metadata_def job_metadata_def schema_defs reference_ok_def table_of_def column_defs)

lemma find_append: "find P (xs @ ys) = (case find P xs of None \<Rightarrow> find P ys | Some x \<Rightarrow> Some x)"
  by (induction xs) auto

lemma find_named: "find (\<lambda>t. sc_name t = n) (filter (\<lambda>t. sc_name t \<notin> N) ts) =
    (if n \<in> N then None else find (\<lambda>t. sc_name t = n) ts)"
  by (induction ts) auto

lemma table_of_create_all:
  "table_of n (create_all tables db) = (case table_of n db of None \<Rightarrow> table_of n tables | Some t \<Rightarrow> Some t)"
proof (cases "table_of n db")
  case None
  then have "n \<notin> set (map sc_name db)" by (auto simp: table_of_def find_None_iff)
  with None show ?thesis by (simp add: table_of_def create_all_def find_append find_named)
qed (simp add: table_of_def create_all_def find_append)

text \<open>Creation is idempotent, and the two writers may start in any order on one database.\<close>

lemma create_all_idem: "create_all tables (create_all tables db) = create_all tables db"
  by (auto simp: create_all_def filter_empty_conv)

lemma writers_commute:
  "table_of n (init_models_aes (init_models_job db)) = table_of n (init_models_job (init_models_aes db))"
proof -
  have "table_of n aes_metadata = None \<or> table_of n job_metadata = None"
    by (cases "n = ''jobs''") (simp_all add: table_of_def aes_metadata_def job_metadata_def schema_defs)
  then show ?thesis
    by (auto simp: init_models_aes_def init_models_job_def table_of_create_all split: option.split)
qed

section \<open>Mirrors\<close>

text \<open>The part of a column's declaration that decides what a query returns.\<close>

definition column_shape :: "column \<Rightarrow> string \<times> column_type \<times> bool \<times> bool \<times> (string \<times> string) option" where
  "column_shape c = (co_name c, co_type c, co_nullable c, co_primary c, co_references c)"

definition mirrors :: "sql_table \<Rightarrow> sql_table \<Rightarrow> bool" where
  "mirrors reader writer \<longleftrightarrow> sc_name reader = sc_name writer \<and>
     set (map column_shape (sc_columns reader)) \<subseteq> set (map column_shape (sc_columns writer)) \<and>
     filter co_primary (map (\<lambda>c. c\<lparr>co_default := None, co_onupdate := None, co_cascade := False\<rparr>) (sc_columns reader)) =
       filter co_primary (map (\<lambda>c. c\<lparr>co_default := None, co_onupdate := None, co_cascade := False\<rparr>) (sc_columns writer))"

lemma readers_mirror:
  "mirrors AgentRow_orc AgentRow_aes" "mirrors ToolRow_orc ToolRow_aes" "mirrors AgentToolRow_orc AgentToolRow_aes"
  "mirrors ToolRow_mcp ToolRow_aes"
  by (simp_all add: mirrors_def column_shape_def schema_defs column_defs)

section \<open>Rows\<close>

datatype sql_value =
  V_Null | V_Text string | V_Integer int | V_Float rat | V_Boolean bool | V_Timestamp stamp | V_Json json

fun has_type :: "sql_value \<Rightarrow> column \<Rightarrow> bool" where
  "has_type V_Null c = co_nullable c"
| "has_type (V_Text s) c = (co_type c = C_Text)"
| "has_type (V_Integer i) c = (co_type c = C_Integer)"
| "has_type (V_Float x) c = (co_type c = C_Float)"
| "has_type (V_Boolean b) c = (co_type c = C_Boolean)"
| "has_type (V_Timestamp t) c = (co_type c = C_Timestamp)"
| "has_type (V_Json j) c = (co_type c = C_Json)"

type_synonym sql_row = "(string \<times> sql_value) list"

definition row_fits :: "sql_table \<Rightarrow> sql_row \<Rightarrow> bool" where
  "row_fits t row \<longleftrightarrow> list_all2 (\<lambda>(n, v) c. n = co_name c \<and> has_type v c) row (sc_columns t)"

text \<open>A query of the columns a class declares.\<close>

definition select_row :: "sql_table \<Rightarrow> sql_row \<Rightarrow> (string \<times> sql_value option) list" where
  "select_row t row = map (\<lambda>c. (co_name c, map_of row (co_name c))) (sc_columns t)"

definition agent_values :: "agent_row \<Rightarrow> sql_row" where
  "agent_values r = [(''id'', V_Text (a_id r)), (''tenant_id'', V_Text (a_tenant_id r)), (''name'', V_Text (a_name r)),
     (''instructions'', V_Text (a_instructions r)), (''llm_config_name'', V_Text (a_llm_config_name r)),
     (''llm_config_temperature'', V_Float (a_llm_config_temperature r)), (''version'', V_Integer (a_version r)),
     (''created_at'', V_Timestamp (a_created_at r)), (''updated_at'', V_Timestamp (a_updated_at r))]"

definition tool_values :: "tool_row \<Rightarrow> sql_row" where
  "tool_values r = [(''id'', V_Text (t_id r)), (''tenant_id'', V_Text (t_tenant_id r)), (''name'', V_Text (t_name r)),
     (''description'', case t_description r of None \<Rightarrow> V_Null | Some d \<Rightarrow> V_Text d), (''mutating'', V_Boolean (t_mutating r)),
     (''version'', V_Integer (t_version r)), (''created_at'', V_Timestamp (t_created_at r)),
     (''updated_at'', V_Timestamp (t_updated_at r))]"

definition agent_tool_values :: "agent_tool_row \<Rightarrow> sql_row" where
  "agent_tool_values r = [(''agent_id'', V_Text (at_agent_id r)), (''tool_id'', V_Text (at_tool_id r))]"

lemma stored_rows_fit:
  "row_fits AgentRow_aes (agent_values a)" "row_fits ToolRow_aes (tool_values t)"
  "row_fits AgentToolRow_aes (agent_tool_values l)"
  by (simp_all add: row_fits_def agent_values_def tool_values_def agent_tool_values_def schema_defs column_defs
      split: option.split)

lemma row_fits_lookup:
  assumes "row_fits t row" and "c \<in> set (sc_columns t)" and "distinct (map co_name (sc_columns t))"
  shows "\<exists>v. map_of row (co_name c) = Some v \<and> has_type v c"
proof -
  from assms(1) have rel: "list_all2 (\<lambda>(n, v) c. n = co_name c \<and> has_type v c) row (sc_columns t)"
    by (simp add: row_fits_def)
  then have names: "map fst row = map co_name (sc_columns t)"
    by (induction rule: list_all2_induct) auto
  from assms(2) obtain i where i: "i < length (sc_columns t)" "sc_columns t ! i = c" by (auto simp: in_set_conv_nth)
  with rel have "fst (row ! i) = co_name c" "has_type (snd (row ! i)) c" "i < length row"
    by (auto simp: list_all2_conv_all_nth split_beta)
  then have "(co_name c, snd (row ! i)) \<in> set row" by (metis nth_mem prod.collapse)
  with names assms(3) have "map_of row (co_name c) = Some (snd (row ! i))" by (intro map_of_is_SomeI) simp_all
  with \<open>has_type (snd (row ! i)) c\<close> show ?thesis by blast
qed

lemma has_type_shape: "column_shape c = column_shape d \<Longrightarrow> has_type v c = has_type v d"
  by (cases v) (auto simp: column_shape_def)

text \<open>A reader's query returns, for each of its columns, the value the writer stored, with the type it declares.\<close>

lemma mirror_reads:
  assumes "mirrors reader writer" and "row_fits writer row" and "distinct (map co_name (sc_columns writer))"
    and "(n, v) \<in> set (select_row reader row)"
  shows "\<exists>c x. c \<in> set (sc_columns reader) \<and> co_name c = n \<and> v = Some x \<and> has_type x c \<and> map_of row n = Some x"
proof -
  from assms(4) obtain c where c: "c \<in> set (sc_columns reader)" "n = co_name c" "v = map_of row (co_name c)"
    by (auto simp: select_row_def)
  with assms(1) obtain d where d: "d \<in> set (sc_columns writer)" "column_shape d = column_shape c"
    by (force simp: mirrors_def)
  then have "co_name d = co_name c" by (simp add: column_shape_def)
  with row_fits_lookup [OF assms(2) d(1) assms(3)] has_type_shape [OF d(2)] c show ?thesis by auto
qed

text \<open>
  Once \<open>agent_execution_service\<close> has started on a database without tables of these names, each
  table a reader declares is there, and mirrored.
\<close>

lemma readers_find_their_tables:
  assumes "reader \<in> set reader_tables" and "\<forall>t \<in> set aes_metadata. table_of (sc_name t) db = None"
  shows "\<exists>writer \<in> set aes_metadata. table_of (sc_name reader) (init_models_aes db) = Some writer \<and> mirrors reader writer"
proof -
  have names: "sc_name AgentRow_aes = ''agents''" "sc_name ToolRow_aes = ''tools''" "sc_name AgentToolRow_aes = ''agent_tools''"
    "sc_name TaskRow_aes = ''tasks''"
    by (simp_all add: schema_defs)
  have writer: "table_of (sc_name w) aes_metadata = Some w" if "w \<in> set aes_metadata" for w
  proof -
    from that consider "w = AgentRow_aes" | "w = ToolRow_aes" | "w = AgentToolRow_aes" | "w = TaskRow_aes"
      by (auto simp: aes_metadata_def)
    then show ?thesis by cases (simp_all add: aes_metadata_def table_of_def names)
  qed
  from assms(1) consider "reader = AgentRow_orc" | "reader = ToolRow_orc" | "reader = AgentToolRow_orc" | "reader = ToolRow_mcp"
    by (auto simp: reader_tables_def)
  then have "\<exists>w \<in> set aes_metadata. mirrors reader w"
    by cases (simp_all add: aes_metadata_def readers_mirror)
  then obtain w where w: "w \<in> set aes_metadata" "mirrors reader w" by blast
  then have "sc_name reader = sc_name w" by (simp add: mirrors_def)
  with assms(2) w writer [OF w(1)] show ?thesis
    by (simp add: init_models_aes_def table_of_create_all)
qed

text \<open>The rows of a table as \<open>agent_execution_service\<close> stores them.\<close>

definition stored_rows :: "aes_db \<Rightarrow> string \<Rightarrow> sql_row list" where
  "stored_rows db name =
     (if name = ''agents'' then map agent_values (agents db)
      else if name = ''tools'' then map tool_values (tools db)
      else if name = ''agent_tools'' then map agent_tool_values (agent_tools db)
      else [])"

lemma stored_rows_typed:
  assumes "writer \<in> set aes_metadata" and "row \<in> set (stored_rows db (sc_name writer))"
  shows "row_fits writer row"
proof -
  have names: "sc_name AgentRow_aes = ''agents''" "sc_name ToolRow_aes = ''tools''" "sc_name AgentToolRow_aes = ''agent_tools''"
    "sc_name TaskRow_aes = ''tasks''"
    by (simp_all add: schema_defs)
  from assms(1) consider "writer = AgentRow_aes" | "writer = ToolRow_aes" | "writer = AgentToolRow_aes" | "writer = TaskRow_aes"
    by (auto simp: aes_metadata_def)
  then show ?thesis using assms(2) by cases (auto simp: stored_rows_def names stored_rows_fit)
qed

lemma writer_columns: "writer \<in> set aes_metadata \<Longrightarrow> distinct (map co_name (sc_columns writer))"
  using declarations_sound(1) by (simp add: metadata_ok_def list_all_iff)

text \<open>C37. The readers' declarations are right about the writer's rows. On a database that has none of
  the writer's tables, after \<open>agent_execution_service\<close> and \<open>job_svc\<close> have created theirs, in either
  order and however often: each table the orchestrator or \<open>mcp_svc\<close> declares exists and is mirrored by
  the declaration, and a query of its columns returns, for every row \<open>agent_execution_service\<close> has
  stored, each declared column with the value stored and of the declared type (a null only where
  the reader allows one).\<close>

theorem readers_see_written_rows:
  assumes "reader \<in> set reader_tables" and "\<forall>t \<in> set aes_metadata. table_of (sc_name t) sql = None"
    and "row \<in> set (stored_rows db (sc_name reader))" and "(n, v) \<in> set (select_row reader row)"
  shows "\<exists>writer c x. table_of (sc_name reader) (init_models_aes (init_models_job sql)) = Some writer \<and>
    table_of (sc_name reader) (init_models_job (init_models_aes sql)) = Some writer \<and>
    init_models_aes (init_models_aes sql) = init_models_aes sql \<and>
    mirrors reader writer \<and> c \<in> set (sc_columns reader) \<and> co_name c = n \<and>
    v = Some x \<and> has_type x c \<and> map_of row n = Some x"
proof -
  obtain writer where w: "writer \<in> set aes_metadata" "table_of (sc_name reader) (init_models_aes sql) = Some writer"
    "mirrors reader writer"
    using readers_find_their_tables [OF assms(1,2)] by blast
  then have same: "sc_name reader = sc_name writer" by (simp add: mirrors_def)
  have "table_of (sc_name reader) (init_models_job (init_models_aes sql)) = Some writer"
    using w(2) by (simp add: init_models_job_def table_of_create_all)
  moreover have "init_models_aes (init_models_aes sql) = init_models_aes sql"
    by (simp add: init_models_aes_def create_all_idem)
  moreover have "row_fits writer row" using stored_rows_typed [OF w(1)] assms(3) same by simp
  from mirror_reads [OF w(3) this writer_columns [OF w(1)] assms(4)]
  obtain c x where "c \<in> set (sc_columns reader)" "co_name c = n" "v = Some x" "has_type x c" "map_of row n = Some x"
    by blast
  ultimately show ?thesis using w(3) writers_commute [of "sc_name reader" sql] by auto
qed

definition some_tool :: tool_row where
  "some_tool = \<lparr>t_id = ''w'', t_tenant_id = ''t1'', t_name = ''search'', t_description = None, t_mutating = True,
     t_version = 1, t_created_at = 1, t_updated_at = 1\<rparr>"

theorem readers_see_written_rows_witness:
  "\<exists>c. c \<in> set (sc_columns ToolRow_mcp) \<and> co_name c = ''description'' \<and> has_type V_Null c"
proof -
  have reader: "ToolRow_mcp \<in> set reader_tables" by (simp add: reader_tables_def)
  have sql: "\<forall>t \<in> set aes_metadata. table_of (sc_name t) [] = None" by (simp add: table_of_def)
  have row: "tool_values some_tool \<in> set (stored_rows (empty_aes_db\<lparr>tools := [some_tool]\<rparr>) (sc_name ToolRow_mcp))"
    by (simp add: stored_rows_def ToolRow_mcp_def)
  have col: "(''description'', Some V_Null) \<in> set (select_row ToolRow_mcp (tool_values some_tool))"
    by (simp add: select_row_def ToolRow_mcp_def column_defs tool_values_def some_tool_def)
  from readers_see_written_rows [OF reader sql row col] show ?thesis by auto
qed

section \<open>Connections\<close>

text \<open>
  \<open>URL.create\<close> keeps the components of the address apart (it escapes each where it is printed), so
  two services are connected to one database exactly when their settings agree.
\<close>

record postgres_settings =
  po_host :: string
  po_port :: int
  po_user :: string
  po_password :: string
  po_database :: string

record db_url =
  ur_drivername :: string
  ur_username :: string
  ur_password :: string
  ur_host :: string
  ur_port :: int
  ur_database :: string

definition url_of :: "postgres_settings \<Rightarrow> db_url" where
  "url_of pg = \<lparr>ur_drivername = ''postgresql+asyncpg'', ur_username = po_user pg, ur_password = po_password pg,
     ur_host = po_host pg, ur_port = po_port pg, ur_database = po_database pg\<rparr>"

definition job_url :: "postgres_settings \<Rightarrow> db_url" where "job_url = url_of"
definition aes_dsn :: "postgres_settings \<Rightarrow> db_url" where "aes_dsn = url_of"
definition orc_dsn :: "postgres_settings \<Rightarrow> db_url" where "orc_dsn = url_of"
definition mcp_url :: "postgres_settings \<Rightarrow> db_url" where "mcp_url = url_of"

lemma same_database: "aes_dsn s = orc_dsn s' \<longleftrightarrow> s = s'" "aes_dsn s = mcp_url s' \<longleftrightarrow> s = s'"
  "job_url s = aes_dsn s' \<longleftrightarrow> s = s'"
  by (auto simp: aes_dsn_def orc_dsn_def mcp_url_def job_url_def url_of_def)

end
