(* ===== verification/Config.thy ===== *)
theory Config
  imports Py_Json "HOL-Library.AList"
begin

text \<open>
  The settings of the five services (their \<open>config.py\<close>) and the transport security \<open>mcp_svc\<close>
  derives from its own. A parsed TOML file is a list of tables; top-level values that are not
  tables, and dates, are left out. Nothing checks the types of the values, so a settings object
  is the list of its fs with TOML values, of the type of decoded JSON.
\<close>

section \<open>Settings classes\<close>

datatype config_error = Key_Error string | Type_Error | Value_Error | Runtime_Error string

type_synonym table = "(string \<times> json) list"

type_synonym environ = "string \<Rightarrow> string option"

datatype field_type = T_Str | T_Int | T_Float | T_Bool

definition key_of :: "(string \<times> 'a) list \<Rightarrow> string \<Rightarrow> config_error + 'a" where
  "key_of raw k = (case map_of raw k of None \<Rightarrow> Inl (Key_Error k) | Some v \<Rightarrow> Inr v)"

text \<open>\<open>cls(**values)\<close> for a dataclass with these fields and defaults.\<close>

definition construct :: "(string \<times> json option) list \<Rightarrow> table \<Rightarrow> config_error + table" where
  "construct fs values =
     (if list_all (\<lambda>kv. fst kv \<in> set (map fst fs)) values
      then mapR (\<lambda>fd. case map_of values (fst fd) of
                  Some v \<Rightarrow> Inr (fst fd, v)
                | None \<Rightarrow> (case snd fd of Some d \<Rightarrow> Inr (fst fd, d) | None \<Rightarrow> Inl Type_Error)) fs
      else Inl Type_Error)"

definition required :: "string list \<Rightarrow> (string \<times> json option) list" where
  "required names = map (\<lambda>f. (f, None)) names"

section \<open>Conversions of strings\<close>

text \<open>\<open>float(s)\<close>, which keeps the literal.\<close>

definition num_strip :: "string \<Rightarrow> string" where
  "num_strip s = rev (dropWhile (int_space s) (rev (dropWhile (int_space s) s)))"

definition digit_part :: "string \<Rightarrow> bool" where
  "digit_part s \<longleftrightarrow> int_digits 0 False s \<noteq> None"

definition float_mantissa :: "string \<Rightarrow> bool" where
  "float_mantissa m =
     (let i = takeWhile (\<lambda>c. c \<noteq> CHR ''.'') m
      in case drop (length i) m of
           [] \<Rightarrow> digit_part i
         | _ # f \<Rightarrow> (i \<noteq> [] \<or> f \<noteq> []) \<and> (i = [] \<or> digit_part i) \<and> (f = [] \<or> digit_part f))"

definition unsigned :: "string \<Rightarrow> string" where
  "unsigned s = (case s of [] \<Rightarrow> [] | c # cs \<Rightarrow> if c = CHR ''-'' \<or> c = CHR ''+'' then cs else s)"

definition float_body :: "string \<Rightarrow> bool" where
  "float_body s =
     (let m = takeWhile (\<lambda>c. c \<noteq> CHR ''e'' \<and> c \<noteq> CHR ''E'') s
      in float_mantissa m \<and> (case drop (length m) s of [] \<Rightarrow> True | _ # e \<Rightarrow> digit_part (unsigned e)))"

definition py_float :: "string \<Rightarrow> json option" where
  "py_float s =
     (let t = num_strip s
      in if float_body (unsigned t) \<or> py_lower (unsigned t) \<in> {''inf'', ''infinity'', ''nan''}
         then Some (JFloat t) else None)"

text \<open>\<open>typ(value)\<close> for the annotated types.\<close>

fun of_str :: "field_type \<Rightarrow> string \<Rightarrow> config_error + json" where
  "of_str T_Str v = Inr (JStr v)"
| "of_str T_Int v = (case py_int v of None \<Rightarrow> Inl Value_Error | Some i \<Rightarrow> Inr (JInt i))"
| "of_str T_Float v = (case py_float v of None \<Rightarrow> Inl Value_Error | Some x \<Rightarrow> Inr x)"
| "of_str T_Bool v = Inr (JBool (v \<noteq> []))"

definition job_coerce :: "field_type \<Rightarrow> string \<Rightarrow> config_error + json" where
  "job_coerce typ v =
     (if typ = T_Bool then Inr (JBool (py_lower (py_strip v) \<in> {''1'', ''true'', ''yes'', ''on''}))
      else of_str typ v)"

section \<open>job_svc and agent_execution_service\<close>

definition env_key :: "string \<Rightarrow> string \<Rightarrow> string \<Rightarrow> string" where
  "env_key prefix section name = py_upper_ascii (prefix @ ''_'' @ section @ ''_'' @ name)"

fun override_fields ::
    "(string \<Rightarrow> string option) \<Rightarrow> (field_type \<Rightarrow> string \<Rightarrow> config_error + json) \<Rightarrow>
     (string \<times> field_type) list \<Rightarrow> table \<Rightarrow> config_error + table" where
  "override_fields value_of coerce [] values = Inr values"
| "override_fields value_of coerce ((name, typ) # fs) values =
     (case value_of name of
        None \<Rightarrow> override_fields value_of coerce fs values
      | Some v \<Rightarrow> bindR (coerce typ v) (\<lambda>x. override_fields value_of coerce fs (AList.update name x values)))"

definition section_with ::
    "(field_type \<Rightarrow> string \<Rightarrow> config_error + json) \<Rightarrow> string \<Rightarrow> environ \<Rightarrow>
     (string \<times> field_type) list \<Rightarrow> string \<Rightarrow> table \<Rightarrow> config_error + table" where
  "section_with coerce prefix env fs section raw =
     bindR (override_fields (\<lambda>name. env (env_key prefix section name)) coerce fs raw)
       (construct (required (map fst fs)))"

definition job_section :: "environ \<Rightarrow> (string \<times> field_type) list \<Rightarrow> string \<Rightarrow> table \<Rightarrow> config_error + table" where
  "job_section = section_with job_coerce ''JOB_SVC''"

definition aes_section :: "environ \<Rightarrow> (string \<times> field_type) list \<Rightarrow> string \<Rightarrow> table \<Rightarrow> config_error + table" where
  "aes_section = section_with of_str ''AEP''"

definition address_fields :: "(string \<times> field_type) list" where
  "address_fields = [(''host'', T_Str), (''port'', T_Int)]"

definition postgres_fields :: "(string \<times> field_type) list" where
  "postgres_fields = [(''host'', T_Str), (''port'', T_Int), (''user'', T_Str), (''password'', T_Str), (''database'', T_Str)]"

definition job_settings :: "(string \<times> (string \<times> field_type) list) list" where
  "job_settings =
     [(''grpc'', address_fields), (''postgres'', postgres_fields),
      (''jobs'', [(''default_max_attempts'', T_Int), (''default_max_retries'', T_Int)]),
      (''poller'', [(''enabled'', T_Bool), (''interval_seconds'', T_Float), (''batch_size'', T_Int),
         (''lease_seconds'', T_Float)]),
      (''orchestrator'', address_fields)]"

definition aes_settings :: "(string \<times> (string \<times> field_type) list) list" where
  "aes_settings = [(''grpc'', address_fields), (''postgres'', postgres_fields), (''job_svc'', address_fields)]"

definition load_sections ::
    "('f \<Rightarrow> string \<Rightarrow> table \<Rightarrow> config_error + table) \<Rightarrow> (string \<times> 'f) list \<Rightarrow> (string \<times> table) list \<Rightarrow>
     config_error + (string \<times> table) list" where
  "load_sections section_of settings raw =
     mapR (\<lambda>sf. bindR (key_of raw (fst sf)) (\<lambda>table. bindR (section_of (snd sf) (fst sf) table) (\<lambda>values. Inr (fst sf, values))))
       settings"

definition job_load :: "environ \<Rightarrow> (string \<times> table) list \<Rightarrow> config_error + (string \<times> table) list" where
  "job_load env raw = load_sections (job_section env) job_settings raw"

definition aes_load :: "environ \<Rightarrow> (string \<times> table) list \<Rightarrow> config_error + (string \<times> table) list" where
  "aes_load env raw = load_sections (aes_section env) aes_settings raw"

section \<open>orchestrator\<close>

definition orc_settings :: "(string \<times> string list) list" where
  "orc_settings =
     [(''grpc'', [''host'', ''port'']), (''postgres'', [''host'', ''port'', ''user'', ''password'', ''database'']),
      (''gateway'', [''host'', ''port'', ''timeout_seconds'']), (''mcp'', [''url'', ''timeout_seconds'']),
      (''chat'', [''max_messages''])]"

definition orc_load :: "(string \<times> table) list \<Rightarrow> config_error + (string \<times> table) list" where
  "orc_load raw = load_sections (\<lambda>fs section. construct (required fs)) orc_settings raw"

section \<open>gateway\<close>

definition gw_providers :: "(string \<times> string \<times> json) list" where
  "gw_providers =
     [(''openai'', ''OPENAI_API_KEY'', JNull),
      (''groq'', ''GROQ_API_KEY'', JStr ''https://api.groq.com/openai/v1''),
      (''opencode'', ''OPENCODE_API_KEY'', JStr ''https://opencode.ai/zen/v1'')]"

definition gw_model_fields :: "(string \<times> json option) list" where
  "gw_model_fields =
     required [''provider'', ''name'', ''max_tokens'', ''temperature'', ''timeout_seconds''] @ [(''base_url'', Some JNull)]"

record gw_settings =
  st_grpc :: table
  st_model :: table
  st_guardrails :: table
  st_api_key :: string

text \<open>A list or table is no dictionary key; no value but a string is equal to a provider's name.\<close>

definition gw_provider_entry :: "pylib \<Rightarrow> json \<Rightarrow> config_error + (string \<times> string \<times> json)" where
  "gw_provider_entry lib provider =
     (case provider of
        JArr _ \<Rightarrow> Inl Type_Error
      | JObj _ \<Rightarrow> Inl Type_Error
      | JStr p \<Rightarrow>
          (case map_of gw_providers p of
             Some (var, url) \<Rightarrow> Inr (p, var, url)
           | None \<Rightarrow> Inl (Runtime_Error (''unsupported model.provider '' @ py_repr_json lib provider @
               '' (supported: '' @ py_repr_list [''groq'', ''openai'', ''opencode''] @ '')'')))
      | _ \<Rightarrow> Inl (Runtime_Error (''unsupported model.provider '' @ py_repr_json lib provider @
          '' (supported: '' @ py_repr_list [''groq'', ''openai'', ''opencode''] @ '')'')))"

definition gw_api_key :: "environ \<Rightarrow> string \<Rightarrow> string \<Rightarrow> config_error + string" where
  "gw_api_key env provider key_var =
     (let api_key = (case env key_var of None \<Rightarrow> [] | Some v \<Rightarrow> v);
          api_key = (if api_key = [] \<and> provider = ''opencode'' then ''public'' else api_key)
      in if api_key = []
         then Inl (Runtime_Error (key_var @ '' env var must be set for provider '' @ py_repr provider @
                '' (never read from config.toml)''))
         else Inr api_key)"

definition setdefault :: "string \<Rightarrow> 'a \<Rightarrow> (string \<times> 'a) list \<Rightarrow> (string \<times> 'a) list" where
  "setdefault k v m = (case map_of m k of None \<Rightarrow> m @ [(k, v)] | Some _ \<Rightarrow> m)"

definition gw_load :: "pylib \<Rightarrow> environ \<Rightarrow> (string \<times> table) list \<Rightarrow> config_error + gw_settings" where
  "gw_load lib env raw =
     bindR (key_of raw ''model'') (\<lambda>raw_model.
     bindR (gw_provider_entry lib (case map_of raw_model ''provider'' of None \<Rightarrow> JNull | Some v \<Rightarrow> v)) (\<lambda>(provider, key_var, default_base_url).
     bindR (gw_api_key env provider key_var) (\<lambda>api_key.
     bindR (bindR (key_of raw ''grpc'') (construct (required [''host'', ''port'']))) (\<lambda>grpc.
     bindR (construct gw_model_fields (setdefault ''base_url'' default_base_url raw_model)) (\<lambda>model.
     bindR (bindR (key_of raw ''guardrails'') (construct (required [''max_input_chars'', ''blocklist'']))) (\<lambda>guardrails.
     Inr \<lparr>st_grpc = grpc, st_model = model, st_guardrails = guardrails, st_api_key = api_key\<rparr>))))))"

section \<open>mcp_svc\<close>

text \<open>\<open>int(v)\<close>; the integer part of a float is a parameter, \<open>None\<close> for a NaN or an infinity (whose
  \<open>OverflowError\<close> is not told from the \<open>ValueError\<close>).\<close>

definition to_int :: "(string \<Rightarrow> int option) \<Rightarrow> json \<Rightarrow> config_error + json" where
  "to_int trunc v =
     (case v of
        JInt i \<Rightarrow> Inr (JInt i)
      | JBool b \<Rightarrow> Inr (JInt (if b then 1 else 0))
      | JFloat x \<Rightarrow> (case trunc x of None \<Rightarrow> Inl Value_Error | Some i \<Rightarrow> Inr (JInt i))
      | JStr s \<Rightarrow> of_str T_Int s
      | _ \<Rightarrow> Inl Type_Error)"

definition from_env :: "environ \<Rightarrow> string \<Rightarrow> table \<Rightarrow> string \<Rightarrow> config_error + json" where
  "from_env env key raw f = bindR (key_of raw f) (\<lambda>d. Inr (case env key of None \<Rightarrow> d | Some v \<Rightarrow> JStr v))"

definition mcp_postgres :: "(string \<Rightarrow> int option) \<Rightarrow> environ \<Rightarrow> table \<Rightarrow> config_error + table" where
  "mcp_postgres trunc env raw =
     bindR (from_env env ''MCP_SVC_POSTGRES_HOST'' raw ''host'') (\<lambda>host.
     bindR (bindR (from_env env ''MCP_SVC_POSTGRES_PORT'' raw ''port'') (to_int trunc)) (\<lambda>port.
     bindR (from_env env ''MCP_SVC_POSTGRES_USER'' raw ''user'') (\<lambda>user.
     bindR (from_env env ''MCP_SVC_POSTGRES_PASSWORD'' raw ''password'') (\<lambda>password.
     bindR (from_env env ''MCP_SVC_POSTGRES_DATABASE'' raw ''database'') (\<lambda>database.
     Inr [(''host'', host), (''port'', port), (''user'', user), (''password'', password), (''database'', database)])))))"

text \<open>\<open>tuple(d.get(k, ()))\<close>\<close>

definition tuple_at :: "table \<Rightarrow> string \<Rightarrow> config_error + json list" where
  "tuple_at d k =
     (case map_of d k of
        None \<Rightarrow> Inr []
      | Some (JArr xs) \<Rightarrow> Inr xs
      | Some (JStr s) \<Rightarrow> Inr (map (\<lambda>c. JStr [c]) s)
      | Some (JObj ms) \<Rightarrow> Inr (map (\<lambda>kv. JStr (fst kv)) ms)
      | Some _ \<Rightarrow> Inl Type_Error)"

record mcp_settings =
  se_http :: table
  se_postgres :: table
  se_allowed_hosts :: "json list"
  se_allowed_origins :: "json list"
  se_tool_execution :: table

definition tool_execution_fields :: "(string \<times> json option) list" where
  "tool_execution_fields = [(''timeout_seconds'', Some (JFloat ''30.0'')), (''max_response_chars'', Some (JInt 20000))]"

definition mcp_load :: "(string \<Rightarrow> int option) \<Rightarrow> environ \<Rightarrow> (string \<times> table) list \<Rightarrow> config_error + mcp_settings" where
  "mcp_load trunc env raw =
     (let security = (case map_of raw ''security'' of None \<Rightarrow> [] | Some t \<Rightarrow> t);
          tool_execution = (case map_of raw ''tool_execution'' of None \<Rightarrow> [] | Some t \<Rightarrow> t)
      in bindR (bindR (key_of raw ''http'') (construct (required [''host'', ''port'']))) (\<lambda>http.
         bindR (bindR (key_of raw ''postgres'') (mcp_postgres trunc env)) (\<lambda>postgres.
         bindR (tuple_at security ''allowed_hosts'') (\<lambda>allowed_hosts.
         bindR (tuple_at security ''allowed_origins'') (\<lambda>allowed_origins.
         bindR (construct tool_execution_fields tool_execution) (\<lambda>tool_execution.
         Inr \<lparr>se_http = http, se_postgres = postgres, se_allowed_hosts = allowed_hosts,
              se_allowed_origins = allowed_origins, se_tool_execution = tool_execution\<rparr>))))))"

text \<open>\<open>server.py\<close>: whether DNS rebinding protection is on, and the lists it checks against.\<close>

definition transport_security :: "mcp_settings \<Rightarrow> bool \<times> json list \<times> json list" where
  "transport_security sec =
     (if se_allowed_hosts sec \<noteq> [] \<or> se_allowed_origins sec \<noteq> []
      then (True, se_allowed_hosts sec, se_allowed_origins sec) else (False, [], []))"

section \<open>Lemmas\<close>

text \<open>The value of a field: the environment wins.\<close>

definition field_value ::
    "(field_type \<Rightarrow> string \<Rightarrow> config_error + json) \<Rightarrow> string \<Rightarrow> environ \<Rightarrow> string \<Rightarrow> table \<Rightarrow>
     string \<times> field_type \<Rightarrow> json option" where
  "field_value coerce prefix env section raw f =
     (case env (env_key prefix section (fst f)) of
        None \<Rightarrow> map_of raw (fst f)
      | Some v \<Rightarrow> (case coerce (snd f) v of Inl _ \<Rightarrow> None | Inr x \<Rightarrow> Some x))"

lemma key_of_Inr [simp]: "key_of raw k = Inr v \<longleftrightarrow> map_of raw k = Some v"
  by (simp add: key_of_def split: option.splits)

lemma construct_required:
  "construct (required names) vals = Inr st \<longleftrightarrow>
     fst ` set vals \<subseteq> set names \<and> list_all2 (\<lambda>f kv. fst kv = f \<and> map_of vals f = Some (snd kv)) names st"
proof -
  have "mapR (\<lambda>fd. case map_of vals (fst fd) of
            Some v \<Rightarrow> Inr (fst fd, v)
          | None \<Rightarrow> (case snd fd of Some d \<Rightarrow> Inr (fst fd, d) | None \<Rightarrow> Inl Type_Error)) (required ns) = Inr st \<longleftrightarrow>
      list_all2 (\<lambda>f kv. fst kv = f \<and> map_of vals f = Some (snd kv)) ns st" for ns
    by (induction ns arbitrary: st)
      (auto simp: required_def bindR_eq_Inr_iff list_all2_Cons1 split: option.splits)
  moreover have "map fst (required names) = names" by (simp add: required_def o_def)
  ultimately show ?thesis by (auto simp: construct_def list_all_iff)
qed

definition field_or_default :: "table \<Rightarrow> string \<times> json option \<Rightarrow> json option" where
  "field_or_default vals fd = (case map_of vals (fst fd) of Some v \<Rightarrow> Some v | None \<Rightarrow> snd fd)"

lemma construct_fields:
  "construct fs vals = Inr st \<Longrightarrow> list_all2 (\<lambda>fd kv. fst kv = fst fd \<and> field_or_default vals fd = Some (snd kv)) fs st"
  by (simp add: construct_def mapR_Inr_iff split: if_splits)
    (erule list.rel_mono_strong; auto simp: field_or_default_def split: option.splits)

lemma construct_lookup:
  assumes "construct fs vals = Inr st" and "distinct (map fst fs)" and "fd \<in> set fs"
  shows "map_of st (fst fd) = field_or_default vals fd"
proof -
  have l: "list_all2 (\<lambda>fd kv. fst kv = fst fd \<and> field_or_default vals fd = Some (snd kv)) fs st"
    by (rule construct_fields [OF assms(1)])
  then have "map fst st = map fst fs" by (auto simp: list_eq_iff_nth_eq list_all2_conv_all_nth)
  with assms(2) have "distinct (map fst st)" by simp
  moreover obtain i where i: "i < length fs" "fs ! i = fd" using assms(3) by (auto simp: in_set_conv_nth)
  moreover from i l have "fst (st ! i) = fst fd" "field_or_default vals fd = Some (snd (st ! i))" "st ! i \<in> set st"
    by (auto simp: list_all2_conv_all_nth)
  ultimately show ?thesis by (metis map_of_is_SomeI prod.collapse)
qed

lemma override_keys:
  assumes "override_fields value_of coerce fs vals = Inr vals'"
  shows "fst ` set vals \<subseteq> fst ` set vals' \<and> fst ` set vals' \<subseteq> fst ` set vals \<union> fst ` set fs"
  using assms
proof (induction fs arbitrary: vals)
  case (Cons f fs)
  obtain name ty where f: "f = (name, ty)" by fastforce
  show ?case
  proof (cases "value_of name")
    case None
    then have rest: "override_fields value_of coerce fs vals = Inr vals'" using Cons.prems f by simp
    show ?thesis using Cons.IH [OF rest] f by auto
  next
    case (Some v)
    then obtain x where x: "override_fields value_of coerce fs (AList.update name x vals) = Inr vals'"
      using Cons.prems f by (auto simp: bindR_eq_Inr_iff)
    have "fst ` set (AList.update name x vals) = insert name (fst ` set vals)" by (simp add: dom_update)
    then show ?thesis using Cons.IH [OF x] f by auto
  qed
qed simp

lemma override_Inr:
  assumes "distinct (map fst fs)" and "override_fields value_of coerce fs vals = Inr vals'"
  shows "map_of vals' k =
      (case map_of fs k of
         None \<Rightarrow> map_of vals k
       | Some ty \<Rightarrow> (case value_of k of
             None \<Rightarrow> map_of vals k
           | Some v \<Rightarrow> (case coerce ty v of Inl _ \<Rightarrow> None | Inr x \<Rightarrow> Some x)))"
  using assms
proof (induction fs arbitrary: vals)
  case (Cons f fs)
  obtain name ty where f: "f = (name, ty)" by fastforce
  have other: "map_of fs name = None" using Cons.prems(1) f by (simp add: map_of_eq_None_iff)
  show ?case
  proof (cases "value_of name")
    case None
    then show ?thesis using Cons f other by auto
  next
    case (Some v)
    then obtain x where x: "coerce ty v = Inr x" "override_fields value_of coerce fs (AList.update name x vals) = Inr vals'"
      using Cons.prems(2) f by (auto simp: bindR_eq_Inr_iff)
    then show ?thesis using Cons.IH [OF _ x(2)] Cons.prems(1) f Some other
      by (simp add: update_conv split: option.splits)
  qed
qed simp

lemma override_total:
  "(\<And>f v. f \<in> set fs \<Longrightarrow> value_of (fst f) = Some v \<Longrightarrow> \<exists>x. coerce (snd f) v = Inr x) \<Longrightarrow>
     \<exists>vals'. override_fields value_of coerce fs vals = Inr vals'"
proof (induction fs arbitrary: vals)
  case (Cons f fs)
  obtain name ty where f: "f = (name, ty)" by fastforce
  show ?case
  proof (cases "value_of name")
    case None
    then show ?thesis using f Cons by simp
  next
    case (Some v)
    obtain x where "coerce ty v = Inr x" using Cons.prems [of f v] f Some by auto
    then show ?thesis using f Some Cons by simp
  qed
qed simp

lemma override_coerced:
  assumes "override_fields value_of coerce fs vals = Inr vals'" "f \<in> set fs" "value_of (fst f) = Some v"
  shows "\<exists>x. coerce (snd f) v = Inr x"
  using assms by (induction fs arbitrary: vals) (auto simp: bindR_eq_Inr_iff split: option.splits)

text \<open>A section is built from exactly its fields, each from the environment or else from the file.\<close>

lemma section_spec:
  assumes "distinct (map fst fs)"
  shows "section_with coerce prefix env fs section raw = Inr st \<longleftrightarrow>
    fst ` set raw \<subseteq> fst ` set fs \<and>
    list_all2 (\<lambda>f kv. fst kv = fst f \<and> field_value coerce prefix env section raw f = Some (snd kv)) fs st"
proof -
  let ?vo = "\<lambda>name. env (env_key prefix section name)"
  have look: "map_of vals (fst f) = field_value coerce prefix env section raw f"
    if "override_fields ?vo coerce fs raw = Inr vals" "f \<in> set fs" for vals f
    using override_Inr [OF assms that(1), of "fst f"] map_of_is_SomeI [OF assms, of "fst f" "snd f"] that(2)
    by (simp add: field_value_def)
  have fields: "list_all2 (\<lambda>f kv. fst kv = f \<and> map_of vals f = Some (snd kv)) (map fst fs) st \<longleftrightarrow>
      list_all2 (\<lambda>f kv. fst kv = fst f \<and> field_value coerce prefix env section raw f = Some (snd kv)) fs st"
    if "override_fields ?vo coerce fs raw = Inr vals" for vals
    unfolding list_all2_map1 using look [OF that] by (auto simp: list_all2_conv_all_nth)
  have total: "\<exists>vals. override_fields ?vo coerce fs raw = Inr vals"
    if "list_all2 (\<lambda>f kv. fst kv = fst f \<and> field_value coerce prefix env section raw f = Some (snd kv)) fs st"
    using that by (intro override_total)
      (auto simp: list_all2_conv_all_nth field_value_def in_set_conv_nth split: sum.splits dest!: spec)
  show ?thesis
  proof (cases "override_fields ?vo coerce fs raw")
    case (Inl e)
    then show ?thesis using total by (auto simp: section_with_def)
  next
    case (Inr vals)
    have "fst ` set vals \<subseteq> fst ` set fs \<longleftrightarrow> fst ` set raw \<subseteq> fst ` set fs"
      using override_keys [OF Inr] by blast
    moreover have "section_with coerce prefix env fs section raw = Inr st \<longleftrightarrow> fst ` set vals \<subseteq> fst ` set fs \<and>
        list_all2 (\<lambda>f kv. fst kv = f \<and> map_of vals f = Some (snd kv)) (map fst fs) st"
      by (simp only: section_with_def Inr bindR_simps construct_required set_map)
    ultimately show ?thesis using fields [OF Inr] by blast
  qed
qed

text \<open>The services' sections have distinct fields.\<close>

lemma job_fields_distinct: "(section, fs) \<in> set job_settings \<Longrightarrow> distinct (map fst fs)"
  by (auto simp: job_settings_def address_fields_def postgres_fields_def)

text \<open>The settings the documentation of \<open>job_svc\<close> promises for an environment and a file.\<close>

definition promised_section :: "environ \<Rightarrow> (string \<times> table) list \<Rightarrow> string \<times> (string \<times> field_type) list \<Rightarrow> string \<times> table \<Rightarrow> bool" where
  "promised_section env doc sf st \<longleftrightarrow>
     fst st = fst sf \<and>
     (case map_of doc (fst sf) of
        None \<Rightarrow> False
      | Some raw \<Rightarrow> fst ` set raw \<subseteq> fst ` set (snd sf) \<and>
          list_all2 (\<lambda>f kv. fst kv = fst f \<and> field_value job_coerce ''JOB_SVC'' env (fst sf) raw f = Some (snd kv))
            (snd sf) (snd st))"

text \<open>Any field of \<open>job_svc\<close>'s settings can come from the environment. Loading succeeds with some
  settings exactly if every section is in the file without unknown names, and every field has
  either a variable \<open>JOB_SVC_<SECTION>_<FIELD>\<close> that converts to the field's type or, with no such
  variable, a value in the file; the settings then hold, field by field, the converted variable
  or else the file's value. So a secret need not be in the file.\<close>

theorem job_settings_from_environment:
  "job_load env doc = Inr settings \<longleftrightarrow> list_all2 (promised_section env doc) job_settings settings"
proof -
  have sect: "(\<exists>raw. map_of doc (fst sf) = Some raw \<and>
        (\<exists>vals. job_section env (snd sf) (fst sf) raw = Inr vals \<and> (fst sf, vals) = st)) \<longleftrightarrow>
      promised_section env doc sf st"
    if "sf \<in> set job_settings" for sf st
  proof -
    have "distinct (map fst (snd sf))" using job_fields_distinct [of "fst sf" "snd sf"] that by simp
    then show ?thesis
      by (cases st) (auto simp: promised_section_def job_section_def section_spec split: option.splits)
  qed
  have "job_load env doc = Inr settings \<longleftrightarrow>
      list_all2 (\<lambda>sf st. \<exists>raw. map_of doc (fst sf) = Some raw \<and>
        (\<exists>vals. job_section env (snd sf) (fst sf) raw = Inr vals \<and> (fst sf, vals) = st)) job_settings settings"
    by (simp add: job_load_def load_sections_def mapR_Inr_iff bindR_eq_Inr_iff)
  also have "\<dots> \<longleftrightarrow> list_all2 (promised_section env doc) job_settings settings"
    using sect by (auto simp: list_all2_conv_all_nth)
  finally show ?thesis .
qed

text \<open>The gateway's API key comes from the environment alone. Settings that load name a supported
  provider; the key is the non-empty value of this provider's variable, or \<open>public\<close> for opencode
  when that variable is unset or empty; nothing in the file contributes to it. The base URL is
  the file's, or else the provider's own.\<close>

theorem gateway_key_from_environment:
  assumes "gw_load lib env doc = Inr st"
  shows "\<exists>p var url raw. map_of (st_model st) ''provider'' = Some (JStr p) \<and> (p, var, url) \<in> set gw_providers \<and>
    st_api_key st \<noteq> [] \<and>
    (env var = Some (st_api_key st) \<or> p = ''opencode'' \<and> st_api_key st = ''public'' \<and> (env var = None \<or> env var = Some [])) \<and>
    map_of doc ''model'' = Some raw \<and>
    map_of (st_model st) ''base_url'' = Some (case map_of raw ''base_url'' of Some v \<Rightarrow> v | None \<Rightarrow> url)"
proof -
  obtain raw where raw: "map_of doc ''model'' = Some raw" using assms by (auto simp: gw_load_def bindR_eq_Inr_iff)
  define provider where "provider = (case map_of raw ''provider'' of None \<Rightarrow> JNull | Some v \<Rightarrow> v)"
  obtain p var url key where c: "gw_provider_entry lib provider = Inr (p, var, url)" "gw_api_key env p var = Inr key"
      "construct gw_model_fields (setdefault ''base_url'' url raw) = Inr (st_model st)" "st_api_key st = key"
    using assms raw by (auto simp: gw_load_def bindR_eq_Inr_iff provider_def)
  have p: "provider = JStr p" "(p, var, url) \<in> set gw_providers"
    using c(1) by (auto simp: gw_provider_entry_def split: json.splits option.splits dest!: map_of_SomeD)
  have fs: "distinct (map fst gw_model_fields)" "(''provider'', None) \<in> set gw_model_fields" "(''base_url'', Some JNull) \<in> set gw_model_fields"
    by (simp_all add: gw_model_fields_def required_def)
  have "map_of (st_model st) ''provider'' = Some (JStr p)"
    using construct_lookup [OF c(3) fs(1,2)] p(1)
    by (auto simp: field_or_default_def setdefault_def provider_def split: option.splits)
  moreover have "map_of (st_model st) ''base_url'' = Some (case map_of raw ''base_url'' of Some v \<Rightarrow> v | None \<Rightarrow> url)"
    using construct_lookup [OF c(3) fs(1,3)]
    by (auto simp: field_or_default_def setdefault_def split: option.splits)
  moreover have "key \<noteq> [] \<and> (env var = Some key \<or> p = ''opencode'' \<and> key = ''public'' \<and> (env var = None \<or> env var = Some []))"
    using c(2) by (auto simp: gw_api_key_def Let_def split: option.splits if_splits)
  ultimately show ?thesis using p(2) raw c(4) by (intro exI [of _ p] exI [of _ var] exI [of _ url] exI [of _ raw]) simp
qed

text \<open>A configured environment and file for each of the two.\<close>

definition sample_env :: environ where
  "sample_env k = (if k = ''JOB_SVC_POSTGRES_PASSWORD'' then Some ''secret'' else if k = ''JOB_SVC_POLLER_ENABLED'' then Some ''False''
     else if k = ''JOB_SVC_POSTGRES_PORT'' then Some '' 6_000 '' else if k = ''GROQ_API_KEY'' then Some ''key'' else None)"

definition sample_address :: table where
  "sample_address = [(''host'', JStr ''h''), (''port'', JInt 1)]"

definition sample_doc :: "(string \<times> table) list" where
  "sample_doc =
     [(''grpc'', sample_address), (''postgres'', [(''host'', JStr ''h''), (''port'', JInt 1), (''user'', JStr ''u''), (''database'', JStr ''d'')]),
      (''jobs'', [(''default_max_attempts'', JInt 3), (''default_max_retries'', JInt 3)]),
      (''poller'', [(''enabled'', JBool True), (''interval_seconds'', JFloat ''5.0''), (''batch_size'', JInt 10), (''lease_seconds'', JInt 300)]),
      (''orchestrator'', sample_address)]"

theorem job_settings_from_environment_witness:
  "\<exists>settings. job_load sample_env sample_doc = Inr settings \<and>
     (\<exists>postgres poller. settings ! 1 = (''postgres'', postgres) \<and> settings ! 3 = (''poller'', poller) \<and>
        map_of postgres ''password'' = Some (JStr ''secret'') \<and> map_of postgres ''port'' = Some (JInt 6000) \<and>
        map_of poller ''enabled'' = Some (JBool False))"
proof -
  define settings where "settings = sample_doc
      [1 := (''postgres'', [(''host'', JStr ''h''), (''port'', JInt 6000), (''user'', JStr ''u''), (''password'', JStr ''secret''), (''database'', JStr ''d'')]),
       3 := (''poller'', [(''enabled'', JBool False), (''interval_seconds'', JFloat ''5.0''), (''batch_size'', JInt 10), (''lease_seconds'', JInt 300)])]"
  have "list_all2 (promised_section sample_env sample_doc) job_settings settings"
    unfolding settings_def by code_simp
  then have "job_load sample_env sample_doc = Inr settings" using job_settings_from_environment by blast
  then show ?thesis by (auto simp: settings_def sample_doc_def)
qed

definition sample_gateway :: "(string \<times> table) list" where
  "sample_gateway =
     [(''grpc'', sample_address),
      (''model'', [(''provider'', JStr ''groq''), (''name'', JStr ''m''), (''max_tokens'', JInt 512), (''temperature'', JFloat ''0.7''),
         (''timeout_seconds'', JInt 60)]),
      (''guardrails'', [(''max_input_chars'', JInt 8000), (''blocklist'', JArr [])])]"

theorem gateway_key_from_environment_witness:
  "\<exists>st. gw_load \<lparr>wide_char = (\<lambda>_. CHR ''?''), float_str = (\<lambda>s. s)\<rparr> sample_env sample_gateway = Inr st \<and>
     sample_env ''GROQ_API_KEY'' = Some (st_api_key st) \<and>
     map_of (st_model st) ''base_url'' = Some (JStr ''https://api.groq.com/openai/v1'')"
proof -
  let ?lib = "\<lparr>wide_char = (\<lambda>_. CHR ''?''), float_str = (\<lambda>s. s)\<rparr>"
  have "case gw_load ?lib sample_env sample_gateway of Inl _ \<Rightarrow> False | Inr st \<Rightarrow> map_of (st_model st) ''provider'' = Some (JStr ''groq'')"
    by code_simp
  then obtain st where st: "gw_load ?lib sample_env sample_gateway = Inr st" "map_of (st_model st) ''provider'' = Some (JStr ''groq'')"
    by (auto split: sum.splits)
  from gateway_key_from_environment [OF st(1)] st
  show ?thesis by (auto simp: gw_providers_def sample_gateway_def)
qed

text \<open>The file of \<open>mcp_svc\<close> must hold even the fields the environment sets.\<close>

lemma mcp_environment_needs_file:
  "map_of raw ''host'' = None \<Longrightarrow> mcp_postgres trunc (\<lambda>k. Some v) raw = Inl (Key_Error ''host'')"
  by (simp add: mcp_postgres_def from_env_def key_of_def)

text \<open>Transport protection is on exactly if a list is configured.\<close>

lemma transport_security_spec:
  "fst (transport_security s) \<longleftrightarrow> se_allowed_hosts s \<noteq> [] \<or> se_allowed_origins s \<noteq> []"
  by (simp add: transport_security_def)

end
