(* ===== verification/Spec2Isabelle.thy ===== *)
theory Spec2Isabelle
  imports Job_Edge Job_Lease Processes Gw_Guardrails Gw_Servicer Orc_Gate Orc_Gateway Orc_Mcp Platform_Approval Platform_Isolation Grpc_Copies Orc_Session Schema Config
begin

text \<open>
  A verification development for the agent execution platform: five Python services under
  \<open>src/services\<close> that run a prompt as a job of sub-prompts, each answered by a group chat of LLM
  agents with tools.

  THE PROGRAM.  A caller creates agents, tools and tasks in \<open>agent_execution_service\<close> (AES below). A
  task is a handle onto a job of \<open>job_svc\<close>, whose table is also its queue. A poller of \<open>job_svc\<close>
  claims queued jobs and runs them: a planning turn of the \<open>orchestrator\<close> splits the prompt, then
  every sub-prompt is one execution turn, checkpointed in the job's row. A turn of the orchestrator
  is an AutoGen group chat of the tenant's agents; its model calls go through the \<open>gateway\<close>
  (guardrails, one of two model providers), its tool calls through \<open>mcp_svc\<close> (the catalog of AES, an
  HTTP tool and a SQL tool). A tool that mutates is gated: the turn ends, the job waits for approval,
  and the approved step is executed again.

  SHARED THEORIES.  \<open>Prelude\<close>: the state-and-exception monad that stands for coroutines (\<open>comp\<close>,
  \<open>bindS\<close>, \<open>liftS\<close>, \<open>keepsS\<close>) and a table as a list of rows, with the locale \<open>keyed_rows\<close>. \<open>PyStr\<close>,
  \<open>Json\<close>, \<open>Json_Codec\<close>, \<open>Py_Json\<close>, \<open>Py_Url\<close> and \<open>Regex\<close>: the parts of Python's \<open>str\<close>, \<open>json\<close>,
  \<open>urllib.parse\<close>, \<open>ipaddress\<close> and \<open>re\<close> the services use. \<open>Grpc\<close>, \<open>Chat_Proto\<close>, \<open>Job_Proto\<close>: status
  codes, metadata and messages.

  JOB_SVC (\<open>src/services/job_svc/src/job_svc\<close>).  \<open>Job_Model\<close> is the row (\<open>models.py\<close>, \<open>errors.py\<close>);
  \<open>Job_Service\<close> the operations of \<open>services/jobs.py\<close>, each an atomic rewrite of the table with the
  clock as an argument; \<open>Job_Rpc\<close> the handlers (\<open>servicer.py\<close>, \<open>validators.py\<close>, \<open>mappers.py\<close>,
  \<open>auth.py\<close>). \<open>Job_Laws\<close> states what every guarded rewrite promises as the locales \<open>job_rewrite\<close> and
  \<open>job_transition\<close>, interpreted on each operation's row update; \<open>Job_Machine\<close> has the step relation,
  the invariant of reachable tables and the refinement of the lifecycle graph; \<open>Job_Queue\<close> claims,
  leases, budgets and the reaper; \<open>Job_Edge\<close> tenants, error codes and rendering. \<open>Job_Plan\<close> parses
  plans and \<open>Job_Runner\<close> is \<open>runner.py\<close> with \<open>orchestrator_client.py\<close>, as a sequence of awaited calls
  in a world that answers them arbitrarily and logs them; \<open>Job_Runs\<close> reads the possible logs as
  inductive traces, \<open>Job_Execution\<close> and \<open>Job_Delivery\<close> prove safety and delivery from them, and
  \<open>Job_Poller\<close> is \<open>poller.py\<close>. \<open>Job_Pods\<close> has what \<open>main.py\<close> builds from the settings (service,
  dispatcher, poller, heartbeat interval) and the refinement of the table machine by any pod;
  \<open>Job_Lease\<close> has the lease and the heartbeat in time, with the schedules (\<open>steady\<close>) under which a
  live run is never reaped. What a whole run keeps of the table follows from what its two database
  calls keep (locale \<open>run_frame\<close>, interpreted for the table machine in \<open>Job_Pods\<close> and for the claims
  of a pod in \<open>Job_Shutdown\<close>, where a pod that stops strands no job).

  AES (\<open>src/services/agent_execution_service/src/agent_execution_service\<close>).  \<open>Aes_Model\<close> has the four
  tables, \<open>Aes_Catalog\<close> the agents and tools, \<open>Aes_Jobs\<close> the job client with the contract of a job
  backend (locale \<open>task_backend\<close>, interpreted on the handlers of \<open>job_svc\<close>), \<open>Aes_Percent\<close> and
  \<open>Aes_Tasks\<close> the task service, \<open>Aes_Rpc\<close> the handlers, \<open>Aes_Edge\<close> integrity, isolation and the
  agreement of tasks with their jobs. \<open>Aes_Sessions\<close> has the task handlers one await at a time, as
  the sessions the event loop interleaves, and \<open>Aes_Locality\<close> that each transaction, seen by a tenant,
  is one on the tenant's own rows.

  GATEWAY (\<open>src/services/gateway/src/gateway\<close>).  \<open>Gw_Model\<close> (\<open>models.py\<close>, \<open>errors.py\<close>), \<open>Gw_Guardrails\<close>
  (\<open>guardrails.py\<close>; the locale \<open>token_pattern\<close> of \<open>Regex\<close> is interpreted on its patterns),
  \<open>Gw_Provider\<close> (\<open>provider.py\<close>), \<open>Gw_Zen\<close> (\<open>provider_zen.py\<close>), \<open>Gw_Wire\<close> (both wire formats decoded
  into the same events; the locale \<open>chat_provider\<close>, interpreted on both and on the choice between
  them in \<open>main.py\<close>), \<open>Gw_Servicer\<close> (\<open>servicer.py\<close>).

  ORCHESTRATOR (\<open>src/services/orchestrator/src/orchestrator\<close>).  \<open>Orc_Repo\<close> (\<open>agents_repo.py\<close>),
  \<open>Orc_Slug\<close> (\<open>_slugify\<close>), \<open>Orc_Client\<close> (\<open>model_client.py\<close>), \<open>Orc_Workbench\<close> (\<open>mcp_workbench.py\<close>),
  \<open>Orc_Chat\<close> (\<open>groupchat.py\<close>, \<open>run.py\<close>, \<open>servicer.py\<close>, \<open>auth.py\<close>). AutoGen is a parameter: given the
  group chat and the task it is any finite behaviour tree (\<open>team\<close>) of model calls, tool listings and
  tool calls whose later choices depend on the answers. \<open>Orc_Edge\<close> has the locale \<open>turn_invariant\<close>:
  what an idle turn satisfies and every step keeps, every turn satisfies; it is interpreted for the
  permitted calls, the pending approvals and the token counts.

  MCP_SVC (\<open>src/services/mcp_svc/src/mcp_svc\<close>).  \<open>Mcp_Handlers\<close> (\<open>handlers.py\<close>), \<open>Mcp_Server\<close>
  (\<open>server.py\<close>, \<open>tools.py\<close>, \<open>auth.py\<close>), \<open>Mcp_Edge\<close> (what a call may do to the outside world).
  httpx, sqlglot and the database are parameters; of sqlglot the properties use that renaming the
  table nodes of a statement renames these only (\<open>retarget_ok\<close>).

  COMPOSITION.  \<open>Orc_Gate\<close>: the runner of \<open>job_svc\<close> over the orchestrator's handler. \<open>Orc_Gateway\<close>: the
  model client over the gateway's handler. \<open>Orc_Mcp\<close>: a turn over the server of \<open>mcp_svc\<close>, down to
  SQL statements and HTTP requests. \<open>Aes_Jobs\<close>: AES over the handlers of \<open>job_svc\<close>. \<open>Platform\<close>: the
  step relation \<open>platform_step\<close> of tasks and jobs together, in which the awaits of any number of task
  handlers are interleaved with each other, with the catalog and with everything the table of jobs
  may do, and its invariant; \<open>Platform_Race\<close> has a run of it in which a refresh loses a retry.
  \<open>Platform_Isolation\<close>: the two services as a function of their events, and the noninterference of
  tenants by unwinding (locale \<open>unwinding\<close>, interpreted on this system). \<open>Platform_Delivery\<close>: a task from \<open>CreateTask\<close> over a poller's tick to
  \<open>GetTask\<close>. \<open>Platform_Approval\<close>: the same from a pause over \<open>ApproveTask\<close>. \<open>Grpc_Services\<close>: the
  generated stubs, servicers and handler tables of the four gRPC services with routing by path, and
  the clients' lazily opened channels; \<open>Grpc_Copies\<close>: the other copies of the generated modules, their
  static classes and version check. \<open>Schema\<close>: the tables of the four \<open>models.py\<close>, their creation and
  address (\<open>db.py\<close>), and the mirrors through which the orchestrator and \<open>mcp_svc\<close> read the rows of AES. \<open>Processes\<close>: the start-up and shutdown of the five processes
  (\<open>main.py\<close>, the lifespan in \<open>server.py\<close>) as sequences of steps that may raise, and the discipline of
  the resources they hold; \<open>Orc_Session\<close> the same for the session of a tool listing or call.

  SETTINGS.  \<open>Config\<close> is the five \<open>config.py\<close>: a parsed file and an environment to settings.

  WHAT THE PROPERTIES SAY.  Of the table: an invariant over every interleaving of callers, pollers,
  runners and reapers, the refinement of the lifecycle, claims, leases and budgets. Of a run: which
  calls it makes, what is checkpointed before what, how it ends, and that it delivers in a calm
  world. Of a pod: that it refines the table machine, for which timing its lease holds, and what it leaves
  behind when it is stopped. Of AES:
  integrity, isolation, that a task mirrors its job, and that under every interleaving each task is
  backed by a job of its own. Of the platform: that a submitted and an approved task are delivered, and that what a tenant
  observes does not depend on other tenants, up to when the pods pick up its jobs. Of
  the gateway: what screening
  accepts and redacts, that both providers send the same conversation, at most one upstream request.
  Of the orchestrator: well-formed group chats, grants and approvals, tokens. Of \<open>mcp_svc\<close>:
  confinement of effects, internal addresses. Some properties and lemmas state what
  the code does where that surprises: a lost pause report resumes a step as approved, a claimed batch
  can be run by two pods, approving a task requeues ended jobs, a \<open>GetTask\<close> in flight can overwrite
  a retry for good, two missed renewals lose a lease
  (\<open>two_misses_lose_lease\<close>), a run that lost its job to another pod still writes to its row
  (\<open>stale_run_still_writes\<close>), a claim whose answer is lost strands its jobs until the lease expires
  (\<open>lost_claim_strands_jobs\<close>), a server that fails to stop leaves its pool open
  (\<open>releases_on_failure\<close>), \<open>update_queued_bypasses_budgets\<close>,
  \<open>user_agent_ends_turn\<close>, \<open>allowed_grpc_refused\<close>, \<open>short_loopback_passes\<close>, \<open>mcp_environment_needs_file\<close>.

  BOUNDS.  Strings are lists of characters below 256, so Python strings with larger code points are
  not covered; \<open>wide_char\<close> stands for them in decoded JSON. Integers are unbounded, as in Python;
  the 32 and 64 bit fields of messages are checked where the code fills them. No definition runs on
  fuel: loops are structural or have a termination proof; the poll loop is a partial function, of which
  \<open>poller_stops\<close> says when it returns; \<open>session_run\<close> makes a given number of steps, and a
  property of \<open>Aes_Sessions\<close> says how many each handler needs.

  NOT MODELLED.  What the steps of grpc, uvicorn, the connection pools and the event loop do inside:
  libraries. The message descriptors of the generated modules (\<open>service_pb2.py\<close>), serialized for the
  protobuf runtime: messages are records, that they parse back is a hypothesis. \<open>asyncio.gather\<close>
  over stale tasks is a sequence in row order, with anything in between. Cancellation of tasks, and
  deadlines other than as a failed call. Isolation levels of Postgres below one atomic statement per
  operation. Logging. The selector prompt and AutoGen's own behaviour beyond the behaviour tree.
  DNS, and redirects and timeouts of HTTP. The recursion limit and the memory limits of Python.
\<close>

end
